(* ===== verification/Prelude.thy ===== *)
theory Prelude
  imports Main "HOL-Library.Word" "HOL-Library.Char_ord" "HOL-Library.List_Lexorder"
begin

text \<open>
  What the component theories share: the collections of rewrite rules, Rust's
  \<open>Result\<close> and its question-mark operator, ordered maps (\<open>BTreeMap\<close>), the byte
  strings that model Rust's \<open>String\<close>, and checked machine arithmetic.

  A Rust \<open>String\<close> is its UTF-8 byte sequence, one HOL character per byte, so that
  \<open>len()\<close> is \<open>length\<close> and the derived ordering is the lexicographic order on
  bytes that \<open>List_Lexorder\<close> and \<open>Char_ord\<close> provide.
\<close>

named_theorems result_simps \<open>unfolding of the result combinators\<close>
named_theorems map_simps \<open>lookups in updated ordered maps\<close>
named_theorems wf_intros \<open>preservation of well-formedness\<close>

section \<open>Results\<close>

type_synonym ('e, 'a) result = "'e + 'a"

abbreviation Err :: "'e \<Rightarrow> ('e, 'a) result" where
  "Err \<equiv> Inl"

abbreviation Ok :: "'a \<Rightarrow> ('e, 'a) result" where
  "Ok \<equiv> Inr"

text \<open>The question-mark operator: continue with the value or return the error.\<close>

definition and_then :: "('e, 'a) result \<Rightarrow> ('a \<Rightarrow> ('e, 'b) result) \<Rightarrow> ('e, 'b) result" where
  "and_then r f = (case r of Err e \<Rightarrow> Err e | Ok x \<Rightarrow> f x)"

definition map_err :: "('e \<Rightarrow> 'f) \<Rightarrow> ('e, 'a) result \<Rightarrow> ('f, 'a) result" where
  "map_err g r = (case r of Err e \<Rightarrow> Err (g e) | Ok x \<Rightarrow> Ok x)"

definition ok_or :: "'e \<Rightarrow> 'a option \<Rightarrow> ('e, 'a) result" where
  "ok_or e x = (case x of None \<Rightarrow> Err e | Some v \<Rightarrow> Ok v)"

definition is_ok :: "('e, 'a) result \<Rightarrow> bool" where
  "is_ok r = (case r of Err _ \<Rightarrow> False | Ok _ \<Rightarrow> True)"

text \<open>\<open>if cond { return Err(e) }\<close>\<close>

definition reject :: "bool \<Rightarrow> 'e \<Rightarrow> ('e, unit) result" where
  "reject c e = (if c then Err e else Ok ())"

lemma and_then_simps [simp, result_simps]:
  "and_then (Err e) f = Err e"
  "and_then (Ok x) f = f x"
  by (simp_all add: and_then_def)

lemma map_err_simps [simp, result_simps]:
  "map_err g (Err e) = Err (g e)"
  "map_err g (Ok x) = Ok x"
  by (simp_all add: map_err_def)

lemma ok_or_simps [simp, result_simps]:
  "ok_or e None = Err e"
  "ok_or e (Some x) = Ok x"
  by (simp_all add: ok_or_def)

lemma is_ok_simps [simp, result_simps]:
  "is_ok (Err e) = False"
  "is_ok (Ok x) = True"
  by (simp_all add: is_ok_def)

lemma reject_simps [simp, result_simps]:
  "reject True e = Err e"
  "reject False e = Ok ()"
  by (simp_all add: reject_def)

lemma and_then_eq_Ok: "and_then r f = Ok y \<longleftrightarrow> (\<exists>x. r = Ok x \<and> f x = Ok y)"
  by (cases r) auto

lemma map_err_eq_Ok [simp]: "map_err g r = Ok y \<longleftrightarrow> r = Ok y"
  by (cases r) auto

lemma and_then_eq_Err: "and_then r f = Err e \<longleftrightarrow> r = Err e \<or> (\<exists>x. r = Ok x \<and> f x = Err e)"
  by (cases r) auto

lemma map_err_eq_Err: "map_err g r = Err e \<longleftrightarrow> (\<exists>e'. r = Err e' \<and> e = g e')"
  by (cases r) auto

lemma ok_or_eq_Err [simp]: "ok_or e x = Err e' \<longleftrightarrow> x = None \<and> e' = e"
  by (cases x) auto

lemma reject_eq_Err [simp]: "reject c e = Err e' \<longleftrightarrow> c \<and> e' = e"
  by (auto simp: reject_def)

lemma ok_or_eq_Ok [simp]: "ok_or e x = Ok y \<longleftrightarrow> x = Some y"
  by (cases x) auto

lemma reject_eq_Ok [simp]: "reject c e = Ok u \<longleftrightarrow> \<not> c"
  by (simp add: reject_def)

lemma is_ok_and_then: "is_ok (and_then r f) \<longleftrightarrow> (\<exists>x. r = Ok x \<and> is_ok (f x))"
  by (cases r) auto

lemma is_ok_reject [simp]: "is_ok (reject c e) \<longleftrightarrow> \<not> c"
  by (simp add: reject_def)

lemma is_ok_map_err [simp]: "is_ok (map_err g r) = is_ok r"
  by (cases r) auto

lemma is_ok_iff: "is_ok r \<longleftrightarrow> (\<exists>x. r = Ok x)"
  by (cases r) auto

lemma and_then_unit: "and_then r (\<lambda>u::unit. f) = (if is_ok r then f else r)" for f :: "('e, unit) result"
  by (cases r) auto

text \<open>\<open>for x in xs { f(x)? }\<close>\<close>

fun each :: "('a \<Rightarrow> ('e, unit) result) \<Rightarrow> 'a list \<Rightarrow> ('e, unit) result" where
  "each f [] = Ok ()"
| "each f (x # xs) = and_then (f x) (\<lambda>_. each f xs)"

lemma each_ok_iff: "each f xs = Ok () \<longleftrightarrow> (\<forall>x \<in> set xs. f x = Ok ())"
  by (induction xs) (auto simp: and_then_eq_Ok)

text \<open>\<open>xs.iter().map(f).collect::<Result<Vec<_>, _>>()\<close>\<close>

fun collect :: "('a \<Rightarrow> ('e, 'b) result) \<Rightarrow> 'a list \<Rightarrow> ('e, 'b list) result" where
  "collect f [] = Ok []"
| "collect f (x # xs) = and_then (f x) (\<lambda>y. and_then (collect f xs) (\<lambda>ys. Ok (y # ys)))"

lemma collect_ok_iff: "collect f xs = Ok ys \<longleftrightarrow> list_all2 (\<lambda>x y. f x = Ok y) xs ys"
  by (induction xs arbitrary: ys) (auto simp: and_then_eq_Ok list_all2_Cons1)

section \<open>Ordered maps\<close>

text \<open>
  A \<open>BTreeMap\<close> is the list of its entries in ascending key order; iteration is the
  list itself, lookup is \<open>map_of\<close>.
\<close>

type_synonym ('k, 'v) btree = "('k \<times> 'v) list"

fun put :: "'k::linorder \<Rightarrow> 'v \<Rightarrow> ('k, 'v) btree \<Rightarrow> ('k, 'v) btree" where
  "put k v [] = [(k, v)]"
| "put k v (e # m) =
     (if k < fst e then (k, v) # e # m
      else if fst e < k then e # put k v m
      else (k, v) # m)"

definition del :: "'k \<Rightarrow> ('k, 'v) btree \<Rightarrow> ('k, 'v) btree" where
  "del k m = filter (\<lambda>e. fst e \<noteq> k) m"

definition ordered :: "('k::linorder, 'v) btree \<Rightarrow> bool" where
  "ordered m \<longleftrightarrow> sorted_wrt (<) (map fst m)"

definition keys :: "('k, 'v) btree \<Rightarrow> 'k set" where
  "keys m = fst ` set m"

lemma keys_simps [simp]:
  "keys [] = {}"
  "keys (e # m) = insert (fst e) (keys m)"
  "keys (m @ m') = keys m \<union> keys m'"
  "keys (rev m) = keys m"
  by (auto simp: keys_def)

lemma finite_keys [simp]: "finite (keys m)"
  by (simp add: keys_def)

lemma keys_mem: "(k, v) \<in> set m \<Longrightarrow> k \<in> keys m"
  by (force simp: keys_def)

lemma ordered_Nil [simp]: "ordered []"
  by (simp add: ordered_def)

lemma ordered_Cons [simp]: "ordered (e # m) \<longleftrightarrow> (\<forall>k \<in> keys m. fst e < k) \<and> ordered m"
  by (auto simp: ordered_def keys_def)

lemma ordered_distinct: "ordered m \<Longrightarrow> distinct (map fst m)"
  unfolding ordered_def by (simp add: strict_sorted_iff)

lemma map_of_put [simp, map_simps]: "map_of (put k v m) = (map_of m)(k \<mapsto> v)"
  by (induction m) (auto simp: fun_eq_iff)

lemma map_of_del [simp, map_simps]: "map_of (del k m) = (map_of m)(k := None)"
  by (induction m) (auto simp: del_def fun_eq_iff)

lemma keys_put [simp]: "keys (put k v m) = insert k (keys m)"
  by (induction m) auto

lemma keys_del [simp]: "keys (del k m) = keys m - {k}"
  by (auto simp: del_def keys_def)

lemma ordered_put [simp, wf_intros]: "ordered m \<Longrightarrow> ordered (put k v m)"
  by (induction m) auto

lemma ordered_del [simp, wf_intros]: "ordered m \<Longrightarrow> ordered (del k m)"
  by (simp add: ordered_def del_def sorted_wrt_map sorted_wrt_filter)

lemma map_of_eq_Some_iff_mem: "ordered m \<Longrightarrow> map_of m k = Some v \<longleftrightarrow> (k, v) \<in> set m"
  by (simp add: ordered_distinct)

lemma map_of_None_keys: "map_of m k = None \<longleftrightarrow> k \<notin> keys m"
  by (simp add: map_of_eq_None_iff keys_def)

lemma keysI: "map_of m k = Some v \<Longrightarrow> k \<in> keys m"
  by (meson keys_mem map_of_SomeD)

lemma keysE:
  assumes "k \<in> keys m"
  obtains v where "map_of m k = Some v"
  using assms by (metis map_of_None_keys not_Some_eq)

lemma mem_put: "(k', v') \<in> set (put k v m) \<Longrightarrow> (k' = k \<and> v' = v) \<or> (k', v') \<in> set m"
  by (induction m) (auto split: if_splits)

lemma mem_put_same [simp]: "(k, v) \<in> set (put k v m)"
  by (induction m) (auto split: if_splits)

lemma mem_del: "e \<in> set (del k m) \<longleftrightarrow> e \<in> set m \<and> fst e \<noteq> k"
  by (auto simp: del_def)

lemma del_absent [simp]: "k \<notin> keys m \<Longrightarrow> del k m = m"
  by (induction m) (auto simp: del_def)

lemma length_del_le: "length (del k m) \<le> length m"
  by (simp add: del_def)

lemma length_put: "ordered m \<Longrightarrow> length (put k v m) = (if k \<in> keys m then length m else Suc (length m))"
  by (induction m) auto

lemma ordered_mem_iff: "ordered m \<Longrightarrow> set m = {(k, v). map_of m k = Some v}"
  by (auto simp: map_of_eq_Some_iff_mem)

lemma ordered_ext:
  assumes "ordered m" and "ordered m'" and "\<And>k. map_of m k = map_of m' k"
  shows "m = m'"
proof (rule map_sorted_distinct_set_unique [where f = fst])
  show same: "set m = set m'"
    using assms by (simp add: ordered_mem_iff)
  show "inj_on fst (set m \<union> set m')"
    using ordered_distinct [OF assms(1)] same by (simp add: distinct_map)
  show "sorted (map fst m)" "distinct (map fst m)" "sorted (map fst m')" "distinct (map fst m')"
    using assms by (auto simp: ordered_def strict_sorted_iff)
qed

text \<open>The interface that the components rely on, and its provider.\<close>

locale finite_map =
  fixes fm_empty :: "'m"
    and fm_put :: "'k \<Rightarrow> 'v \<Rightarrow> 'm \<Rightarrow> 'm"
    and fm_del :: "'k \<Rightarrow> 'm \<Rightarrow> 'm"
    and fm_get :: "'m \<Rightarrow> 'k \<Rightarrow> 'v option"
    and fm_ok :: "'m \<Rightarrow> bool"
  assumes get_empty: "fm_get fm_empty k = None"
    and get_put: "fm_ok m \<Longrightarrow> fm_get (fm_put k v m) k' = (if k' = k then Some v else fm_get m k')"
    and get_del: "fm_ok m \<Longrightarrow> fm_get (fm_del k m) k' = (if k' = k then None else fm_get m k')"
    and ok_empty: "fm_ok fm_empty"
    and ok_put: "fm_ok m \<Longrightarrow> fm_ok (fm_put k v m)"
    and ok_del: "fm_ok m \<Longrightarrow> fm_ok (fm_del k m)"
    and get_ext: "fm_ok m \<Longrightarrow> fm_ok m' \<Longrightarrow> (\<And>k. fm_get m k = fm_get m' k) \<Longrightarrow> m = m'"
begin

lemma put_put: "fm_ok m \<Longrightarrow> fm_put k v (fm_put k w m) = fm_put k v m"
  by (rule get_ext) (auto simp: get_put ok_put)

lemma del_put: "fm_ok m \<Longrightarrow> fm_get m k = None \<Longrightarrow> fm_del k (fm_put k v m) = m"
  by (rule get_ext) (auto simp: get_put get_del ok_put ok_del)

lemma put_commute: "fm_ok m \<Longrightarrow> k \<noteq> k' \<Longrightarrow> fm_put k v (fm_put k' v' m) = fm_put k' v' (fm_put k v m)"
  by (rule get_ext) (auto simp: get_put ok_put)

lemma put_same: "fm_ok m \<Longrightarrow> fm_get m k = Some v \<Longrightarrow> fm_put k v m = m"
  by (rule get_ext) (auto simp: get_put ok_put)

end

interpretation bt: finite_map "[]" put del map_of ordered
  by unfold_locales (auto intro: ordered_ext)

text \<open>Building a map from a sequence of insertions; a later entry replaces an earlier one.\<close>

definition of_entries :: "('k::linorder \<times> 'v) list \<Rightarrow> ('k, 'v) btree" where
  "of_entries es = fold (\<lambda>(k, v). put k v) es []"

lemma ordered_fold_put: "ordered m \<Longrightarrow> ordered (fold (\<lambda>(k, v). put k v) es m)"
  by (induction es arbitrary: m) auto

lemma map_of_fold_put: "map_of (fold (\<lambda>(k, v). put k v) es m) = map_of m ++ map_of (rev es)"
  by (induction es arbitrary: m) auto

lemma ordered_of_entries [simp]: "ordered (of_entries es)"
  by (simp add: of_entries_def ordered_fold_put)

lemma map_of_of_entries: "map_of (of_entries es) = map_of (rev es)"
  by (simp add: of_entries_def map_of_fold_put)

lemma keys_of_entries [simp]: "keys (of_entries es) = keys es"
proof -
  have "keys (fold (\<lambda>(k, v). put k v) es m) = keys m \<union> keys es" for m :: "('a, 'b) btree"
    by (induction es arbitrary: m) auto
  then show ?thesis by (simp add: of_entries_def)
qed

end
