(* ===== verification/Rust_Text.thy ===== *)
theory Rust_Text
  imports Prelude
begin

text \<open>
  The parts of Rust's string and byte-slice library that the sources call, on byte
  strings: ASCII classes, \<open>starts_with\<close>, \<open>ends_with\<close>, \<open>strip_prefix\<close>,
  \<open>trim\<close> (Unicode white space in its UTF-8 encodings), decimal printing and
  parsing, big-endian integers, and UTF-8 validity as \<open>String::from_utf8\<close> checks it.
\<close>

section \<open>ASCII classes\<close>

abbreviation code :: "char \<Rightarrow> nat" where
  "code c \<equiv> of_char c"

definition is_ascii_lowercase :: "char \<Rightarrow> bool" where
  "is_ascii_lowercase c \<longleftrightarrow> 97 \<le> code c \<and> code c \<le> 122"

definition is_ascii_digit :: "char \<Rightarrow> bool" where
  "is_ascii_digit c \<longleftrightarrow> 48 \<le> code c \<and> code c \<le> 57"

definition is_ascii_alphabetic :: "char \<Rightarrow> bool" where
  "is_ascii_alphabetic c \<longleftrightarrow> (97 \<le> code c \<and> code c \<le> 122) \<or> (65 \<le> code c \<and> code c \<le> 90)"

text \<open>\<open>u8::is_ascii_whitespace\<close>: space, tab, line feed, form feed, carriage return.\<close>

definition is_ascii_whitespace :: "char \<Rightarrow> bool" where
  "is_ascii_whitespace c \<longleftrightarrow> code c \<in> {32, 9, 10, 12, 13}"

definition to_ascii_lowercase :: "char \<Rightarrow> char" where
  "to_ascii_lowercase c = (if 65 \<le> code c \<and> code c \<le> 90 then char_of (code c + 32) else c)"

section \<open>Prefixes and suffixes\<close>

fun strip_prefix :: "'a list \<Rightarrow> 'a list \<Rightarrow> 'a list option" where
  "strip_prefix [] s = Some s"
| "strip_prefix (p # ps) [] = None"
| "strip_prefix (p # ps) (c # s) = (if p = c then strip_prefix ps s else None)"

definition starts_with :: "'a list \<Rightarrow> 'a list \<Rightarrow> bool" where
  "starts_with p s \<longleftrightarrow> strip_prefix p s \<noteq> None"

definition ends_with :: "'a list \<Rightarrow> 'a list \<Rightarrow> bool" where
  "ends_with p s \<longleftrightarrow> starts_with (rev p) (rev s)"

lemma strip_prefix_iff: "strip_prefix p s = Some r \<longleftrightarrow> s = p @ r"
  by (induction p s rule: strip_prefix.induct) auto

lemma starts_with_iff: "starts_with p s \<longleftrightarrow> (\<exists>r. s = p @ r)"
  by (auto simp: starts_with_def strip_prefix_iff)

lemma ends_with_iff: "ends_with p s \<longleftrightarrow> (\<exists>r. s = r @ p)"
proof
  assume "ends_with p s"
  then obtain r where "rev s = rev p @ r"
    by (auto simp: ends_with_def starts_with_iff)
  then have "s = rev r @ p"
    by (metis rev_append rev_rev_ident)
  then show "\<exists>r. s = r @ p" ..
qed (auto simp: ends_with_def starts_with_iff)

section \<open>White space\<close>

text \<open>
  The UTF-8 encodings of the characters with the Unicode property White_Space:
  U+0009..U+000D, U+0020, U+0085, U+00A0, U+1680, U+2000..U+200A, U+2028, U+2029,
  U+202F, U+205F and U+3000.
\<close>

definition white_space :: "string list" where
  "white_space =
     [[CHR 0x09], [CHR 0x0A], [CHR 0x0B], [CHR 0x0C], [CHR 0x0D], [CHR 0x20],
      [CHR 0xC2, CHR 0x85], [CHR 0xC2, CHR 0xA0], [CHR 0xE1, CHR 0x9A, CHR 0x80],
      [CHR 0xE2, CHR 0x80, CHR 0x80], [CHR 0xE2, CHR 0x80, CHR 0x81],
      [CHR 0xE2, CHR 0x80, CHR 0x82], [CHR 0xE2, CHR 0x80, CHR 0x83],
      [CHR 0xE2, CHR 0x80, CHR 0x84], [CHR 0xE2, CHR 0x80, CHR 0x85],
      [CHR 0xE2, CHR 0x80, CHR 0x86], [CHR 0xE2, CHR 0x80, CHR 0x87],
      [CHR 0xE2, CHR 0x80, CHR 0x88], [CHR 0xE2, CHR 0x80, CHR 0x89],
      [CHR 0xE2, CHR 0x80, CHR 0x8A], [CHR 0xE2, CHR 0x80, CHR 0xA8],
      [CHR 0xE2, CHR 0x80, CHR 0xA9], [CHR 0xE2, CHR 0x80, CHR 0xAF],
      [CHR 0xE2, CHR 0x81, CHR 0x9F], [CHR 0xE3, CHR 0x80, CHR 0x80]]"

text \<open>The width of the first listed pattern that starts the string, 0 if there is none.\<close>

fun lead :: "string list \<Rightarrow> string \<Rightarrow> nat" where
  "lead [] s = 0"
| "lead (w # ws) s = (if starts_with w s then length w else lead ws s)"

function trim_lead :: "string list \<Rightarrow> string \<Rightarrow> string" where
  "trim_lead ws s = (if lead ws s = 0 \<or> s = [] then s else trim_lead ws (drop (lead ws s) s))"
  by pat_completeness auto
termination
  by (relation "measure (\<lambda>(ws, s). length s)") auto

declare trim_lead.simps [simp del]

definition trim_start :: "string \<Rightarrow> string" where
  "trim_start s = trim_lead white_space s"

definition trim_end :: "string \<Rightarrow> string" where
  "trim_end s = rev (trim_lead (map rev white_space) (rev s))"

definition trim :: "string \<Rightarrow> string" where
  "trim s = trim_end (trim_start s)"

lemma trim_lead_unfold: "lead ws s = 0 \<Longrightarrow> trim_lead ws s = s"
  by (simp add: trim_lead.simps)

lemma trim_lead_idem: "lead ws (trim_lead ws s) = 0 \<or> trim_lead ws s = []"
proof (induction ws s rule: trim_lead.induct)
  case (1 ws s)
  then show ?case by (cases "lead ws s = 0 \<or> s = []") (auto simp: trim_lead.simps [of ws s])
qed

lemma trim_lead_suffix: "\<exists>p. s = p @ trim_lead ws s"
proof (induction ws s rule: trim_lead.induct)
  case (1 ws s)
  show ?case
  proof (cases "lead ws s = 0 \<or> s = []")
    case False
    then obtain p where "drop (lead ws s) s = p @ trim_lead ws (drop (lead ws s) s)"
      using 1 by blast
    then have "s = (take (lead ws s) s @ p) @ trim_lead ws (drop (lead ws s) s)"
      by (metis append.assoc append_take_drop_id)
    with False show ?thesis by (metis trim_lead.simps)
  qed (simp add: trim_lead.simps)
qed

lemma length_trim_le: "length (trim s) \<le> length s"
proof -
  have "length (trim_lead ws t) \<le> length t" for ws t
    using trim_lead_suffix [of t ws] by (metis le_add2 length_append)
  then show ?thesis
    unfolding trim_def trim_end_def trim_start_def
    by (metis length_rev order_trans)
qed

text \<open>\<open>value.is_empty() || value != value.trim()\<close> as the validators write it.\<close>

definition padded_or_empty :: "string \<Rightarrow> bool" where
  "padded_or_empty s \<longleftrightarrow> s = [] \<or> s \<noteq> trim s"

section \<open>Decimal numbers\<close>

fun digits :: "nat \<Rightarrow> string" where
  "digits n = (if n < 10 then [char_of (48 + n)] else digits (n div 10) @ [char_of (48 + n mod 10)])"

declare digits.simps [simp del]

definition digit_value :: "char \<Rightarrow> nat" where
  "digit_value c = code c - 48"

definition from_digits :: "string \<Rightarrow> nat" where
  "from_digits s = foldl (\<lambda>acc c. 10 * acc + digit_value c) 0 s"

lemma from_digits_snoc: "from_digits (s @ [c]) = 10 * from_digits s + digit_value c"
  by (simp add: from_digits_def)

lemma digit_char [simp]:
  assumes "d < 10"
  shows "code (char_of (48 + d)) = 48 + d" and "is_ascii_digit (char_of (48 + d))"
  using assms by (simp_all add: is_ascii_digit_def)

lemma from_digits_digits: "from_digits (digits n) = n"
proof (induction n rule: digits.induct)
  case (1 n)
  show ?case
  proof (cases "n < 10")
    case True
    then show ?thesis
      by (simp add: digits.simps [of n] from_digits_def digit_value_def)
  next
    case False
    with 1 show ?thesis
      by (simp add: digits.simps [of n] from_digits_snoc digit_value_def)
  qed
qed

lemma digits_all: "list_all is_ascii_digit (digits n)"
proof (induction n rule: digits.induct)
  case (1 n)
  then show ?case by (cases "n < 10") (simp_all add: digits.simps [of n])
qed

lemma digits_inj: "digits m = digits n \<longleftrightarrow> m = n"
  by (metis from_digits_digits)

section \<open>Big-endian integers\<close>

fun be_bytes :: "nat \<Rightarrow> nat \<Rightarrow> string" where
  "be_bytes 0 n = []"
| "be_bytes (Suc w) n = be_bytes w (n div 256) @ [char_of (n mod 256)]"

definition from_be :: "string \<Rightarrow> nat" where
  "from_be s = foldl (\<lambda>acc c. 256 * acc + code c) 0 s"

lemma length_be_bytes [simp]: "length (be_bytes w n) = w"
  by (induction w arbitrary: n) auto

lemma from_be_snoc: "from_be (s @ [c]) = 256 * from_be s + code c"
  by (simp add: from_be_def)

lemma from_be_be_bytes: "from_be (be_bytes w n) = n mod 256 ^ w"
proof (induction w arbitrary: n)
  case (Suc w)
  then show ?case
    by (simp add: from_be_snoc mod_mult2_eq)
qed (simp add: from_be_def)

lemma from_be_bound: "from_be s < 256 ^ length s"
proof (induction s rule: rev_induct)
  case (snoc c s)
  have "256 * from_be s + code c < 256 * Suc (from_be s)" by simp
  also have "\<dots> \<le> 256 * 256 ^ length s"
    using snoc by (intro mult_le_mono2) simp
  finally show ?case by (simp add: from_be_snoc)
qed (simp add: from_be_def)

section \<open>UTF-8\<close>

definition cont :: "char \<Rightarrow> bool" where
  "cont c \<longleftrightarrow> 0x80 \<le> code c \<and> code c \<le> 0xBF"

text \<open>
  Well-formed byte sequences (Unicode, table 3-7), as \<open>String::from_utf8\<close> accepts
  them: no overlong forms, no surrogates, nothing above U+10FFFF.
\<close>

fun utf8_step :: "string \<Rightarrow> string option" where
  "utf8_step [] = None"
| "utf8_step (a # s) =
     (if code a < 0x80 then Some s
      else case s of
        [] \<Rightarrow> None
      | b # s1 \<Rightarrow>
          if 0xC2 \<le> code a \<and> code a \<le> 0xDF then (if cont b then Some s1 else None)
          else case s1 of
            [] \<Rightarrow> None
          | c # s2 \<Rightarrow>
              if 0xE0 \<le> code a \<and> code a \<le> 0xEF then
                (if cont b \<and> cont c \<and> (code a = 0xE0 \<longrightarrow> 0xA0 \<le> code b)
                    \<and> (code a = 0xED \<longrightarrow> code b \<le> 0x9F)
                 then Some s2 else None)
              else case s2 of
                [] \<Rightarrow> None
              | d # s3 \<Rightarrow>
                  if 0xF0 \<le> code a \<and> code a \<le> 0xF4 \<and> cont b \<and> cont c \<and> cont d
                    \<and> (code a = 0xF0 \<longrightarrow> 0x90 \<le> code b) \<and> (code a = 0xF4 \<longrightarrow> code b \<le> 0x8F)
                  then Some s3 else None)"

lemma utf8_step_shorter: "utf8_step s = Some r \<Longrightarrow> length r < length s"
  by (cases s) (auto split: if_splits list.splits)

function utf8_valid :: "string \<Rightarrow> bool" where
  "utf8_valid s =
     (s = [] \<or> (case utf8_step s of None \<Rightarrow> False | Some r \<Rightarrow> utf8_valid r))"
  by pat_completeness auto
termination
  by (relation "measure length") (auto dest: utf8_step_shorter)

declare utf8_valid.simps [simp del]

lemma utf8_valid_Nil [simp]: "utf8_valid []"
  by (simp add: utf8_valid.simps)

lemma utf8_valid_ascii: "list_all (\<lambda>c. code c < 128) s \<Longrightarrow> utf8_valid s"
  by (induction s) (auto simp: utf8_valid.simps [of "_ # _"])

end
