(* ===== verification/Float64.thy ===== *)
theory Float64
  imports Rust_Text
begin

unbundle bit_operations_syntax

text \<open>
  Rust's \<open>f64\<close> as its IEEE 754 binary64 bit pattern. Every finite double is an
  integer multiple of \<open>2 ^ -1074\<close>, so the exact value of a finite pattern is the
  integer \<^emph>\<open>scaled\<close> (the value times \<open>2 ^ 1074\<close>), and the comparisons of the
  program are comparisons of integers.
\<close>

datatype f64 = F64 (bits: "64 word")

definition f64_negative :: "f64 \<Rightarrow> bool" where
  "f64_negative x \<longleftrightarrow> bit (bits x) 63"

definition f64_exponent :: "f64 \<Rightarrow> nat" where
  "f64_exponent x = unat (drop_bit 52 (bits x) AND 0x7FF)"

definition f64_mantissa :: "f64 \<Rightarrow> nat" where
  "f64_mantissa x = unat (bits x AND 0xFFFFFFFFFFFFF)"

definition is_finite :: "f64 \<Rightarrow> bool" where
  "is_finite x \<longleftrightarrow> f64_exponent x \<noteq> 0x7FF"

definition is_nan :: "f64 \<Rightarrow> bool" where
  "is_nan x \<longleftrightarrow> f64_exponent x = 0x7FF \<and> f64_mantissa x \<noteq> 0"

definition magnitude :: "f64 \<Rightarrow> nat" where
  "magnitude x =
     (if f64_exponent x = 0x7FF then 2 ^ 2100
      else if f64_exponent x = 0 then f64_mantissa x
      else (2 ^ 52 + f64_mantissa x) * 2 ^ (f64_exponent x - 1))"

definition scaled :: "f64 \<Rightarrow> int" where
  "scaled x = (if f64_negative x then - int (magnitude x) else int (magnitude x))"

text \<open>The comparisons of \<open>PartialOrd\<close> and \<open>PartialEq\<close>: a NaN compares to nothing, the zeros are equal.\<close>

definition f64_le :: "f64 \<Rightarrow> f64 \<Rightarrow> bool" where
  "f64_le x y \<longleftrightarrow> \<not> is_nan x \<and> \<not> is_nan y \<and> scaled x \<le> scaled y"

definition f64_eq :: "f64 \<Rightarrow> f64 \<Rightarrow> bool" where
  "f64_eq x y \<longleftrightarrow> \<not> is_nan x \<and> \<not> is_nan y \<and> scaled x = scaled y"

definition in_range :: "f64 \<Rightarrow> f64 \<Rightarrow> f64 \<Rightarrow> bool" where
  "in_range lo hi x \<longleftrightarrow> f64_le lo x \<and> f64_le x hi"

definition f64_zero :: f64 where "f64_zero = F64 0"

definition f64_one :: f64 where "f64_one = F64 0x3FF0000000000000"

definition f64_hundred :: f64 where "f64_hundred = F64 0x4059000000000000"

definition f64_infinity :: f64 where "f64_infinity = F64 0x7FF0000000000000"

lemmas f64_fields = f64_negative_def f64_exponent_def f64_mantissa_def

lemma f64_zero_scaled [simp]: "scaled f64_zero = 0" and f64_zero_finite [simp]: "is_finite f64_zero"
  by (simp_all add: f64_zero_def scaled_def magnitude_def f64_fields is_finite_def)

lemma f64_one_scaled: "scaled f64_one = 2 ^ 1074"
proof -
  have e: "f64_exponent f64_one = 1023" and m: "f64_mantissa f64_one = 0"
    and n: "\<not> f64_negative f64_one"
    by (simp_all add: f64_one_def f64_fields bit_numeral_word_iff)
  have "(2::nat) ^ 52 * 2 ^ 1022 = 2 ^ 1074"
    by (simp flip: power_add)
  with e m n show ?thesis
    by (simp add: scaled_def magnitude_def)
qed

lemma f64_hundred_scaled: "scaled f64_hundred = 100 * 2 ^ 1074"
  and f64_hundred_finite [simp]: "is_finite f64_hundred"
proof -
  have e: "f64_exponent f64_hundred = 1029" and m: "f64_mantissa f64_hundred = 0x9000000000000"
    and n: "\<not> f64_negative f64_hundred"
    by (simp_all add: f64_hundred_def f64_fields bit_numeral_word_iff)
  show "is_finite f64_hundred" by (simp add: is_finite_def e)
  have "(2 ^ 52 + 0x9000000000000) * 2 ^ 1028 = (100::nat) * (2 ^ 46 * 2 ^ 1028)"
    by simp
  also have "\<dots> = 100 * 2 ^ 1074" by (simp flip: power_add)
  finally show "scaled f64_hundred = 100 * 2 ^ 1074"
    using e m n by (simp add: scaled_def magnitude_def)
qed

lemma finite_not_nan [simp]: "is_finite x \<Longrightarrow> \<not> is_nan x"
  by (simp add: is_finite_def is_nan_def)

lemma f64_eq_refl: "is_finite x \<Longrightarrow> f64_eq x x"
  by (simp add: f64_eq_def)

lemma f64_eq_sym: "f64_eq x y \<Longrightarrow> f64_eq y x"
  by (simp add: f64_eq_def)

lemma f64_eq_trans: "f64_eq x y \<Longrightarrow> f64_eq y z \<Longrightarrow> f64_eq x z"
  by (simp add: f64_eq_def)

lemma in_range_eq: "f64_eq x y \<Longrightarrow> in_range lo hi x = in_range lo hi y"
  by (auto simp: in_range_def f64_le_def f64_eq_def)

section \<open>Rounding\<close>

text \<open>The double nearest to a rational number, ties to even.\<close>

fun bit_length :: "nat \<Rightarrow> nat" where
  "bit_length n = (if n = 0 then 0 else Suc (bit_length (n div 2)))"

declare bit_length.simps [simp del]

definition scaled_pair :: "nat \<Rightarrow> nat \<Rightarrow> int \<Rightarrow> nat \<times> nat" where
  "scaled_pair n d e = (n * 2 ^ nat (- e), d * 2 ^ nat e)"

definition f64_of_fields :: "bool \<Rightarrow> nat \<Rightarrow> nat \<Rightarrow> f64" where
  "f64_of_fields negative e mant = F64 (of_nat ((if negative then 2 ^ 63 else 0) + e * 2 ^ 52 + mant))"

definition nearest_f64 :: "bool \<Rightarrow> nat \<Rightarrow> nat \<Rightarrow> f64" where
  "nearest_f64 negative n d =
     (if n = 0 then f64_of_fields negative 0 0
      else
        let e0 = int (bit_length n) - int (bit_length d) - 53;
            e1 = (case scaled_pair n d e0 of (a, b) \<Rightarrow> if a div b \<ge> 2 ^ 53 then e0 + 1 else e0);
            e = max e1 (-1074)
        in case scaled_pair n d e of (a, b) \<Rightarrow>
           let q = a div b; r = a mod b;
               q1 = (if 2 * r > b \<or> (2 * r = b \<and> odd q) then q + 1 else q);
               (q2, e2) = (if q1 = 2 ^ 53 then (2 ^ 52, e + 1) else (q1, e))
           in if e2 > 971 then f64_of_fields negative 2047 0
              else if q2 < 2 ^ 52 then f64_of_fields negative 0 q2
              else f64_of_fields negative (nat (e2 + 1075)) (q2 - 2 ^ 52))"

end
