(* ===== verification/Core_Model.thy ===== *)
theory Core_Model
  imports Float64
begin

text \<open>
  The protocol-neutral device model of \<open>crates/oikade-core/src/model.rs\<close>: identifiers,
  typed values, capabilities and devices with their validators, and the registry of
  built-in capability types. A \<open>ModelError\<close> carries a formatted message; the model has
  one constructor per place that raises it, with the data the message shows.
\<close>

section \<open>Identifiers and values\<close>

type_synonym device_id = string
type_synonym capability_id = string
type_synonym capability_type = string

definition MAX_IDENTIFIER_LENGTH :: nat where "MAX_IDENTIFIER_LENGTH = 128"

definition CAPABILITY_SWITCH_ON :: string where "CAPABILITY_SWITCH_ON = ''oikade.switch.on''"
definition CAPABILITY_LIGHT_ON :: string where "CAPABILITY_LIGHT_ON = ''oikade.light.on''"
definition CAPABILITY_LIGHT_LEVEL :: string where "CAPABILITY_LIGHT_LEVEL = ''oikade.light.level''"
definition CAPABILITY_OUTLET_ON :: string where "CAPABILITY_OUTLET_ON = ''oikade.outlet.on''"
definition CAPABILITY_TEMPERATURE :: string where "CAPABILITY_TEMPERATURE = ''oikade.sensor.temperature''"
definition CAPABILITY_RELATIVE_HUMIDITY :: string where
  "CAPABILITY_RELATIVE_HUMIDITY = ''oikade.sensor.relative-humidity''"
definition CAPABILITY_CONTACT_OPEN :: string where
  "CAPABILITY_CONTACT_OPEN = ''oikade.sensor.contact-open''"
definition CAPABILITY_OCCUPANCY_DETECTED :: string where
  "CAPABILITY_OCCUPANCY_DETECTED = ''oikade.sensor.occupancy-detected''"

lemmas capability_names =
  CAPABILITY_SWITCH_ON_def CAPABILITY_LIGHT_ON_def CAPABILITY_LIGHT_LEVEL_def
  CAPABILITY_OUTLET_ON_def CAPABILITY_TEMPERATURE_def CAPABILITY_RELATIVE_HUMIDITY_def
  CAPABILITY_CONTACT_OPEN_def CAPABILITY_OCCUPANCY_DETECTED_def

definition LIGHT_LEVEL_MINIMUM :: f64 where "LIGHT_LEVEL_MINIMUM = f64_zero"
definition LIGHT_LEVEL_MAXIMUM :: f64 where "LIGHT_LEVEL_MAXIMUM = f64_hundred"

datatype value_kind = KBool | KInteger | KNumber | KString

fun kind_str :: "value_kind \<Rightarrow> string" where
  "kind_str KBool = ''bool''"
| "kind_str KInteger = ''integer''"
| "kind_str KNumber = ''number''"
| "kind_str KString = ''string''"

datatype scalar = VBool bool | VInteger "64 word" | VNumber f64 | VString string

fun kind_of :: "scalar \<Rightarrow> value_kind" where
  "kind_of (VBool _) = KBool"
| "kind_of (VInteger _) = KInteger"
| "kind_of (VNumber _) = KNumber"
| "kind_of (VString _) = KString"

text \<open>The derived \<open>PartialEq\<close>: numbers compare as \<open>f64\<close>, so the two zeros are equal.\<close>

fun value_eq :: "scalar \<Rightarrow> scalar \<Rightarrow> bool" where
  "value_eq (VBool a) (VBool b) = (a = b)"
| "value_eq (VInteger a) (VInteger b) = (a = b)"
| "value_eq (VNumber a) (VNumber b) = f64_eq a b"
| "value_eq (VString a) (VString b) = (a = b)"
| "value_eq _ _ = False"

datatype model_error =
    NumberNotFinite
  | DeviceNameRequired device_id
  | DeviceWithoutCapabilities device_id
  | DuplicateCapabilityId device_id capability_id
  | CapabilityNameRequired capability_id
  | CapabilityKindMismatch capability_id value_kind value_kind capability_type
  | CapabilityWithoutPermission capability_id
  | InitialValueKind capability_id value_kind value_kind
  | BuiltinKindRequired capability_type value_kind value_kind
  | PercentageRequired capability_type f64
  | IdentifierEmpty
  | IdentifierTooLong
  | IdentifierCharacters

fun value_validate :: "scalar \<Rightarrow> (model_error, unit) result" where
  "value_validate (VNumber n) = reject (\<not> is_finite n) NumberNotFinite"
| "value_validate _ = Ok ()"

definition valid_edge :: "char \<Rightarrow> bool" where
  "valid_edge b \<longleftrightarrow> is_ascii_lowercase b \<or> is_ascii_digit b"

definition valid_inner :: "char \<Rightarrow> bool" where
  "valid_inner b \<longleftrightarrow> valid_edge b \<or> b \<in> {CHR ''.'', CHR ''_'', CHR ''-''}"

definition validate_identifier :: "string \<Rightarrow> (model_error, unit) result" where
  "validate_identifier s =
     (if s = [] then Err IdentifierEmpty
      else if length s > MAX_IDENTIFIER_LENGTH then Err IdentifierTooLong
      else if \<not> valid_edge (hd s) \<or> \<not> valid_edge (last s) \<or> \<not> list_all valid_inner s
      then Err IdentifierCharacters
      else Ok ())"

text \<open>The three newtype constructors \<open>DeviceId::new\<close>, \<open>CapabilityId::new\<close>, \<open>CapabilityType::new\<close>.\<close>

definition device_id_new :: "string \<Rightarrow> (model_error, device_id) result" where
  "device_id_new s = and_then (validate_identifier s) (\<lambda>_. Ok s)"

definition capability_id_new :: "string \<Rightarrow> (model_error, capability_id) result" where
  "capability_id_new s = and_then (validate_identifier s) (\<lambda>_. Ok s)"

definition capability_type_new :: "string \<Rightarrow> (model_error, capability_type) result" where
  "capability_type_new s = and_then (validate_identifier s) (\<lambda>_. Ok s)"

section \<open>Capabilities and devices\<close>

record permissions =
  perm_read :: bool
  perm_write :: bool
  perm_observe :: bool

definition permissions_any :: "permissions \<Rightarrow> bool" where
  "permissions_any p \<longleftrightarrow> perm_read p \<or> perm_write p \<or> perm_observe p"

record capability =
  cap_id :: capability_id
  cap_type :: capability_type
  cap_name :: string
  cap_kind :: value_kind
  cap_permissions :: permissions
  cap_initial :: scalar

record device =
  dev_id :: device_id
  dev_name :: string
  dev_manufacturer :: string
  dev_model :: string
  dev_capabilities :: "capability list"

datatype capability_role = Actuator | Sensor

record builtin_capability =
  builtin_type :: capability_type
  builtin_kind :: value_kind
  builtin_role :: capability_role

definition builtin_capabilities :: "builtin_capability list" where
  "builtin_capabilities =
     map (\<lambda>(t, k, r). \<lparr>builtin_type = t, builtin_kind = k, builtin_role = r\<rparr>)
       [(CAPABILITY_SWITCH_ON, KBool, Actuator),
        (CAPABILITY_LIGHT_ON, KBool, Actuator),
        (CAPABILITY_LIGHT_LEVEL, KNumber, Actuator),
        (CAPABILITY_OUTLET_ON, KBool, Actuator),
        (CAPABILITY_TEMPERATURE, KNumber, Sensor),
        (CAPABILITY_RELATIVE_HUMIDITY, KNumber, Sensor),
        (CAPABILITY_CONTACT_OPEN, KBool, Sensor),
        (CAPABILITY_OCCUPANCY_DETECTED, KBool, Sensor)]"

definition lookup_builtin_capability :: "capability_type \<Rightarrow> builtin_capability option" where
  "lookup_builtin_capability t = find (\<lambda>b. builtin_type b = t) builtin_capabilities"

definition builtin_validate_value :: "builtin_capability \<Rightarrow> scalar \<Rightarrow> (model_error, unit) result" where
  "builtin_validate_value b v =
     and_then (value_validate v) (\<lambda>_.
       if kind_of v \<noteq> builtin_kind b
       then Err (BuiltinKindRequired (builtin_type b) (builtin_kind b) (kind_of v))
       else case v of
         VNumber level \<Rightarrow>
           reject (builtin_type b = CAPABILITY_LIGHT_LEVEL
               \<and> \<not> in_range LIGHT_LEVEL_MINIMUM LIGHT_LEVEL_MAXIMUM level)
             (PercentageRequired (builtin_type b) level)
       | _ \<Rightarrow> Ok ())"

definition capability_validate :: "capability \<Rightarrow> (model_error, unit) result" where
  "capability_validate c =
     (if trim (cap_name c) = [] then Err (CapabilityNameRequired (cap_id c))
      else and_then
        (case lookup_builtin_capability (cap_type c) of
           Some b \<Rightarrow> reject (cap_kind c \<noteq> builtin_kind b)
             (CapabilityKindMismatch (cap_id c) (cap_kind c) (builtin_kind b) (cap_type c))
         | None \<Rightarrow> Ok ()) (\<lambda>_.
      if \<not> permissions_any (cap_permissions c) then Err (CapabilityWithoutPermission (cap_id c))
      else and_then (value_validate (cap_initial c)) (\<lambda>_.
      if kind_of (cap_initial c) \<noteq> cap_kind c
      then Err (InitialValueKind (cap_id c) (kind_of (cap_initial c)) (cap_kind c))
      else case lookup_builtin_capability (cap_type c) of
          Some b \<Rightarrow> builtin_validate_value b (cap_initial c)
        | None \<Rightarrow> Ok ())))"

text \<open>The loop of \<open>Device::validate\<close>, with the set of capability IDs seen so far.\<close>

fun validate_capabilities :: "device_id \<Rightarrow> capability_id set \<Rightarrow> capability list \<Rightarrow> (model_error, unit) result" where
  "validate_capabilities d seen [] = Ok ()"
| "validate_capabilities d seen (c # cs) =
     and_then (capability_validate c) (\<lambda>_.
       if cap_id c \<in> seen then Err (DuplicateCapabilityId d (cap_id c))
       else validate_capabilities d (insert (cap_id c) seen) cs)"

definition device_validate :: "device \<Rightarrow> (model_error, unit) result" where
  "device_validate d =
     (if trim (dev_name d) = [] then Err (DeviceNameRequired (dev_id d))
      else if dev_capabilities d = [] then Err (DeviceWithoutCapabilities (dev_id d))
      else validate_capabilities (dev_id d) {} (dev_capabilities d))"

section \<open>What the validators accept\<close>

definition valid_identifier :: "string \<Rightarrow> bool" where
  "valid_identifier s \<longleftrightarrow> s \<noteq> [] \<and> length s \<le> 128 \<and> valid_edge (hd s) \<and> valid_edge (last s)
     \<and> (\<forall>b \<in> set s. valid_inner b)"

lemma validate_identifier_ok: "validate_identifier s = Ok () \<longleftrightarrow> valid_identifier s"
  by (auto simp: validate_identifier_def valid_identifier_def MAX_IDENTIFIER_LENGTH_def list_all_iff)

lemma id_new_ok [simp]:
  "device_id_new s = Ok t \<longleftrightarrow> valid_identifier s \<and> t = s"
  "capability_id_new s = Ok t \<longleftrightarrow> valid_identifier s \<and> t = s"
  "capability_type_new s = Ok t \<longleftrightarrow> valid_identifier s \<and> t = s"
  by (auto simp: device_id_new_def capability_id_new_def capability_type_new_def and_then_eq_Ok
      simp flip: validate_identifier_ok)

lemma valid_inner_ascii: "valid_inner c \<Longrightarrow> code c < 128"
  by (auto simp: valid_inner_def valid_edge_def is_ascii_lowercase_def is_ascii_digit_def)

lemma identifier_no_slash: "valid_identifier s \<Longrightarrow> CHR ''/'' \<notin> set s"
  by (auto simp: valid_identifier_def valid_inner_def valid_edge_def is_ascii_lowercase_def is_ascii_digit_def)

text \<open>The values that a capability type admits.\<close>

definition admits :: "capability \<Rightarrow> scalar \<Rightarrow> bool" where
  "admits c v \<longleftrightarrow> kind_of v = cap_kind c \<and>
     (case v of VNumber n \<Rightarrow>
        is_finite n \<and> (cap_type c = CAPABILITY_LIGHT_LEVEL \<longrightarrow> in_range f64_zero f64_hundred n)
      | _ \<Rightarrow> True)"

lemma find_by_key:
  assumes "distinct (map f xs)"
  shows "find (\<lambda>x. f x = k) xs = Some x \<longleftrightarrow> x \<in> set xs \<and> f x = k"
  using assms by (induction xs) auto

lemma lookup_builtin_type: "lookup_builtin_capability t = Some b \<Longrightarrow> builtin_type b = t"
  by (auto simp: lookup_builtin_capability_def find_Some_iff)

lemma lookup_light_level:
  "lookup_builtin_capability CAPABILITY_LIGHT_LEVEL =
     Some \<lparr>builtin_type = CAPABILITY_LIGHT_LEVEL, builtin_kind = KNumber, builtin_role = Actuator\<rparr>"
  by (simp add: lookup_builtin_capability_def builtin_capabilities_def capability_names)

lemma builtin_validate_value_ok:
  "builtin_validate_value b v = Ok () \<longleftrightarrow> kind_of v = builtin_kind b \<and>
     (case v of VNumber n \<Rightarrow>
        is_finite n \<and> (builtin_type b = CAPABILITY_LIGHT_LEVEL \<longrightarrow> in_range f64_zero f64_hundred n)
      | _ \<Rightarrow> True)"
  by (cases v) (auto simp: builtin_validate_value_def and_then_eq_Ok LIGHT_LEVEL_MINIMUM_def LIGHT_LEVEL_MAXIMUM_def)

definition kind_consistent :: "capability \<Rightarrow> bool" where
  "kind_consistent c \<longleftrightarrow>
     (\<forall>b. lookup_builtin_capability (cap_type c) = Some b \<longrightarrow> cap_kind c = builtin_kind b)"

lemma builtin_validate_admits:
  assumes "lookup_builtin_capability (cap_type c) = Some b" and "kind_consistent c"
  shows "builtin_validate_value b v = Ok () \<longleftrightarrow> admits c v"
  using assms by (auto simp: builtin_validate_value_ok admits_def kind_consistent_def
      dest: lookup_builtin_type split: scalar.splits)

lemma plain_validate_admits:
  assumes "lookup_builtin_capability (cap_type c) = None"
  shows "value_validate v = Ok () \<and> kind_of v = cap_kind c \<longleftrightarrow> admits c v"
  using assms lookup_light_level by (cases v) (auto simp: admits_def)

definition capability_ok :: "capability \<Rightarrow> bool" where
  "capability_ok c \<longleftrightarrow> trim (cap_name c) \<noteq> [] \<and> permissions_any (cap_permissions c)
     \<and> kind_consistent c \<and> admits c (cap_initial c)"

lemma capability_validate_ok: "capability_validate c = Ok () \<longleftrightarrow> capability_ok c"
proof (cases "lookup_builtin_capability (cap_type c)")
  case None
  then show ?thesis
    using plain_validate_admits [OF None, of "cap_initial c"]
    by (auto simp: capability_validate_def capability_ok_def kind_consistent_def and_then_eq_Ok)
next
  case (Some b)
  have "capability_validate c = Ok () \<longleftrightarrow>
      trim (cap_name c) \<noteq> [] \<and> permissions_any (cap_permissions c) \<and> kind_consistent c
      \<and> value_validate (cap_initial c) = Ok () \<and> kind_of (cap_initial c) = cap_kind c
      \<and> builtin_validate_value b (cap_initial c) = Ok ()"
    using Some by (auto simp: capability_validate_def kind_consistent_def and_then_eq_Ok)
  also have "\<dots> \<longleftrightarrow> capability_ok c"
    using builtin_validate_admits [OF Some, of "cap_initial c"]
    by (cases "cap_initial c") (auto simp: capability_ok_def admits_def)
  finally show ?thesis .
qed

definition device_ok :: "device \<Rightarrow> bool" where
  "device_ok d \<longleftrightarrow> trim (dev_name d) \<noteq> [] \<and> dev_capabilities d \<noteq> []
     \<and> (\<forall>c \<in> set (dev_capabilities d). capability_ok c)
     \<and> distinct (map cap_id (dev_capabilities d))"

lemma validate_capabilities_ok:
  "validate_capabilities d seen cs = Ok () \<longleftrightarrow>
     (\<forall>c \<in> set cs. capability_ok c) \<and> distinct (map cap_id cs) \<and> cap_id ` set cs \<inter> seen = {}"
  by (induction d seen cs rule: validate_capabilities.induct)
     (auto simp: and_then_eq_Ok capability_validate_ok)

lemma device_validate_ok: "device_validate d = Ok () \<longleftrightarrow> device_ok d"
  by (auto simp: device_validate_def device_ok_def validate_capabilities_ok)

lemma value_eq_kind: "value_eq v w \<Longrightarrow> kind_of v = kind_of w"
  by (cases "(v, w)" rule: value_eq.cases) auto

lemma value_eq_refl: "value_validate v = Ok () \<Longrightarrow> value_eq v v"
  by (cases v) (auto simp: f64_eq_refl)

lemma admits_validate: "admits c v \<Longrightarrow> value_validate v = Ok ()"
  by (cases v) (auto simp: admits_def)

section \<open>Properties\<close>

text \<open>The registry is total on its eight names, which are pairwise different, and each
  built-in entry that a lookup returns is the one filed under the requested type.\<close>

lemma builtin_registry_stable:
  "length builtin_capabilities = 8 \<and> distinct (map builtin_type builtin_capabilities)
   \<and> (\<forall>t. lookup_builtin_capability t = None \<longleftrightarrow> t \<notin> builtin_type ` set builtin_capabilities)
   \<and> (\<forall>t b. lookup_builtin_capability t = Some b \<longleftrightarrow> b \<in> set builtin_capabilities \<and> builtin_type b = t)"
proof (intro conjI allI)
  show distinct_types: "distinct (map builtin_type builtin_capabilities)"
    by (simp add: builtin_capabilities_def capability_names)
  show "length builtin_capabilities = 8" by (simp add: builtin_capabilities_def)
  show "lookup_builtin_capability t = None \<longleftrightarrow> t \<notin> builtin_type ` set builtin_capabilities" for t
    by (auto simp: lookup_builtin_capability_def find_None_iff)
  show "lookup_builtin_capability t = Some b \<longleftrightarrow> b \<in> set builtin_capabilities \<and> builtin_type b = t" for t b
    using find_by_key [OF distinct_types] by (simp add: lookup_builtin_capability_def)
qed

end
