(* ===== verification/Core_Runtime.thy ===== *)
theory Core_Runtime
  imports Core_Model
begin

text \<open>
  The runtime of \<open>crates/oikade-core/src/runtime.rs\<close> and \<open>runtime/subscription.rs\<close>:
  registered devices, their values, the command and publication paths and the bounded
  subscriptions. A registered device is an object on a heap of addresses, so that
  \<open>Arc::ptr_eq\<close> is equality of addresses; what lies outside the process (the state
  store's medium and whatever command handlers act on) is a world of type \<open>'w\<close>
  that the store operations and the handlers transform. Every operation here is one
  critical section of the source or the sequential composition of them.
\<close>

section \<open>Errors, commands and events\<close>

type_synonym system_time = int

type_synonym value_map = "(capability_id, scalar) btree"

datatype runtime_error =
    Stopped
  | AlreadyStarted
  | AlreadyExists string
  | NotFound string
  | NotReadable string
  | NotWritable string
  | InvalidValue invalid_value
  | SlowConsumer
  | InvalidSubscriptionBuffer
  | MissingCommandHandler string
  | Restore device_id restore_failure
  | Persist device_id capability_id string
  | CommandFailed device_id capability_id string
and invalid_value =
    RejectedByModel model_error
  | RequiresKind capability_id value_kind value_kind
  | IntegrationReturned runtime_error
and restore_failure =
    LoadFailed string
  | LoadedValueRejected runtime_error

record command =
  cmd_device :: device_id
  cmd_capability :: capability_id
  cmd_value :: scalar

record event =
  ev_device :: device_id
  ev_capability :: capability_id
  ev_value :: scalar
  ev_revision :: nat
  ev_occurred_at :: system_time

record topology_event =
  top_revision :: nat

definition MAX_SUBSCRIPTION_BUFFER :: nat where "MAX_SUBSCRIPTION_BUFFER = 4096"

definition slash :: "string \<Rightarrow> string \<Rightarrow> string" where
  "slash d c = d @ ''/'' @ c"

definition device_not_found :: "device_id \<Rightarrow> runtime_error" where
  "device_not_found d = NotFound (''device '' @ d)"

definition capability_not_found :: "device_id \<Rightarrow> capability_id \<Rightarrow> runtime_error" where
  "capability_not_found d c = NotFound (''capability '' @ slash d c)"

section \<open>Bounded channels and subscriptions\<close>

text \<open>
  A tokio \<open>mpsc\<close> channel together with the terminal error cell shared between the
  runtime and the subscription handle.
\<close>

record 'e channel =
  ch_capacity :: nat
  ch_queue :: "'e list"
  ch_receiver_open :: bool
  ch_terminal :: "runtime_error option"

datatype send_result = Sent | Full | Closed

definition try_send :: "'e \<Rightarrow> 'e channel \<Rightarrow> 'e channel \<times> send_result" where
  "try_send e c =
     (if \<not> ch_receiver_open c then (c, Closed)
      else if length (ch_queue c) < ch_capacity c then (c\<lparr>ch_queue := ch_queue c @ [e]\<rparr>, Sent)
      else (c, Full))"

definition set_terminal :: "runtime_error \<Rightarrow> 'e channel \<Rightarrow> 'e channel" where
  "set_terminal e c = c\<lparr>ch_terminal := Some e\<rparr>"

text \<open>
  The subscriptions of one kind: those whose sender the runtime holds, and the handles
  whose sender it has dropped, from which a subscriber still drains what was queued.
\<close>

record 'e hub =
  attached :: "(nat, 'e channel) btree"
  detached :: "(nat, 'e channel) btree"
  next_subscriber :: nat

definition hub_empty :: "'e hub" where
  "hub_empty = \<lparr>attached = [], detached = [], next_subscriber = 0\<rparr>"

definition hub_subscribe :: "nat \<Rightarrow> 'e hub \<Rightarrow> 'e hub \<times> nat" where
  "hub_subscribe buffer h =
     (let i = next_subscriber h + 1;
          c = \<lparr>ch_capacity = buffer, ch_queue = [], ch_receiver_open = True, ch_terminal = None\<rparr>
      in (h\<lparr>attached := put i c (attached h), next_subscriber := i\<rparr>, i))"

text \<open>
  \<open>dispatch_events\<close> and \<open>dispatch_topology\<close>: the same two loops over the two kinds of
  subscription. The first loop sends and collects the subscribers to close, the second
  removes them, which drops their senders.
\<close>

fun offer :: "'e \<Rightarrow> (nat, 'e channel) btree \<Rightarrow> (nat, 'e channel) btree \<times> nat list" where
  "offer e [] = ([], [])"
| "offer e ((i, c) # subs) =
     (let (c', r) = try_send e c; (subs', closed) = offer e subs
      in case r of
           Sent \<Rightarrow> ((i, c') # subs', closed)
         | Full \<Rightarrow> ((i, set_terminal SlowConsumer c') # subs', i # closed)
         | Closed \<Rightarrow> ((i, c') # subs', i # closed))"

definition hub_remove :: "nat \<Rightarrow> 'e hub \<Rightarrow> 'e hub" where
  "hub_remove i h =
     (case map_of (attached h) i of
        None \<Rightarrow> h
      | Some c \<Rightarrow> h\<lparr>attached := del i (attached h), detached := put i c (detached h)\<rparr>)"

definition dispatch :: "'e \<Rightarrow> 'e hub \<Rightarrow> 'e hub" where
  "dispatch e h =
     (let (subs, closed) = offer e (attached h)
      in fold hub_remove closed (h\<lparr>attached := subs\<rparr>))"

definition close_all :: "runtime_error \<Rightarrow> 'e hub \<Rightarrow> 'e hub" where
  "close_all e h =
     h\<lparr>attached := [],
       detached := fold (\<lambda>(i, c). put i (set_terminal e c)) (attached h) (detached h)\<rparr>"

text \<open>The subscription handle: \<open>recv\<close>, \<open>error\<close>, \<open>cancel\<close> and \<open>Drop\<close>.\<close>

datatype 'e received = Pending | Received 'e | Ended

definition hub_channel :: "'e hub \<Rightarrow> nat \<Rightarrow> 'e channel option" where
  "hub_channel h i =
     (case map_of (attached h) i of Some c \<Rightarrow> Some c | None \<Rightarrow> map_of (detached h) i)"

definition hub_recv :: "nat \<Rightarrow> 'e hub \<Rightarrow> 'e hub \<times> 'e received" where
  "hub_recv i h =
     (case map_of (attached h) i of
        Some c \<Rightarrow>
          (case ch_queue c of
             e # q \<Rightarrow> (h\<lparr>attached := put i (c\<lparr>ch_queue := q\<rparr>) (attached h)\<rparr>, Received e)
           | [] \<Rightarrow> (h, if ch_receiver_open c then Pending else Ended))
      | None \<Rightarrow>
          (case map_of (detached h) i of
             Some c \<Rightarrow>
               (case ch_queue c of
                  e # q \<Rightarrow> (h\<lparr>detached := put i (c\<lparr>ch_queue := q\<rparr>) (detached h)\<rparr>, Received e)
                | [] \<Rightarrow> (h, Ended))
           | None \<Rightarrow> (h, Ended)))"

definition hub_error :: "nat \<Rightarrow> 'e hub \<Rightarrow> runtime_error option" where
  "hub_error i h = (case hub_channel h i of Some c \<Rightarrow> ch_terminal c | None \<Rightarrow> None)"

definition close_receiver :: "nat \<Rightarrow> 'e hub \<Rightarrow> 'e hub" where
  "close_receiver i h =
     (case map_of (attached h) i of
        Some c \<Rightarrow> h\<lparr>attached := put i (c\<lparr>ch_receiver_open := False\<rparr>) (attached h)\<rparr>
      | None \<Rightarrow>
          (case map_of (detached h) i of
             Some c \<Rightarrow> h\<lparr>detached := put i (c\<lparr>ch_receiver_open := False\<rparr>) (detached h)\<rparr>
           | None \<Rightarrow> h))"

definition hub_cancel :: "nat \<Rightarrow> 'e hub \<Rightarrow> 'e hub" where
  "hub_cancel i h = close_receiver i (hub_remove i h)"

text \<open>
  Dropping a handle drops its receiver at once; the spawned task removes the sender
  later, and not at all when the handle is dropped outside a tokio runtime.
\<close>

definition hub_drop :: "nat \<Rightarrow> 'e hub \<Rightarrow> 'e hub" where
  "hub_drop i h =
     (case map_of (attached h) i of
        Some c \<Rightarrow> h\<lparr>attached := put i (c\<lparr>ch_receiver_open := False, ch_queue := []\<rparr>) (attached h)\<rparr>
      | None \<Rightarrow> h\<lparr>detached := del i (detached h)\<rparr>)"

definition hub_drop_task :: "nat \<Rightarrow> 'e hub \<Rightarrow> 'e hub" where
  "hub_drop_task i h =
     (let h' = hub_remove i h in h'\<lparr>detached := del i (detached h')\<rparr>)"

section \<open>The runtime state\<close>

type_synonym 'w handler = "command \<Rightarrow> 'w \<Rightarrow> 'w \<times> (string, scalar) result"

record 'w state_store_ops =
  load_device :: "device_id \<Rightarrow> 'w \<Rightarrow> (string, value_map option) result"
  save_device :: "device_id \<Rightarrow> value_map \<Rightarrow> 'w \<Rightarrow> 'w \<times> (string, unit) result"

record 'w registered_device =
  reg_definition :: device
  reg_capabilities :: "(capability_id, capability) btree"
  reg_current :: value_map
  reg_persisted :: value_map
  reg_handler :: "'w handler option"

record 'w runtime =
  rt_store :: "'w state_store_ops option"
  rt_started :: bool
  rt_devices :: "(device_id, nat) btree"
  rt_heap :: "(nat, 'w registered_device) btree"
  rt_next_address :: nat
  rt_events :: "event hub"
  rt_topology :: "topology_event hub"
  rt_revision :: nat

definition runtime_new :: "'w state_store_ops option \<Rightarrow> 'w runtime" where
  "runtime_new s =
     \<lparr>rt_store = s, rt_started = False, rt_devices = [], rt_heap = [], rt_next_address = 0,
      rt_events = hub_empty, rt_topology = hub_empty, rt_revision = 0\<rparr>"

definition store_load :: "'w state_store_ops option \<Rightarrow> device_id \<Rightarrow> 'w \<Rightarrow> (string, value_map option) result" where
  "store_load s d w = (case s of None \<Rightarrow> Ok None | Some ops \<Rightarrow> load_device ops d w)"

definition store_save :: "'w state_store_ops option \<Rightarrow> device_id \<Rightarrow> value_map \<Rightarrow> 'w \<Rightarrow> 'w \<times> (string, unit) result" where
  "store_save s d m w = (case s of None \<Rightarrow> (w, Ok ()) | Some ops \<Rightarrow> save_device ops d m w)"

definition ensure_started :: "'w runtime \<Rightarrow> (runtime_error, unit) result" where
  "ensure_started rt = (if rt_started rt then Ok () else Err Stopped)"

definition validate_capability_value :: "capability \<Rightarrow> scalar \<Rightarrow> (runtime_error, unit) result" where
  "validate_capability_value c v =
     (case lookup_builtin_capability (cap_type c) of
        Some b \<Rightarrow> map_err (\<lambda>e. InvalidValue (RejectedByModel e)) (builtin_validate_value b v)
      | None \<Rightarrow>
          and_then (map_err (\<lambda>e. InvalidValue (RejectedByModel e)) (value_validate v)) (\<lambda>_.
            reject (kind_of v \<noteq> cap_kind c) (InvalidValue (RequiresKind (cap_id c) (cap_kind c) (kind_of v)))))"

definition dispatch_events :: "event \<Rightarrow> 'w runtime \<Rightarrow> 'w runtime" where
  "dispatch_events e rt = rt\<lparr>rt_events := dispatch e (rt_events rt)\<rparr>"

definition dispatch_topology :: "topology_event \<Rightarrow> 'w runtime \<Rightarrow> 'w runtime" where
  "dispatch_topology e rt = rt\<lparr>rt_topology := dispatch e (rt_topology rt)\<rparr>"

text \<open>The increment of the revision that every topology change ends with.\<close>

definition bump_topology :: "'w runtime \<Rightarrow> 'w runtime" where
  "bump_topology rt =
     (let r = rt_revision rt + 1 in dispatch_topology \<lparr>top_revision = r\<rparr> (rt\<lparr>rt_revision := r\<rparr>))"

section \<open>Operations\<close>

type_synonym ('w, 'a) outcome = "'w runtime \<times> 'w \<times> (runtime_error, 'a) result"

definition start :: "'w runtime \<Rightarrow> 'w runtime \<times> (runtime_error, unit) result" where
  "start rt =
     (if rt_started rt then (rt, Err AlreadyStarted) else (rt\<lparr>rt_started := True\<rparr>, Ok ()))"

definition stop :: "'w runtime \<Rightarrow> 'w runtime" where
  "stop rt =
     (if \<not> rt_started rt then rt
      else rt\<lparr>rt_started := False, rt_devices := [],
              rt_events := close_all Stopped (rt_events rt),
              rt_topology := close_all Stopped (rt_topology rt)\<rparr>)"

record restored =
  res_persisted :: value_map
  res_current :: value_map
  res_capabilities :: "(capability_id, capability) btree"
  res_dirty :: bool

fun restore_values :: "device_id \<Rightarrow> capability list \<Rightarrow> restored \<Rightarrow> (runtime_error, restored) result" where
  "restore_values d [] r = Ok r"
| "restore_values d (c # cs) r =
     (let (v, r1) = (case map_of (res_persisted r) (cap_id c) of
                       Some v \<Rightarrow> (v, r)
                     | None \<Rightarrow> (cap_initial c,
                         r\<lparr>res_persisted := put (cap_id c) (cap_initial c) (res_persisted r), res_dirty := True\<rparr>))
      in and_then (map_err (\<lambda>e. Restore d (LoadedValueRejected e)) (validate_capability_value c v)) (\<lambda>_.
           restore_values d cs
             (r1\<lparr>res_current := put (cap_id c) v (res_current r1),
                 res_capabilities := put (cap_id c) c (res_capabilities r1)\<rparr>)))"

definition require_handlers :: "device \<Rightarrow> 'w handler option \<Rightarrow> (runtime_error, unit) result" where
  "require_handlers d h =
     each (\<lambda>c. reject (perm_write (cap_permissions c) \<and> Option.is_none h)
                 (MissingCommandHandler (slash (dev_id d) (cap_id c)))) (dev_capabilities d)"

definition check_absent :: "'w runtime \<Rightarrow> device_id \<Rightarrow> (runtime_error, unit) result" where
  "check_absent rt d =
     and_then (ensure_started rt) (\<lambda>_. reject (map_of (rt_devices rt) d \<noteq> None) (AlreadyExists d))"

text \<open>The part of \<open>register\<close> before anything is written: validation, the checks and the restore.\<close>

definition register_prepare ::
  "device \<Rightarrow> 'w handler option \<Rightarrow> 'w runtime \<Rightarrow> 'w \<Rightarrow> (runtime_error, restored) result" where
  "register_prepare d h rt w =
     and_then (map_err (\<lambda>e. InvalidValue (RejectedByModel e)) (device_validate d)) (\<lambda>_.
     and_then (require_handlers d h) (\<lambda>_.
     and_then (check_absent rt (dev_id d)) (\<lambda>_.
     and_then (map_err (\<lambda>m. Restore (dev_id d) (LoadFailed m)) (store_load (rt_store rt) (dev_id d) w)) (\<lambda>loaded.
       restore_values (dev_id d) (dev_capabilities d)
         \<lparr>res_persisted = (case loaded of None \<Rightarrow> [] | Some m \<Rightarrow> m), res_current = [],
          res_capabilities = [], res_dirty = (loaded = None)\<rparr>))))"

definition register_insert :: "device \<Rightarrow> 'w handler option \<Rightarrow> restored \<Rightarrow> 'w runtime \<Rightarrow> 'w runtime" where
  "register_insert d h r rt =
     (let a = rt_next_address rt;
          object = \<lparr>reg_definition = d, reg_capabilities = res_capabilities r, reg_current = res_current r,
                    reg_persisted = res_persisted r, reg_handler = h\<rparr>
      in bump_topology (rt\<lparr>rt_heap := put a object (rt_heap rt), rt_next_address := a + 1,
                           rt_devices := put (dev_id d) a (rt_devices rt)\<rparr>))"

definition register :: "device \<Rightarrow> 'w handler option \<Rightarrow> 'w runtime \<Rightarrow> 'w \<Rightarrow> ('w, unit) outcome" where
  "register d h rt w =
     (case register_prepare d h rt w of
        Err e \<Rightarrow> (rt, w, Err e)
      | Ok r \<Rightarrow>
          let (w', saved) = (if res_dirty r then store_save (rt_store rt) (dev_id d) (res_persisted r) w
                             else (w, Ok ()))
          in case saved of
               Err m \<Rightarrow> (rt, w', Err (Persist (dev_id d) ''initial-state'' m))
             | Ok _ \<Rightarrow>
                 (case check_absent rt (dev_id d) of
                    Err e \<Rightarrow> (rt, w', Err e)
                  | Ok _ \<Rightarrow> (register_insert d h r rt, w', Ok ())))"

definition lookup_device :: "'w runtime \<Rightarrow> device_id \<Rightarrow> (runtime_error, nat) result" where
  "lookup_device rt d =
     and_then (ensure_started rt) (\<lambda>_. ok_or (device_not_found d) (map_of (rt_devices rt) d))"

definition confirm_registration :: "'w runtime \<Rightarrow> device_id \<Rightarrow> nat \<Rightarrow> (runtime_error, unit) result" where
  "confirm_registration rt d a =
     and_then (ensure_started rt) (\<lambda>_. reject (map_of (rt_devices rt) d \<noteq> Some a) (device_not_found d))"

definition unregister :: "device_id \<Rightarrow> 'w runtime \<Rightarrow> 'w runtime \<times> (runtime_error, unit) result" where
  "unregister d rt =
     (case lookup_device rt d of
        Err e \<Rightarrow> (rt, Err e)
      | Ok a \<Rightarrow>
          if map_of (rt_devices rt) d \<noteq> Some a then (rt, Err (device_not_found d))
          else (bump_topology (rt\<lparr>rt_devices := del d (rt_devices rt)\<rparr>), Ok ()))"

definition lookup :: "'w runtime \<Rightarrow> device_id \<Rightarrow> capability_id \<Rightarrow> (runtime_error, nat \<times> capability) result" where
  "lookup rt d c =
     and_then (lookup_device rt d) (\<lambda>a.
       case map_of (rt_heap rt) a of
         None \<Rightarrow> Err (device_not_found d)
       | Some g \<Rightarrow> and_then (ok_or (capability_not_found d c) (map_of (reg_capabilities g) c)) (\<lambda>cap. Ok (a, cap)))"

definition read :: "device_id \<Rightarrow> capability_id \<Rightarrow> 'w runtime \<Rightarrow> (runtime_error, scalar) result" where
  "read d c rt =
     and_then (lookup rt d c) (\<lambda>(a, cap).
       if \<not> perm_read (cap_permissions cap) then Err (NotReadable (slash d c))
       else case map_of (rt_heap rt) a of
              None \<Rightarrow> Err (capability_not_found d c)
            | Some g \<Rightarrow> ok_or (capability_not_found d c) (map_of (reg_current g) c))"

text \<open>
  \<open>commit\<close>, with the current time as its argument. An address that is not on the heap
  does not occur: an \<open>Arc\<close> keeps its object alive.
\<close>

definition commit_values :: "nat \<Rightarrow> capability_id \<Rightarrow> scalar \<Rightarrow> 'w registered_device \<Rightarrow> 'w runtime \<Rightarrow> 'w runtime" where
  "commit_values a c v g rt =
     rt\<lparr>rt_heap := put a (g\<lparr>reg_persisted := put c v (reg_persisted g),
                            reg_current := put c v (reg_current g)\<rparr>) (rt_heap rt)\<rparr>"

definition publish_revision ::
  "system_time \<Rightarrow> device_id \<Rightarrow> capability \<Rightarrow> scalar \<Rightarrow> 'w runtime \<Rightarrow> 'w runtime" where
  "publish_revision now d cap v rt =
     (let r = rt_revision rt + 1; rt' = rt\<lparr>rt_revision := r\<rparr>
      in if perm_observe (cap_permissions cap)
         then dispatch_events \<lparr>ev_device = d, ev_capability = cap_id cap, ev_value = v,
                               ev_revision = r, ev_occurred_at = now\<rparr> rt'
         else rt')"

definition commit ::
  "system_time \<Rightarrow> nat \<Rightarrow> device_id \<Rightarrow> capability \<Rightarrow> scalar \<Rightarrow> 'w runtime \<Rightarrow> 'w \<Rightarrow> ('w, unit) outcome" where
  "commit now a d cap v rt w =
     (case map_of (rt_heap rt) a of
        None \<Rightarrow> (rt, w, Err (device_not_found d))
      | Some g \<Rightarrow>
          if (case map_of (reg_current g) (cap_id cap) of None \<Rightarrow> False | Some u \<Rightarrow> value_eq u v)
          then (rt, w, Ok ())
          else
            let (w', saved) = store_save (rt_store rt) d (put (cap_id cap) v (reg_persisted g)) w
            in case saved of
                 Err m \<Rightarrow> (rt, w', Err (Persist d (cap_id cap) m))
               | Ok _ \<Rightarrow>
                   (case confirm_registration rt d a of
                      Err e \<Rightarrow> (rt, w', Err e)
                    | Ok _ \<Rightarrow> (publish_revision now d cap v (commit_values a (cap_id cap) v g rt), w', Ok ())))"

text \<open>\<open>write_value\<close> up to the call of the command handler.\<close>

definition write_begin :: "command \<Rightarrow> 'w runtime \<Rightarrow> (runtime_error, nat \<times> capability \<times> 'w handler) result" where
  "write_begin cmd rt =
     and_then (lookup rt (cmd_device cmd) (cmd_capability cmd)) (\<lambda>(a, cap).
       if \<not> perm_write (cap_permissions cap)
       then Err (NotWritable (slash (cmd_device cmd) (cmd_capability cmd)))
       else and_then (validate_capability_value cap (cmd_value cmd)) (\<lambda>_.
            and_then (confirm_registration rt (cmd_device cmd) a) (\<lambda>_.
            and_then (ok_or (MissingCommandHandler (slash (cmd_device cmd) (cmd_capability cmd)))
                       (Option.bind (map_of (rt_heap rt) a) reg_handler)) (\<lambda>h.
              Ok (a, cap, h)))))"

text \<open>\<open>write_value\<close> from the handler's answer on.\<close>

definition write_finish ::
  "system_time \<Rightarrow> command \<Rightarrow> nat \<Rightarrow> capability \<Rightarrow> (string, scalar) result \<Rightarrow> 'w runtime \<Rightarrow> 'w
     \<Rightarrow> ('w, scalar) outcome" where
  "write_finish now cmd a cap answer rt w =
     (case answer of
        Err m \<Rightarrow> (rt, w, Err (CommandFailed (cmd_device cmd) (cmd_capability cmd) m))
      | Ok v \<Rightarrow>
          (case validate_capability_value cap v of
             Err e \<Rightarrow> (rt, w, Err (InvalidValue (IntegrationReturned e)))
           | Ok _ \<Rightarrow>
               (case commit now a (cmd_device cmd) cap v rt w of
                  (rt', w', Err e) \<Rightarrow> (rt', w', Err e)
                | (rt', w', Ok _) \<Rightarrow> (rt', w', Ok v))))"

definition write_value :: "system_time \<Rightarrow> command \<Rightarrow> 'w runtime \<Rightarrow> 'w \<Rightarrow> ('w, scalar) outcome" where
  "write_value now cmd rt w =
     (case write_begin cmd rt of
        Err e \<Rightarrow> (rt, w, Err e)
      | Ok (a, cap, h) \<Rightarrow> let (w', answer) = h cmd w in write_finish now cmd a cap answer rt w')"

definition publish ::
  "system_time \<Rightarrow> device_id \<Rightarrow> capability_id \<Rightarrow> scalar \<Rightarrow> 'w runtime \<Rightarrow> 'w \<Rightarrow> ('w, unit) outcome" where
  "publish now d c v rt w =
     (case (and_then (lookup rt d c) (\<lambda>(a, cap).
              and_then (validate_capability_value cap v) (\<lambda>_.
              and_then (confirm_registration rt d a) (\<lambda>_. Ok (a, cap))))) of
        Err e \<Rightarrow> (rt, w, Err e)
      | Ok (a, cap) \<Rightarrow> commit now a d cap v rt w)"

definition valid_buffer :: "nat \<Rightarrow> bool" where
  "valid_buffer b \<longleftrightarrow> 1 \<le> b \<and> b \<le> MAX_SUBSCRIPTION_BUFFER"

definition subscribe :: "nat \<Rightarrow> 'w runtime \<Rightarrow> 'w runtime \<times> (runtime_error, nat) result" where
  "subscribe b rt =
     (if \<not> valid_buffer b then (rt, Err InvalidSubscriptionBuffer)
      else case ensure_started rt of
        Err e \<Rightarrow> (rt, Err e)
      | Ok _ \<Rightarrow> let (h, i) = hub_subscribe b (rt_events rt) in (rt\<lparr>rt_events := h\<rparr>, Ok i))"

definition subscribe_topology :: "nat \<Rightarrow> 'w runtime \<Rightarrow> 'w runtime \<times> (runtime_error, nat) result" where
  "subscribe_topology b rt =
     (if \<not> valid_buffer b then (rt, Err InvalidSubscriptionBuffer)
      else case ensure_started rt of
        Err e \<Rightarrow> (rt, Err e)
      | Ok _ \<Rightarrow> let (h, i) = hub_subscribe b (rt_topology rt) in (rt\<lparr>rt_topology := h\<rparr>, Ok i))"

record device_state =
  ds_device :: device
  ds_values :: value_map

record snapshot =
  snap_started :: bool
  snap_revision :: nat
  snap_devices :: "device_state list"
  snap_subscriptions :: nat

definition take_snapshot :: "'w runtime \<Rightarrow> snapshot" where
  "take_snapshot rt =
     \<lparr>snap_started = rt_started rt, snap_revision = rt_revision rt,
      snap_devices = concat (map (\<lambda>(d, a). case map_of (rt_heap rt) a of
          None \<Rightarrow> [] | Some g \<Rightarrow> [\<lparr>ds_device = reg_definition g, ds_values = reg_current g\<rparr>]) (rt_devices rt)),
      snap_subscriptions = length (attached (rt_events rt))\<rparr>"

end
