(* ===== verification/Subscription_Hub.thy ===== *)
theory Subscription_Hub
  imports Core_Runtime
begin

text \<open>
  What the bounded subscriptions of \<open>runtime/subscription.rs\<close> guarantee: closed forms of
  the dispatch and close loops, the invariant of a hub (unique ids, bounded queues,
  strictly increasing revisions) and its preservation by every operation of the hub.
\<close>

section \<open>Closed forms of the loops\<close>

definition accepts :: "'e channel \<Rightarrow> bool" where
  "accepts c \<longleftrightarrow> ch_receiver_open c \<and> length (ch_queue c) < ch_capacity c"

definition after_offer :: "'e \<Rightarrow> 'e channel \<Rightarrow> 'e channel" where
  "after_offer e c =
     (if accepts c then c\<lparr>ch_queue := ch_queue c @ [e]\<rparr>
      else if ch_receiver_open c then set_terminal SlowConsumer c
      else c)"

lemma offer_eq:
  "offer e subs = (map (\<lambda>(i, c). (i, after_offer e c)) subs, map fst (filter (\<lambda>(i, c). \<not> accepts c) subs))"
  by (induction e subs rule: offer.induct)
     (auto simp: try_send_def accepts_def after_offer_def Let_def)

lemma map_of_map_snd: "map_of (map (\<lambda>(i, c). (i, f c)) m) k = map_option f (map_of m k)"
  by (induction m) auto

lemma keys_map_snd [simp]: "keys (map (\<lambda>(i, c). (i, f c)) m) = keys m"
  by (induction m) auto

lemma ordered_map_snd [simp]: "ordered (map (\<lambda>(i, c). (i, f c)) m) = ordered m"
  by (induction m) auto

lemma hub_remove_simps:
  "map_of (attached (hub_remove j h)) i = (if i = j then None else map_of (attached h) i)"
  "map_of (detached (hub_remove j h)) i =
     (if i = j \<and> map_of (attached h) j \<noteq> None then map_of (attached h) j else map_of (detached h) i)"
  "next_subscriber (hub_remove j h) = next_subscriber h"
  "ordered (attached h) \<Longrightarrow> ordered (attached (hub_remove j h))"
  "ordered (detached h) \<Longrightarrow> ordered (detached (hub_remove j h))"
  by (auto simp: hub_remove_def split: option.splits)

lemma fold_hub_remove:
  "map_of (attached (fold hub_remove js h)) i = (if i \<in> set js then None else map_of (attached h) i)"
  "map_of (detached (fold hub_remove js h)) i =
     (if i \<in> set js \<and> map_of (attached h) i \<noteq> None then map_of (attached h) i else map_of (detached h) i)"
  "next_subscriber (fold hub_remove js h) = next_subscriber h"
  "ordered (attached h) \<Longrightarrow> ordered (attached (fold hub_remove js h))"
  "ordered (detached h) \<Longrightarrow> ordered (detached (fold hub_remove js h))"
  by (induction js arbitrary: h) (auto simp: hub_remove_simps)

lemma refused_ids:
  "ordered m \<Longrightarrow> i \<in> fst ` {x \<in> set m. case x of (i, c) \<Rightarrow> \<not> accepts c} \<longleftrightarrow> (\<exists>c. map_of m i = Some c \<and> \<not> accepts c)"
  by (force simp: map_of_eq_Some_iff_mem)

lemma dispatch_attached:
  "ordered (attached h) \<Longrightarrow> map_of (attached (dispatch e h)) i =
     (case map_of (attached h) i of
        Some c \<Rightarrow> if accepts c then Some (after_offer e c) else None
      | None \<Rightarrow> None)"
  by (cases "map_of (attached h) i")
     (simp_all add: dispatch_def offer_eq fold_hub_remove map_of_map_snd refused_ids)

lemma dispatch_detached:
  "ordered (attached h) \<Longrightarrow> map_of (detached (dispatch e h)) i =
     (case map_of (attached h) i of
        Some c \<Rightarrow> if accepts c then map_of (detached h) i else Some (after_offer e c)
      | None \<Rightarrow> map_of (detached h) i)"
  by (cases "map_of (attached h) i")
     (simp_all add: dispatch_def offer_eq fold_hub_remove map_of_map_snd refused_ids)

lemma dispatch_rest:
  "next_subscriber (dispatch e h) = next_subscriber h"
  "ordered (attached h) \<Longrightarrow> ordered (attached (dispatch e h))"
  "ordered (detached h) \<Longrightarrow> ordered (detached (dispatch e h))"
  by (simp_all add: dispatch_def offer_eq fold_hub_remove)

lemma fold_put_terminal:
  "ordered m \<Longrightarrow> map_of (fold (\<lambda>(i, c). put i (f c)) m m') i =
     (case map_of m i of Some c \<Rightarrow> Some (f c) | None \<Rightarrow> map_of m' i)"
proof (induction m arbitrary: m')
  case (Cons e m)
  then have "map_of m (fst e) = None"
    by (metis map_of_None_keys order_less_irrefl ordered_Cons)
  with Cons show ?case by (cases e) (auto split: option.splits)
qed simp

lemma ordered_fold_put_terminal: "ordered m' \<Longrightarrow> ordered (fold (\<lambda>(i, c). put i (f c)) m m')"
  by (induction m arbitrary: m') auto

lemma close_all_simps:
  "attached (close_all e h) = []"
  "next_subscriber (close_all e h) = next_subscriber h"
  "ordered (detached h) \<Longrightarrow> ordered (detached (close_all e h))"
  "ordered (attached h) \<Longrightarrow> map_of (detached (close_all e h)) i =
     (case map_of (attached h) i of Some c \<Rightarrow> Some (set_terminal e c) | None \<Rightarrow> map_of (detached h) i)"
  by (simp_all add: close_all_def fold_put_terminal ordered_fold_put_terminal)

section \<open>The invariant\<close>

text \<open>
  \<open>f\<close> reads the revision of an event; \<open>n\<close> bounds the revisions issued so far.
\<close>

definition channel_ok :: "('e \<Rightarrow> nat) \<Rightarrow> nat \<Rightarrow> 'e channel \<Rightarrow> bool" where
  "channel_ok f n c \<longleftrightarrow> valid_buffer (ch_capacity c) \<and> length (ch_queue c) \<le> ch_capacity c
     \<and> sorted_wrt (<) (map f (ch_queue c)) \<and> (\<forall>e \<in> set (ch_queue c). f e \<le> n)"

definition hub_ok :: "('e \<Rightarrow> nat) \<Rightarrow> nat \<Rightarrow> 'e hub \<Rightarrow> bool" where
  "hub_ok f n h \<longleftrightarrow> ordered (attached h) \<and> ordered (detached h)
     \<and> (\<forall>i c. map_of (attached h) i = Some c \<longrightarrow>
          channel_ok f n c \<and> ch_terminal c = None \<and> map_of (detached h) i = None \<and> i \<le> next_subscriber h)
     \<and> (\<forall>i c. map_of (detached h) i = Some c \<longrightarrow> channel_ok f n c \<and> i \<le> next_subscriber h)"

lemma hub_okD:
  assumes "hub_ok f n h"
  shows "ordered (attached h)" and "ordered (detached h)"
    and "map_of (attached h) i = Some c \<Longrightarrow> channel_ok f n c"
    and "map_of (attached h) i = Some c \<Longrightarrow> ch_terminal c = None"
    and "map_of (attached h) i = Some c \<Longrightarrow> map_of (detached h) i = None"
    and "map_of (attached h) i = Some c \<Longrightarrow> i \<le> next_subscriber h"
    and "map_of (detached h) i = Some c \<Longrightarrow> channel_ok f n c"
    and "map_of (detached h) i = Some c \<Longrightarrow> i \<le> next_subscriber h"
  using assms unfolding hub_ok_def by blast+

lemma channel_ok_mono: "channel_ok f n c \<Longrightarrow> n \<le> m \<Longrightarrow> channel_ok f m c"
  by (auto simp: channel_ok_def)

lemma hub_ok_mono: "hub_ok f n h \<Longrightarrow> n \<le> m \<Longrightarrow> hub_ok f m h"
  unfolding hub_ok_def by (blast intro: channel_ok_mono)

lemma channel_ok_tail: "channel_ok f n c \<Longrightarrow> ch_queue c = e # q \<Longrightarrow> channel_ok f n (c\<lparr>ch_queue := q\<rparr>)"
  by (simp add: channel_ok_def)

lemma channel_ok_receiver [simp]: "channel_ok f n (c\<lparr>ch_receiver_open := b\<rparr>) = channel_ok f n c"
  by (simp add: channel_ok_def)

lemma channel_ok_terminal [simp]: "channel_ok f n (set_terminal e c) = channel_ok f n c"
  by (simp add: channel_ok_def set_terminal_def)

lemma channel_ok_offer:
  assumes "channel_ok f n c" and "n < f e" and "f e \<le> m"
  shows "channel_ok f m (after_offer e c)"
  using assms unfolding channel_ok_def after_offer_def accepts_def set_terminal_def
  by (auto simp: sorted_wrt_append)

lemma after_offer_terminal: "accepts c \<Longrightarrow> ch_terminal (after_offer e c) = ch_terminal c"
  by (simp add: after_offer_def)

lemma hub_ok_empty [simp]: "hub_ok f n hub_empty"
  by (simp add: hub_ok_def hub_empty_def)

lemma hub_ok_subscribe:
  assumes "hub_ok f n h" and "valid_buffer b"
  shows "hub_ok f n (fst (hub_subscribe b h))"
proof -
  have "map_of (detached h) (next_subscriber h + 1) = None"
    using hub_okD(8) [OF assms(1), of "next_subscriber h + 1"]
    by (cases "map_of (detached h) (next_subscriber h + 1)") auto
  with assms show ?thesis
    by (auto simp: hub_ok_def hub_subscribe_def Let_def channel_ok_def intro: le_SucI)
qed

lemma hub_ok_dispatch:
  assumes "hub_ok f n h" and "n < f e" and "f e \<le> m"
  shows "hub_ok f m (dispatch e h)"
proof -
  note ok = hub_okD [OF assms(1)]
  have offered: "channel_ok f n c \<Longrightarrow> channel_ok f m (after_offer e c)" for c
    using assms(2,3) by (rule channel_ok_offer [of f n c e m, rotated])
  have "n \<le> m" using assms(2,3) by linarith
  then have older: "channel_ok f n c \<Longrightarrow> channel_ok f m c" for c
    by (rule channel_ok_mono [rotated])
  show ?thesis
    unfolding hub_ok_def
  proof (intro conjI allI impI)
    fix i c
    assume "map_of (attached (dispatch e h)) i = Some c"
    then obtain b where b: "map_of (attached h) i = Some b" "accepts b" "c = after_offer e b"
      by (simp add: dispatch_attached ok(1) split: option.splits if_splits)
    with ok(3-6) [OF b(1)]
    show "channel_ok f m c" "ch_terminal c = None" "i \<le> next_subscriber (dispatch e h)"
      "map_of (detached (dispatch e h)) i = None"
      by (simp_all add: offered after_offer_terminal dispatch_rest dispatch_detached ok(1))
  next
    fix i c
    assume "map_of (detached (dispatch e h)) i = Some c"
    then have "channel_ok f m c \<and> i \<le> next_subscriber h"
    proof (cases "map_of (attached h) i")
      case None
      with \<open>map_of (detached (dispatch e h)) i = Some c\<close> show ?thesis
        by (simp add: dispatch_detached ok(1) older ok(7) ok(8))
    next
      case (Some b)
      with \<open>map_of (detached (dispatch e h)) i = Some c\<close> ok(5) [OF Some] show ?thesis
        by (auto simp: dispatch_detached ok(1) ok(3) ok(6) intro: offered split: if_splits)
    qed
    then show "channel_ok f m c" "i \<le> next_subscriber (dispatch e h)"
      by (simp_all add: dispatch_rest)
  qed (simp_all add: dispatch_rest ok)
qed

lemma hub_ok_close_all: "hub_ok f n h \<Longrightarrow> hub_ok f n (close_all e h)"
  unfolding hub_ok_def by (auto simp: close_all_simps split: option.splits)

lemma hub_ok_remove: "hub_ok f n h \<Longrightarrow> hub_ok f n (hub_remove i h)"
  unfolding hub_ok_def by (auto simp: hub_remove_simps split: if_splits)

lemma hub_ok_close_receiver: "hub_ok f n h \<Longrightarrow> hub_ok f n (close_receiver i h)"
  unfolding hub_ok_def by (auto simp: close_receiver_def split: option.splits if_splits)

lemma hub_ok_cancel: "hub_ok f n h \<Longrightarrow> hub_ok f n (hub_cancel i h)"
  by (simp add: hub_cancel_def hub_ok_close_receiver hub_ok_remove)

lemma hub_ok_drop: "hub_ok f n h \<Longrightarrow> hub_ok f n (hub_drop i h)"
  unfolding hub_ok_def
  by (auto simp: hub_drop_def channel_ok_def split: option.splits if_splits)

lemma hub_ok_drop_task: "hub_ok f n h \<Longrightarrow> hub_ok f n (hub_drop_task i h)"
  unfolding hub_ok_def
  by (auto simp: hub_drop_task_def Let_def hub_remove_simps split: if_splits)

lemma hub_ok_recv: "hub_ok f n h \<Longrightarrow> hub_ok f n (fst (hub_recv i h))"
  unfolding hub_ok_def
  by (auto simp: hub_recv_def intro: channel_ok_tail split: option.splits list.splits if_splits)

lemmas hub_ok_intros [wf_intros] =
  hub_ok_subscribe hub_ok_close_all hub_ok_cancel hub_ok_drop hub_ok_drop_task hub_ok_recv

end
