(* ===== verification/Runtime_Safety.thy ===== *)
theory Runtime_Safety
  imports Subscription_Hub
begin

text \<open>
  The invariant of the core runtime and what each of its operations does on success and
  on every error path. \<open>operation\<close> and \<open>exec\<close> give the operations a common
  form, so that a run of the program is a list of them.
\<close>

section \<open>Values that a capability accepts\<close>

lemma validate_capability_value_ok:
  assumes "kind_consistent c"
  shows "validate_capability_value c v = Ok () \<longleftrightarrow> admits c v"
proof (cases "lookup_builtin_capability (cap_type c)")
  case None
  then show ?thesis
    using plain_validate_admits [OF None, of v] by (simp add: validate_capability_value_def and_then_eq_Ok)
next
  case (Some b)
  then show ?thesis
    using builtin_validate_admits [OF Some assms] by (simp add: validate_capability_value_def)
qed

section \<open>The invariant\<close>

definition capability_by_id :: "device \<Rightarrow> capability_id \<Rightarrow> capability option" where
  "capability_by_id d c = find (\<lambda>x. cap_id x = c) (dev_capabilities d)"

definition reg_ok :: "device_id \<Rightarrow> 'w registered_device \<Rightarrow> bool" where
  "reg_ok d g \<longleftrightarrow> dev_id (reg_definition g) = d \<and> device_ok (reg_definition g)
     \<and> (\<forall>k. map_of (reg_capabilities g) k = capability_by_id (reg_definition g) k)
     \<and> (\<forall>k. map_of (reg_current g) k = None \<longleftrightarrow> capability_by_id (reg_definition g) k = None)
     \<and> (\<forall>k c v. capability_by_id (reg_definition g) k = Some c \<longrightarrow> map_of (reg_current g) k = Some v
          \<longrightarrow> admits c v \<and> map_of (reg_persisted g) k = Some v)
     \<and> ((\<exists>c \<in> set (dev_capabilities (reg_definition g)). perm_write (cap_permissions c)) \<longrightarrow> reg_handler g \<noteq> None)"

definition rt_ok :: "'w runtime \<Rightarrow> bool" where
  "rt_ok rt \<longleftrightarrow> ordered (rt_devices rt)
     \<and> (\<forall>a. map_of (rt_heap rt) a \<noteq> None \<longrightarrow> a < rt_next_address rt)
     \<and> (\<forall>d a. map_of (rt_devices rt) d = Some a \<longrightarrow> (\<exists>g. map_of (rt_heap rt) a = Some g \<and> reg_ok d g))
     \<and> hub_ok ev_revision (rt_revision rt) (rt_events rt)
     \<and> hub_ok top_revision (rt_revision rt) (rt_topology rt)
     \<and> (\<not> rt_started rt \<longrightarrow> rt_devices rt = [] \<and> attached (rt_events rt) = [] \<and> attached (rt_topology rt) = [])"

lemma rt_okD:
  assumes "rt_ok rt"
  shows "ordered (rt_devices rt)"
    and "map_of (rt_heap rt) a = Some g \<Longrightarrow> a < rt_next_address rt"
    and "map_of (rt_devices rt) d = Some a \<Longrightarrow> \<exists>g. map_of (rt_heap rt) a = Some g \<and> reg_ok d g"
    and "hub_ok ev_revision (rt_revision rt) (rt_events rt)"
    and "hub_ok top_revision (rt_revision rt) (rt_topology rt)"
    and "\<not> rt_started rt \<Longrightarrow> rt_devices rt = [] \<and> attached (rt_events rt) = [] \<and> attached (rt_topology rt) = []"
  using assms unfolding rt_ok_def by blast+

lemma capability_by_id_mem: "capability_by_id d k = Some c \<Longrightarrow> c \<in> set (dev_capabilities d) \<and> cap_id c = k"
  by (auto simp: capability_by_id_def find_Some_iff)

lemma capability_by_id_cap: "device_ok d \<Longrightarrow> c \<in> set (dev_capabilities d) \<Longrightarrow> capability_by_id d (cap_id c) = Some c"
  unfolding capability_by_id_def device_ok_def by (simp add: find_by_key)

lemma reg_ok_capability:
  assumes "reg_ok d g" and "map_of (reg_capabilities g) k = Some c"
  shows "capability_by_id (reg_definition g) k = Some c" and "c \<in> set (dev_capabilities (reg_definition g))"
    and "cap_id c = k" and "kind_consistent c" and "capability_ok c"
proof -
  show *: "capability_by_id (reg_definition g) k = Some c" using assms by (simp add: reg_ok_def)
  then show "c \<in> set (dev_capabilities (reg_definition g))" "cap_id c = k"
    using capability_by_id_mem by blast+
  with assms(1) show "kind_consistent c" "capability_ok c"
    by (auto simp: reg_ok_def device_ok_def capability_ok_def)
qed

lemma reg_ok_current:
  assumes "reg_ok d g" and "map_of (reg_capabilities g) k = Some c"
  obtains v where "map_of (reg_current g) k = Some v" and "admits c v" and "map_of (reg_persisted g) k = Some v"
  using assms reg_ok_capability(1) [OF assms] unfolding reg_ok_def
  by (metis not_None_eq)

lemma reg_ok_update:
  assumes "reg_ok d g" and "map_of (reg_capabilities g) k = Some c" and "admits c v"
  shows "reg_ok d (g\<lparr>reg_persisted := put k v (reg_persisted g), reg_current := put k v (reg_current g)\<rparr>)"
  using assms reg_ok_capability(1) [OF assms(1,2)] unfolding reg_ok_def by auto

section \<open>Lookups\<close>

lemma ensure_started_ok [simp]: "ensure_started rt = Ok u \<longleftrightarrow> rt_started rt"
  by (simp add: ensure_started_def)

lemma lookup_device_ok: "lookup_device rt d = Ok a \<longleftrightarrow> rt_started rt \<and> map_of (rt_devices rt) d = Some a"
  by (auto simp: lookup_device_def and_then_eq_Ok)

lemma confirm_registration_ok:
  "confirm_registration rt d a = Ok u \<longleftrightarrow> rt_started rt \<and> map_of (rt_devices rt) d = Some a"
  by (auto simp: confirm_registration_def and_then_eq_Ok)

lemma check_absent_ok: "check_absent rt d = Ok u \<longleftrightarrow> rt_started rt \<and> map_of (rt_devices rt) d = None"
  by (auto simp: check_absent_def and_then_eq_Ok)

lemmas registration_iffs = lookup_device_ok confirm_registration_ok check_absent_ok

lemma lookup_ok:
  assumes "rt_ok rt"
  shows "lookup rt d c = Ok (a, cap) \<longleftrightarrow> rt_started rt \<and> map_of (rt_devices rt) d = Some a
     \<and> (\<exists>g. map_of (rt_heap rt) a = Some g \<and> reg_ok d g \<and> map_of (reg_capabilities g) c = Some cap)"
proof -
  have "lookup rt d c = Ok (a, cap) \<longleftrightarrow> rt_started rt \<and> map_of (rt_devices rt) d = Some a
     \<and> (\<exists>g. map_of (rt_heap rt) a = Some g \<and> map_of (reg_capabilities g) c = Some cap)"
    by (cases "map_of (rt_heap rt) a") (auto simp: lookup_def lookup_device_ok and_then_eq_Ok split: option.splits)
  with rt_okD(3) [OF assms, of d a] show ?thesis by auto
qed

text \<open>What \<open>read\<close> returns, as a function of the registered object.\<close>

lemma read_ok:
  assumes "rt_ok rt"
  shows "read d c rt = Ok v \<longleftrightarrow> rt_started rt \<and> (\<exists>a g cap. map_of (rt_devices rt) d = Some a
     \<and> map_of (rt_heap rt) a = Some g \<and> map_of (reg_capabilities g) c = Some cap
     \<and> perm_read (cap_permissions cap) \<and> map_of (reg_current g) c = Some v)"
proof
  assume "read d c rt = Ok v"
  then show "rt_started rt \<and> (\<exists>a g cap. map_of (rt_devices rt) d = Some a
     \<and> map_of (rt_heap rt) a = Some g \<and> map_of (reg_capabilities g) c = Some cap
     \<and> perm_read (cap_permissions cap) \<and> map_of (reg_current g) c = Some v)"
    by (auto simp: read_def and_then_eq_Ok lookup_ok [OF assms] split: if_splits)
next
  assume "rt_started rt \<and> (\<exists>a g cap. map_of (rt_devices rt) d = Some a
     \<and> map_of (rt_heap rt) a = Some g \<and> map_of (reg_capabilities g) c = Some cap
     \<and> perm_read (cap_permissions cap) \<and> map_of (reg_current g) c = Some v)"
  then obtain a g cap where *: "rt_started rt" "map_of (rt_devices rt) d = Some a"
      "map_of (rt_heap rt) a = Some g" "map_of (reg_capabilities g) c = Some cap"
      "perm_read (cap_permissions cap)" "map_of (reg_current g) c = Some v" by blast
  with rt_okD(3) [OF assms] have "lookup rt d c = Ok (a, cap)"
    by (simp add: lookup_ok [OF assms]) (metis option.inject)
  with * show "read d c rt = Ok v" by (simp add: read_def)
qed

section \<open>Preservation\<close>

lemma rt_ok_new: "rt_ok (runtime_new s)"
  by (simp add: rt_ok_def runtime_new_def) (simp add: hub_empty_def)

lemma rt_ok_start: "rt_ok rt \<Longrightarrow> rt_ok (fst (start rt))"
  by (auto simp: start_def rt_ok_def)

lemma rt_ok_stop: "rt_ok rt \<Longrightarrow> rt_ok (stop rt)"
  by (auto simp: stop_def rt_ok_def close_all_simps hub_ok_close_all)

lemma rt_ok_bump:
  assumes "rt_ok rt" and "rt_started rt"
  shows "rt_ok (bump_topology rt)"
  using assms hub_ok_mono [of ev_revision "rt_revision rt" "rt_events rt" "Suc (rt_revision rt)"]
    hub_ok_dispatch [of top_revision "rt_revision rt" "rt_topology rt" _ "Suc (rt_revision rt)"]
  by (simp add: rt_ok_def bump_topology_def dispatch_topology_def Let_def)

lemma bump_topology_fields [simp]:
  "rt_store (bump_topology rt) = rt_store rt" "rt_started (bump_topology rt) = rt_started rt"
  "rt_devices (bump_topology rt) = rt_devices rt" "rt_heap (bump_topology rt) = rt_heap rt"
  "rt_next_address (bump_topology rt) = rt_next_address rt" "rt_events (bump_topology rt) = rt_events rt"
  "rt_revision (bump_topology rt) = rt_revision rt + 1"
  by (simp_all add: bump_topology_def dispatch_topology_def Let_def)

lemma rt_ok_unregister: "rt_ok rt \<Longrightarrow> rt_ok (fst (unregister d rt))"
proof -
  assume ok: "rt_ok rt"
  show "rt_ok (fst (unregister d rt))"
  proof (cases "lookup_device rt d")
    case (Inr a)
    then have "rt_started rt" "map_of (rt_devices rt) d = Some a"
      using lookup_device_ok by blast+
    moreover have "rt_ok (rt\<lparr>rt_devices := del d (rt_devices rt)\<rparr>)"
      using ok \<open>rt_started rt\<close> by (simp add: rt_ok_def)
    ultimately show ?thesis
      using Inr by (simp add: unregister_def rt_ok_bump)
  qed (simp add: unregister_def ok)
qed


section \<open>Registration\<close>

definition restored_value :: "value_map \<Rightarrow> capability \<Rightarrow> scalar" where
  "restored_value p c = (case map_of p (cap_id c) of Some v \<Rightarrow> v | None \<Rightarrow> cap_initial c)"

definition restore_step :: "capability \<Rightarrow> restored \<Rightarrow> restored" where
  "restore_step c r =
     r\<lparr>res_persisted := (if map_of (res_persisted r) (cap_id c) = None
                         then put (cap_id c) (cap_initial c) (res_persisted r) else res_persisted r),
       res_dirty := res_dirty r \<or> map_of (res_persisted r) (cap_id c) = None,
       res_current := put (cap_id c) (restored_value (res_persisted r) c) (res_current r),
       res_capabilities := put (cap_id c) c (res_capabilities r)\<rparr>"

lemma restore_values_Cons:
  "restore_values d (c # cs) r = Ok r' \<longleftrightarrow>
     validate_capability_value c (restored_value (res_persisted r) c) = Ok ()
     \<and> restore_values d cs (restore_step c r) = Ok r'"
  by (auto simp: restored_value_def restore_step_def and_then_eq_Ok Let_def split: option.splits)

lemma restored_value_put [simp]: "cap_id x \<noteq> k \<Longrightarrow> restored_value (put k v p) x = restored_value p x"
  by (simp add: restored_value_def)

lemma restored_value_step:
  "cap_id x \<noteq> cap_id c \<Longrightarrow> restored_value (res_persisted (restore_step c r)) x = restored_value (res_persisted r) x"
  by (simp add: restore_step_def)

lemma find_cap_absent: "c \<notin> cap_id ` set cs \<Longrightarrow> find (\<lambda>x. cap_id x = c) cs = None"
  by (auto simp: find_None_iff)

lemma restore_values_persisted:
  assumes "restore_values d cs r = Ok r'" and "distinct (map cap_id cs)"
  shows "map_of (res_persisted r') k =
           (case map_of (res_persisted r) k of Some v \<Rightarrow> Some v
            | None \<Rightarrow> map_option cap_initial (find (\<lambda>c. cap_id c = k) cs))"
  using assms
  by (induction cs arbitrary: r)
     (auto simp del: restore_values.simps(2)
       simp: restore_values_Cons restore_step_def find_cap_absent split: option.splits)

lemma restore_values_current:
  assumes "restore_values d cs r = Ok r'" and "distinct (map cap_id cs)"
  shows "map_of (res_current r') k =
           (case find (\<lambda>c. cap_id c = k) cs of Some c \<Rightarrow> Some (restored_value (res_persisted r) c)
            | None \<Rightarrow> map_of (res_current r) k)"
  using assms
proof (induction cs arbitrary: r)
  case (Cons c cs)
  have next_ok: "restore_values d cs (restore_step c r) = Ok r'"
    using Cons.prems by (simp add: restore_values_Cons del: restore_values.simps)
  have "cap_id x \<noteq> cap_id c" if "find (\<lambda>c. cap_id c = k) cs = Some x" for x
  proof -
    have "x \<in> set cs" using that by (auto simp: find_Some_iff)
    then show ?thesis using Cons.prems(2) by (auto simp: rev_image_eqI)
  qed
  with Cons.IH [OF next_ok] Cons.prems(2) show ?case
    by (auto simp: find_cap_absent restore_step_def [of c r] split: option.splits)
qed simp

lemma restore_values_capabilities:
  assumes "restore_values d cs r = Ok r'" and "distinct (map cap_id cs)"
  shows "map_of (res_capabilities r') k =
           (case find (\<lambda>c. cap_id c = k) cs of Some c \<Rightarrow> Some c | None \<Rightarrow> map_of (res_capabilities r) k)"
  using assms
  by (induction cs arbitrary: r)
     (auto simp del: restore_values.simps(2)
       simp: restore_values_Cons restore_step_def find_cap_absent split: option.splits)

lemma restore_values_valid:
  assumes "restore_values d cs r = Ok r'" and "distinct (map cap_id cs)"
  shows "\<forall>c \<in> set cs. validate_capability_value c (restored_value (res_persisted r) c) = Ok ()"
  using assms
proof (induction cs arbitrary: r)
  case (Cons c cs)
  have run: "restore_values d cs (restore_step c r) = Ok r'"
    and first: "validate_capability_value c (restored_value (res_persisted r) c) = Ok ()"
    using Cons.prems(1) by (simp_all add: restore_values_Cons del: restore_values.simps)
  have "x \<in> set cs \<Longrightarrow> cap_id x \<noteq> cap_id c" for x using Cons.prems(2) by (auto simp: rev_image_eqI)
  with Cons.IH [OF run] Cons.prems(2) first show ?case
    by (simp add: restored_value_step)
qed simp

lemma restore_values_dirty:
  assumes "restore_values d cs r = Ok r'"
  shows "res_dirty r \<Longrightarrow> res_dirty r'" and "\<not> res_dirty r' \<Longrightarrow> res_persisted r' = res_persisted r"
proof -
  have "(res_dirty r \<longrightarrow> res_dirty r') \<and> (\<not> res_dirty r' \<longrightarrow> res_persisted r' = res_persisted r)"
    using assms
    by (induction cs arbitrary: r)
       (fastforce simp del: restore_values.simps(2) simp: restore_values_Cons restore_step_def split: if_splits)+
  then show "res_dirty r \<Longrightarrow> res_dirty r'" "\<not> res_dirty r' \<Longrightarrow> res_persisted r' = res_persisted r"
    by blast+
qed

lemma restore_values_succeeds:
  assumes "\<And>c. c \<in> set cs \<Longrightarrow>
    \<exists>v. map_of (res_persisted r) (cap_id c) = Some v \<and> validate_capability_value c v = Ok ()"
  shows "\<exists>r'. restore_values d cs r = Ok r' \<and> res_dirty r' = res_dirty r"
  using assms
proof (induction cs arbitrary: r)
  case (Cons c cs)
  obtain v where v: "map_of (res_persisted r) (cap_id c) = Some v" "validate_capability_value c v = Ok ()"
    using Cons.prems [of c] by auto
  then have step: "res_persisted (restore_step c r) = res_persisted r" "res_dirty (restore_step c r) = res_dirty r"
    by (simp_all add: restore_step_def)
  then have "\<exists>r'. restore_values d cs (restore_step c r) = Ok r' \<and> res_dirty r' = res_dirty r"
    using Cons.IH [of "restore_step c r"] Cons.prems by simp
  with v show ?case
    by (simp add: restore_values_Cons restored_value_def del: restore_values.simps)
qed simp

text \<open>The state of the device that a successful \<open>register\<close> inserts.\<close>

definition loaded_values :: "value_map option \<Rightarrow> value_map" where
  "loaded_values l = (case l of None \<Rightarrow> [] | Some m \<Rightarrow> m)"

lemma register_prepare_ok:
  assumes "register_prepare d h rt w = Ok r"
  shows "device_ok d" and "rt_started rt" and "map_of (rt_devices rt) (dev_id d) = None"
    and "\<forall>c \<in> set (dev_capabilities d). perm_write (cap_permissions c) \<longrightarrow> h \<noteq> None"
    and "\<exists>l. store_load (rt_store rt) (dev_id d) w = Ok l \<and>
           restore_values (dev_id d) (dev_capabilities d)
             \<lparr>res_persisted = loaded_values l, res_current = [], res_capabilities = [], res_dirty = (l = None)\<rparr> = Ok r"
  using assms
  by (auto simp: register_prepare_def and_then_eq_Ok device_validate_ok check_absent_ok require_handlers_def
      each_ok_iff loaded_values_def Option.is_none_def)

lemma register_object_ok:
  assumes "register_prepare d h rt w = Ok r"
  shows "reg_ok (dev_id d) \<lparr>reg_definition = d, reg_capabilities = res_capabilities r,
    reg_current = res_current r, reg_persisted = res_persisted r, reg_handler = h\<rparr>"
proof -
  note prep = register_prepare_ok [OF assms]
  from prep(5) obtain l where
    run: "restore_values (dev_id d) (dev_capabilities d)
       \<lparr>res_persisted = loaded_values l, res_current = [], res_capabilities = [], res_dirty = (l = None)\<rparr> = Ok r"
    by blast
  have dist: "distinct (map cap_id (dev_capabilities d))" using prep(1) by (simp add: device_ok_def)
  have valid: "admits c (restored_value (loaded_values l) c)" if "capability_by_id d k = Some c" for k c
  proof -
    have "c \<in> set (dev_capabilities d)" using that capability_by_id_mem by blast
    then have "kind_consistent c" using prep(1) by (simp add: device_ok_def capability_ok_def)
    with restore_values_valid [OF run dist] \<open>c \<in> _\<close> show ?thesis
      using validate_capability_value_ok by auto
  qed
  have same: "map_of (res_persisted r) k = Some (restored_value (loaded_values l) c)"
    if "capability_by_id d k = Some c" for k c
    using that restore_values_persisted [OF run dist, of k] capability_by_id_mem [OF that]
    by (auto simp: capability_by_id_def restored_value_def split: option.splits)
  show ?thesis
    using prep valid same restore_values_current [OF run dist] restore_values_capabilities [OF run dist]
    by (auto simp: reg_ok_def capability_by_id_def split: option.splits)
qed

lemma rt_ok_register_insert:
  assumes ok: "rt_ok rt" and prep: "register_prepare d h rt w = Ok r"
  shows "rt_ok (register_insert d h r rt)"
proof -
  have "map_of (rt_heap rt) (rt_next_address rt) = None"
    using rt_okD(2) [OF ok] by (metis less_irrefl option.exhaust)
  then have fresh: "map_of (rt_devices rt) d' \<noteq> Some (rt_next_address rt)" for d'
    using rt_okD(3) [OF ok] by fastforce
  show ?thesis
    unfolding register_insert_def Let_def
    using ok register_prepare_ok(2) [OF prep] register_object_ok [OF prep] fresh
    by (intro rt_ok_bump) (auto simp: rt_ok_def intro: less_SucI)
qed

lemma register_cases:
  obtains (rejected) e where "register_prepare d h rt w = Err e" "register d h rt w = (rt, w, Err e)"
  | (unsaved) r w' m where "register_prepare d h rt w = Ok r" "res_dirty r"
      "store_save (rt_store rt) (dev_id d) (res_persisted r) w = (w', Err m)"
      "register d h rt w = (rt, w', Err (Persist (dev_id d) ''initial-state'' m))"
  | (registered) r w' where "register_prepare d h rt w = Ok r"
      "if res_dirty r then store_save (rt_store rt) (dev_id d) (res_persisted r) w = (w', Ok ()) else w' = w"
      "register d h rt w = (register_insert d h r rt, w', Ok ())"
proof (cases "register_prepare d h rt w")
  case (Inl e)
  then show ?thesis using that(1) by (simp add: register_def)
next
  case (Inr r)
  then have absent: "check_absent rt (dev_id d) = Ok ()"
    using register_prepare_ok(2,3) [OF Inr] check_absent_ok by blast
  obtain w' s where s: "store_save (rt_store rt) (dev_id d) (res_persisted r) w = (w', s)"
    by fastforce
  show ?thesis
    using that Inr absent s
    by (cases "res_dirty r"; cases s) (auto simp: register_def)
qed

lemma rt_ok_register: "rt_ok rt \<Longrightarrow> rt_ok (fst (register d h rt w))"
  by (cases rule: register_cases [of d h rt w]) (auto simp: rt_ok_register_insert)

section \<open>Commit\<close>

lemma publish_revision_fields [simp]:
  "rt_store (publish_revision now d cap v rt) = rt_store rt"
  "rt_started (publish_revision now d cap v rt) = rt_started rt"
  "rt_devices (publish_revision now d cap v rt) = rt_devices rt"
  "rt_heap (publish_revision now d cap v rt) = rt_heap rt"
  "rt_next_address (publish_revision now d cap v rt) = rt_next_address rt"
  "rt_topology (publish_revision now d cap v rt) = rt_topology rt"
  "rt_revision (publish_revision now d cap v rt) = rt_revision rt + 1"
  by (simp_all add: publish_revision_def dispatch_events_def Let_def)

lemma commit_values_fields [simp]:
  "rt_store (commit_values a c v g rt) = rt_store rt"
  "rt_started (commit_values a c v g rt) = rt_started rt"
  "rt_devices (commit_values a c v g rt) = rt_devices rt"
  "rt_next_address (commit_values a c v g rt) = rt_next_address rt"
  "rt_events (commit_values a c v g rt) = rt_events rt"
  "rt_topology (commit_values a c v g rt) = rt_topology rt"
  "rt_revision (commit_values a c v g rt) = rt_revision rt"
  by (simp_all add: commit_values_def)

lemma rt_ok_publish_revision:
  assumes "rt_ok rt" and "rt_started rt"
  shows "rt_ok (publish_revision now d cap v rt)"
  using assms hub_ok_mono [of top_revision "rt_revision rt" "rt_topology rt" "Suc (rt_revision rt)"]
    hub_ok_mono [of ev_revision "rt_revision rt" "rt_events rt" "Suc (rt_revision rt)"]
    hub_ok_dispatch [of ev_revision "rt_revision rt" "rt_events rt" _ "Suc (rt_revision rt)"]
  by (simp add: rt_ok_def publish_revision_def dispatch_events_def Let_def)

lemma rt_ok_commit_values:
  assumes ok: "rt_ok rt" and d: "map_of (rt_devices rt) d = Some a" and g: "map_of (rt_heap rt) a = Some g"
    and c: "map_of (reg_capabilities g) c = Some cap" and v: "admits cap v"
  shows "rt_ok (commit_values a c v g rt)"
proof -
  have *: "reg_ok d' g" if "map_of (rt_devices rt) d' = Some a" for d'
    using rt_okD(3) [OF ok that] g by simp
  show ?thesis
    using ok reg_ok_update [OF * c v] rt_okD(2) [OF ok g]
    by (auto simp: rt_ok_def commit_values_def)
qed

lemma commit_cases:
  assumes "rt_started rt" and "map_of (rt_devices rt) d = Some a" and "map_of (rt_heap rt) a = Some g"
    and "map_of (reg_current g) (cap_id cap) = Some u"
  obtains (unchanged) "value_eq u v" "commit now a d cap v rt w = (rt, w, Ok ())"
  | (unsaved) w' m where "\<not> value_eq u v"
      "store_save (rt_store rt) d (put (cap_id cap) v (reg_persisted g)) w = (w', Err m)"
      "commit now a d cap v rt w = (rt, w', Err (Persist d (cap_id cap) m))"
  | (committed) w' where "\<not> value_eq u v"
      "store_save (rt_store rt) d (put (cap_id cap) v (reg_persisted g)) w = (w', Ok ())"
      "commit now a d cap v rt w =
         (publish_revision now d cap v (commit_values a (cap_id cap) v g rt), w', Ok ())"
proof (cases "value_eq u v")
  case True
  with assms show ?thesis by (intro that(1)) (simp_all add: commit_def)
next
  case False
  obtain w' s where s: "store_save (rt_store rt) d (put (cap_id cap) v (reg_persisted g)) w = (w', s)"
    by fastforce
  have "confirm_registration rt d a = Ok ()" using assms confirm_registration_ok by blast
  with False s assms that(2,3) show ?thesis
    by (cases s) (simp_all add: commit_def)
qed

lemma commit_error_keeps: "commit now a d cap v rt w = (rt', w', Err e) \<Longrightarrow> rt' = rt"
  by (auto simp: commit_def split: option.splits if_splits sum.splits prod.splits)

lemma rt_ok_commit:
  assumes ok: "rt_ok rt" and look: "lookup rt d c = Ok (a, cap)" and v: "admits cap v"
  shows "rt_ok (fst (commit now a d cap v rt w))"
proof -
  obtain g where g: "rt_started rt" "map_of (rt_devices rt) d = Some a" "map_of (rt_heap rt) a = Some g"
      "reg_ok d g" "map_of (reg_capabilities g) c = Some cap"
    using look by (auto simp: lookup_ok [OF ok])
  have id: "cap_id cap = c" using reg_ok_capability(3) g(4,5) by blast
  obtain u where u: "map_of (reg_current g) (cap_id cap) = Some u"
    using reg_ok_current [OF g(4,5)] id by metis
  from g(1-3) u show ?thesis
  proof (cases rule: commit_cases [where v = v and now = now and w = w])
    case (committed w')
    with g v id show ?thesis
      by (simp add: rt_ok_publish_revision rt_ok_commit_values [OF ok])
  qed (simp_all add: ok)
qed

section \<open>Commands and publications\<close>

lemma write_begin_ok:
  assumes "rt_ok rt" and "write_begin cmd rt = Ok (a, cap, h)"
  shows "lookup rt (cmd_device cmd) (cmd_capability cmd) = Ok (a, cap)"
    and "perm_write (cap_permissions cap)" and "kind_consistent cap" and "admits cap (cmd_value cmd)"
    and "\<exists>g. map_of (rt_heap rt) a = Some g \<and> reg_handler g = Some h"
proof -
  show look: "lookup rt (cmd_device cmd) (cmd_capability cmd) = Ok (a, cap)"
    and "perm_write (cap_permissions cap)"
    and "\<exists>g. map_of (rt_heap rt) a = Some g \<and> reg_handler g = Some h"
    using assms(2) by (auto simp: write_begin_def and_then_eq_Ok bind_eq_Some_conv split: if_splits)
  show "kind_consistent cap"
    using look reg_ok_capability(4) by (fastforce simp: lookup_ok [OF assms(1)])
  then show "admits cap (cmd_value cmd)"
    using assms(2) by (auto simp: write_begin_def and_then_eq_Ok validate_capability_value_ok split: if_splits)
qed

lemma write_finish_error_keeps: "write_finish now cmd a cap r rt w = (rt', w', Err e) \<Longrightarrow> rt' = rt"
  by (auto simp: write_finish_def dest: commit_error_keeps split: sum.splits prod.splits)

lemma write_finish_ok:
  assumes "write_finish now cmd a cap r rt w = (rt', w', Ok v)" and "kind_consistent cap"
  shows "r = Ok v" and "admits cap v" and "commit now a (cmd_device cmd) cap v rt w = (rt', w', Ok ())"
  using assms by (auto simp: write_finish_def validate_capability_value_ok [symmetric]
      split: sum.splits prod.splits)

lemma write_value_ok:
  assumes "rt_ok rt" and "write_value now cmd rt w = (rt', w', Ok v)"
  obtains a cap h w1 where "write_begin cmd rt = Ok (a, cap, h)" and "h cmd w = (w1, Ok v)"
    and "admits cap v" and "commit now a (cmd_device cmd) cap v rt w1 = (rt', w', Ok ())"
proof (cases "write_begin cmd rt")
  case (Inr y)
  obtain a cap h where y: "y = (a, cap, h)" by (cases y) auto
  obtain w1 r where r: "h cmd w = (w1, r)" by fastforce
  have "write_finish now cmd a cap r rt w1 = (rt', w', Ok v)"
    using assms(2) Inr y r by (simp add: write_value_def)
  from write_finish_ok [OF this] write_begin_ok(3) [OF assms(1)] Inr y r that show ?thesis by blast
qed (use assms in \<open>simp add: write_value_def\<close>)

lemma rt_ok_write_value:
  assumes "rt_ok rt"
  shows "rt_ok (fst (write_value now cmd rt w))"
proof -
  obtain rt' w' r where run: "write_value now cmd rt w = (rt', w', r)" by (metis prod_cases3)
  show ?thesis
  proof (cases r)
    case (Inl e)
    then have "rt' = rt"
      using run write_finish_error_keeps by (fastforce simp: write_value_def split: sum.splits prod.splits)
    with assms run show ?thesis by simp
  next
    case (Inr v)
    with run have "write_value now cmd rt w = (rt', w', Ok v)" by simp
    from write_value_ok [OF assms this] obtain a cap h w1 where
      *: "write_begin cmd rt = Ok (a, cap, h)" "admits cap v"
        "commit now a (cmd_device cmd) cap v rt w1 = (rt', w', Ok ())" .
    then have "rt_ok (fst (commit now a (cmd_device cmd) cap v rt w1))"
      by (intro rt_ok_commit [OF assms]) (auto dest: write_begin_ok [OF assms])
    with * run show ?thesis by simp
  qed
qed

lemma publish_cases:
  assumes "rt_ok rt"
  obtains (refused) e where "publish now d c v rt w = (rt, w, Err e)"
  | (accepted) a cap where "lookup rt d c = Ok (a, cap)" "admits cap v"
      "publish now d c v rt w = commit now a d cap v rt w"
proof (cases "and_then (lookup rt d c) (\<lambda>(a, cap). and_then (validate_capability_value cap v) (\<lambda>_.
              and_then (confirm_registration rt d a) (\<lambda>_. Ok (a, cap))))")
  case (Inl e)
  then show ?thesis by (intro that(1)) (simp add: publish_def)
next
  case (Inr y)
  then obtain a cap where look: "lookup rt d c = Ok (a, cap)" "y = (a, cap)"
      and valid: "validate_capability_value cap v = Ok ()"
    by (auto simp: and_then_eq_Ok)
  then have "kind_consistent cap" using reg_ok_capability(4) by (fastforce simp: lookup_ok [OF assms])
  with look valid Inr show ?thesis
    by (intro that(2)) (simp_all add: publish_def validate_capability_value_ok)
qed

lemma rt_ok_publish: "rt_ok rt \<Longrightarrow> rt_ok (fst (publish now d c v rt w))"
  by (cases rule: publish_cases [of rt now d c v w]) (auto simp: rt_ok_commit)

lemma publish_error_keeps:
  "publish now d c v rt w = (rt', w', Err e) \<Longrightarrow> rt' = rt"
  by (auto simp: publish_def dest: commit_error_keeps split: sum.splits)

section \<open>Subscriptions\<close>

lemma rt_ok_events:
  "rt_ok rt \<Longrightarrow> hub_ok ev_revision (rt_revision rt) h \<Longrightarrow> (\<not> rt_started rt \<Longrightarrow> attached h = [])
     \<Longrightarrow> rt_ok (rt\<lparr>rt_events := h\<rparr>)"
  by (simp add: rt_ok_def)

lemma rt_ok_topology:
  "rt_ok rt \<Longrightarrow> hub_ok top_revision (rt_revision rt) h \<Longrightarrow> (\<not> rt_started rt \<Longrightarrow> attached h = [])
     \<Longrightarrow> rt_ok (rt\<lparr>rt_topology := h\<rparr>)"
  by (simp add: rt_ok_def)

lemma rt_ok_subscribe: "rt_ok rt \<Longrightarrow> rt_ok (fst (subscribe b rt))"
  using hub_ok_subscribe [of ev_revision "rt_revision rt" "rt_events rt" b]
  by (auto simp: subscribe_def ensure_started_def rt_okD split: prod.splits intro!: rt_ok_events)

lemma rt_ok_subscribe_topology: "rt_ok rt \<Longrightarrow> rt_ok (fst (subscribe_topology b rt))"
  using hub_ok_subscribe [of top_revision "rt_revision rt" "rt_topology rt" b]
  by (auto simp: subscribe_topology_def ensure_started_def rt_okD split: prod.splits intro!: rt_ok_topology)

lemma attached_Nil:
  assumes "attached h = []"
  shows "attached (hub_cancel i h) = []" and "attached (hub_drop i h) = []"
    and "attached (hub_drop_task i h) = []" and "attached (fst (hub_recv i h)) = []"
  using assms by (auto simp: hub_cancel_def close_receiver_def hub_remove_def hub_drop_def hub_drop_task_def
      hub_recv_def split: option.splits list.splits)

end
