(* ===== verification/Runtime_Runs.thy ===== *)
theory Runtime_Runs
  imports Runtime_Safety
begin

text \<open>
  Runs of the core runtime: every operation of the handles that \<open>oikade-core\<close> gives out,
  as one datatype, so that a run is a list. The properties of the runtime that hold along
  every run are stated here.
\<close>

section \<open>Operations and runs\<close>

datatype 'w operation =
    Start
  | Stop
  | Register device "'w handler option"
  | Unregister device_id
  | WriteValue system_time command
  | Publish system_time device_id capability_id scalar
  | Subscribe nat
  | SubscribeTopology nat
  | Recv nat
  | RecvTopology nat
  | Cancel nat
  | CancelTopology nat
  | DropHandle nat
  | DropTopologyHandle nat
  | DropTask nat
  | DropTopologyTask nat

fun forget :: "'a \<times> 'b \<times> 'c \<Rightarrow> 'a \<times> 'b" where
  "forget (rt, w, r) = (rt, w)"

lemma fst_forget [simp]: "fst (forget x) = fst x"
  by (cases x) simp

fun exec :: "'w operation \<Rightarrow> 'w runtime \<times> 'w \<Rightarrow> 'w runtime \<times> 'w" where
  "exec Start (rt, w) = (fst (start rt), w)"
| "exec Stop (rt, w) = (stop rt, w)"
| "exec (Register d h) (rt, w) = forget (register d h rt w)"
| "exec (Unregister d) (rt, w) = (fst (unregister d rt), w)"
| "exec (WriteValue now cmd) (rt, w) = forget (write_value now cmd rt w)"
| "exec (Publish now d c v) (rt, w) = forget (publish now d c v rt w)"
| "exec (Subscribe b) (rt, w) = (fst (subscribe b rt), w)"
| "exec (SubscribeTopology b) (rt, w) = (fst (subscribe_topology b rt), w)"
| "exec (Recv i) (rt, w) = (rt\<lparr>rt_events := fst (hub_recv i (rt_events rt))\<rparr>, w)"
| "exec (RecvTopology i) (rt, w) = (rt\<lparr>rt_topology := fst (hub_recv i (rt_topology rt))\<rparr>, w)"
| "exec (Cancel i) (rt, w) = (rt\<lparr>rt_events := hub_cancel i (rt_events rt)\<rparr>, w)"
| "exec (CancelTopology i) (rt, w) = (rt\<lparr>rt_topology := hub_cancel i (rt_topology rt)\<rparr>, w)"
| "exec (DropHandle i) (rt, w) = (rt\<lparr>rt_events := hub_drop i (rt_events rt)\<rparr>, w)"
| "exec (DropTopologyHandle i) (rt, w) = (rt\<lparr>rt_topology := hub_drop i (rt_topology rt)\<rparr>, w)"
| "exec (DropTask i) (rt, w) = (rt\<lparr>rt_events := hub_drop_task i (rt_events rt)\<rparr>, w)"
| "exec (DropTopologyTask i) (rt, w) = (rt\<lparr>rt_topology := hub_drop_task i (rt_topology rt)\<rparr>, w)"

definition run :: "'w operation list \<Rightarrow> 'w runtime \<times> 'w \<Rightarrow> 'w runtime \<times> 'w" where
  "run ops cfg = fold exec ops cfg"

lemma run_simps [simp]:
  "run [] cfg = cfg"
  "run (op # ops) cfg = run ops (exec op cfg)"
  by (simp_all add: run_def)

lemma exec_rt_ok: "rt_ok (fst cfg) \<Longrightarrow> rt_ok (fst (exec op cfg))"
  by (induction op cfg rule: exec.induct)
     (auto simp: rt_ok_register rt_ok_write_value rt_ok_publish rt_ok_start rt_ok_stop rt_ok_unregister
       rt_ok_subscribe rt_ok_subscribe_topology attached_Nil rt_okD
       intro!: rt_ok_events rt_ok_topology hub_ok_intros)

lemma run_rt_ok: "rt_ok (fst cfg) \<Longrightarrow> rt_ok (fst (run ops cfg))"
  by (induction ops arbitrary: cfg) (simp_all add: exec_rt_ok)

section \<open>What a run does to the queue of one subscription\<close>

definition queue_of :: "nat \<Rightarrow> 'e hub \<Rightarrow> 'e list" where
  "queue_of i h = (case hub_channel h i of Some c \<Rightarrow> ch_queue c | None \<Rightarrow> [])"

lemma queue_of_dispatch:
  "hub_ok f n h \<Longrightarrow> set (queue_of i (dispatch e h)) \<subseteq> insert e (set (queue_of i h))"
  using hub_okD(1) [of f n h]
  by (auto simp: queue_of_def hub_channel_def dispatch_attached dispatch_detached after_offer_def set_terminal_def
      split: option.splits if_splits)

lemma queue_of_shrinks:
  assumes "hub_ok f n h"
  shows "set (queue_of i (fst (hub_subscribe b h))) \<subseteq> set (queue_of i h)"
    and "set (queue_of i (close_all e h)) \<subseteq> set (queue_of i h)"
    and "set (queue_of i (hub_cancel j h)) \<subseteq> set (queue_of i h)"
    and "set (queue_of i (hub_drop j h)) \<subseteq> set (queue_of i h)"
    and "set (queue_of i (hub_drop_task j h)) \<subseteq> set (queue_of i h)"
    and "set (queue_of i (fst (hub_recv j h))) \<subseteq> set (queue_of i h)"
proof -
  note ok = hub_okD [OF assms]
  show "set (queue_of i (fst (hub_subscribe b h))) \<subseteq> set (queue_of i h)"
    by (auto simp: queue_of_def hub_channel_def hub_subscribe_def Let_def split: option.splits if_splits)
  show "set (queue_of i (close_all e h)) \<subseteq> set (queue_of i h)"
    using ok(1) by (auto simp: queue_of_def hub_channel_def close_all_simps set_terminal_def split: option.splits)
  show "set (queue_of i (hub_cancel j h)) \<subseteq> set (queue_of i h)"
    by (auto simp: queue_of_def hub_channel_def hub_cancel_def close_receiver_def hub_remove_simps
        split: option.splits if_splits)
  show "set (queue_of i (hub_drop j h)) \<subseteq> set (queue_of i h)"
    by (auto simp: queue_of_def hub_channel_def hub_drop_def split: option.splits if_splits)
  show "set (queue_of i (hub_drop_task j h)) \<subseteq> set (queue_of i h)"
    using ok(5) by (auto simp: queue_of_def hub_channel_def hub_drop_task_def Let_def hub_remove_simps
        split: option.splits if_splits)
  show "set (queue_of i (fst (hub_recv j h))) \<subseteq> set (queue_of i h)"
    by (auto simp: queue_of_def hub_channel_def hub_recv_def split: option.splits list.splits if_splits)
qed

lemma queue_of_recv:
  assumes "snd (hub_recv i h) = Received e"
  shows "queue_of i h = e # queue_of i (fst (hub_recv i h))"
proof (cases "map_of (attached h) i")
  case None
  then obtain c where "map_of (detached h) i = Some c"
    using assms by (cases "map_of (detached h) i") (simp_all add: hub_recv_def)
  with None assms show ?thesis
    by (cases "ch_queue c") (simp_all add: hub_recv_def queue_of_def hub_channel_def)
next
  case (Some c)
  with assms show ?thesis
    by (cases "ch_queue c") (simp_all add: hub_recv_def queue_of_def hub_channel_def split: if_splits)
qed

lemma queue_of_sorted: "hub_ok f n h \<Longrightarrow> sorted_wrt (<) (map f (queue_of i h))"
  unfolding queue_of_def hub_channel_def
  by (auto simp: channel_ok_def dest: hub_okD(3,7) split: option.splits)

lemma queue_of_bound: "hub_ok f n h \<Longrightarrow> \<forall>e \<in> set (queue_of i h). f e \<le> n"
  unfolding queue_of_def hub_channel_def
  by (cases "map_of (attached h) i"; cases "map_of (detached h) i")
     (auto simp: channel_ok_def dest: hub_okD(3,7))

definition newer :: "nat \<Rightarrow> 'w runtime \<Rightarrow> 'w runtime \<Rightarrow> bool" where
  "newer i rt rt' \<longleftrightarrow> rt_revision rt \<le> rt_revision rt' \<and>
     (\<forall>e \<in> set (queue_of i (rt_events rt')). e \<in> set (queue_of i (rt_events rt)) \<or> rt_revision rt < ev_revision e)"

lemma newer_refl [simp]: "newer i rt rt"
  by (simp add: newer_def)

lemma newer_events [simp]:
  "set (queue_of i h) \<subseteq> set (queue_of i (rt_events rt)) \<Longrightarrow> newer i rt (rt\<lparr>rt_events := h\<rparr>)"
  "newer i rt (rt\<lparr>rt_topology := t\<rparr>)"
  by (auto simp: newer_def)

lemma newer_publish_revision:
  assumes "rt_ok rt"
  shows "newer i rt (publish_revision now d cap v (commit_values a c v g rt))"
proof -
  have sub: "x \<in> set (queue_of i (dispatch e (rt_events rt))) \<Longrightarrow> x = e \<or> x \<in> set (queue_of i (rt_events rt))" for x e
    using queue_of_dispatch [OF rt_okD(4) [OF assms], of i e] by blast
  then show ?thesis
    by (auto simp: newer_def publish_revision_def dispatch_events_def Let_def dest!: sub)
qed

lemma newer_commit:
  assumes "rt_ok rt"
  shows "newer i rt (fst (commit now a d cap v rt w))"
  using newer_publish_revision [OF assms]
  by (auto simp: commit_def split: option.splits sum.splits prod.splits)

lemma newer_write_finish:
  assumes "rt_ok rt"
  shows "newer i rt (fst (write_finish now cmd a cap r rt w))"
proof -
  have "newer i rt rt'" if "commit now a (cmd_device cmd) cap v rt w = (rt', w', x)" for v rt' w' x
    using newer_commit [OF assms, of i now a "cmd_device cmd" cap v w] that by simp
  then show ?thesis by (auto simp: write_finish_def split: sum.splits prod.splits)
qed

lemma newer_register: "newer i rt (fst (register d h rt w))"
  by (cases rule: register_cases [of d h rt w]) (auto simp: newer_def register_insert_def Let_def)

lemma exec_newer:
  assumes "rt_ok (fst cfg)"
  shows "newer i (fst cfg) (fst (exec op cfg))"
  using assms
proof (induction op cfg rule: exec.induct)
  case (3 d h rt w)
  then show ?case by (simp add: newer_register)
next
  case (4 d rt w)
  then show ?case by (auto simp: newer_def unregister_def split: sum.splits)
next
  case (5 now cmd rt w)
  then show ?case using newer_write_finish [of rt i now cmd]
    by (auto simp: write_value_def split: sum.splits prod.splits)
next
  case (6 now d c v rt w)
  then show ?case using newer_commit [of rt i now _ d _ v w]
    by (auto simp: publish_def split: sum.splits prod.splits)
next
  case (7 b rt w)
  then show ?case using queue_of_shrinks(1) [OF rt_okD(4), of rt i b]
    by (auto simp: newer_def subscribe_def Let_def split: sum.splits prod.splits)
next
  case (8 b rt w)
  then show ?case
    by (auto simp: newer_def subscribe_topology_def Let_def split: sum.splits prod.splits)
next
  case (1 rt w)
  then show ?case by (simp add: newer_def start_def)
next
  case (2 rt w)
  then show ?case using queue_of_shrinks(2) [OF rt_okD(4), of rt i Stopped]
    by (auto simp: newer_def stop_def)
qed (simp_all add: newer_events queue_of_shrinks [OF rt_okD(4)])

section \<open>Reading one capability\<close>

definition current_value :: "'w runtime \<Rightarrow> device_id \<Rightarrow> capability_id \<Rightarrow> scalar option" where
  "current_value rt d c =
     (case map_of (rt_devices rt) d of
        None \<Rightarrow> None
      | Some a \<Rightarrow> (case map_of (rt_heap rt) a of None \<Rightarrow> None | Some g \<Rightarrow> map_of (reg_current g) c))"

lemma current_value_publish_revision [simp]:
  "current_value (publish_revision now d cap v rt) = current_value rt"
  by (intro ext) (simp add: current_value_def cong: option.case_cong)

lemma current_value_commit_values:
  assumes ok: "rt_ok rt" and d: "map_of (rt_devices rt) d = Some a" and g: "map_of (rt_heap rt) a = Some g"
  shows "current_value (commit_values a c v g rt) d' c' =
           (if d' = d \<and> c' = c then Some v else current_value rt d' c')"
proof -
  have "d' = d" if "map_of (rt_devices rt) d' = Some a"
    using rt_okD(3) [OF ok that] rt_okD(3) [OF ok d] g by (auto simp: reg_ok_def)
  then show ?thesis
    using d g
    by (cases "map_of (rt_devices rt) d'") (auto simp: current_value_def commit_values_def)
qed

definition value_event :: "system_time \<Rightarrow> device_id \<Rightarrow> capability_id \<Rightarrow> scalar \<Rightarrow> nat \<Rightarrow> event" where
  "value_event now d c v r =
     \<lparr>ev_device = d, ev_capability = c, ev_value = v, ev_revision = r, ev_occurred_at = now\<rparr>"

text \<open>The effect of a successful commit, shared by commands and publications.\<close>

lemma commit_effect:
  assumes ok: "rt_ok rt" and look: "lookup rt d c = Ok (a, cap)"
    and run: "commit now a d cap v rt w = (rt', w', Ok ())"
  shows "\<exists>u. current_value rt d c = Some u
    \<and> (\<forall>d' c'. current_value rt' d' c' =
         (if d' = d \<and> c' = c \<and> \<not> value_eq u v then Some v else current_value rt d' c'))
    \<and> rt_devices rt' = rt_devices rt \<and> rt_topology rt' = rt_topology rt
    \<and> rt_revision rt' = rt_revision rt + (if value_eq u v then 0 else 1)
    \<and> rt_events rt' = (if \<not> value_eq u v \<and> perm_observe (cap_permissions cap)
         then dispatch (value_event now d c v (rt_revision rt + 1)) (rt_events rt) else rt_events rt)"
proof -
  obtain g where g: "rt_started rt" "map_of (rt_devices rt) d = Some a" "map_of (rt_heap rt) a = Some g"
      "reg_ok d g" "map_of (reg_capabilities g) c = Some cap"
    using look by (auto simp: lookup_ok [OF ok])
  have id: "cap_id cap = c" using reg_ok_capability(3) g(4,5) by blast
  obtain u where u: "map_of (reg_current g) (cap_id cap) = Some u"
    using reg_ok_current [OF g(4,5)] id by metis
  have now_u: "current_value rt d c = Some u" using g u id by (simp add: current_value_def)
  from g(1-3) u show ?thesis
  proof (cases rule: commit_cases [where v = v and now = now and w = w])
    case unchanged
    with run now_u show ?thesis by auto
  next
    case (unsaved w1 m)
    with run show ?thesis by simp
  next
    case (committed w1)
    with run have rt': "rt' = publish_revision now d cap v (commit_values a c v g rt)" by (simp add: id)
    have "rt_events rt' = (if perm_observe (cap_permissions cap)
        then dispatch (value_event now d c v (rt_revision rt + 1)) (rt_events rt) else rt_events rt)"
      by (simp add: rt' publish_revision_def dispatch_events_def value_event_def id Let_def)
    with committed(1) now_u show ?thesis
      by (intro exI [of _ u]) (simp add: rt' current_value_commit_values [OF ok g(2,3)])
  qed
qed

lemma commit_object:
  assumes "commit now a d cap v rt w = (rt', w', Ok ())" and "map_of (rt_heap rt) a = Some g"
  shows "\<exists>g'. map_of (rt_heap rt') a = Some g' \<and> reg_definition g' = reg_definition g \<and> reg_handler g' = reg_handler g"
  using assms
  by (auto simp: commit_def commit_values_def split: if_splits sum.splits prod.splits)

section \<open>A concrete runtime\<close>

text \<open>A switch whose handler accepts every command, registered in a runtime without a store.\<close>

definition sample_capability :: capability where
  "sample_capability = \<lparr>cap_id = ''on'', cap_type = CAPABILITY_SWITCH_ON, cap_name = ''On'', cap_kind = KBool,
     cap_permissions = \<lparr>perm_read = True, perm_write = True, perm_observe = True\<rparr>, cap_initial = VBool False\<rparr>"

definition sample_device :: device where
  "sample_device = \<lparr>dev_id = ''virtual.switch'', dev_name = ''Switch'', dev_manufacturer = [], dev_model = [],
     dev_capabilities = [sample_capability]\<rparr>"

definition sample_handler :: "unit handler" where
  "sample_handler cmd w = (w, Ok (cmd_value cmd))"

definition sample_runtime :: "unit runtime" where
  "sample_runtime = fst (run [Start, Subscribe 1, Register sample_device (Some sample_handler)] (runtime_new None, ()))"

definition sample_command :: command where
  "sample_command = \<lparr>cmd_device = ''virtual.switch'', cmd_capability = ''on'', cmd_value = VBool True\<rparr>"

lemma sample_runtime_ok: "rt_ok sample_runtime"
  unfolding sample_runtime_def by (intro run_rt_ok) (simp add: rt_ok_new)

lemma sample_write: "snd (snd (write_value 0 sample_command sample_runtime ())) = Ok (VBool True)"
  by code_simp

section \<open>Properties\<close>

text \<open>C1: along every run of operations from a new runtime, whatever the store and the command
  handlers do, the invariant holds: device ids name live objects, every current value is
  admissible for its capability and equals the value prepared for persistence, writable
  devices have handlers, subscription ids are unique, queues stay within their bounds and
  carry strictly increasing revisions, and a stopped runtime has no devices and no attached
  subscribers.\<close>

theorem run_invariant: "rt_ok (fst (run ops (runtime_new s, w)))"
  by (simp add: run_rt_ok rt_ok_new)

text \<open>The events that the holder of subscription \<open>i\<close> receives along a run.\<close>

fun delivered :: "nat \<Rightarrow> 'w operation list \<Rightarrow> 'w runtime \<times> 'w \<Rightarrow> event list" where
  "delivered i [] cfg = []"
| "delivered i (op # ops) cfg =
     (case op of
        Recv j \<Rightarrow> (if j = i then (case snd (hub_recv i (rt_events (fst cfg))) of Received e \<Rightarrow> [e] | _ \<Rightarrow> []) else [])
      | _ \<Rightarrow> []) @ delivered i ops (exec op cfg)"

lemma delivered_above:
  assumes "rt_ok (fst cfg)" and "b \<le> rt_revision (fst cfg)"
    and "\<forall>e \<in> set (queue_of i (rt_events (fst cfg))). b < ev_revision e"
  shows "sorted_wrt (<) (map ev_revision (delivered i ops cfg)) \<and> (\<forall>e \<in> set (delivered i ops cfg). b < ev_revision e)"
  using assms
proof (induction ops arbitrary: cfg b)
  case (Cons op ops)
  have ok': "rt_ok (fst (exec op cfg))" using Cons.prems(1) by (rule exec_rt_ok)
  have new: "newer i (fst cfg) (fst (exec op cfg))" using Cons.prems(1) by (rule exec_newer)
  have rest: "sorted_wrt (<) (map ev_revision (delivered i ops (exec op cfg)))
      \<and> (\<forall>e \<in> set (delivered i ops (exec op cfg)). b' < ev_revision e)"
    if "b' \<le> rt_revision (fst cfg)" "\<forall>e \<in> set (queue_of i (rt_events (fst (exec op cfg)))). b' < ev_revision e" for b'
    using Cons.IH [OF ok' _ that(2)] that(1) new by (simp add: newer_def)
  have weaker: "\<forall>e \<in> set (queue_of i (rt_events (fst (exec op cfg)))). b < ev_revision e"
    using new Cons.prems(2,3) by (auto simp: newer_def)
  show ?case
  proof (cases "\<exists>e. op = Recv i \<and> snd (hub_recv i (rt_events (fst cfg))) = Received e")
    case True
    then obtain e where e: "op = Recv i" "snd (hub_recv i (rt_events (fst cfg))) = Received e" by blast
    have q: "queue_of i (rt_events (fst cfg)) = e # queue_of i (rt_events (fst (exec op cfg)))"
      using queue_of_recv [OF e(2)] e(1) by (cases cfg) simp
    have sorted_q: "sorted_wrt (<) (map ev_revision (e # queue_of i (rt_events (fst (exec op cfg)))))"
      using queue_of_sorted [OF rt_okD(4) [OF Cons.prems(1)], of i] by (simp only: q)
    have "ev_revision e \<le> rt_revision (fst cfg)"
      using queue_of_bound [OF rt_okD(4) [OF Cons.prems(1)], of i] q by simp
    from rest [OF this] sorted_q have
      "sorted_wrt (<) (map ev_revision (delivered i ops (exec op cfg)))
       \<and> (\<forall>x \<in> set (delivered i ops (exec op cfg)). ev_revision e < ev_revision x)" by simp
    moreover have "b < ev_revision e" using Cons.prems(3) q by simp
    ultimately show ?thesis using e by auto
  next
    case False
    then have "delivered i (op # ops) cfg = delivered i ops (exec op cfg)"
      by (cases op) (auto split: received.splits)
    with rest [OF Cons.prems(2) weaker] show ?thesis by simp
  qed
qed simp

text \<open>C5: whatever the operations of a run, the events that one subscription delivers carry
  strictly increasing revisions: none is delivered twice and none out of order.\<close>

theorem delivery_in_order:
  "sorted_wrt (<) (map ev_revision (delivered i ops (runtime_new s, w)))"
  using delivered_above [of "(runtime_new s, w)" 0 i ops]
  by (simp add: rt_ok_new) (simp add: queue_of_def hub_channel_def runtime_new_def hub_empty_def)

text \<open>C2: a command that succeeds was admissible for a writable capability, its handler was called
  and the value it answered is the one returned. Exactly the addressed capability takes that
  value (nothing changes when the old value is already equal), the revision moves by one, and
  an observable change is dispatched with that revision.\<close>

theorem write_value_effect:
  assumes "rt_ok rt" and "write_value now cmd rt w = (rt', w', Ok v)"
  shows "\<exists>a g cap h w1 u. map_of (rt_devices rt) (cmd_device cmd) = Some a \<and> map_of (rt_heap rt) a = Some g
    \<and> map_of (reg_capabilities g) (cmd_capability cmd) = Some cap \<and> perm_write (cap_permissions cap)
    \<and> admits cap (cmd_value cmd) \<and> reg_handler g = Some h \<and> h cmd w = (w1, Ok v) \<and> admits cap v
    \<and> current_value rt (cmd_device cmd) (cmd_capability cmd) = Some u
    \<and> (\<forall>d c. current_value rt' d c =
         (if d = cmd_device cmd \<and> c = cmd_capability cmd \<and> \<not> value_eq u v then Some v else current_value rt d c))
    \<and> rt_revision rt' = rt_revision rt + (if value_eq u v then 0 else 1)
    \<and> rt_events rt' = (if \<not> value_eq u v \<and> perm_observe (cap_permissions cap)
         then dispatch (value_event now (cmd_device cmd) (cmd_capability cmd) v (rt_revision rt + 1)) (rt_events rt)
         else rt_events rt)"
proof -
  from write_value_ok [OF assms] obtain a cap h w1 where
    step: "write_begin cmd rt = Ok (a, cap, h)" "h cmd w = (w1, Ok v)" "admits cap v"
      "commit now a (cmd_device cmd) cap v rt w1 = (rt', w', Ok ())" .
  note started = write_begin_ok [OF assms(1) step(1)]
  from started(1) obtain g where
    "map_of (rt_devices rt) (cmd_device cmd) = Some a" "map_of (rt_heap rt) a = Some g"
    "map_of (reg_capabilities g) (cmd_capability cmd) = Some cap"
    by (auto simp: lookup_ok [OF assms(1)])
  with step started commit_effect [OF assms(1) started(1) step(4)] show ?thesis by fastforce
qed

theorem write_value_effect_witness:
  "current_value (fst (write_value 0 sample_command sample_runtime ())) ''virtual.switch'' ''on'' = Some (VBool True)
   \<and> rt_revision (fst (write_value 0 sample_command sample_runtime ())) = rt_revision sample_runtime + 1"
proof -
  define out where "out = write_value 0 sample_command sample_runtime ()"
  have "write_value 0 sample_command sample_runtime () = (fst out, fst (snd out), Ok (VBool True))"
    using sample_write by (simp add: out_def prod_eq_iff)
  from write_value_effect [OF sample_runtime_ok this] obtain u where
    "current_value sample_runtime ''virtual.switch'' ''on'' = Some u"
    "current_value (fst out) ''virtual.switch'' ''on'' =
       (if \<not> value_eq u (VBool True) then Some (VBool True) else current_value sample_runtime ''virtual.switch'' ''on'')"
    "rt_revision (fst out) = rt_revision sample_runtime + (if value_eq u (VBool True) then 0 else 1)"
    by (auto simp: sample_command_def)
  moreover have "current_value sample_runtime ''virtual.switch'' ''on'' = Some (VBool False)" by code_simp
  ultimately show ?thesis by (auto simp: out_def)
qed

text \<open>C32: a command, a publication or a registration that returns an error leaves the runtime as it
  was: no value, no revision, no device and no queue changes, on whichever path the error arose
  (refused request, failing handler, inadmissible answer or stored value, failing store).\<close>

theorem errors_leave_state:
  assumes "write_value now cmd rt w = (rt1, w1, Err e1)" and "publish now d c v rt w = (rt2, w2, Err e2)"
    and "register device h rt w = (rt3, w3, Err e3)"
  shows "rt1 = rt \<and> rt2 = rt \<and> rt3 = rt"
proof (intro conjI)
  show "rt1 = rt"
    using assms(1) write_finish_error_keeps by (fastforce simp: write_value_def split: sum.splits prod.splits)
  show "rt2 = rt" using assms(2) by (rule publish_error_keeps)
  show "rt3 = rt" using assms(3) by (cases rule: register_cases [of device h rt w]) simp_all
qed

theorem errors_leave_state_witness:
  "fst (write_value 0 (sample_command\<lparr>cmd_value := VString ''up''\<rparr>) sample_runtime ()) = sample_runtime
   \<and> fst (publish 0 ''virtual.switch'' ''level'' (VBool True) sample_runtime ()) = sample_runtime
   \<and> fst (register sample_device (Some sample_handler) sample_runtime ()) = sample_runtime"
proof -
  define out3 where "out3 = register sample_device (Some sample_handler) sample_runtime ()"
  have "snd (snd out3) = Err (AlreadyExists ''virtual.switch'')"
    unfolding out3_def by code_simp
  then have "register sample_device (Some sample_handler) sample_runtime () =
      (fst out3, fst (snd out3), Err (AlreadyExists ''virtual.switch''))"
    by (simp add: out3_def prod_eq_iff)
  note third = this
  define out1 where "out1 = write_value 0 (sample_command\<lparr>cmd_value := VString ''up''\<rparr>) sample_runtime ()"
  define out2 where "out2 = publish 0 ''virtual.switch'' ''level'' (VBool True) sample_runtime ()"
  have "snd (snd out1) = Err (InvalidValue (RejectedByModel (BuiltinKindRequired CAPABILITY_SWITCH_ON KBool KString)))"
    unfolding out1_def by code_simp
  then have "write_value 0 (sample_command\<lparr>cmd_value := VString ''up''\<rparr>) sample_runtime () =
      (fst out1, fst (snd out1), Err (InvalidValue (RejectedByModel (BuiltinKindRequired CAPABILITY_SWITCH_ON KBool KString))))"
    by (simp add: out1_def prod_eq_iff)
  moreover have "snd (snd out2) = Err (capability_not_found ''virtual.switch'' ''level'')"
    unfolding out2_def by code_simp
  then have "publish 0 ''virtual.switch'' ''level'' (VBool True) sample_runtime () =
      (fst out2, fst (snd out2), Err (capability_not_found ''virtual.switch'' ''level''))"
    by (simp add: out2_def prod_eq_iff)
  ultimately show ?thesis
    using errors_leave_state third by (simp add: out1_def out2_def out3_def)
qed

text \<open>C33: a subscriber that does not keep up never holds back the others. Dispatching an event
  appends it to every open queue with room; a full queue is detached with \<open>SlowConsumer\<close> and
  keeps what it had; a subscription with a closed receiver is removed; every other handle is
  untouched.\<close>

theorem dispatch_isolates_subscribers:
  assumes "hub_ok f n h"
  shows "(\<forall>i c. map_of (attached h) i = Some c \<longrightarrow>
      (ch_receiver_open c \<and> length (ch_queue c) < ch_capacity c \<longrightarrow>
         map_of (attached (dispatch e h)) i = Some (c\<lparr>ch_queue := ch_queue c @ [e]\<rparr>)) \<and>
      (ch_receiver_open c \<and> ch_capacity c \<le> length (ch_queue c) \<longrightarrow>
         map_of (attached (dispatch e h)) i = None \<and> queue_of i (dispatch e h) = ch_queue c
         \<and> hub_error i (dispatch e h) = Some SlowConsumer) \<and>
      (\<not> ch_receiver_open c \<longrightarrow>
         map_of (attached (dispatch e h)) i = None \<and> hub_error i (dispatch e h) = None))
    \<and> (\<forall>i. map_of (attached h) i = None \<longrightarrow> hub_channel (dispatch e h) i = hub_channel h i)"
proof -
  note ok = hub_okD [OF assms]
  show ?thesis
    using ok(4)
    by (auto simp: dispatch_attached dispatch_detached ok(1) hub_channel_def queue_of_def hub_error_def
        after_offer_def accepts_def set_terminal_def)
qed

definition sample_hub :: "event hub" where
  "sample_hub = dispatch (value_event 0 ''d'' ''c'' (VBool True) 1) (fst (hub_subscribe 1 hub_empty))"

theorem dispatch_isolates_subscribers_witness:
  "hub_error 1 (dispatch (value_event 0 ''d'' ''c'' (VBool False) 2) sample_hub) = Some SlowConsumer"
proof -
  have "hub_ok ev_revision 1 sample_hub"
    unfolding sample_hub_def
    by (rule hub_ok_dispatch [of _ 0])
       (auto simp: value_event_def valid_buffer_def MAX_SUBSCRIPTION_BUFFER_def intro!: hub_ok_subscribe)
  from dispatch_isolates_subscribers [OF this, of "value_event 0 ''d'' ''c'' (VBool False) 2"]
  show ?thesis
    by (simp add: sample_hub_def hub_subscribe_def hub_empty_def dispatch_def try_send_def Let_def)
qed

text \<open>C34: a registration that succeeds gives every capability its persisted value, or its initial value
  when none was persisted; it keeps every persisted entry, also those of capabilities the device
  no longer declares; it changes no other device, raises the revision by one and announces it to
  the topology subscribers.\<close>

theorem register_restores:
  assumes "rt_ok rt" and "register d h rt w = (rt', w', Ok ())"
  shows "\<exists>l a g. store_load (rt_store rt) (dev_id d) w = Ok l
    \<and> map_of (rt_devices rt') (dev_id d) = Some a \<and> map_of (rt_heap rt') a = Some g \<and> reg_definition g = d
    \<and> (\<forall>c \<in> set (dev_capabilities d).
         current_value rt' (dev_id d) (cap_id c) = Some (restored_value (loaded_values l) c))
    \<and> (\<forall>k v. map_of (loaded_values l) k = Some v \<longrightarrow> map_of (reg_persisted g) k = Some v)
    \<and> (\<forall>d' c. d' \<noteq> dev_id d \<longrightarrow> current_value rt' d' c = current_value rt d' c)
    \<and> rt_revision rt' = rt_revision rt + 1
    \<and> rt_topology rt' = dispatch \<lparr>top_revision = rt_revision rt + 1\<rparr> (rt_topology rt)"
proof (cases rule: register_cases [of d h rt w])
  case (registered r w1)
  note prep = register_prepare_ok [OF registered(1)]
  then obtain l where l: "store_load (rt_store rt) (dev_id d) w = Ok l"
    and restore: "restore_values (dev_id d) (dev_capabilities d)
       \<lparr>res_persisted = loaded_values l, res_current = [], res_capabilities = [], res_dirty = (l = None)\<rparr> = Ok r"
    by blast
  have dist: "distinct (map cap_id (dev_capabilities d))" using prep(1) by (simp add: device_ok_def)
  have rt': "rt' = register_insert d h r rt" using registered assms(2) by simp
  have "map_of (rt_heap rt) (rt_next_address rt) = None"
    using rt_okD(2) [OF assms(1)] by (metis less_irrefl option.exhaust)
  then have fresh: "map_of (rt_devices rt) d' \<noteq> Some (rt_next_address rt)" for d'
    using rt_okD(3) [OF assms(1)] by fastforce
  have "current_value rt' (dev_id d) (cap_id c) = Some (restored_value (loaded_values l) c)"
    if "c \<in> set (dev_capabilities d)" for c
    using restore_values_current [OF restore dist, of "cap_id c"] capability_by_id_cap [OF prep(1) that]
    by (simp add: rt' register_insert_def current_value_def capability_by_id_def Let_def)
  moreover have "current_value rt' d' c = current_value rt d' c" if "d' \<noteq> dev_id d" for d' c
    using that fresh [of d']
    by (cases "map_of (rt_devices rt) d'") (auto simp: rt' register_insert_def current_value_def Let_def)
  moreover have "map_of (res_persisted r) k = Some v" if "map_of (loaded_values l) k = Some v" for k v
    using restore_values_persisted [OF restore dist, of k] that by simp
  ultimately show ?thesis
    using l by (intro exI conjI) (auto simp: rt' register_insert_def Let_def bump_topology_def dispatch_topology_def)
qed (use assms in simp_all)

theorem register_restores_witness:
  "current_value (fst (register sample_device (Some sample_handler) (fst (start (runtime_new None))) ()))
     ''virtual.switch'' ''on'' = Some (VBool False)"
proof -
  define rt where "rt = fst (start (runtime_new (None :: unit state_store_ops option)))"
  define out where "out = register sample_device (Some sample_handler) rt ()"
  have "snd (snd out) = Ok ()" unfolding out_def rt_def by code_simp
  then have ran: "register sample_device (Some sample_handler) rt () = (fst out, fst (snd out), Ok ())"
    by (simp add: out_def prod_eq_iff)
  have "rt_ok rt" unfolding rt_def by (intro rt_ok_start rt_ok_new)
  from register_restores [OF this ran] obtain l where l: "store_load (rt_store rt) (dev_id sample_device) () = Ok l"
    and current: "\<forall>c \<in> set (dev_capabilities sample_device).
      current_value (fst out) (dev_id sample_device) (cap_id c) = Some (restored_value (loaded_values l) c)"
    by blast
  have "l = None" using l by (simp add: rt_def start_def runtime_new_def store_load_def)
  with current show ?thesis
    by (simp add: sample_device_def sample_capability_def restored_value_def loaded_values_def out_def rt_def)
qed

lemma delivered_detached:
  assumes "map_of (attached (rt_events rt)) i = None"
  shows "delivered i (replicate k (Recv i)) (rt, w) = take k (queue_of i (rt_events rt))"
  using assms
proof (induction k arbitrary: rt)
  case (Suc k)
  define h where "h = rt_events rt"
  have none: "map_of (attached h) i = None" using Suc.prems by (simp add: h_def)
  show ?case
  proof (cases "queue_of i h")
    case Nil
    then have "hub_recv i h = (h, Ended)"
      using none by (auto simp: queue_of_def hub_channel_def hub_recv_def split: option.splits)
    then show ?thesis using Suc Nil by (simp add: h_def)
  next
    case (Cons e q)
    then obtain c where "map_of (detached h) i = Some c" "ch_queue c = e # q"
      using none by (auto simp: queue_of_def hub_channel_def split: option.splits)
    then have recv: "snd (hub_recv i h) = Received e" "map_of (attached (fst (hub_recv i h))) i = None"
      "queue_of i (fst (hub_recv i h)) = q"
      using none by (simp_all add: hub_recv_def queue_of_def hub_channel_def)
    with Suc.IH [of "rt\<lparr>rt_events := fst (hub_recv i h)\<rparr>"] Cons show ?thesis
      by (simp add: h_def)
  qed
qed simp

text \<open>C35: stopping detaches every subscription with the terminal error \<open>Stopped\<close>, and loses nothing that
  was queued: the holder of a subscription still receives exactly the queued events, in order.
  Afterwards no device is registered and every request is answered with \<open>Stopped\<close>.\<close>

theorem stop_ends_subscriptions:
  assumes "rt_ok rt" and "rt_started rt"
  shows "(\<forall>i c. map_of (attached (rt_events rt)) i = Some c \<longrightarrow>
       hub_error i (rt_events (stop rt)) = Some Stopped
       \<and> delivered i (replicate (length (ch_queue c)) (Recv i)) (stop rt, w) = ch_queue c)
    \<and> (\<forall>i c. map_of (attached (rt_topology rt)) i = Some c \<longrightarrow> hub_error i (rt_topology (stop rt)) = Some Stopped)
    \<and> snap_devices (take_snapshot (stop rt)) = [] \<and> snap_subscriptions (take_snapshot (stop rt)) = 0
    \<and> read d k (stop rt) = Err Stopped \<and> snd (snd (write_value now cmd (stop rt) w)) = Err Stopped
    \<and> snd (snd (publish now d k v (stop rt) w)) = Err Stopped \<and> snd (unregister d (stop rt)) = Err Stopped"
proof -
  note ok = hub_okD [OF rt_okD(4) [OF assms(1)]] and ok' = hub_okD [OF rt_okD(5) [OF assms(1)]]
  have halted: "ensure_started (stop rt) = Err Stopped"
    using assms(2) by (simp add: stop_def ensure_started_def)
  have drained: "delivered i (replicate (length (ch_queue c)) (Recv i)) (stop rt, w) = ch_queue c"
    if "map_of (attached (rt_events rt)) i = Some c" for i c
    using that assms(2) ok(1)
    by (subst delivered_detached) (simp_all add: stop_def close_all_simps queue_of_def hub_channel_def set_terminal_def)
  show ?thesis
    using assms(2) ok(1) ok'(1) drained halted
    by (simp add: stop_def close_all_simps hub_error_def hub_channel_def set_terminal_def take_snapshot_def
        read_def write_value_def write_begin_def publish_def unregister_def lookup_def lookup_device_def)
qed

theorem stop_ends_subscriptions_witness:
  "hub_error 1 (rt_events (stop sample_runtime)) = Some Stopped"
proof -
  have "rt_started sample_runtime" by code_simp
  moreover have "\<exists>c. map_of (attached (rt_events sample_runtime)) 1 = Some c"
  proof -
    have "map_of (attached (rt_events sample_runtime)) 1 \<noteq> None" by code_simp
    then show ?thesis by blast
  qed
  ultimately show ?thesis
    using stop_ends_subscriptions [OF sample_runtime_ok] by blast
qed

end
