(* ===== verification/Storage.thy ===== *)
theory Storage
  imports Rust_Text
begin

text \<open>
  The namespaced key-value storage of \<open>crates/oikade-storage/src/store.rs\<close>: the binary key
  format, the bucket operations over the transactions of the database engine, schema
  initialisation and the checks of \<open>Storage::open\<close>. The engine (redb), the file system and
  the JSON library are parameters: records of operations, with what is relied on of them
  stated as a predicate (\<open>engine_ok\<close>).
\<close>

section \<open>Errors and names\<close>

datatype namespace = Devices | Plugins | Discovery

datatype storage_error =
    MissingStateDirectory
  | AmbiguousState string
  | UnsupportedEngine string
  | UnsupportedFormat nat nat
  | SchemaTooNew nat nat
  | InvalidName string
  | KeyNotFound
  | SymbolicLink string
  | NotDirectory string
  | Io string
  | Marker string
  | Engine string

definition validate_name :: "string \<Rightarrow> (storage_error, unit) result" where
  "validate_name name =
     (if name = [] then Err (InvalidName ''name is empty'')
      else if CHR ''/'' \<in> set name \<or> CHR 0x5C \<in> set name \<or> CHR 0x00 \<in> set name
      then Err (InvalidName ''name contains a path separator or NUL byte'')
      else Ok ())"

section \<open>The key format\<close>

definition push_length :: "string \<Rightarrow> nat \<Rightarrow> (storage_error, string) result" where
  "push_length target n =
     (if n < 2 ^ 32 then Ok (target @ be_bytes 4 n) else Err (InvalidName ''name is too large''))"

definition push_bytes :: "string \<Rightarrow> string \<Rightarrow> (storage_error, string) result" where
  "push_bytes target s = and_then (push_length target (length s)) (\<lambda>t. Ok (t @ s))"

fun push_all :: "string \<Rightarrow> string list \<Rightarrow> (storage_error, string) result" where
  "push_all target [] = Ok target"
| "push_all target (s # ss) = and_then (push_bytes target s) (\<lambda>t. push_all t ss)"

definition encode_key :: "string list \<Rightarrow> string \<Rightarrow> (storage_error, string) result" where
  "encode_key scopes key =
     and_then (push_length [] (length scopes)) (\<lambda>t.
     and_then (push_all t scopes) (\<lambda>t. push_bytes t key))"

definition take_length :: "string \<Rightarrow> (storage_error, nat \<times> string) result" where
  "take_length s =
     (if length s < 4 then Err (AmbiguousState ''database key has a truncated length'')
      else Ok (from_be (take 4 s), drop 4 s))"

definition take_string :: "string \<Rightarrow> (storage_error, string \<times> string) result" where
  "take_string s =
     and_then (take_length s) (\<lambda>(n, r).
       if length r < n then Err (AmbiguousState ''database key is truncated'')
       else if \<not> utf8_valid (take n r) then Err (AmbiguousState ''database key is not valid UTF-8'')
       else Ok (take n r, drop n r))"

fun take_strings :: "nat \<Rightarrow> string \<Rightarrow> (storage_error, string list \<times> string) result" where
  "take_strings 0 s = Ok ([], s)"
| "take_strings (Suc n) s =
     and_then (take_string s) (\<lambda>(x, r). and_then (take_strings n r) (\<lambda>(xs, r'). Ok (x # xs, r')))"

definition decode_key :: "string \<Rightarrow> (storage_error, string list \<times> string) result" where
  "decode_key s =
     and_then (take_length s) (\<lambda>(n, r).
     and_then (take_strings n r) (\<lambda>(scopes, r).
     and_then (take_string r) (\<lambda>(key, r).
       if r \<noteq> [] then Err (AmbiguousState ''database key has trailing bytes'') else Ok (scopes, key))))"

section \<open>The database engine\<close>

text \<open>
  The transactions that the sources use. \<open>eng_view\<close> and \<open>eng_tx_view\<close> are what the
  committed state and an open transaction contain; only \<open>engine_ok\<close> mentions them.
\<close>

type_synonym tables = "namespace \<Rightarrow> string \<Rightarrow> string option"

record ('db, 'tx) engine =
  eng_begin_write :: "'db \<Rightarrow> (string, 'tx) result"
  eng_insert :: "namespace \<Rightarrow> string \<Rightarrow> string \<Rightarrow> 'tx \<Rightarrow> (string, 'tx) result"
  eng_remove :: "namespace \<Rightarrow> string \<Rightarrow> 'tx \<Rightarrow> (string, 'tx \<times> string option) result"
  eng_commit :: "'tx \<Rightarrow> 'db \<Rightarrow> 'db \<times> (string, unit) result"
  eng_get :: "namespace \<Rightarrow> string \<Rightarrow> 'db \<Rightarrow> (string, string option) result"
  eng_iter :: "namespace \<Rightarrow> 'db \<Rightarrow> (string, (string \<times> string) list) result"
  eng_view :: "'db \<Rightarrow> tables"
  eng_tx_view :: "'tx \<Rightarrow> tables"

definition set_cell :: "namespace \<Rightarrow> string \<Rightarrow> string option \<Rightarrow> tables \<Rightarrow> tables" where
  "set_cell n k v t = t(n := (t n)(k := v))"

text \<open>
  A write transaction starts from the committed state and sees its own changes; a commit
  publishes them all, and a transaction whose commit fails or that is dropped changes nothing;
  reads return what is committed. Every operation may fail.
\<close>

definition engine_ok :: "('db, 'tx) engine \<Rightarrow> bool" where
  "engine_ok E \<longleftrightarrow>
     (\<forall>db tx. eng_begin_write E db = Ok tx \<longrightarrow> eng_tx_view E tx = eng_view E db)
     \<and> (\<forall>n k v tx tx'. eng_insert E n k v tx = Ok tx' \<longrightarrow> eng_tx_view E tx' = set_cell n k (Some v) (eng_tx_view E tx))
     \<and> (\<forall>n k tx tx' old. eng_remove E n k tx = Ok (tx', old) \<longrightarrow>
          old = eng_tx_view E tx n k \<and> eng_tx_view E tx' = set_cell n k None (eng_tx_view E tx))
     \<and> (\<forall>tx db db' r. eng_commit E tx db = (db', r) \<longrightarrow>
          eng_view E db' = (if is_ok r then eng_tx_view E tx else eng_view E db))
     \<and> (\<forall>n k db x. eng_get E n k db = Ok x \<longrightarrow> x = eng_view E db n k)
     \<and> (\<forall>n db es. eng_iter E n db = Ok es \<longrightarrow>
          distinct (map fst es) \<and> (\<forall>k v. (k, v) \<in> set es \<longleftrightarrow> eng_view E db n k = Some v))"

lemma engine_okD:
  assumes "engine_ok E"
  shows "eng_begin_write E db = Ok tx \<Longrightarrow> eng_tx_view E tx = eng_view E db"
    and "eng_insert E n k v tx = Ok tx' \<Longrightarrow> eng_tx_view E tx' = set_cell n k (Some v) (eng_tx_view E tx)"
    and "eng_remove E n k tx = Ok (tx', old) \<Longrightarrow>
          old = eng_tx_view E tx n k \<and> eng_tx_view E tx' = set_cell n k None (eng_tx_view E tx)"
    and "eng_commit E tx db = (db', r) \<Longrightarrow> eng_view E db' = (if is_ok r then eng_tx_view E tx else eng_view E db)"
    and "eng_get E n k db = Ok x \<Longrightarrow> x = eng_view E db n k"
    and "eng_iter E n db = Ok es \<Longrightarrow>
          distinct (map fst es) \<and> (\<forall>k v. (k, v) \<in> set es \<longleftrightarrow> eng_view E db n k = Some v)"
  using assms unfolding engine_ok_def by simp_all

section \<open>Buckets\<close>

record bucket =
  bk_namespace :: namespace
  bk_scopes :: "string list"

definition storage_bucket :: "namespace \<Rightarrow> bucket" where
  "storage_bucket n = \<lparr>bk_namespace = n, bk_scopes = []\<rparr>"

definition bucket_scope :: "string \<Rightarrow> bucket \<Rightarrow> (storage_error, bucket) result" where
  "bucket_scope name b =
     and_then (validate_name name) (\<lambda>_. Ok (b\<lparr>bk_scopes := bk_scopes b @ [name]\<rparr>))"

definition bucket_key :: "bucket \<Rightarrow> string \<Rightarrow> (storage_error, string) result" where
  "bucket_key b key = and_then (validate_name key) (\<lambda>_. encode_key (bk_scopes b) key)"

definition bucket_set ::
  "('db, 'tx) engine \<Rightarrow> bucket \<Rightarrow> string \<Rightarrow> string \<Rightarrow> 'db \<Rightarrow> 'db \<times> (storage_error, unit) result" where
  "bucket_set E b key v db =
     (case and_then (bucket_key b key) (\<lambda>k.
             and_then (map_err Engine (eng_begin_write E db)) (\<lambda>tx.
               map_err Engine (eng_insert E (bk_namespace b) k v tx))) of
        Err e \<Rightarrow> (db, Err e)
      | Ok tx \<Rightarrow> let (db', r) = eng_commit E tx db in (db', map_err Engine r))"

definition bucket_get ::
  "('db, 'tx) engine \<Rightarrow> bucket \<Rightarrow> string \<Rightarrow> 'db \<Rightarrow> (storage_error, string) result" where
  "bucket_get E b key db =
     and_then (bucket_key b key) (\<lambda>k.
     and_then (map_err Engine (eng_get E (bk_namespace b) k db)) (\<lambda>x. ok_or KeyNotFound x))"

definition bucket_delete ::
  "('db, 'tx) engine \<Rightarrow> bucket \<Rightarrow> string \<Rightarrow> 'db \<Rightarrow> 'db \<times> (storage_error, unit) result" where
  "bucket_delete E b key db =
     (case and_then (bucket_key b key) (\<lambda>k.
             and_then (map_err Engine (eng_begin_write E db)) (\<lambda>tx.
             and_then (map_err Engine (eng_remove E (bk_namespace b) k tx)) (\<lambda>(tx', old).
               if old = None then Err KeyNotFound else Ok tx'))) of
        Err e \<Rightarrow> (db, Err e)
      | Ok tx \<Rightarrow> let (db', r) = eng_commit E tx db in (db', map_err Engine r))"

definition keys_with_suffix ::
  "('db, 'tx) engine \<Rightarrow> bucket \<Rightarrow> string \<Rightarrow> 'db \<Rightarrow> (storage_error, string list) result" where
  "keys_with_suffix E b suffix db =
     and_then (map_err Engine (eng_iter E (bk_namespace b) db)) (\<lambda>es.
     and_then (collect (\<lambda>(k, _). decode_key k) es) (\<lambda>ks.
       Ok (sort (map snd (filter (\<lambda>(scopes, name). scopes = bk_scopes b \<and> ends_with suffix name) ks)))))"

section \<open>The key format is a bijection onto its image\<close>

lemma push_length_ok: "push_length t n = Ok t' \<longleftrightarrow> n < 2 ^ 32 \<and> t' = t @ be_bytes 4 n"
  by (auto simp: push_length_def)

lemma push_bytes_ok: "push_bytes t s = Ok t' \<longleftrightarrow> length s < 2 ^ 32 \<and> t' = t @ be_bytes 4 (length s) @ s"
  by (auto simp: push_bytes_def and_then_eq_Ok push_length_ok)

definition framed :: "string list \<Rightarrow> string" where
  "framed ss = concat (map (\<lambda>s. be_bytes 4 (length s) @ s) ss)"

lemma framed_simps [simp]:
  "framed [] = []"
  "framed (s # ss) = be_bytes 4 (length s) @ s @ framed ss"
  by (simp_all add: framed_def)

lemma push_all_ok: "push_all t ss = Ok t' \<longleftrightarrow> (\<forall>s \<in> set ss. length s < 2 ^ 32) \<and> t' = t @ framed ss"
  by (induction t ss rule: push_all.induct) (auto simp: and_then_eq_Ok push_bytes_ok)

lemma encode_key_ok:
  "encode_key scopes key = Ok k \<longleftrightarrow> length scopes < 2 ^ 32 \<and> (\<forall>s \<in> set scopes. length s < 2 ^ 32)
     \<and> length key < 2 ^ 32 \<and> k = be_bytes 4 (length scopes) @ framed scopes @ be_bytes 4 (length key) @ key"
  by (auto simp: encode_key_def and_then_eq_Ok push_length_ok push_all_ok push_bytes_ok)

lemma take_length_be: "n < 2 ^ 32 \<Longrightarrow> take_length (be_bytes 4 n @ r) = Ok (n, r)"
  by (simp add: take_length_def from_be_be_bytes)

lemma take_string_be:
  "length s < 2 ^ 32 \<Longrightarrow> utf8_valid s \<Longrightarrow> take_string (be_bytes 4 (length s) @ s @ r) = Ok (s, r)"
  by (simp add: take_string_def take_length_be)

lemma take_strings_framed:
  "\<forall>s \<in> set ss. length s < 2 ^ 32 \<and> utf8_valid s \<Longrightarrow> take_strings (length ss) (framed ss @ r) = Ok (ss, r)"
  by (induction ss) (simp_all add: take_string_be)

lemma decode_encode_key:
  assumes "encode_key scopes key = Ok k" and "list_all utf8_valid scopes" and "utf8_valid key"
  shows "decode_key k = Ok (scopes, key)"
proof -
  have k: "k = be_bytes 4 (length scopes) @ framed scopes @ be_bytes 4 (length key) @ key"
    and fits: "length scopes < 2 ^ 32" "\<forall>s \<in> set scopes. length s < 2 ^ 32" "length key < 2 ^ 32"
    using assms(1) by (simp_all add: encode_key_ok)
  have "take_strings (length scopes) (framed scopes @ be_bytes 4 (length key) @ key) =
      Ok (scopes, be_bytes 4 (length key) @ key)"
    using fits(2) assms(2) by (intro take_strings_framed) (auto simp: list_all_iff)
  moreover have "take_string (be_bytes 4 (length key) @ key) = Ok (key, [])"
    using take_string_be [OF fits(3) assms(3), of "[]"] by simp
  ultimately show ?thesis
    using fits(1) by (simp add: decode_key_def k take_length_be)
qed

text \<open>Injectivity does not need UTF-8: the framing alone separates the parts.\<close>

lemma be_bytes_inj: "m < 256 ^ w \<Longrightarrow> n < 256 ^ w \<Longrightarrow> be_bytes w m = be_bytes w n \<longleftrightarrow> m = n"
  by (metis from_be_be_bytes mod_less)

lemma be4_inj: "m < 2 ^ 32 \<Longrightarrow> n < 2 ^ 32 \<Longrightarrow> be_bytes 4 m = be_bytes 4 n \<longleftrightarrow> m = n"
  using be_bytes_inj [of m 4 n] by simp

lemma framed_inj:
  assumes "\<forall>s \<in> set ss. length s < 2 ^ 32" and "\<forall>s \<in> set ts. length s < 2 ^ 32"
    and "length ss = length ts" and "framed ss @ r = framed ts @ r'"
  shows "ss = ts \<and> r = r'"
  using assms(3,1,2,4)
proof (induction ss ts rule: list_induct2)
  case (Cons s ss t ts)
  have "be_bytes 4 (length s) = be_bytes 4 (length t)" "s @ framed ss @ r = t @ framed ts @ r'"
    using Cons.prems(3) by (simp_all add: append_eq_append_conv)
  with Cons.prems(1,2) have "length s = length t" by (simp add: be4_inj)
  with \<open>s @ framed ss @ r = t @ framed ts @ r'\<close> Cons show ?case by simp
qed simp

lemma encode_key_inj:
  assumes "encode_key scopes key = Ok k" and "encode_key scopes' key' = Ok k"
  shows "scopes = scopes' \<and> key = key'"
proof -
  have "be_bytes 4 (length scopes) @ framed scopes @ be_bytes 4 (length key) @ key =
      be_bytes 4 (length scopes') @ framed scopes' @ be_bytes 4 (length key') @ key'"
    using assms by (simp add: encode_key_ok)
  then have len: "be_bytes 4 (length scopes) = be_bytes 4 (length scopes')"
    and rest: "framed scopes @ be_bytes 4 (length key) @ key = framed scopes' @ be_bytes 4 (length key') @ key'"
    by (simp_all add: append_eq_append_conv)
  with assms have same: "length scopes = length scopes'" by (simp add: encode_key_ok be4_inj)
  have "scopes = scopes' \<and> be_bytes 4 (length key) @ key = be_bytes 4 (length key') @ key'"
    by (rule framed_inj [OF _ _ same rest]) (use assms in \<open>simp_all add: encode_key_ok\<close>)
  then show ?thesis by (simp add: append_eq_append_conv)
qed

section \<open>Buckets as maps\<close>

text \<open>What the clients of a bucket rely on.\<close>

locale kv_bucket =
  fixes kv_set :: "string \<Rightarrow> string \<Rightarrow> 'db \<Rightarrow> 'db \<times> (storage_error, unit) result"
    and kv_get :: "string \<Rightarrow> 'db \<Rightarrow> (storage_error, string) result"
    and kv_delete :: "string \<Rightarrow> 'db \<Rightarrow> 'db \<times> (storage_error, unit) result"
    and kv_ok :: "'db \<Rightarrow> bool"
    and kv_content :: "'db \<Rightarrow> string \<Rightarrow> string option"
  assumes set_done: "kv_ok db \<Longrightarrow> kv_set k v db = (db', Ok ()) \<Longrightarrow> kv_content db' = (kv_content db)(k \<mapsto> v)"
    and set_failed: "kv_ok db \<Longrightarrow> kv_set k v db = (db', Err e) \<Longrightarrow> kv_content db' = kv_content db"
    and get_found: "kv_ok db \<Longrightarrow> kv_get k db = Ok v \<Longrightarrow> kv_content db k = Some v"
    and get_absent: "kv_ok db \<Longrightarrow> kv_get k db = Err KeyNotFound \<Longrightarrow> kv_content db k = None"
    and delete_done: "kv_ok db \<Longrightarrow> kv_delete k db = (db', Ok ()) \<Longrightarrow>
          kv_content db k \<noteq> None \<and> kv_content db' = (kv_content db)(k := None)"
    and delete_failed: "kv_ok db \<Longrightarrow> kv_delete k db = (db', Err e) \<Longrightarrow> kv_content db' = kv_content db"
    and ok_set: "kv_ok db \<Longrightarrow> kv_ok (fst (kv_set k v db))"
    and ok_delete: "kv_ok db \<Longrightarrow> kv_ok (fst (kv_delete k db))"
begin

lemma get_after_set:
  assumes "kv_ok db" and "kv_set k v db = (db', Ok ())" and "kv_get k' db' = Ok u"
  shows "if k' = k then u = v else kv_content db k' = Some u"
proof -
  have "kv_ok db'" using ok_set [OF assms(1), of k v] assms(2) by simp
  from get_found [OF this assms(3)] set_done [OF assms(1,2)] show ?thesis by (auto split: if_splits)
qed

lemma delete_after_set:
  assumes "kv_ok db" and "kv_content db k = None" and "kv_set k v db = (db1, Ok ())"
    and "kv_delete k db1 = (db2, Ok ())"
  shows "kv_content db2 = kv_content db"
proof -
  have "kv_ok db1" using ok_set [OF assms(1), of k v] assms(3) by simp
  from delete_done [OF this assms(4)] set_done [OF assms(1,3)] assms(2) show ?thesis by auto
qed

end

definition bucket_content :: "('db, 'tx) engine \<Rightarrow> bucket \<Rightarrow> 'db \<Rightarrow> string \<Rightarrow> string option" where
  "bucket_content E b db key =
     (case bucket_key b key of Ok k \<Rightarrow> eng_view E db (bk_namespace b) k | Err _ \<Rightarrow> None)"

lemma bucket_key_inj: "bucket_key b key = Ok k \<Longrightarrow> bucket_key b' key' = Ok k \<Longrightarrow> bk_scopes b = bk_scopes b' \<and> key = key'"
  by (auto simp: bucket_key_def and_then_eq_Ok dest: encode_key_inj)

lemma bucket_set_done:
  assumes "engine_ok E" and "bucket_set E b key v db = (db', Ok ())"
  obtains k where "bucket_key b key = Ok k" and "eng_view E db' = set_cell (bk_namespace b) k (Some v) (eng_view E db)"
proof -
  from assms(2) obtain k tx tx' where step: "bucket_key b key = Ok k" "eng_begin_write E db = Ok tx"
      "eng_insert E (bk_namespace b) k v tx = Ok tx'" "eng_commit E tx' db = (db', Ok ())"
    by (auto simp: bucket_set_def and_then_eq_Ok split: sum.splits prod.splits)
  have "eng_view E db' = set_cell (bk_namespace b) k (Some v) (eng_view E db)"
    using engine_okD(1) [OF assms(1) step(2)] engine_okD(2) [OF assms(1) step(3)]
      engine_okD(4) [OF assms(1) step(4)] by simp
  with step(1) that show ?thesis by blast
qed

lemma bucket_set_failed:
  "engine_ok E \<Longrightarrow> bucket_set E b key v db = (db', Err e) \<Longrightarrow> eng_view E db' = eng_view E db"
  by (auto simp: bucket_set_def map_err_eq_Err dest: engine_okD(4) split: sum.splits prod.splits)

lemma bucket_delete_done:
  assumes "engine_ok E" and "bucket_delete E b key db = (db', Ok ())"
  obtains k where "bucket_key b key = Ok k" and "eng_view E db (bk_namespace b) k \<noteq> None"
    and "eng_view E db' = set_cell (bk_namespace b) k None (eng_view E db)"
proof -
  from assms(2) obtain k tx tx' old where step: "bucket_key b key = Ok k" "eng_begin_write E db = Ok tx"
      "eng_remove E (bk_namespace b) k tx = Ok (tx', old)" "old \<noteq> None" "eng_commit E tx' db = (db', Ok ())"
    by (auto simp: bucket_delete_def and_then_eq_Ok split: sum.splits prod.splits if_splits)
  have "old = eng_view E db (bk_namespace b) k"
    and "eng_view E db' = set_cell (bk_namespace b) k None (eng_view E db)"
    using engine_okD(1) [OF assms(1) step(2)] engine_okD(3) [OF assms(1) step(3)]
      engine_okD(4) [OF assms(1) step(5)] by simp_all
  with step(1,4) show ?thesis by (intro that [of k]) simp_all
qed

lemma bucket_delete_failed:
  "engine_ok E \<Longrightarrow> bucket_delete E b key db = (db', Err e) \<Longrightarrow> eng_view E db' = eng_view E db"
  by (auto simp: bucket_delete_def map_err_eq_Err dest: engine_okD(4) split: sum.splits prod.splits)

lemma bucket_content_set_cell:
  assumes "bucket_key b key = Ok k" and "eng_view E db' = set_cell (bk_namespace b) k v (eng_view E db)"
  shows "bucket_content E b db' = (bucket_content E b db)(key := v)"
  using assms bucket_key_inj
  by (fastforce simp: bucket_content_def set_cell_def fun_eq_iff split: sum.splits)

lemma bucket_content_cong:
  "eng_view E db' = eng_view E db \<Longrightarrow> bucket_content E b db' = bucket_content E b db"
  by (intro ext) (simp add: bucket_content_def split: sum.split)

lemma bucket_get_ok:
  "engine_ok E \<Longrightarrow> bucket_get E b key db = Ok v \<Longrightarrow> bucket_content E b db key = Some v"
  by (auto simp: bucket_get_def bucket_content_def and_then_eq_Ok dest!: engine_okD(5))

lemma push_errors:
  "push_length t n = Err e \<Longrightarrow> e = InvalidName ''name is too large''"
  "push_bytes t x = Err e \<Longrightarrow> e = InvalidName ''name is too large''"
  "push_all t xs = Err e \<Longrightarrow> e = InvalidName ''name is too large''"
proof -
  show len: "push_length t n = Err e \<Longrightarrow> e = InvalidName ''name is too large''" for t n
    by (simp add: push_length_def split: if_splits)
  show bytes: "push_bytes t x = Err e \<Longrightarrow> e = InvalidName ''name is too large''" for t x
    by (auto simp: push_bytes_def and_then_eq_Err dest: len)
  show "push_all t xs = Err e \<Longrightarrow> e = InvalidName ''name is too large''"
    by (induction t xs rule: push_all.induct) (auto simp: and_then_eq_Err dest: bytes)
qed

lemma bucket_key_error: "bucket_key b key \<noteq> Err KeyNotFound"
  by (auto simp: bucket_key_def validate_name_def encode_key_def and_then_eq_Err dest: push_errors split: if_splits)

lemma bucket_get_absent:
  "engine_ok E \<Longrightarrow> bucket_get E b key db = Err KeyNotFound \<Longrightarrow> bucket_content E b db key = None"
  by (auto simp: bucket_get_def bucket_content_def and_then_eq_Err map_err_eq_Err bucket_key_error
      dest!: engine_okD(5))

interpretation bucket: kv_bucket "bucket_set E b" "bucket_get E b" "bucket_delete E b"
    "\<lambda>_. engine_ok E" "bucket_content E b" for E b
proof unfold_locales
  show "bucket_content E b db' = (bucket_content E b db)(k \<mapsto> v)"
    if "engine_ok E" "bucket_set E b k v db = (db', Ok ())" for db k v db'
    using bucket_set_done [OF that] bucket_content_set_cell by metis
  show "bucket_content E b db' = bucket_content E b db"
    if "engine_ok E" "bucket_set E b k v db = (db', Err e)" for db k v db' e
    by (rule bucket_content_cong [OF bucket_set_failed [OF that]])
  show "bucket_content E b db k \<noteq> None \<and> bucket_content E b db' = (bucket_content E b db)(k := None)"
    if "engine_ok E" "bucket_delete E b k db = (db', Ok ())" for db k db'
  proof -
    from bucket_delete_done [OF that] obtain x where x: "bucket_key b k = Ok x"
        "eng_view E db (bk_namespace b) x \<noteq> None"
        "eng_view E db' = set_cell (bk_namespace b) x None (eng_view E db)" .
    with bucket_content_set_cell [OF x(1,3)] show ?thesis by (simp add: bucket_content_def)
  qed
  show "bucket_content E b db' = bucket_content E b db"
    if "engine_ok E" "bucket_delete E b k db = (db', Err e)" for db k db' e
    by (rule bucket_content_cong [OF bucket_delete_failed [OF that]])
qed (simp_all add: bucket_get_ok bucket_get_absent)

section \<open>Opening the state directory\<close>

text \<open>
  The directory, the marker, its temporary file and the database as \<open>open\<close> finds them,
  with the schema version of the metadata table. \<open>io\<close> says which file-system or engine
  call fails and with what message; \<open>mc\<close> is the JSON codec of the marker.
\<close>

definition ENGINE :: string where "ENGINE = ''redb''"
definition STATE_FORMAT :: nat where "STATE_FORMAT = 1"
definition SCHEMA_VERSION :: nat where "SCHEMA_VERSION = 1"

datatype file_kind = Missing | RegularFile | Directory | Symlink

datatype io_step =
    CurrentDirectory | InspectDirectory | CreateDirectory | SecureDirectory | InspectMarker | InspectDatabase
  | ProbeMarker | ProbeDatabase
  | ReadMarker | CreateDatabase | SecureDatabase | BeginSchema | ReadSchema | CommitSchema
  | InspectTemporary | CreateTemporary | WriteTemporary | RenameMarker | SyncDirectory

record state_marker =
  mk_engine :: string
  mk_format :: nat

record marker_codec =
  mc_encode :: "state_marker \<Rightarrow> (string, string) result"
  mc_decode :: "string \<Rightarrow> (string, state_marker) result"

record disk =
  dk_directory :: file_kind
  dk_marker :: file_kind
  dk_marker_bytes :: string
  dk_temporary :: file_kind
  dk_database :: file_kind
  dk_schema :: "string option"

type_synonym faults = "io_step \<Rightarrow> string option"

definition io_try :: "faults \<Rightarrow> io_step \<Rightarrow> (storage_error, unit) result" where
  "io_try io s = (case io s of None \<Rightarrow> Ok () | Some m \<Rightarrow> Err (Io m))"

definition engine_try :: "faults \<Rightarrow> io_step \<Rightarrow> (storage_error, unit) result" where
  "engine_try io s = (case io s of None \<Rightarrow> Ok () | Some m \<Rightarrow> Err (Engine m))"

definition reject_symlink_if_present :: "faults \<Rightarrow> io_step \<Rightarrow> string \<Rightarrow> file_kind \<Rightarrow> (storage_error, unit) result" where
  "reject_symlink_if_present io s path k =
     (case k of
        Missing \<Rightarrow> Ok ()
      | _ \<Rightarrow> and_then (io_try io s) (\<lambda>_. reject (k = Symlink) (SymbolicLink path)))"

text \<open>\<open>absolute_path\<close> asks for the working directory when the supplied path is relative.\<close>

definition absolute_path :: "faults \<Rightarrow> string \<Rightarrow> (storage_error, unit) result" where
  "absolute_path io path = (if starts_with ''/'' path then Ok () else io_try io CurrentDirectory)"

definition prepare_state_directory :: "faults \<Rightarrow> disk \<Rightarrow> disk \<times> (storage_error, unit) result" where
  "prepare_state_directory io dk =
     (case and_then (reject_symlink_if_present io InspectDirectory ''state'' (dk_directory dk)) (\<lambda>_.
            and_then (io_try io CreateDirectory) (\<lambda>_.
              reject (dk_directory dk = RegularFile) (Io ''File exists''))) of
        Err e \<Rightarrow> (dk, Err e)
      | Ok _ \<Rightarrow> (dk\<lparr>dk_directory := Directory\<rparr>, io_try io SecureDirectory))"

definition decode_schema_version :: "string \<Rightarrow> (storage_error, nat) result" where
  "decode_schema_version s =
     (if length s = 8 then Ok (from_be s)
      else Err (AmbiguousState ''database schema version has invalid encoding''))"

definition validate_marker :: "state_marker \<Rightarrow> (storage_error, unit) result" where
  "validate_marker m =
     (if mk_engine m \<noteq> ENGINE then Err (UnsupportedEngine (mk_engine m))
      else reject (mk_format m \<noteq> STATE_FORMAT) (UnsupportedFormat (mk_format m) STATE_FORMAT))"

definition read_marker :: "marker_codec \<Rightarrow> faults \<Rightarrow> disk \<Rightarrow> (storage_error, state_marker) result" where
  "read_marker mc io dk =
     and_then (io_try io ReadMarker) (\<lambda>_. map_err Marker (mc_decode mc (dk_marker_bytes dk)))"

text \<open>One write transaction: an error before the commit drops it and changes nothing.\<close>

definition initialize_schema :: "faults \<Rightarrow> disk \<Rightarrow> disk \<times> (storage_error, unit) result" where
  "initialize_schema io dk =
     (case and_then (engine_try io BeginSchema) (\<lambda>_.
            and_then (engine_try io ReadSchema) (\<lambda>_.
            and_then (case dk_schema dk of None \<Rightarrow> Ok 0 | Some s \<Rightarrow> decode_schema_version s) (\<lambda>current.
            and_then (reject (current > SCHEMA_VERSION) (SchemaTooNew current SCHEMA_VERSION)) (\<lambda>_.
            and_then (engine_try io CommitSchema) (\<lambda>_. Ok current))))) of
        Err e \<Rightarrow> (dk, Err e)
      | Ok current \<Rightarrow>
          ((if current < 1 then dk\<lparr>dk_schema := Some (be_bytes 8 SCHEMA_VERSION)\<rparr> else dk), Ok ()))"

definition write_marker :: "marker_codec \<Rightarrow> faults \<Rightarrow> state_marker \<Rightarrow> disk \<Rightarrow> disk \<times> (storage_error, unit) result" where
  "write_marker mc io m dk =
     (case and_then (map_err Marker (mc_encode mc m)) (\<lambda>bytes.
            and_then (reject_symlink_if_present io InspectTemporary ''temporary'' (dk_temporary dk)) (\<lambda>_.
            and_then (io_try io CreateTemporary) (\<lambda>_.
            and_then (reject (dk_temporary dk \<noteq> Missing) (Io ''File exists'')) (\<lambda>_. Ok bytes)))) of
        Err e \<Rightarrow> (dk, Err e)
      | Ok bytes \<Rightarrow>
          (case and_then (io_try io WriteTemporary) (\<lambda>_. io_try io RenameMarker) of
             Err e \<Rightarrow> (dk\<lparr>dk_temporary := RegularFile\<rparr>, Err e)
           | Ok _ \<Rightarrow> (dk\<lparr>dk_marker := RegularFile, dk_marker_bytes := bytes @ [CHR 0x0A]\<rparr>,
               io_try io SyncDirectory)))"

text \<open>The decision on what is present, and the marker that must be valid before the database is touched.\<close>

definition open_checks :: "marker_codec \<Rightarrow> faults \<Rightarrow> disk \<Rightarrow> (storage_error, bool) result" where
  "open_checks mc io dk =
     and_then (reject_symlink_if_present io InspectMarker ''marker'' (dk_marker dk)) (\<lambda>_.
     and_then (reject_symlink_if_present io InspectDatabase ''database'' (dk_database dk)) (\<lambda>_.
     and_then (io_try io ProbeMarker) (\<lambda>_.
     and_then (io_try io ProbeDatabase) (\<lambda>_.
     and_then (case (dk_marker dk \<noteq> Missing, dk_database dk \<noteq> Missing) of
                 (False, False) \<Rightarrow> Ok True
               | (True, True) \<Rightarrow> Ok False
               | (True, False) \<Rightarrow> Err (AmbiguousState ''marker exists but database does not'')
               | (False, True) \<Rightarrow> Err (AmbiguousState ''database exists without marker'')) (\<lambda>fresh.
     and_then (if fresh then Ok () else and_then (read_marker mc io dk) validate_marker) (\<lambda>_.
       Ok fresh))))))"

definition open_database :: "faults \<Rightarrow> disk \<Rightarrow> disk \<times> (storage_error, unit) result" where
  "open_database io dk =
     (case engine_try io CreateDatabase of
        Err e \<Rightarrow> (dk, Err e)
      | Ok _ \<Rightarrow>
          let dk1 = dk\<lparr>dk_database := (if dk_database dk = Missing then RegularFile else dk_database dk)\<rparr>
          in case io_try io SecureDatabase of
               Err e \<Rightarrow> (dk1, Err e)
             | Ok _ \<Rightarrow> initialize_schema io dk1)"

definition open_storage :: "marker_codec \<Rightarrow> faults \<Rightarrow> string \<Rightarrow> disk \<Rightarrow> disk \<times> (storage_error, unit) result" where
  "open_storage mc io supplied dk =
     (if supplied = [] then (dk, Err MissingStateDirectory)
      else case absolute_path io supplied of Err e \<Rightarrow> (dk, Err e)
      | Ok _ \<Rightarrow> case prepare_state_directory io dk of
        (dk1, Err e) \<Rightarrow> (dk1, Err e)
      | (dk1, Ok _) \<Rightarrow>
          (case open_checks mc io dk1 of
             Err e \<Rightarrow> (dk1, Err e)
           | Ok fresh \<Rightarrow>
               (case open_database io dk1 of
                  (dk2, Err e) \<Rightarrow> (dk2, Err e)
                | (dk2, Ok _) \<Rightarrow>
                    if fresh then write_marker mc io \<lparr>mk_engine = ENGINE, mk_format = STATE_FORMAT\<rparr> dk2
                    else (dk2, Ok ()))))"

lemma io_try_ok: "io_try io s = Ok u \<longleftrightarrow> io s = None"
  by (simp add: io_try_def split: option.splits)

lemma engine_try_ok: "engine_try io s = Ok u \<longleftrightarrow> io s = None"
  by (simp add: engine_try_def split: option.splits)

lemma reject_symlink_ok: "reject_symlink_if_present io s p k = Ok u \<longleftrightarrow> k = Missing \<or> (io s = None \<and> k \<noteq> Symlink)"
  by (cases k) (auto simp: reject_symlink_if_present_def and_then_eq_Ok io_try_ok)

definition own_marker :: state_marker where
  "own_marker = \<lparr>mk_engine = ENGINE, mk_format = STATE_FORMAT\<rparr>"

lemma validate_marker_ok: "validate_marker m = Ok () \<longleftrightarrow> m = own_marker"
  by (cases m) (auto simp: validate_marker_def own_marker_def)

lemma prepare_keeps:
  "fst (prepare_state_directory io dk) = dk \<or> fst (prepare_state_directory io dk) = dk\<lparr>dk_directory := Directory\<rparr>"
  by (auto simp: prepare_state_directory_def split: sum.splits)

lemma open_checks_ok:
  assumes "open_checks mc io dk = Ok fresh"
  shows "fresh = (dk_marker dk = Missing)" and "(dk_marker dk = Missing) = (dk_database dk = Missing)"
    and "\<not> fresh \<Longrightarrow> mc_decode mc (dk_marker_bytes dk) = Ok own_marker"
    and "dk_marker dk \<noteq> Symlink" and "dk_database dk \<noteq> Symlink"
  using assms
  by (auto simp: open_checks_def and_then_eq_Ok reject_symlink_ok read_marker_def validate_marker_ok
      split: bool.splits if_splits)

lemma initialize_schema_fields:
  "dk_marker (fst (initialize_schema io dk)) = dk_marker dk"
  "dk_marker_bytes (fst (initialize_schema io dk)) = dk_marker_bytes dk"
  "dk_database (fst (initialize_schema io dk)) = dk_database dk"
  "dk_directory (fst (initialize_schema io dk)) = dk_directory dk"
  "dk_temporary (fst (initialize_schema io dk)) = dk_temporary dk"
  by (auto simp: initialize_schema_def split: sum.splits)

lemma open_database_fields:
  "dk_marker (fst (open_database io dk)) = dk_marker dk"
  "dk_marker_bytes (fst (open_database io dk)) = dk_marker_bytes dk"
  "dk_directory (fst (open_database io dk)) = dk_directory dk"
  "dk_temporary (fst (open_database io dk)) = dk_temporary dk"
  by (auto simp: open_database_def initialize_schema_fields Let_def split: sum.splits)

definition schema_current :: "disk \<Rightarrow> bool" where
  "schema_current dk \<longleftrightarrow> (\<exists>s. dk_schema dk = Some s \<and> decode_schema_version s = Ok SCHEMA_VERSION)"

lemma own_schema_decodes: "decode_schema_version (be_bytes 8 SCHEMA_VERSION) = Ok SCHEMA_VERSION"
  by (simp add: decode_schema_version_def from_be_be_bytes SCHEMA_VERSION_def)

lemma initialize_schema_ok:
  assumes "initialize_schema io dk = (dk', Ok ())"
  shows "schema_current dk'"
proof -
  obtain current where c: "(case dk_schema dk of None \<Rightarrow> Ok 0 | Some s \<Rightarrow> decode_schema_version s) = Ok current"
      "current \<le> SCHEMA_VERSION"
      "dk' = (if current < 1 then dk\<lparr>dk_schema := Some (be_bytes 8 SCHEMA_VERSION)\<rparr> else dk)"
    using assms by (auto simp: initialize_schema_def and_then_eq_Ok split: sum.splits)
  show ?thesis
  proof (cases "current < 1")
    case True
    with c(3) own_schema_decodes show ?thesis by (simp add: schema_current_def)
  next
    case False
    with c(2) have "current = SCHEMA_VERSION" by (simp add: SCHEMA_VERSION_def)
    with False c(1,3) show ?thesis
      by (cases "dk_schema dk") (simp_all add: schema_current_def)
  qed
qed

lemma open_database_ok:
  assumes "open_database io dk = (dk', Ok ())" and "dk_database dk \<noteq> Symlink"
  shows "schema_current dk'" and "dk_database dk' \<noteq> Missing" and "dk_database dk' \<noteq> Symlink"
proof -
  define dk1 where "dk1 = dk\<lparr>dk_database := (if dk_database dk = Missing then RegularFile else dk_database dk)\<rparr>"
  have run: "initialize_schema io dk1 = (dk', Ok ())"
    using assms(1) by (auto simp: open_database_def dk1_def Let_def split: sum.splits)
  show "schema_current dk'" using run by (rule initialize_schema_ok)
  show "dk_database dk' \<noteq> Missing" "dk_database dk' \<noteq> Symlink"
    using initialize_schema_fields(3) [of io dk1] run assms(2) by (auto simp: dk1_def)
qed

lemma open_storage_cases:
  obtains (early) dk1 e where "dk1 = dk \<or> dk1 = dk\<lparr>dk_directory := Directory\<rparr>"
      "open_storage mc io p dk = (dk1, Err e)"
  | (checked) fresh dk2 r where "p \<noteq> []" "open_checks mc io (dk\<lparr>dk_directory := Directory\<rparr>) = Ok fresh"
      "open_database io (dk\<lparr>dk_directory := Directory\<rparr>) = (dk2, r)"
      "open_storage mc io p dk = (case r of Err e \<Rightarrow> (dk2, Err e)
         | Ok _ \<Rightarrow> if fresh then write_marker mc io own_marker dk2 else (dk2, Ok ()))"
proof -
  let ?dk = "dk\<lparr>dk_directory := Directory\<rparr>"
  obtain dk1 r1 where prep: "prepare_state_directory io dk = (dk1, r1)" by fastforce
  have dk1: "dk1 = dk \<or> dk1 = ?dk" and dir: "r1 = Ok () \<Longrightarrow> dk1 = ?dk"
    using prepare_keeps [of io dk] prep by (auto simp: prepare_state_directory_def split: sum.splits)
  consider "\<exists>e. open_storage mc io p dk = (dk, Err e)" | "p \<noteq> []" "absolute_path io p = Ok ()"
    by (cases "absolute_path io p"; cases "p = []") (simp_all add: open_storage_def)
  then show ?thesis
  proof cases
    case 1
    then show ?thesis using that(1) by blast
  next
    case 2
    show ?thesis
    proof (cases "r1 = Ok () \<and> is_ok (open_checks mc io dk1)")
      case False
      then have "\<exists>e. open_storage mc io p dk = (dk1, Err e)"
        using 2 prep by (cases r1; cases "open_checks mc io dk1") (simp_all add: open_storage_def)
      then show ?thesis using dk1 that(1) by blast
    next
      case True
      then obtain fresh where "open_checks mc io dk1 = Ok fresh" by (auto simp: is_ok_iff)
      moreover obtain dk2 r where "open_database io dk1 = (dk2, r)" by fastforce
      ultimately show ?thesis
        using 2 True prep dir
        by (intro that(2)) (auto simp: open_storage_def own_marker_def split: sum.splits)
    qed
  qed
qed

lemma initialize_schema_newer:
  assumes "dk_schema dk = Some s" and "decode_schema_version s = Ok n" and "n > SCHEMA_VERSION"
  shows "\<exists>e. initialize_schema io dk = (dk, Err e)"
proof (cases "initialize_schema io dk")
  case (Pair dk' r)
  with assms show ?thesis
    by (cases r) (auto simp: initialize_schema_def and_then_eq_Ok split: sum.splits)
qed

text \<open>What \<open>open\<close> must not touch: one file without the other, a marker of another engine or
  format, or a schema from a newer build.\<close>

definition foreign_state :: "marker_codec \<Rightarrow> disk \<Rightarrow> bool" where
  "foreign_state mc dk \<longleftrightarrow>
     (dk_marker dk = Missing) \<noteq> (dk_database dk = Missing)
     \<or> (dk_marker dk \<noteq> Missing \<and> mc_decode mc (dk_marker_bytes dk) \<noteq> Ok own_marker)
     \<or> (dk_database dk \<noteq> Missing \<and>
          (\<exists>s n. dk_schema dk = Some s \<and> decode_schema_version s = Ok n \<and> n > SCHEMA_VERSION))"

definition storage_codec :: marker_codec where
  "storage_codec = \<lparr>mc_encode = (\<lambda>m. Ok (mk_engine m @ digits (mk_format m))),
     mc_decode = (\<lambda>s. if s = ''redb1'' @ [CHR 0x0A] then Ok own_marker else Err ''invalid marker'')\<rparr>"

definition empty_disk :: disk where
  "empty_disk = \<lparr>dk_directory = Missing, dk_marker = Missing, dk_marker_bytes = [], dk_temporary = Missing,
     dk_database = Missing, dk_schema = None\<rparr>"

text \<open>The engine as ordered tables in memory.\<close>

definition memory_engine :: "(namespace \<Rightarrow> (string, string) btree, namespace \<Rightarrow> (string, string) btree) engine" where
  "memory_engine = \<lparr>eng_begin_write = (\<lambda>db. Ok db), eng_insert = (\<lambda>n k v tx. Ok (tx(n := put k v (tx n)))),
     eng_remove = (\<lambda>n k tx. Ok (tx(n := del k (tx n)), map_of (tx n) k)), eng_commit = (\<lambda>tx db. (tx, Ok ())),
     eng_get = (\<lambda>n k db. Ok (map_of (db n) k)),
     eng_iter = (\<lambda>n db. if ordered (db n) then Ok (db n) else Err ''corrupt table''),
     eng_view = (\<lambda>db n. map_of (db n)), eng_tx_view = (\<lambda>tx n. map_of (tx n))\<rparr>"

lemma memory_engine_ok: "engine_ok memory_engine"
  by (auto simp: engine_ok_def memory_engine_def set_cell_def ordered_distinct)

section \<open>Properties\<close>

text \<open>a database key determines its scopes and its name. Decoding an encoded key gives back what was
  encoded, and no other scopes or name encode to the same bytes.\<close>

theorem key_roundtrip:
  assumes "encode_key scopes key = Ok k" and "list_all utf8_valid scopes" and "utf8_valid key"
  shows "decode_key k = Ok (scopes, key)
    \<and> (\<forall>scopes' key'. encode_key scopes' key' = Ok k \<longrightarrow> scopes' = scopes \<and> key' = key)"
  using decode_encode_key [OF assms] encode_key_inj [OF assms(1)] by blast

theorem key_roundtrip_witness:
  "decode_key (be_bytes 4 1 @ be_bytes 4 1 @ ''a'' @ be_bytes 4 2 @ ''bc'') = Ok ([''a''], ''bc'')"
proof -
  have "encode_key [''a''] ''bc'' = Ok (be_bytes 4 1 @ be_bytes 4 1 @ ''a'' @ be_bytes 4 2 @ ''bc'')"
    by (simp add: encode_key_ok flip: numeral_2_eq_2)
  from key_roundtrip [OF this] show ?thesis by (simp add: utf8_valid_ascii)
qed

text \<open>C36: buckets are isolated. After a successful \<open>set\<close>, exactly the addressed key of that namespace and
  scope holds the new bytes; every key of every other namespace, scope or name is unchanged.\<close>

theorem bucket_set_isolated:
  assumes "engine_ok E" and "bucket_set E b key v db = (db', Ok ())"
  shows "bucket_content E b' db' key' =
    (if bk_namespace b' = bk_namespace b \<and> bk_scopes b' = bk_scopes b \<and> key' = key then Some v
     else bucket_content E b' db key')"
proof -
  from bucket_set_done [OF assms] obtain k where k: "bucket_key b key = Ok k"
    "eng_view E db' = set_cell (bk_namespace b) k (Some v) (eng_view E db)" .
  have same: "bucket_key b' key' = Ok k \<longleftrightarrow> bk_scopes b' = bk_scopes b \<and> key' = key"
    using bucket_key_inj [of b' key' k b key] k(1) by (auto simp: bucket_key_def)
  show ?thesis
  proof (cases "bucket_key b' key'")
    case (Inl e)
    with same have "\<not> (bk_scopes b' = bk_scopes b \<and> key' = key)" by auto
    with Inl show ?thesis by (simp add: bucket_content_def)
  next
    case (Inr k')
    with same have "k' = k \<longleftrightarrow> bk_scopes b' = bk_scopes b \<and> key' = key" by simp
    with Inr k(2) show ?thesis by (simp add: bucket_content_def set_cell_def)
  qed
qed

theorem bucket_set_isolated_witness:
  "bucket_content memory_engine (storage_bucket Devices)
     (fst (bucket_set memory_engine (storage_bucket Plugins) ''a'' ''1'' (\<lambda>_. []))) ''a'' = None"
proof -
  define out where "out = bucket_set memory_engine (storage_bucket Plugins) ''a'' ''1'' (\<lambda>_. [])"
  have "snd out = Ok ()"
    by (simp add: out_def bucket_set_def bucket_key_def validate_name_def encode_key_def push_length_def
        push_bytes_def memory_engine_def storage_bucket_def)
  then have "bucket_set memory_engine (storage_bucket Plugins) ''a'' ''1'' (\<lambda>_. []) = (fst out, Ok ())"
    by (simp add: out_def prod_eq_iff)
  from bucket_set_isolated [OF memory_engine_ok this, of "storage_bucket Devices" "''a''"] show ?thesis
    by (simp add: out_def storage_bucket_def bucket_content_def memory_engine_def split: sum.split)
qed



text \<open>after a successful \<open>open\<close> the schema is the current one, and opening the directory again without
  failures succeeds and changes nothing (the marker that was written is the one that is accepted).\<close>

theorem open_then_reopen:
  assumes "open_storage mc io p dk = (dk', Ok ())"
    and "\<And>bytes. mc_encode mc own_marker = Ok bytes \<Longrightarrow> mc_decode mc (bytes @ [CHR 0x0A]) = Ok own_marker"
  shows "schema_current dk' \<and> open_storage mc (\<lambda>_. None) p dk' = (dk', Ok ())"
proof (cases rule: open_storage_cases [of dk mc io p])
  case (early dk1 e)
  with assms(1) show ?thesis by simp
next
  case (checked fresh dk2 r)
  let ?dk = "dk\<lparr>dk_directory := Directory\<rparr>"
  note present = open_checks_ok [OF checked(2)]
  have r: "r = Ok ()" and dk': "if fresh then write_marker mc io own_marker dk2 = (dk', Ok ()) else dk' = dk2"
    using checked(4) assms(1) by (auto split: sum.splits if_splits)
  have db: "open_database io ?dk = (dk2, Ok ())" using checked(3) r by simp
  note opened = open_database_ok [OF db present(5)]
  have fields: "dk_marker dk2 = dk_marker dk" "dk_marker_bytes dk2 = dk_marker_bytes dk" "dk_directory dk2 = Directory"
    using open_database_fields [of io ?dk] db by simp_all
  have final: "dk_database dk' = dk_database dk2" "dk_schema dk' = dk_schema dk2" "dk_directory dk' = Directory"
    "dk_marker dk' \<noteq> Missing" "dk_marker dk' \<noteq> Symlink" "mc_decode mc (dk_marker_bytes dk') = Ok own_marker"
    using dk' fields present assms(2)
    by (auto simp: write_marker_def and_then_eq_Ok split: if_splits sum.splits)
  obtain s where s: "dk_schema dk' = Some s" "decode_schema_version s = Ok SCHEMA_VERSION"
    using opened(1) final(2) by (auto simp: schema_current_def)
  have "open_checks mc (\<lambda>_. None) dk' = Ok False"
    using final opened by (auto simp: open_checks_def reject_symlink_if_present_def io_try_def read_marker_def
        own_marker_def validate_marker_def split: file_kind.splits bool.splits)
  moreover have "open_database (\<lambda>_. None) dk' = (dk', Ok ())"
    using s opened(2) final(1)
    by (simp add: open_database_def initialize_schema_def engine_try_def io_try_def SCHEMA_VERSION_def)
  moreover have "prepare_state_directory (\<lambda>_. None) dk' = (dk', Ok ())"
    using final(3) by (simp add: prepare_state_directory_def reject_symlink_if_present_def io_try_def)
  ultimately show ?thesis
    using s checked(1)
    by (auto simp: schema_current_def open_storage_def absolute_path_def io_try_def)
qed

theorem open_then_reopen_witness:
  "open_storage storage_codec (\<lambda>_. None) ''/s'' (fst (open_storage storage_codec (\<lambda>_. None) ''/s'' empty_disk)) =
     (fst (open_storage storage_codec (\<lambda>_. None) ''/s'' empty_disk), Ok ())"
proof -
  have "open_storage storage_codec (\<lambda>_. None) ''/s'' empty_disk =
      (fst (open_storage storage_codec (\<lambda>_. None) ''/s'' empty_disk), Ok ())"
    by code_simp
  moreover have "mc_encode storage_codec own_marker = Ok ''redb1''" by code_simp
  ultimately show ?thesis
    using open_then_reopen [of storage_codec "\<lambda>_. None" "''/s''" empty_disk]
    by (auto simp: storage_codec_def)
qed

end
