(* ===== verification/Wire_Values.thy ===== *)
theory Wire_Values
  imports Core_Model
begin

text \<open>
  The tagged value record that crosses every boundary of the program, and its four
  converters: the persisted form (\<open>oikade-storage\<close>), the plugin API, the adapter API and the
  administration API. The four sources declare the same five fields; the converters differ
  in their error types. \<open>value_wire\<close> is the contract that their clients rely on.
\<close>

section \<open>The record\<close>

record wire_value =
  wv_kind :: string
  wv_bool :: "bool option"
  wv_integer :: "64 word option"
  wv_number :: "f64 option"
  wv_string :: "string option"

definition payload_count :: "wire_value \<Rightarrow> nat" where
  "payload_count w =
     of_bool (wv_bool w \<noteq> None) + of_bool (wv_integer w \<noteq> None)
     + of_bool (wv_number w \<noteq> None) + of_bool (wv_string w \<noteq> None)"

definition empty_wire :: "value_kind \<Rightarrow> wire_value" where
  "empty_wire k = \<lparr>wv_kind = kind_str k, wv_bool = None, wv_integer = None, wv_number = None, wv_string = None\<rparr>"

section \<open>The converters\<close>

text \<open>
  \<open>encode_wire\<close> and \<open>decode_wire\<close> are the common body; the error constructors are those of
  the four sources.
\<close>

fun encode_wire :: "scalar \<Rightarrow> wire_value" where
  "encode_wire (VBool b) = (empty_wire KBool)\<lparr>wv_bool := Some b\<rparr>"
| "encode_wire (VInteger i) = (empty_wire KInteger)\<lparr>wv_integer := Some i\<rparr>"
| "encode_wire (VNumber n) = (empty_wire KNumber)\<lparr>wv_number := Some n\<rparr>"
| "encode_wire (VString s) = (empty_wire KString)\<lparr>wv_string := Some s\<rparr>"

definition decode_wire ::
  "'e \<Rightarrow> (string \<Rightarrow> 'e) \<Rightarrow> (string \<Rightarrow> 'e) \<Rightarrow> (model_error \<Rightarrow> 'e) \<Rightarrow> wire_value \<Rightarrow> ('e, scalar) result" where
  "decode_wire payloads wrong unsupported invalid w =
     (if payload_count w \<noteq> 1 then Err payloads
      else and_then
        (if wv_kind w = ''bool'' then and_then (ok_or (wrong ''bool'') (wv_bool w)) (\<lambda>x. Ok (VBool x))
         else if wv_kind w = ''integer'' then and_then (ok_or (wrong ''integer'') (wv_integer w)) (\<lambda>x. Ok (VInteger x))
         else if wv_kind w = ''number'' then and_then (ok_or (wrong ''number'') (wv_number w)) (\<lambda>x. Ok (VNumber x))
         else if wv_kind w = ''string'' then and_then (ok_or (wrong ''string'') (wv_string w)) (\<lambda>x. Ok (VString x))
         else Err (unsupported (wv_kind w))) (\<lambda>v.
      and_then (map_err invalid (value_validate v)) (\<lambda>_. Ok v)))"

text \<open>\<open>PersistedValue\<close> of \<open>crates/oikade-storage/src/device_state.rs\<close>.\<close>

datatype device_state_invalid =
    PersistedPayloadCount
  | PersistedWrongPayload string
  | PersistedUnsupportedKind string
  | PersistedModel model_error
  | DeviceStateTooLarge

definition persisted_from_value :: "scalar \<Rightarrow> wire_value" where
  "persisted_from_value v = encode_wire v"

definition value_from_persisted :: "wire_value \<Rightarrow> (device_state_invalid, scalar) result" where
  "value_from_persisted =
     decode_wire PersistedPayloadCount PersistedWrongPayload PersistedUnsupportedKind PersistedModel"

text \<open>\<open>crates/oikade-plugin-host/src/convert.rs\<close>.\<close>

datatype conversion_error =
    ConversionModel model_error
  | PayloadCount
  | WrongPayload string
  | UnsupportedKind string

definition plugin_value_from_api :: "wire_value \<Rightarrow> (conversion_error, scalar) result" where
  "plugin_value_from_api = decode_wire PayloadCount WrongPayload UnsupportedKind ConversionModel"

definition plugin_value_to_api :: "scalar \<Rightarrow> wire_value" where
  "plugin_value_to_api v = encode_wire v"

text \<open>\<open>crates/oikade-adapter-host/src/projection.rs\<close> and \<open>crates/oikade-admin/src/wire.rs\<close>, whose error
  is the message; \<open>value_error\<close> has one constructor per message.\<close>

datatype value_error =
    MustContainOnePayload
  | HasWrongPayload string
  | UnsupportedValueKind string
  | ValueRejected model_error

definition adapter_value_from_api :: "wire_value \<Rightarrow> (value_error, scalar) result" where
  "adapter_value_from_api = decode_wire MustContainOnePayload HasWrongPayload UnsupportedValueKind ValueRejected"

definition adapter_value_to_api :: "scalar \<Rightarrow> wire_value" where
  "adapter_value_to_api v = encode_wire v"

definition value_to_core :: "wire_value \<Rightarrow> (value_error, scalar) result" where
  "value_to_core = decode_wire MustContainOnePayload HasWrongPayload UnsupportedValueKind ValueRejected"

definition value_from_core :: "scalar \<Rightarrow> wire_value" where
  "value_from_core v = encode_wire v"

section \<open>The contract\<close>

locale value_wire =
  fixes to_wire :: "scalar \<Rightarrow> wire_value"
    and from_wire :: "wire_value \<Rightarrow> ('e, scalar) result"
  assumes from_to: "value_validate v = Ok () \<Longrightarrow> from_wire (to_wire v) = Ok v"
    and to_from: "from_wire w = Ok v \<Longrightarrow> to_wire v = w \<and> value_validate v = Ok ()"
    and to_wire_inj: "to_wire v = to_wire v' \<Longrightarrow> v = v'"
begin

lemma from_wire_iff: "from_wire w = Ok v \<longleftrightarrow> to_wire v = w \<and> value_validate v = Ok ()"
  using from_to to_from by blast

lemma from_wire_inj: "from_wire w = Ok v \<Longrightarrow> from_wire w' = Ok v \<Longrightarrow> w = w'"
  using to_from by blast

lemma invalid_refused: "value_validate v \<noteq> Ok () \<Longrightarrow> \<not> is_ok (from_wire (to_wire v))"
  using to_from to_wire_inj by (fastforce simp: is_ok_iff)

end

lemma decode_encode_wire:
  "value_validate v = Ok () \<Longrightarrow> decode_wire p w u m (encode_wire v) = Ok v"
  by (cases v) (auto simp: decode_wire_def payload_count_def empty_wire_def and_then_eq_Ok)

lemma decode_wire_ok:
  assumes "decode_wire p w u m x = Ok v"
  shows "encode_wire v = x \<and> value_validate v = Ok ()"
  using assms
  by (cases x; cases "wv_bool x"; cases "wv_integer x"; cases "wv_number x"; cases "wv_string x")
     (auto simp: decode_wire_def payload_count_def empty_wire_def and_then_eq_Ok split: if_splits)

lemma encode_wire_inj: "encode_wire v = encode_wire v' \<Longrightarrow> v = v'"
  by (cases v; cases v') (auto simp: empty_wire_def)

interpretation persisted: value_wire persisted_from_value value_from_persisted
  unfolding persisted_from_value_def value_from_persisted_def
  by unfold_locales (auto simp: decode_encode_wire dest: decode_wire_ok encode_wire_inj)

interpretation plugin: value_wire plugin_value_to_api plugin_value_from_api
  unfolding plugin_value_to_api_def plugin_value_from_api_def
  by unfold_locales (auto simp: decode_encode_wire dest: decode_wire_ok encode_wire_inj)

interpretation adapter: value_wire adapter_value_to_api adapter_value_from_api
  unfolding adapter_value_to_api_def adapter_value_from_api_def
  by unfold_locales (auto simp: decode_encode_wire dest: decode_wire_ok encode_wire_inj)

interpretation admin: value_wire value_from_core value_to_core
  unfolding value_from_core_def value_to_core_def
  by unfold_locales (auto simp: decode_encode_wire dest: decode_wire_ok encode_wire_inj)

section \<open>Properties\<close>

text \<open>C38: each of the four converters (persisted state, plugin API, adapter API, administration API)
  accepts exactly the canonical encodings of valid values: a record decodes to a value if and only
  if it is what that value encodes to and the value is finite. So a value survives every boundary
  unchanged, and no record with a missing, doubled or misplaced payload is accepted.\<close>

theorem wire_values_roundtrip:
  "(value_from_persisted w = Ok v \<longleftrightarrow> persisted_from_value v = w \<and> value_validate v = Ok ())
   \<and> (plugin_value_from_api w = Ok v \<longleftrightarrow> plugin_value_to_api v = w \<and> value_validate v = Ok ())
   \<and> (adapter_value_from_api w = Ok v \<longleftrightarrow> adapter_value_to_api v = w \<and> value_validate v = Ok ())
   \<and> (value_to_core w = Ok v \<longleftrightarrow> value_from_core v = w \<and> value_validate v = Ok ())"
  by (intro conjI persisted.from_wire_iff plugin.from_wire_iff adapter.from_wire_iff admin.from_wire_iff)

end
