(* ===== verification/Device_State.thy ===== *)
theory Device_State
  imports Runtime_Runs Storage Wire_Values
begin

text \<open>
  The durable device state of \<open>crates/oikade-storage/src/device_state.rs\<close>, the store that the
  runtime writes through. \<open>state_store\<close> is the interface of the runtime's \<open>StateStore\<close>
  trait with the laws that durability rests on; \<open>device_store\<close>, the implementation over a
  bucket of the storage, provides them. The JSON codec of serde is a parameter.
\<close>

section \<open>The records\<close>

definition DEVICE_STATE_FORMAT :: nat where "DEVICE_STATE_FORMAT = 1"
definition MAX_DEVICE_STATE_SIZE :: nat where "MAX_DEVICE_STATE_SIZE = 1048576"

record persisted_device_state =
  pds_version :: nat
  pds_values :: "(string, wire_value) btree"

datatype device_state_error =
    StateInvalid device_state_invalid
  | StateUnsupportedFormat nat nat
  | StateStorage storage_error
  | StateDecode string

record state_codec =
  sc_encode :: "persisted_device_state \<Rightarrow> (string, string) result"
  sc_decode :: "string \<Rightarrow> (string, persisted_device_state) result"

definition state_key :: "device_id \<Rightarrow> string" where
  "state_key d = d @ ''.state.json''"

section \<open>Load and save\<close>

fun decode_values :: "(string \<times> wire_value) list \<Rightarrow> value_map \<Rightarrow> (device_state_error, value_map) result" where
  "decode_values [] m = Ok m"
| "decode_values ((raw, p) # es) m =
     and_then (map_err (\<lambda>e. StateInvalid (PersistedModel e)) (validate_identifier raw)) (\<lambda>_.
     and_then (map_err (\<lambda>e. StateInvalid (PersistedModel e)) (capability_id_new raw)) (\<lambda>c.
     and_then (map_err StateInvalid (value_from_persisted p)) (\<lambda>v. decode_values es (put c v m))))"

definition decode_state :: "state_codec \<Rightarrow> string \<Rightarrow> (device_state_error, value_map) result" where
  "decode_state sc bytes =
     (if length bytes > MAX_DEVICE_STATE_SIZE then Err (StateInvalid DeviceStateTooLarge)
      else and_then (map_err StateDecode (sc_decode sc bytes)) (\<lambda>r.
        if pds_version r \<noteq> DEVICE_STATE_FORMAT
        then Err (StateUnsupportedFormat (pds_version r) DEVICE_STATE_FORMAT)
        else decode_values (pds_values r) []))"

definition store_load_state ::
  "('db, 'tx) engine \<Rightarrow> state_codec \<Rightarrow> device_id \<Rightarrow> 'db \<Rightarrow> (device_state_error, value_map option) result" where
  "store_load_state E sc d db =
     (case bucket_get E (storage_bucket Devices) (state_key d) db of
        Err KeyNotFound \<Rightarrow> Ok None
      | Err e \<Rightarrow> Err (StateStorage e)
      | Ok bytes \<Rightarrow> and_then (decode_state sc bytes) (\<lambda>m. Ok (Some m)))"

fun encode_values :: "(capability_id \<times> scalar) list \<Rightarrow> (string, wire_value) btree
    \<Rightarrow> (device_state_error, (string, wire_value) btree) result" where
  "encode_values [] p = Ok p"
| "encode_values ((c, v) # es) p =
     and_then (map_err (\<lambda>e. StateInvalid (PersistedModel e)) (value_validate v)) (\<lambda>_.
       encode_values es (put c (persisted_from_value v) p))"

definition encode_state :: "state_codec \<Rightarrow> value_map \<Rightarrow> (device_state_error, string) result" where
  "encode_state sc m =
     and_then (encode_values m []) (\<lambda>p.
     and_then (map_err StateDecode (sc_encode sc \<lparr>pds_version = DEVICE_STATE_FORMAT, pds_values = p\<rparr>)) (\<lambda>bytes.
       if length bytes > MAX_DEVICE_STATE_SIZE then Err (StateInvalid DeviceStateTooLarge) else Ok bytes))"

definition store_save_state ::
  "('db, 'tx) engine \<Rightarrow> state_codec \<Rightarrow> device_id \<Rightarrow> value_map \<Rightarrow> 'db \<Rightarrow> 'db \<times> (device_state_error, unit) result" where
  "store_save_state E sc d m db =
     (case encode_state sc m of
        Err e \<Rightarrow> (db, Err e)
      | Ok bytes \<Rightarrow>
          let (db', r) = bucket_set E (storage_bucket Devices) (state_key d) bytes db
          in (db', map_err StateStorage r))"

text \<open>
  The trait implementation: the errors become boxed errors whose text \<open>show_error\<close> gives. The
  world of the runtime is the database beside whatever the command handlers act on.
\<close>

definition device_store ::
  "('db, 'tx) engine \<Rightarrow> state_codec \<Rightarrow> (device_state_error \<Rightarrow> string) \<Rightarrow> ('db \<times> 'x) state_store_ops" where
  "device_store E sc show_error =
     \<lparr>load_device = (\<lambda>d w. map_err show_error (store_load_state E sc d (fst w))),
      save_device = (\<lambda>d m w. let (db', r) = store_save_state E sc d m (fst w)
                             in ((db', snd w), map_err show_error r))\<rparr>"

section \<open>Encoding and decoding\<close>

lemma encode_values_ok:
  "encode_values es p = Ok q \<longleftrightarrow> (\<forall>(c, v) \<in> set es. value_validate v = Ok ())
     \<and> q = fold (\<lambda>(c, v). put c (persisted_from_value v)) es p"
  by (induction es p rule: encode_values.induct) (auto simp: and_then_eq_Ok)

lemma decode_values_fold:
  assumes "\<forall>(c, v) \<in> set es. valid_identifier c \<and> value_validate v = Ok ()"
  shows "decode_values (map (\<lambda>(c, v). (c, persisted_from_value v)) es) m = Ok (fold (\<lambda>(c, v). put c v) es m)"
  using assms
proof (induction es arbitrary: m)
  case (Cons e es)
  obtain c v where e: "e = (c, v)" by fastforce
  then have "validate_identifier c = Ok ()" "value_from_persisted (persisted_from_value v) = Ok v"
    using Cons.prems by (simp_all add: validate_identifier_ok persisted.from_to)
  with Cons e show ?case by (simp add: capability_id_new_def)
qed simp

lemma fold_put_append: "ordered (m @ es) \<Longrightarrow> fold (\<lambda>(k, v). put k v) es m = m @ es"
proof (induction es arbitrary: m)
  case (Cons e es)
  obtain k v where e: "e = (k, v)" by fastforce
  have last: "\<forall>x \<in> keys m. x < k" using Cons.prems e
    by (auto simp: ordered_def sorted_wrt_append keys_def)
  have "put k v m = m @ [(k, v)]" using last by (induction m) auto
  with Cons e show ?case by simp
qed simp

lemma fold_put_ordered: "ordered m \<Longrightarrow> fold (\<lambda>(k, v). put k v) m [] = m"
  using fold_put_append [of "[]" m] by simp

lemma fold_put_map:
  "fold (\<lambda>(c, v). put c (f v)) es p = fold (\<lambda>(c, v). put c v) (map (\<lambda>(c, v). (c, f v)) es) p"
  by (induction es arbitrary: p) auto

lemma persisted_of_ordered:
  "ordered m \<Longrightarrow> fold (\<lambda>(c, v). put c (persisted_from_value v)) m [] = map (\<lambda>(c, v). (c, persisted_from_value v)) m"
  by (subst fold_put_map) (simp add: fold_put_ordered)

text \<open>
  The maps that the store gives back exactly: those whose JSON the codec reproduces. Keys are
  identifiers and maps are ordered by their Rust types; only the codec is a condition, because
  serde\_json without its \<open>float_roundtrip\<close> feature may read back a number one unit in
  the last place off.
\<close>

definition state_of_values :: "value_map \<Rightarrow> persisted_device_state" where
  "state_of_values m =
     \<lparr>pds_version = DEVICE_STATE_FORMAT, pds_values = map (\<lambda>(c, v). (c, persisted_from_value v)) m\<rparr>"

definition exact_values :: "state_codec \<Rightarrow> value_map \<Rightarrow> bool" where
  "exact_values sc m \<longleftrightarrow> ordered m \<and> (\<forall>c \<in> keys m. valid_identifier c)
     \<and> (\<forall>bytes. sc_encode sc (state_of_values m) = Ok bytes \<longrightarrow> sc_decode sc bytes = Ok (state_of_values m))"

lemma decode_encode_state:
  assumes "exact_values sc m" and "encode_state sc m = Ok bytes"
  shows "decode_state sc bytes = Ok m"
proof -
  have ord: "ordered m" and ids: "\<forall>c \<in> keys m. valid_identifier c" using assms(1) by (simp_all add: exact_values_def)
  have valid: "\<forall>(c, v) \<in> set m. value_validate v = Ok ()"
    and enc: "sc_encode sc (state_of_values m) = Ok bytes" and small: "length bytes \<le> MAX_DEVICE_STATE_SIZE"
    using assms(2) ord
    by (auto simp: encode_state_def and_then_eq_Ok encode_values_ok persisted_of_ordered state_of_values_def
        split: if_splits)
  have "decode_values (pds_values (state_of_values m)) [] = Ok m"
    using ids valid decode_values_fold [of m "[]"] ord
    by (fastforce simp: state_of_values_def fold_put_ordered dest: keys_mem)
  with assms(1) enc small show ?thesis
    by (simp add: decode_state_def exact_values_def) (simp add: state_of_values_def)
qed

section \<open>The interface of the runtime's store\<close>

text \<open>
  \<open>st_holds w d m\<close>: the medium holds the values \<open>m\<close> for device \<open>d\<close>. A load may fail; one
  that succeeds returns what is held. A save that succeeds makes the medium hold the values,
  one that fails changes nothing, and neither touches another device.
\<close>

locale state_store =
  fixes st_ops :: "'w state_store_ops"
    and st_ok :: "'w \<Rightarrow> bool"
    and st_exact :: "value_map \<Rightarrow> bool"
    and st_holds :: "'w \<Rightarrow> device_id \<Rightarrow> value_map \<Rightarrow> bool"
  assumes load_held: "st_ok w \<Longrightarrow> st_holds w d m \<Longrightarrow> load_device st_ops d w = Ok l \<Longrightarrow> l = Some m"
    and load_holds: "st_ok w \<Longrightarrow> load_device st_ops d w = Ok (Some m) \<Longrightarrow> st_holds w d m"
    and save_holds: "st_ok w \<Longrightarrow> st_exact m \<Longrightarrow> save_device st_ops d m w = (w', Ok ()) \<Longrightarrow> st_holds w' d m"
    and save_other: "st_ok w \<Longrightarrow> save_device st_ops d m w = (w', r) \<Longrightarrow> d' \<noteq> d \<Longrightarrow> st_holds w d' m' \<Longrightarrow> st_holds w' d' m'"
    and save_failed: "st_ok w \<Longrightarrow> save_device st_ops d m w = (w', Err e) \<Longrightarrow> st_holds w d' m' \<Longrightarrow> st_holds w' d' m'"
    and save_ok: "st_ok w \<Longrightarrow> st_ok (fst (save_device st_ops d m w))"
begin

text \<open>The medium holds what the runtime believes to be persisted.\<close>

definition durable :: "'w runtime \<Rightarrow> 'w \<Rightarrow> bool" where
  "durable rt w \<longleftrightarrow> st_ok w \<and> rt_store rt = Some st_ops \<and>
     (\<forall>d a g. map_of (rt_devices rt) d = Some a \<longrightarrow> map_of (rt_heap rt) a = Some g \<longrightarrow> st_holds w d (reg_persisted g))"

text \<open>A handler that leaves the medium alone.\<close>

definition harmless :: "'w handler \<Rightarrow> bool" where
  "harmless h \<longleftrightarrow> (\<forall>cmd w. st_ok w \<longrightarrow> st_ok (fst (h cmd w)) \<and>
     (\<forall>d m. st_holds w d m \<longrightarrow> st_holds (fst (h cmd w)) d m))"

lemma durable_world:
  "durable rt w \<Longrightarrow> st_ok w' \<Longrightarrow> (\<And>d m. st_holds w d m \<Longrightarrow> st_holds w' d m) \<Longrightarrow> durable rt w'"
  unfolding durable_def by blast

lemma durable_save_failed: "durable rt w \<Longrightarrow> save_device st_ops d m w = (w', Err e) \<Longrightarrow> durable rt w'"
  by (rule durable_world) (use save_ok [of w d m] save_failed [of w d m w' e] in \<open>auto simp: durable_def\<close>)

lemma register_durable:
  assumes ok: "rt_ok rt" and dur: "durable rt w" and run: "register d h rt w = (rt', w', r)"
    and exact: "\<And>p. register_prepare d h rt w = Ok p \<Longrightarrow> st_exact (res_persisted p)"
  shows "durable rt' w'"
proof (cases rule: register_cases [of d h rt w])
  case (rejected e)
  with run dur show ?thesis by simp
next
  case (unsaved p w1 m)
  then have "save_device st_ops (dev_id d) (res_persisted p) w = (w1, Err m)"
    using dur by (simp add: durable_def store_save_def)
  from durable_save_failed [OF dur this] unsaved run show ?thesis by simp
next
  case (registered p w1)
  have store: "rt_store rt = Some st_ops" "st_ok w" using dur by (simp_all add: durable_def)
  have rt': "rt' = register_insert d h p rt" "w' = w1" using registered run by simp_all
  have absent: "map_of (rt_devices rt) (dev_id d) = None" using register_prepare_ok(3) [OF registered(1)] .
  have "map_of (rt_heap rt) (rt_next_address rt) = None"
    using rt_okD(2) [OF ok] by (metis less_irrefl option.exhaust)
  then have fresh: "map_of (rt_devices rt) d' \<noteq> Some (rt_next_address rt)" for d'
    using rt_okD(3) [OF ok] by fastforce
  have mine: "st_ok w1 \<and> st_holds w1 (dev_id d) (res_persisted p)"
  proof (cases "res_dirty p")
    case True
    then have "save_device st_ops (dev_id d) (res_persisted p) w = (w1, Ok ())"
      using registered(2) store by (simp add: store_save_def)
    then show ?thesis using save_holds [OF store(2) exact [OF registered(1)]] save_ok [OF store(2)] by (metis fst_conv)
  next
    case False
    obtain l where l: "store_load (rt_store rt) (dev_id d) w = Ok l"
      "restore_values (dev_id d) (dev_capabilities d)
        \<lparr>res_persisted = loaded_values l, res_current = [], res_capabilities = [], res_dirty = (l = None)\<rparr> = Ok p"
      using register_prepare_ok(5) [OF registered(1)] by blast
    from restore_values_dirty [OF l(2)] False have "l \<noteq> None" "res_persisted p = loaded_values l" by auto
    then have "load_device st_ops (dev_id d) w = Ok (Some (res_persisted p))"
      using l(1) store by (auto simp: store_load_def loaded_values_def)
    with False registered(2) store load_holds show ?thesis by simp
  qed
  have others: "st_holds w1 d' m" if "d' \<noteq> dev_id d" "st_holds w d' m" for d' m
    using registered(2) store that save_other [OF store(2)] by (auto simp: store_save_def split: if_splits)
  show ?thesis
    using dur mine others fresh unfolding durable_def rt'
    by (auto simp: register_insert_def Let_def)
qed

lemma commit_durable:
  assumes ok: "rt_ok rt" and dur: "durable rt w" and look: "lookup rt d c = Ok (a, cap)"
    and run: "commit now a d cap v rt w = (rt', w', r)"
    and exact: "\<And>g. map_of (rt_heap rt) a = Some g \<Longrightarrow> st_exact (put c v (reg_persisted g))"
  shows "durable rt' w'"
proof -
  obtain g where g: "rt_started rt" "map_of (rt_devices rt) d = Some a" "map_of (rt_heap rt) a = Some g"
      "reg_ok d g" "map_of (reg_capabilities g) c = Some cap"
    using look by (auto simp: lookup_ok [OF ok])
  have id: "cap_id cap = c" using reg_ok_capability(3) g(4,5) by blast
  obtain u where u: "map_of (reg_current g) (cap_id cap) = Some u"
    using reg_ok_current [OF g(4,5)] id by metis
  have store: "rt_store rt = Some st_ops" "st_ok w" using dur by (simp_all add: durable_def)
  from g(1-3) u show ?thesis
  proof (cases rule: commit_cases [where v = v and now = now and w = w])
    case unchanged
    with run dur show ?thesis by simp
  next
    case (unsaved w1 m)
    with run dur store show ?thesis by (auto simp: store_save_def intro: durable_save_failed)
  next
    case (committed w1)
    then have save: "save_device st_ops d (put c v (reg_persisted g)) w = (w1, Ok ())"
      and rt': "rt' = publish_revision now d cap v (commit_values a c v g rt)" "w' = w1"
      using run store by (simp_all add: store_save_def id)
    have mine: "st_holds w1 d (put c v (reg_persisted g))" and "st_ok w1"
      using save_holds [OF store(2) exact [OF g(3)] save] save_ok [OF store(2), of d] save by (simp, metis fst_conv)
    have others: "st_holds w1 d' (reg_persisted g')"
      if "map_of (rt_devices rt) d' = Some a'" "map_of (rt_heap rt) a' = Some g'" "d' \<noteq> d" for d' a' g'
      using that dur save_other [OF store(2) save that(3)] unfolding durable_def by blast
    have owner: "d' = d" if "map_of (rt_devices rt) d' = Some a" for d'
      using g(3,4) rt_okD(3) [OF ok that] by (auto simp: reg_ok_def)
    have "st_holds w1 d' (reg_persisted g')"
      if "map_of (rt_devices rt) d' = Some a'" "map_of (rt_heap (commit_values a c v g rt)) a' = Some g'" for d' a' g'
    proof (cases "d' = d")
      case True
      with that g(2) mine show ?thesis by (auto simp: commit_values_def)
    next
      case False
      with owner that(1) have "a' \<noteq> a" by blast
      with that(2) have "map_of (rt_heap rt) a' = Some g'" by (simp add: commit_values_def)
      with others that(1) False show ?thesis by blast
    qed
    with store \<open>st_ok w1\<close> show ?thesis
      unfolding durable_def rt' by simp
  qed
qed

text \<open>Registering a device again after a restart.\<close>

lemma restart_restores:
  assumes ok: "rt_ok rt" and dur: "durable rt w"
    and d: "map_of (rt_devices rt) d = Some a" and g: "map_of (rt_heap rt) a = Some g"
    and load: "load_device st_ops d w = Ok l"
  shows "\<exists>rt'. register (reg_definition g) (reg_handler g) (fst (start (runtime_new (Some st_ops)))) w = (rt', w, Ok ())
    \<and> (\<forall>c. current_value rt' d c = current_value rt d c)"
proof -
  have reg: "reg_ok d g" using rt_okD(3) [OF ok d] g by simp
  then have id: "dev_id (reg_definition g) = d" and dev: "device_ok (reg_definition g)" by (simp_all add: reg_ok_def)
  have l: "l = Some (reg_persisted g)"
    using load_held [OF _ _ load] dur d g by (auto simp: durable_def)
  define fresh where "fresh = fst (start (runtime_new (Some st_ops)))"
  define r0 where "r0 = \<lparr>res_persisted = reg_persisted g, res_current = [], res_capabilities = [], res_dirty = False\<rparr>"
  have values_ok: "\<exists>v. map_of (res_persisted r0) (cap_id c) = Some v \<and> validate_capability_value c v = Ok ()
      \<and> map_of (reg_current g) (cap_id c) = Some v"
    if "c \<in> set (dev_capabilities (reg_definition g))" for c
  proof -
    have cap: "map_of (reg_capabilities g) (cap_id c) = Some c"
      using reg capability_by_id_cap [OF dev that] by (simp add: reg_ok_def)
    obtain v where "map_of (reg_current g) (cap_id c) = Some v" "admits c v" "map_of (reg_persisted g) (cap_id c) = Some v"
      using reg_ok_current [OF reg cap] .
    then show ?thesis using reg_ok_capability(4) [OF reg cap] by (simp add: r0_def validate_capability_value_ok)
  qed
  then obtain r where r: "restore_values d (dev_capabilities (reg_definition g)) r0 = Ok r" "\<not> res_dirty r"
    using restore_values_succeeds [of "dev_capabilities (reg_definition g)" r0 d] by (auto simp: r0_def)
  have "register_prepare (reg_definition g) (reg_handler g) fresh w = Ok r"
    using r(1) reg load l
    by (auto simp: register_prepare_def and_then_eq_Ok device_validate_ok dev id fresh_def start_def runtime_new_def
        check_absent_ok store_load_def r0_def require_handlers_def each_ok_iff Option.is_none_def reg_ok_def)
  with r(2) have run: "register (reg_definition g) (reg_handler g) fresh w =
      (register_insert (reg_definition g) (reg_handler g) r fresh, w, Ok ())"
    by (cases rule: register_cases [of "reg_definition g" "reg_handler g" fresh w]) auto
  have "current_value (register_insert (reg_definition g) (reg_handler g) r fresh) d c = map_of (res_current r) c" for c
    by (simp add: register_insert_def current_value_def id Let_def)
  moreover have "map_of (res_current r) c = map_of (reg_current g) c" for c
  proof (cases "capability_by_id (reg_definition g) c")
    case None
    then have "map_of (reg_current g) c = None" using reg by (simp add: reg_ok_def)
    with None restore_values_current [OF r(1), of c] dev show ?thesis
      by (simp add: capability_by_id_def r0_def device_ok_def)
  next
    case (Some x)
    with values_ok [of x] capability_by_id_mem [OF Some] restore_values_current [OF r(1), of c] dev show ?thesis
      by (auto simp: capability_by_id_def restored_value_def device_ok_def)
  qed
  ultimately show ?thesis
    using run d g by (simp add: fresh_def current_value_def)
qed

end

section \<open>The storage provides it\<close>

definition device_holds :: "('db, 'tx) engine \<Rightarrow> state_codec \<Rightarrow> 'db \<times> 'x \<Rightarrow> device_id \<Rightarrow> value_map \<Rightarrow> bool" where
  "device_holds E sc w d m \<longleftrightarrow>
     (\<exists>bytes. bucket_content E (storage_bucket Devices) (fst w) (state_key d) = Some bytes \<and> decode_state sc bytes = Ok m)"

lemma load_state_ok:
  assumes "engine_ok E" and "store_load_state E sc d db = Ok l"
  shows "case bucket_content E (storage_bucket Devices) db (state_key d) of
           None \<Rightarrow> l = None
         | Some bytes \<Rightarrow> (\<exists>m. decode_state sc bytes = Ok m \<and> l = Some m)"
proof (cases "bucket_get E (storage_bucket Devices) (state_key d) db")
  case (Inl e)
  with assms(2) have "e = KeyNotFound" "l = None" by (auto simp: store_load_state_def split: storage_error.splits)
  with bucket.get_absent [OF assms(1)] Inl show ?thesis by simp
next
  case (Inr bytes)
  with assms(2) bucket.get_found [OF assms(1) Inr] show ?thesis
    by (auto simp: store_load_state_def and_then_eq_Ok)
qed

lemma save_state_cases:
  assumes "engine_ok E" and "store_save_state E sc d m db = (db', r)"
  obtains (saved) bytes where "r = Ok ()" "encode_state sc m = Ok bytes"
      "bucket_content E (storage_bucket Devices) db' = (bucket_content E (storage_bucket Devices) db)(state_key d \<mapsto> bytes)"
  | (unsaved) e where "r = Err e" "bucket_content E (storage_bucket Devices) db' = bucket_content E (storage_bucket Devices) db"
proof (cases "encode_state sc m")
  case (Inl e)
  with assms(2) show ?thesis by (intro that(2) [of e]) (simp_all add: store_save_state_def)
next
  case (Inr bytes)
  obtain q where q: "bucket_set E (storage_bucket Devices) (state_key d) bytes db = (db', q)" "r = map_err StateStorage q"
    using assms(2) Inr by (auto simp: store_save_state_def split: prod.splits)
  show ?thesis
  proof (cases q)
    case (Inl e)
    with q that(2) bucket.set_failed [OF assms(1)] show ?thesis by simp
  next
    case (Inr u)
    with q that(1) bucket.set_done [OF assms(1)] \<open>encode_state sc m = Ok bytes\<close> show ?thesis by simp
  qed
qed

lemma state_key_inj: "state_key d = state_key d' \<longleftrightarrow> d = d'"
  by (simp add: state_key_def)

interpretation device: state_store "device_store E sc show_error :: ('db \<times> 'x) state_store_ops" "\<lambda>_. engine_ok E"
    "exact_values sc" "device_holds E sc"
  for E :: "('db, 'tx) engine" and sc and show_error
proof unfold_locales
  fix w w' :: "'db \<times> 'x" and d d' m m' r e l
  assume E: "engine_ok E"
  show "l = Some m" if "device_holds E sc w d m" "load_device (device_store E sc show_error) d w = Ok l"
    using that load_state_ok [OF E, of sc d "fst w" l] by (auto simp: device_holds_def device_store_def)
  show "device_holds E sc w d m" if "load_device (device_store E sc show_error) d w = Ok (Some m)"
    using that load_state_ok [OF E, of sc d "fst w" "Some m"]
    by (auto simp: device_holds_def device_store_def split: option.splits)
next
  fix w w' :: "'db \<times> 'x" and d d' m m' r e
  assume E: "engine_ok E"
  have run: "\<exists>q. store_save_state E sc d m (fst w) = (fst w', q) \<and> r = map_err show_error q"
    if "save_device (device_store E sc show_error) d m w = (w', r)" for r
    using that by (auto simp: device_store_def split: prod.splits)
  show "device_holds E sc w' d m" if "exact_values sc m" "save_device (device_store E sc show_error) d m w = (w', Ok ())"
  proof -
    from run [OF that(2)] obtain q where "store_save_state E sc d m (fst w) = (fst w', q)" "q = Ok ()"
      by (metis map_err_eq_Ok)
    then show ?thesis
      by (cases rule: save_state_cases [OF E]) (auto simp: device_holds_def decode_encode_state [OF that(1)])
  qed
  show "device_holds E sc w' d' m'" if "save_device (device_store E sc show_error) d m w = (w', r)" "d' \<noteq> d"
    "device_holds E sc w d' m'"
  proof -
    from run [OF that(1)] obtain q where "store_save_state E sc d m (fst w) = (fst w', q)" by blast
    then show ?thesis
      by (cases rule: save_state_cases [OF E]) (use that in \<open>auto simp: device_holds_def state_key_inj\<close>)
  qed
  show "device_holds E sc w' d' m'" if "save_device (device_store E sc show_error) d m w = (w', Err e)"
    "device_holds E sc w d' m'"
  proof -
    from run [OF that(1)] obtain q where q: "store_save_state E sc d m (fst w) = (fst w', q)" "map_err show_error q = Err e"
      by metis
    then have "\<not> is_ok q" by (auto simp: map_err_eq_Err)
    from q(1) show ?thesis
      by (cases rule: save_state_cases [OF E]) (use that \<open>\<not> is_ok q\<close> in \<open>auto simp: device_holds_def\<close>)
  qed
qed

section \<open>Properties\<close>

text \<open>The database holds, for every registered device, the values the runtime has committed.\<close>

definition device_durable ::
  "('db, 'tx) engine \<Rightarrow> state_codec \<Rightarrow> (device_state_error \<Rightarrow> string) \<Rightarrow> ('db \<times> 'x) runtime \<Rightarrow> 'db \<times> 'x \<Rightarrow> bool" where
  "device_durable E sc show_error rt w \<longleftrightarrow> rt_store rt = Some (device_store E sc show_error) \<and>
     (\<forall>d a g. map_of (rt_devices rt) d = Some a \<longrightarrow> map_of (rt_heap rt) a = Some g \<longrightarrow> device_holds E sc w d (reg_persisted g))"

lemma device_durable_iff:
  "engine_ok E \<Longrightarrow> device.durable TYPE(_) E sc show_error rt w \<longleftrightarrow> device_durable E sc show_error rt w"
  unfolding device.durable_def device_durable_def by simp

text \<open>state that is saved is the state that is loaded. After a successful save of values that the JSON
  codec reproduces, a load that succeeds returns exactly them, and every other device's stored
  state is what it was.\<close>

theorem save_then_load:
  assumes "engine_ok E" and "exact_values sc m" and "store_save_state E sc d m db = (db', Ok ())"
    and "store_load_state E sc d' db' = Ok l"
  shows "if d' = d then l = Some m
    else (\<forall>l'. store_load_state E sc d' db = Ok l' \<longrightarrow> l = l')"
proof -
  have l: "case bucket_content E (storage_bucket Devices) db' (state_key d') of
      None \<Rightarrow> l = None | Some bytes \<Rightarrow> (\<exists>m. decode_state sc bytes = Ok m \<and> l = Some m)"
    by (rule load_state_ok [OF assms(1,4)])
  from assms(1,3) show ?thesis
  proof (cases rule: save_state_cases)
    case (saved bytes)
    have "l = l'" if "store_load_state E sc d' db = Ok l'" "d' \<noteq> d" for l'
      using load_state_ok [OF assms(1) that(1)] l saved(3) that(2)
      by (auto simp: state_key_inj split: option.splits)
    with saved l decode_encode_state [OF assms(2) saved(2)] show ?thesis by auto
  qed simp
qed

text \<open>The codec of a device with one switch, for the witnesses.\<close>

definition sample_codec :: state_codec where
  "sample_codec =
     \<lparr>sc_encode = (\<lambda>s. Ok (if pds_values s = [(''on'', persisted_from_value (VBool True))] then ''t'' else ''f'')),
      sc_decode = (\<lambda>b. if b = ''t'' then Ok (state_of_values [(''on'', VBool True)])
                       else if b = ''f'' then Ok (state_of_values [(''on'', VBool False)]) else Err ''bad state'')\<rparr>"

lemma sample_exact: "exact_values sample_codec [(''on'', VBool b)]"
  by (cases b) (simp_all add: exact_values_def sample_codec_def state_of_values_def persisted_from_value_def
      empty_wire_def valid_identifier_def valid_edge_def valid_inner_def is_ascii_lowercase_def)

definition no_tables :: "namespace \<Rightarrow> (string, string) btree" where
  "no_tables n = []"

lemmas sample_store_simps =
  store_save_state_def store_load_state_def encode_state_def decode_state_def sample_codec_def
  MAX_DEVICE_STATE_SIZE_def DEVICE_STATE_FORMAT_def memory_engine_def bucket_set_def bucket_get_def bucket_key_def
  validate_name_def encode_key_def push_length_def push_bytes_def storage_bucket_def state_key_def no_tables_def

theorem save_then_load_witness:
  "store_load_state memory_engine sample_codec ''d''
     (fst (store_save_state memory_engine sample_codec ''d'' [(''on'', VBool True)] no_tables))
   = Ok (Some [(''on'', VBool True)])"
proof -
  define out where "out = store_save_state memory_engine sample_codec ''d'' [(''on'', VBool True)] no_tables"
  have "snd out = Ok ()" by (simp add: out_def sample_store_simps)
  then have saved: "store_save_state memory_engine sample_codec ''d'' [(''on'', VBool True)] no_tables = (fst out, Ok ())"
    by (simp add: out_def prod_eq_iff)
  have "is_ok (store_load_state memory_engine sample_codec ''d'' (fst out))"
    by (simp add: out_def sample_store_simps state_of_values_def persisted_from_value_def empty_wire_def
        validate_identifier_def MAX_IDENTIFIER_LENGTH_def valid_edge_def valid_inner_def is_ascii_lowercase_def
        capability_id_new_def value_from_persisted_def decode_wire_def payload_count_def)
  then obtain l where "store_load_state memory_engine sample_codec ''d'' (fst out) = Ok l" by (auto simp: is_ok_iff)
  with save_then_load [OF memory_engine_ok sample_exact saved this] show ?thesis
    by (simp add: out_def)
qed

text \<open>C3: a command that was answered with success survives a restart. If the database holds what the
  runtime has committed, and the handler leaves the database alone, then after the command a new
  runtime over the same database that registers the same device again (once the state can be
  read) succeeds without writing anything, shows the commanded value, and shows every other
  capability of the device as it was.\<close>

theorem write_survives_restart:
  assumes engine: "engine_ok E" and ok: "rt_ok rt" and dur: "device_durable E sc show_error rt w"
    and run: "write_value now cmd rt w = (rt1, w1, Ok v)"
    and d: "map_of (rt_devices rt) (cmd_device cmd) = Some a" and g: "map_of (rt_heap rt) a = Some g"
    and handler: "\<And>h c x. reg_handler g = Some h \<Longrightarrow> fst (fst (h c x)) = fst x"
    and exact: "exact_values sc (put (cmd_capability cmd) v (reg_persisted g))"
    and load: "load_device (device_store E sc show_error) (cmd_device cmd) w1 = Ok l"
  shows "\<exists>rt2 u. register (reg_definition g) (reg_handler g)
        (fst (start (runtime_new (Some (device_store E sc show_error))))) w1 = (rt2, w1, Ok ())
    \<and> current_value rt2 (cmd_device cmd) (cmd_capability cmd) = Some u \<and> value_eq u v
    \<and> (\<forall>c. c \<noteq> cmd_capability cmd \<longrightarrow> current_value rt2 (cmd_device cmd) c = current_value rt (cmd_device cmd) c)"
proof -
  from write_value_ok [OF ok run] obtain a' cap h w0 where
    step: "write_begin cmd rt = Ok (a', cap, h)" "h cmd w = (w0, Ok v)" "admits cap v"
      "commit now a' (cmd_device cmd) cap v rt w0 = (rt1, w1, Ok ())" .
  note began = write_begin_ok [OF ok step(1)]
  have a': "a' = a" using began(1) d by (auto simp: lookup_ok [OF ok])
  then have "reg_handler g = Some h" using began(5) g by simp
  from handler [OF this, of cmd w] step(2) have same: "fst w0 = fst w" by simp
  have "device_durable E sc show_error rt w0"
    using dur same by (simp add: device_durable_def device_holds_def)
  then have dur0: "device.durable TYPE(_) E sc show_error rt w0"
    by (rule device_durable_iff [OF engine, THEN iffD2])
  have dur1: "device.durable TYPE(_) E sc show_error rt1 w1"
    by (rule device.commit_durable [OF ok dur0 began(1) step(4)]) (use exact g a' in simp)
  have ok1: "rt_ok rt1" using rt_ok_write_value [OF ok, of now cmd w] run by simp
  from commit_effect [OF ok began(1) step(4)] obtain u where
    u: "current_value rt (cmd_device cmd) (cmd_capability cmd) = Some u"
    and now_is: "\<forall>d' c'. current_value rt1 d' c' = (if d' = cmd_device cmd \<and> c' = cmd_capability cmd \<and> \<not> value_eq u v
        then Some v else current_value rt d' c')"
    and devices: "rt_devices rt1 = rt_devices rt" by blast
  have "\<exists>g1. map_of (rt_heap rt1) a = Some g1 \<and> reg_definition g1 = reg_definition g \<and> reg_handler g1 = reg_handler g"
    using commit_object [OF step(4)] a' g by simp
  then obtain g1 where g1: "map_of (rt_heap rt1) a = Some g1" "reg_definition g1 = reg_definition g"
    "reg_handler g1 = reg_handler g" by blast
  have d1: "map_of (rt_devices rt1) (cmd_device cmd) = Some a" using d devices by simp
  from device.restart_restores [OF ok1 dur1 d1 g1(1) load] g1(2,3) obtain rt2 where
    again: "register (reg_definition g) (reg_handler g)
        (fst (start (runtime_new (Some (device_store E sc show_error))))) w1 = (rt2, w1, Ok ())"
    and current: "\<forall>c. current_value rt2 (cmd_device cmd) c = current_value rt1 (cmd_device cmd) c" by auto
  have "value_eq v v" using admits_validate [OF step(3)] by (rule value_eq_refl)
  with u now_is current again show ?thesis
    by (cases "value_eq u v") auto
qed

definition sample_store :: "((namespace \<Rightarrow> (string, string) btree) \<times> unit) state_store_ops" where
  "sample_store = device_store memory_engine sample_codec (\<lambda>_. ''store failed'')"

definition durable_handler :: "((namespace \<Rightarrow> (string, string) btree) \<times> unit) handler" where
  "durable_handler cmd w = (w, Ok (cmd_value cmd))"

definition durable_fresh :: "((namespace \<Rightarrow> (string, string) btree) \<times> unit) runtime" where
  "durable_fresh = fst (start (runtime_new (Some sample_store)))"

definition durable_start :: "((namespace \<Rightarrow> (string, string) btree) \<times> unit, unit) outcome" where
  "durable_start = register sample_device (Some durable_handler) durable_fresh (no_tables, ())"

definition durable_write :: "((namespace \<Rightarrow> (string, string) btree) \<times> unit, scalar) outcome" where
  "durable_write = write_value 0 sample_command (fst durable_start) (fst (snd durable_start))"

lemma durable_fresh_fields [simp]:
  "rt_started durable_fresh" "rt_devices durable_fresh = []" "rt_heap durable_fresh = []"
  "rt_next_address durable_fresh = 0" "rt_store durable_fresh = Some sample_store"
  by (simp_all add: durable_fresh_def start_def runtime_new_def)

definition sample_key :: string where
  "sample_key = be_bytes 4 0 @ be_bytes 4 (length ''virtual.switch.state.json'') @ ''virtual.switch.state.json''"

lemma sample_bucket_key: "bucket_key (storage_bucket Devices) (state_key ''virtual.switch'') = Ok sample_key"
  by (simp add: bucket_key_def validate_name_def encode_key_def push_length_def push_bytes_def storage_bucket_def
      state_key_def sample_key_def)

lemma sample_save:
  "save_device sample_store ''virtual.switch'' [(''on'', VBool b)] (db, u) =
     ((db(Devices := put sample_key (if b then ''t'' else ''f'') (db Devices)), u), Ok ())"
  by (cases b)
     (simp_all add: sample_store_def device_store_def store_save_state_def encode_state_def sample_codec_def
       MAX_DEVICE_STATE_SIZE_def bucket_set_def sample_bucket_key memory_engine_def persisted_from_value_def
       empty_wire_def storage_bucket_def [of Devices, THEN arg_cong, of bk_namespace])

lemma sample_fields [simp]:
  "cap_id sample_capability = ''on''" "cap_initial sample_capability = VBool False"
  "cap_permissions sample_capability = \<lparr>perm_read = True, perm_write = True, perm_observe = True\<rparr>"
  "dev_id sample_device = ''virtual.switch''" "dev_capabilities sample_device = [sample_capability]"
  by (simp_all add: sample_capability_def sample_device_def)

lemma sample_device_valid: "device_validate sample_device = Ok ()"
  by code_simp

lemma sample_bool_valid [simp]: "validate_capability_value sample_capability (VBool b) = Ok ()"
  by (cases b) code_simp+

lemma sample_prepare:
  "register_prepare sample_device (Some durable_handler) durable_fresh (no_tables, ()) =
     Ok \<lparr>res_persisted = [(''on'', VBool False)], res_current = [(''on'', VBool False)],
         res_capabilities = [(''on'', sample_capability)], res_dirty = True\<rparr>"
proof -
  have "store_load_state memory_engine sample_codec ''virtual.switch'' no_tables = Ok None"
    by (simp add: sample_store_simps)
  then show ?thesis
    by (simp add: register_prepare_def sample_device_valid require_handlers_def check_absent_def ensure_started_def
        store_load_def) (simp add: sample_store_def device_store_def)
qed

lemma durable_start_done: "snd (snd durable_start) = Ok ()"
  by (simp add: durable_start_def register_def sample_prepare check_absent_def ensure_started_def
      store_save_def sample_save)

lemma durable_start_devices:
  "map_of (rt_devices (fst durable_start)) ''virtual.switch'' = Some 0"
  "map_of (rt_heap (fst durable_start)) 0 = Some \<lparr>reg_definition = sample_device,
     reg_capabilities = [(''on'', sample_capability)], reg_current = [(''on'', VBool False)],
     reg_persisted = [(''on'', VBool False)], reg_handler = Some durable_handler\<rparr>"
  "rt_started (fst durable_start)"
  "rt_store (fst durable_start) = Some sample_store"
  by (simp_all add: durable_start_def register_def sample_prepare check_absent_def ensure_started_def
      store_save_def sample_save register_insert_def Let_def)

lemma durable_write_done:
  "snd (snd durable_write) = Ok (VBool True)"
  "\<exists>db. fst (snd durable_write) = (db(Devices := put sample_key ''t'' (db Devices)), ())"
proof -
  obtain db where "fst (snd durable_start) = (db, ())" by (metis old.unit.exhaust prod.exhaust)
  then show "snd (snd durable_write) = Ok (VBool True)"
    "\<exists>db. fst (snd durable_write) = (db(Devices := put sample_key ''t'' (db Devices)), ())"
    by (auto simp add: durable_write_def write_value_def write_begin_def lookup_def lookup_device_def ensure_started_def
      durable_start_devices sample_command_def confirm_registration_def durable_handler_def write_finish_def commit_def
      store_save_def sample_save)
qed

lemma durable_start_ok: "rt_ok (fst durable_start)"
  unfolding durable_start_def durable_fresh_def by (intro rt_ok_register rt_ok_start rt_ok_new)

lemma durable_start_durable:
  "device_durable memory_engine sample_codec (\<lambda>_. ''store failed'') (fst durable_start) (fst (snd durable_start))"
proof -
  have fresh: "rt_ok durable_fresh" unfolding durable_fresh_def by (intro rt_ok_start rt_ok_new)
  have "device_durable memory_engine sample_codec (\<lambda>_. ''store failed'') durable_fresh (no_tables, ())"
    by (simp add: device_durable_def sample_store_def)
  then have "device.durable TYPE(_) memory_engine sample_codec (\<lambda>_. ''store failed'') durable_fresh (no_tables, ())"
    by (rule device_durable_iff [OF memory_engine_ok, THEN iffD2])
  then have "device.durable TYPE(_) memory_engine sample_codec (\<lambda>_. ''store failed'') (fst durable_start) (fst (snd durable_start))"
    by (rule device.register_durable [OF fresh, where r = "snd (snd durable_start)"])
       (auto simp: durable_start_def sample_prepare sample_exact)
  then show ?thesis by (rule device_durable_iff [OF memory_engine_ok, THEN iffD1])
qed

theorem write_survives_restart_witness:
  "\<exists>rt2 u. register sample_device (Some durable_handler) durable_fresh (fst (snd durable_write)) =
        (rt2, fst (snd durable_write), Ok ())
     \<and> current_value rt2 ''virtual.switch'' ''on'' = Some u \<and> value_eq u (VBool True)"
proof -
  let ?g = "\<lparr>reg_definition = sample_device,
     reg_capabilities = [(''on'', sample_capability)], reg_current = [(''on'', VBool False)],
     reg_persisted = [(''on'', VBool False)], reg_handler = Some durable_handler\<rparr>"
  have run: "write_value 0 sample_command (fst durable_start) (fst (snd durable_start)) =
      (fst durable_write, fst (snd durable_write), Ok (VBool True))"
    using durable_write_done(1) by (simp add: durable_write_def prod_eq_iff)
  obtain db where db: "fst (snd durable_write) = (db(Devices := put sample_key ''t'' (db Devices)), ())"
    using durable_write_done(2) by blast
  have "is_ok (load_device sample_store ''virtual.switch'' (fst (snd durable_write)))"
    by (simp add: db sample_store_def device_store_def store_load_state_def bucket_get_def sample_bucket_key
        memory_engine_def decode_state_def sample_codec_def MAX_DEVICE_STATE_SIZE_def DEVICE_STATE_FORMAT_def
        state_of_values_def persisted_from_value_def empty_wire_def storage_bucket_def [of Devices, THEN arg_cong, of bk_namespace]
        validate_identifier_def MAX_IDENTIFIER_LENGTH_def valid_edge_def valid_inner_def is_ascii_lowercase_def
        capability_id_new_def value_from_persisted_def decode_wire_def payload_count_def)
  then obtain l where load: "load_device sample_store ''virtual.switch'' (fst (snd durable_write)) = Ok l"
    by (auto simp: is_ok_iff)
  have "\<exists>rt2 u. register (reg_definition ?g) (reg_handler ?g)
        (fst (start (runtime_new (Some (device_store memory_engine sample_codec (\<lambda>_. ''store failed''))))))
        (fst (snd durable_write)) = (rt2, fst (snd durable_write), Ok ())
    \<and> current_value rt2 (cmd_device sample_command) (cmd_capability sample_command) = Some u \<and> value_eq u (VBool True)
    \<and> (\<forall>c. c \<noteq> cmd_capability sample_command \<longrightarrow>
         current_value rt2 (cmd_device sample_command) c = current_value (fst durable_start) (cmd_device sample_command) c)"
    by (rule write_survives_restart [OF memory_engine_ok durable_start_ok durable_start_durable run])
       (use durable_start_devices load sample_exact [of True] in
         \<open>auto simp: sample_command_def durable_handler_def sample_store_def\<close>)
  then show ?thesis by (auto simp: durable_fresh_def sample_store_def sample_command_def)
qed

end
