(* ===== verification/Device_Group.thy ===== *)
theory Device_Group
  imports Runtime_Safety
begin

text \<open>
  Several components acquire a list of resources in order and, when one of them is refused,
  release those already acquired in the reverse order. \<open>acquire_all\<close> is that loop, the locale
  \<open>staged\<close> what makes it all-or-nothing, and its interpretation the loop over the devices that
  the plugin host and the virtual integration register with the runtime.
\<close>

fun acquire_all ::
  "('x \<Rightarrow> 's \<Rightarrow> 's \<times> ('e, unit) result) \<Rightarrow> ('x \<Rightarrow> 's \<Rightarrow> 's) \<Rightarrow> 'x list \<Rightarrow> 'x list \<Rightarrow> 's \<Rightarrow> 's \<times> ('x \<times> 'e, 'x list) result"
where
  "acquire_all acq rel got [] s = (s, Ok got)"
| "acquire_all acq rel got (x # xs) s =
     (case acq x s of
        (s', Ok _) \<Rightarrow> acquire_all acq rel (got @ [x]) xs s'
      | (s', Err e) \<Rightarrow> (fold rel (rev got) s', Err (x, e)))"

lemma acquire_all_got: "acquire_all acq rel got xs s = (s', Ok ys) \<Longrightarrow> ys = got @ xs"
  by (induction xs arbitrary: got s) (fastforce split: prod.splits sum.splits)+

locale staged =
  fixes acq :: "'x \<Rightarrow> 's \<Rightarrow> 's \<times> ('e, unit) result"
    and rel :: "'x \<Rightarrow> 's \<Rightarrow> 's"
    and view :: "'s \<Rightarrow> 'v"
    and good :: "'s \<Rightarrow> bool"
  assumes acq_good: "good s \<Longrightarrow> good (fst (acq x s))"
    and rel_good: "good s \<Longrightarrow> good (rel x s)"
    and refused_view: "good s \<Longrightarrow> acq x s = (s', Err e) \<Longrightarrow> view s' = view s"
    and rel_undoes: "good s \<Longrightarrow> acq x s = (s', Ok u) \<Longrightarrow> good t \<Longrightarrow> view t = view s' \<Longrightarrow> view (rel x t) = view s"
begin

lemma release_good: "good s \<Longrightarrow> good (fold rel xs s)"
  by (induction xs arbitrary: s) (simp_all add: rel_good)

lemma acquire_good: "good s \<Longrightarrow> good (fst (acquire_all acq rel got xs s))"
proof (induction xs arbitrary: got s)
  case (Cons x xs)
  obtain s' r where r: "acq x s = (s', r)" by (cases "acq x s")
  have "good s'" using acq_good [OF Cons.prems, of x] by (simp add: r)
  then show ?case by (cases r) (simp_all add: r Cons.IH release_good)
qed simp

text \<open>What releasing \<open>got\<close> gives before the loop, it gives after a refusal.\<close>

lemma acquire_refused:
  assumes "good s" and "acquire_all acq rel got xs s = (t, Err e)"
    and "\<And>u. good u \<Longrightarrow> view u = view s \<Longrightarrow> view (fold rel (rev got) u) = v"
  shows "view t = v"
  using assms
proof (induction xs arbitrary: got s)
  case (Cons x xs)
  obtain s' r where r: "acq x s = (s', r)" by (cases "acq x s")
  have good': "good s'" using acq_good [OF Cons.prems(1), of x] by (simp add: r)
  show ?case
  proof (cases r)
    case (Inl m)
    then have "view s' = view s" using refused_view [OF Cons.prems(1)] r by simp
    then show ?thesis using Cons.prems(2) Cons.prems(3) [OF good'] by (auto simp: r Inl)
  next
    case (Inr u)
    have "view (fold rel (rev (got @ [x])) t') = v" if t': "good t'" "view t' = view s'" for t'
      using rel_undoes [OF Cons.prems(1) _ t'(1), of x s' u] Cons.prems(3) [of "rel x t'"] t' rel_good r Inr by simp
    then show ?thesis
      using Cons.IH [of s' "got @ [x]"] Cons.prems(2) good' by (simp add: r Inr)
  qed
qed simp

lemma all_or_nothing:
  assumes "good s" and "acquire_all acq rel [] xs s = (t, Err e)"
  shows "view t = view s"
  using acquire_refused [OF assms] by simp

end

section \<open>Devices of the runtime\<close>

type_synonym 'w host = "'w runtime \<times> 'w"

definition register_device :: "'w handler option \<Rightarrow> device \<Rightarrow> 'w host \<Rightarrow> 'w host \<times> (runtime_error, unit) result" where
  "register_device h d s = (case register d h (fst s) (snd s) of (rt, w, r) \<Rightarrow> ((rt, w), r))"

definition unregister_device :: "device \<Rightarrow> 'w host \<Rightarrow> 'w host" where
  "unregister_device d s = (fst (unregister (dev_id d) (fst s)), snd s)"

definition register_all :: "'w handler option \<Rightarrow> device list \<Rightarrow> 'w host \<Rightarrow> 'w host \<times> (device \<times> runtime_error, device list) result" where
  "register_all h ds s = acquire_all (register_device h) unregister_device [] ds s"

definition unregister_all :: "device_id list \<Rightarrow> 'w runtime \<Rightarrow> 'w runtime" where
  "unregister_all ids rt = fold (\<lambda>d rt. fst (unregister d rt)) ids rt"

lemma unregister_fields [simp]:
  "rt_started (fst (unregister d rt)) = rt_started rt"
  "rt_heap (fst (unregister d rt)) = rt_heap rt"
  "rt_store (fst (unregister d rt)) = rt_store rt"
  "rt_devices (fst (unregister d rt)) = (if rt_started rt then del d (rt_devices rt) else rt_devices rt)"
proof -
  have "rt_started (fst (unregister d rt)) = rt_started rt \<and> rt_heap (fst (unregister d rt)) = rt_heap rt
      \<and> rt_store (fst (unregister d rt)) = rt_store rt
      \<and> rt_devices (fst (unregister d rt)) = (if rt_started rt then del d (rt_devices rt) else rt_devices rt)"
  proof (cases "lookup_device rt d")
    case (Inl e)
    then have "rt_started rt \<longrightarrow> d \<notin> keys (rt_devices rt)"
      by (auto simp: lookup_device_def map_of_None_keys [symmetric] and_then_eq_Err ensure_started_def)
    then show ?thesis using Inl by (auto simp: unregister_def)
  next
    case (Inr a)
    then have "map_of (rt_devices rt) d = Some a" "rt_started rt" by (simp_all add: lookup_device_ok)
    then show ?thesis using Inr by (simp add: unregister_def)
  qed
  then show "rt_started (fst (unregister d rt)) = rt_started rt"
    "rt_heap (fst (unregister d rt)) = rt_heap rt"
    "rt_store (fst (unregister d rt)) = rt_store rt"
    "rt_devices (fst (unregister d rt)) = (if rt_started rt then del d (rt_devices rt) else rt_devices rt)"
    by simp_all
qed

lemma unregister_all_fields [simp]:
  "rt_started (unregister_all ids rt) = rt_started rt"
  "rt_heap (unregister_all ids rt) = rt_heap rt"
  "rt_store (unregister_all ids rt) = rt_store rt"
  by (induction ids arbitrary: rt) (simp_all add: unregister_all_def)

lemma unregister_all_devices:
  "rt_started rt \<Longrightarrow> map_of (rt_devices (unregister_all ids rt)) k = (if k \<in> set ids then None else map_of (rt_devices rt) k)"
  by (induction ids arbitrary: rt) (simp_all add: unregister_all_def)

lemma rt_ok_unregister_all: "rt_ok rt \<Longrightarrow> rt_ok (unregister_all ids rt)"
  by (induction ids arbitrary: rt) (simp_all add: unregister_all_def rt_ok_unregister)

text \<open>The device is registered under its own identifier with this definition.\<close>

definition registered_as :: "'w runtime \<Rightarrow> device \<Rightarrow> bool" where
  "registered_as rt d \<longleftrightarrow> (\<exists>a g. map_of (rt_devices rt) (dev_id d) = Some a \<and> map_of (rt_heap rt) a = Some g
     \<and> reg_definition g = d)"

definition heap_extends :: "'w runtime \<Rightarrow> 'w runtime \<Rightarrow> bool" where
  "heap_extends rt rt' \<longleftrightarrow> (\<forall>a g. map_of (rt_heap rt) a = Some g \<longrightarrow> map_of (rt_heap rt') a = Some g)"

lemma heap_extends_refl [simp]: "heap_extends rt rt"
  by (simp add: heap_extends_def)

lemma heap_extends_trans: "heap_extends a b \<Longrightarrow> heap_extends b c \<Longrightarrow> heap_extends a c"
  by (simp add: heap_extends_def)

lemma registered_as_extends:
  "registered_as rt d \<Longrightarrow> heap_extends rt rt' \<Longrightarrow> map_of (rt_devices rt') (dev_id d) = map_of (rt_devices rt) (dev_id d)
     \<Longrightarrow> registered_as rt' d"
  unfolding registered_as_def heap_extends_def by force

lemma register_effect:
  assumes "rt_ok rt" and "register d h rt w = (rt', w', r)"
  shows "rt_ok rt'" and "heap_extends rt rt'" and "rt_started rt' = rt_started rt" and "rt_store rt' = rt_store rt"
    and "r = Err e \<Longrightarrow> rt' = rt"
    and "r = Ok u \<Longrightarrow> rt_started rt \<and> map_of (rt_devices rt) (dev_id d) = None
      \<and> (\<exists>a. rt_devices rt' = put (dev_id d) a (rt_devices rt)) \<and> registered_as rt' d"
proof -
  show "rt_ok rt'" using rt_ok_register [OF assms(1), of d h w] assms(2) by simp
  have fresh: "map_of (rt_heap rt) (rt_next_address rt) = None"
    using rt_okD(2) [OF assms(1)] by (metis less_irrefl not_Some_eq)
  have "heap_extends rt rt' \<and> rt_started rt' = rt_started rt \<and> rt_store rt' = rt_store rt
      \<and> (r = Err e \<longrightarrow> rt' = rt)
      \<and> (r = Ok u \<longrightarrow> rt_started rt \<and> map_of (rt_devices rt) (dev_id d) = None
          \<and> (\<exists>a. rt_devices rt' = put (dev_id d) a (rt_devices rt)) \<and> registered_as rt' d)"
  proof (cases rule: register_cases [of d h rt w])
    case (registered r w')
    then show ?thesis
      using assms(2) fresh register_prepare_ok [OF registered(1)]
      by (auto simp: heap_extends_def registered_as_def register_insert_def Let_def)
  qed (use assms(2) in auto)
  then show "heap_extends rt rt'" "rt_started rt' = rt_started rt" "rt_store rt' = rt_store rt"
    "r = Err e \<Longrightarrow> rt' = rt"
    "r = Ok u \<Longrightarrow> rt_started rt \<and> map_of (rt_devices rt) (dev_id d) = None
      \<and> (\<exists>a. rt_devices rt' = put (dev_id d) a (rt_devices rt)) \<and> registered_as rt' d"
    by blast+
qed

lemma register_device_eq:
  "register_device h d s = (s', r) \<Longrightarrow> register d h (fst s) (snd s) = (fst s', snd s', r)"
  by (auto simp: register_device_def split: prod.splits)

interpretation devices: staged "register_device h" unregister_device
  "\<lambda>s :: 'w host. (rt_started (fst s), rt_devices (fst s))" "\<lambda>s. rt_ok (fst s)" for h :: "'w handler option"
proof unfold_locales
  show "rt_ok (fst s) \<Longrightarrow> rt_ok (fst (fst (register_device h d s)))" for s d
    using rt_ok_register [of "fst s" d h "snd s"] by (auto simp: register_device_def split: prod.split)
  show "rt_ok (fst s) \<Longrightarrow> rt_ok (fst (unregister_device d s))" for s :: "'w host" and d
    by (simp add: unregister_device_def rt_ok_unregister)
  show "(rt_started (fst s'), rt_devices (fst s')) = (rt_started (fst s), rt_devices (fst s))"
    if "rt_ok (fst s)" "register_device h d s = (s', Err e)" for s d s' e
    using register_effect(5) [OF that(1) register_device_eq [OF that(2)] refl] by simp
  show "(rt_started (fst (unregister_device d t)), rt_devices (fst (unregister_device d t)))
      = (rt_started (fst s), rt_devices (fst s))"
    if "rt_ok (fst s)" "register_device h d s = (s', Ok u)" "rt_ok (fst t)"
      "(rt_started (fst t), rt_devices (fst t)) = (rt_started (fst s'), rt_devices (fst s'))" for s d s' u t
  proof -
    note eff = register_effect [OF that(1) register_device_eq [OF that(2)]]
    show ?thesis
      using eff(3) eff(6) [OF refl] that(4) bt.del_put [OF rt_okD(1) [OF that(1)]]
      by (auto simp: unregister_device_def)
  qed
qed

lemma register_all_refused:
  assumes "rt_ok (fst s)" and "register_all h ds s = (t, Err e)"
  shows "rt_started (fst t) = rt_started (fst s)" and "rt_devices (fst t) = rt_devices (fst s)"
  using devices.all_or_nothing [OF assms(1) assms(2) [unfolded register_all_def]] by simp_all

lemma register_all_ok: "rt_ok (fst s) \<Longrightarrow> rt_ok (fst (fst (register_all h ds s)))"
  unfolding register_all_def by (rule devices.acquire_good)

text \<open>What the loop registered: the given devices, each of them absent before.\<close>

lemma acquire_devices:
  assumes "rt_ok (fst s)" and "acquire_all (register_device h) unregister_device got ds s = (t, Ok ds')"
  shows "heap_extends (fst s) (fst t) \<and> rt_started (fst t) = rt_started (fst s)
    \<and> distinct (map dev_id ds) \<and> dev_id ` set ds \<inter> keys (rt_devices (fst s)) = {}
    \<and> (\<forall>k. k \<notin> dev_id ` set ds \<longrightarrow> map_of (rt_devices (fst t)) k = map_of (rt_devices (fst s)) k)
    \<and> (\<forall>d \<in> set ds. registered_as (fst t) d)"
  using assms
proof (induction ds arbitrary: got s)
  case (Cons d ds)
  obtain rt w r where reg: "register d h (fst s) (snd s) = (rt, w, r)" by (metis prod_cases3)
  then have step: "register_device h d s = ((rt, w), r)" by (simp add: register_device_def)
  then have r: "r = Ok ()" and rest: "acquire_all (register_device h) unregister_device (got @ [d]) ds (rt, w) = (t, Ok ds')"
    using Cons.prems(2) by (auto split: sum.splits)
  note eff = register_effect [OF Cons.prems(1) reg]
  from eff(6) [OF r] obtain a where a: "rt_devices rt = put (dev_id d) a (rt_devices (fst s))"
    and d: "map_of (rt_devices (fst s)) (dev_id d) = None" "registered_as rt d" by blast
  have ih: "heap_extends rt (fst t)" "rt_started (fst t) = rt_started rt" "distinct (map dev_id ds)"
    "dev_id ` set ds \<inter> keys (rt_devices rt) = {}"
    "\<And>k. k \<notin> dev_id ` set ds \<Longrightarrow> map_of (rt_devices (fst t)) k = map_of (rt_devices rt) k"
    "\<forall>d \<in> set ds. registered_as (fst t) d"
    using Cons.IH [of "(rt, w)", OF _ rest] eff(1) by auto
  have "registered_as (fst t) d"
    using d(2) ih(1) by (rule registered_as_extends) (use ih(4,5) a in auto)
  moreover have "dev_id d \<notin> keys (rt_devices (fst s))" using d(1) by (simp add: map_of_None_keys)
  ultimately show ?case
    using ih eff(2,3) heap_extends_trans a by auto
qed auto

lemma register_all_done:
  assumes "rt_ok (fst s)" and "register_all h ds s = (t, Ok ds')"
  shows "ds' = ds" and "heap_extends (fst s) (fst t)" and "rt_started (fst t) = rt_started (fst s)"
    and "distinct (map dev_id ds)" and "dev_id ` set ds \<inter> keys (rt_devices (fst s)) = {}"
    and "k \<notin> dev_id ` set ds \<Longrightarrow> map_of (rt_devices (fst t)) k = map_of (rt_devices (fst s)) k"
    and "d \<in> set ds \<Longrightarrow> registered_as (fst t) d"
  using acquire_devices [OF assms(1) assms(2) [unfolded register_all_def]]
    acquire_all_got [OF assms(2) [unfolded register_all_def]]
  by simp_all

lemma unregister_fold_store: "rt_store (fst (fold unregister_device ds s)) = rt_store (fst s)"
  by (induction ds arbitrary: s) (simp_all add: unregister_device_def)

lemma acquire_store:
  "rt_ok (fst s) \<Longrightarrow> rt_store (fst (fst (acquire_all (register_device h) unregister_device got ds s))) = rt_store (fst s)"
proof (induction ds arbitrary: got s)
  case (Cons d ds)
  obtain s' r where step: "register_device h d s = (s', r)" by (cases "register_device h d s")
  note eff = register_effect(1,4) [OF Cons.prems register_device_eq [OF step]]
  show ?case using Cons.IH [OF eff(1)] eff(2) by (cases r) (simp_all add: step unregister_fold_store)
qed simp

lemma register_all_store: "rt_ok (fst s) \<Longrightarrow> rt_store (fst (fst (register_all h ds s))) = rt_store (fst s)"
  unfolding register_all_def by (rule acquire_store)

text \<open>Without a state store a valid device with a handler is refused only when its identifier is taken.\<close>

lemma restore_values_initial:
  assumes "\<forall>c \<in> set cs. validate_capability_value c (restored_value (res_persisted r) c) = Ok ()"
    and "distinct (map cap_id cs)"
  shows "\<exists>r'. restore_values d cs r = Ok r'"
  using assms
proof (induction cs arbitrary: r)
  case (Cons c cs)
  have "restored_value (res_persisted (restore_step c r)) x = restored_value (res_persisted r) x" if "x \<in> set cs" for x
    using Cons.prems(2) that by (intro restored_value_step) (auto simp: image_iff)
  then obtain r' where "restore_values d cs (restore_step c r) = Ok r'"
    using Cons.IH [of "restore_step c r"] Cons.prems by auto
  then show ?case using restore_values_Cons [of d c cs r r'] Cons.prems(1) by auto
qed simp

lemma register_succeeds:
  assumes "rt_started rt" and "map_of (rt_devices rt) (dev_id d) = None" and "rt_store rt = None" and "device_ok d"
  shows "\<exists>rt' w'. register d (Some h) rt w = (rt', w', Ok ())"
proof -
  have "\<forall>c \<in> set (dev_capabilities d). validate_capability_value c (cap_initial c) = Ok ()"
    using assms(4) by (auto simp: device_ok_def capability_ok_def validate_capability_value_ok)
  moreover have "distinct (map cap_id (dev_capabilities d))" using assms(4) by (simp add: device_ok_def)
  ultimately obtain r where "register_prepare d (Some h) rt w = Ok r"
    using restore_values_initial [of "dev_capabilities d"
        "\<lparr>res_persisted = [], res_current = [], res_capabilities = [], res_dirty = True\<rparr>" "dev_id d"] assms
    by (auto simp: register_prepare_def require_handlers_def each_ok_iff check_absent_ok store_load_def
        restored_value_def device_validate_ok and_then_eq_Ok)
  then show ?thesis
    using assms check_absent_ok [of rt "dev_id d" "()"] by (auto simp: register_def store_save_def)
qed

lemma acquire_succeeds:
  assumes "rt_ok (fst s)" and "rt_started (fst s)" and "rt_store (fst s) = None" and "distinct (map dev_id ds)"
    and "\<forall>d \<in> set ds. device_ok d \<and> map_of (rt_devices (fst s)) (dev_id d) = None"
  shows "\<exists>t ds'. acquire_all (register_device (Some h)) unregister_device got ds s = (t, Ok ds')"
  using assms
proof (induction ds arbitrary: got s)
  case (Cons d ds)
  obtain rt w where reg: "register d (Some h) (fst s) (snd s) = (rt, w, Ok ())"
    using register_succeeds [of "fst s" d h "snd s"] Cons.prems by auto
  note eff = register_effect [OF Cons.prems(1) reg]
  obtain a where "rt_devices rt = put (dev_id d) a (rt_devices (fst s))" using eff(6) [OF refl] by blast
  then have "\<exists>t ds'. acquire_all (register_device (Some h)) unregister_device (got @ [d]) ds (rt, w) = (t, Ok ds')"
    using Cons.prems eff(1,3,4) by (intro Cons.IH) (auto simp: image_iff)
  moreover have "register_device (Some h) d s = ((rt, w), Ok ())" by (simp add: register_device_def reg)
  ultimately show ?case by simp
qed simp

lemma register_all_succeeds:
  assumes "rt_ok (fst s)" and "rt_started (fst s)" and "rt_store (fst s) = None" and "distinct (map dev_id ds)"
    and "\<forall>d \<in> set ds. device_ok d \<and> map_of (rt_devices (fst s)) (dev_id d) = None"
  shows "\<exists>t ds'. register_all (Some h) ds s = (t, Ok ds')"
  unfolding register_all_def using acquire_succeeds [OF assms] .

end
