(* ===== verification/Frame_Codec.thy ===== *)
theory Frame_Codec
  imports Float64
begin

text \<open>
  The line-delimited JSON frames of \<open>crates/oikade-plugin-api/src/codec.rs\<close> and
  \<open>crates/oikade-adapter-api/src/codec.rs\<close>: the bounded line reader, the envelope checks, the
  strict object visitor of the adapter protocol, and the encoders. The blocking and the
  asynchronous decoder of a crate have the same body and are one definition here; the reader
  is the sequence of buffers that \<open>fill_buf\<close> returns. The JSON library is a parameter.
\<close>

section \<open>Envelopes\<close>

definition PROTOCOL_VERSION :: nat where "PROTOCOL_VERSION = 1"
definition MAX_FRAME_SIZE :: nat where "MAX_FRAME_SIZE = 1048576"

record protocol_error =
  pe_code :: string
  pe_message :: string

record plugin_envelope =
  en_version :: nat
  en_id :: nat
  en_method :: string
  en_body :: "string option"
  en_error :: "protocol_error option"

datatype frame_kind = Request | Response | Notification

record adapter_envelope = plugin_envelope +
  en_kind :: frame_kind

datatype wire_error =
    FrameTooLarge
  | ReadFailure string
  | DecodeFailure string
  | UnsupportedVersion nat
  | MissingMethod
  | RequestIdZero
  | RequestWithError
  | ResponseIdZero
  | NotificationIdNonZero
  | NotificationWithError
  | EncodeFailure string

section \<open>The line reader\<close>

datatype feed = Bytes string | ReadFails string

abbreviation newline :: char where "newline \<equiv> CHR 0x0A"

text \<open>\<open>position(|byte| *byte == b'\\n').map_or(len, |index| index + 1)\<close>\<close>

definition line_take :: "string \<Rightarrow> nat" where
  "line_take b = (let n = length (takeWhile (\<lambda>c. c \<noteq> newline) b) in if n < length b then n + 1 else n)"

fun read_line :: "string \<Rightarrow> feed list \<Rightarrow> feed list \<times> (wire_error, string option) result" where
  "read_line line [] = ([], Ok (if line = [] then None else Some line))"
| "read_line line (ReadFails e # fs) = (fs, Err (ReadFailure e))"
| "read_line line (Bytes b # fs) =
     (if b = [] then (fs, Ok (if line = [] then None else Some line))
      else let t = line_take b in
        if length line + t > MAX_FRAME_SIZE then (Bytes b # fs, Err FrameTooLarge)
        else let line' = line @ take t b; rest = (if drop t b = [] then fs else Bytes (drop t b) # fs) in
          if last line' = newline then (rest, Ok (Some line'))
          else read_line line' fs)"

definition trim_ascii_whitespace :: "string \<Rightarrow> string" where
  "trim_ascii_whitespace s = rev (dropWhile is_ascii_whitespace (rev (dropWhile is_ascii_whitespace s)))"

section \<open>The plugin codec\<close>

record 'e frame_json =
  fj_encode :: "'e \<Rightarrow> (string, string) result"
  fj_decode :: "string \<Rightarrow> (string, 'e) result"

definition plugin_validate_envelope :: "plugin_envelope \<Rightarrow> (wire_error, unit) result" where
  "plugin_validate_envelope e =
     (if en_version e \<noteq> PROTOCOL_VERSION then Err (UnsupportedVersion (en_version e))
      else reject (en_method e = []) MissingMethod)"

definition plugin_decode ::
  "plugin_envelope frame_json \<Rightarrow> feed list \<Rightarrow> feed list \<times> (wire_error, plugin_envelope option) result" where
  "plugin_decode fj fs =
     (case read_line [] fs of
        (rest, Err e) \<Rightarrow> (rest, Err e)
      | (rest, Ok None) \<Rightarrow> (rest, Ok None)
      | (rest, Ok (Some line)) \<Rightarrow>
          (rest, and_then (map_err DecodeFailure (fj_decode fj (trim_ascii_whitespace line))) (\<lambda>e.
                 and_then (plugin_validate_envelope e) (\<lambda>_. Ok (Some e)))))"

definition plugin_encode :: "plugin_envelope frame_json \<Rightarrow> plugin_envelope \<Rightarrow> (wire_error, string) result" where
  "plugin_encode fj e =
     and_then (map_err EncodeFailure (fj_encode fj e)) (\<lambda>bytes.
       if length bytes + 1 > MAX_FRAME_SIZE then Err FrameTooLarge else Ok (bytes @ [newline]))"

section \<open>The adapter codec\<close>

datatype json =
    JNull
  | JBool bool
  | JInt int
  | JFloat f64
  | JString string
  | JArray "json list"
  | JObject "(string \<times> json) list"

fun strict :: "json \<Rightarrow> (string, json) result"
  and strict_seq :: "json list \<Rightarrow> (string, json list) result"
  and strict_map :: "string set \<Rightarrow> (string, json) btree \<Rightarrow> (string \<times> json) list \<Rightarrow> (string, (string, json) btree) result" where
  "strict JNull = Ok JNull"
| "strict (JBool b) = Ok (JBool b)"
| "strict (JInt i) = Ok (JInt i)"
| "strict (JFloat x) = (if is_finite x then Ok (JFloat x) else Err ''non-finite JSON number'')"
| "strict (JString s) = Ok (JString s)"
| "strict (JArray xs) = and_then (strict_seq xs) (\<lambda>ys. Ok (JArray ys))"
| "strict (JObject fs) = and_then (strict_map {} [] fs) (\<lambda>m. Ok (JObject m))"
| "strict_seq [] = Ok []"
| "strict_seq (x # xs) = and_then (strict x) (\<lambda>y. and_then (strict_seq xs) (\<lambda>ys. Ok (y # ys)))"
| "strict_map seen m [] = Ok m"
| "strict_map seen m ((k, v) # fs) =
     (if k \<in> seen then Err (''duplicate object key '' @ k)
      else and_then (strict v) (\<lambda>w. strict_map (insert k seen) (put k w m) fs))"

record adapter_json =
  aj_parse :: "string \<Rightarrow> (string, json) result"
  aj_from_value :: "json \<Rightarrow> (string, adapter_envelope) result"
  aj_render :: "adapter_envelope \<Rightarrow> (string, string) result"

definition decode_envelope :: "adapter_json \<Rightarrow> string \<Rightarrow> (wire_error, adapter_envelope) result" where
  "decode_envelope aj bytes =
     map_err DecodeFailure
       (and_then (aj_parse aj bytes) (\<lambda>t. and_then (strict t) (aj_from_value aj)))"

definition adapter_validate_envelope :: "adapter_envelope \<Rightarrow> (wire_error, unit) result" where
  "adapter_validate_envelope e =
     (if en_version e \<noteq> PROTOCOL_VERSION then Err (UnsupportedVersion (en_version e))
      else if en_method e = [] then Err MissingMethod
      else case en_kind e of
        Request \<Rightarrow> and_then (reject (en_id e = 0) RequestIdZero) (\<lambda>_. reject (en_error e \<noteq> None) RequestWithError)
      | Response \<Rightarrow> reject (en_id e = 0) ResponseIdZero
      | Notification \<Rightarrow>
          and_then (reject (en_id e \<noteq> 0) NotificationIdNonZero) (\<lambda>_. reject (en_error e \<noteq> None) NotificationWithError))"

definition adapter_decode ::
  "adapter_json \<Rightarrow> feed list \<Rightarrow> feed list \<times> (wire_error, adapter_envelope option) result" where
  "adapter_decode aj fs =
     (case read_line [] fs of
        (rest, Err e) \<Rightarrow> (rest, Err e)
      | (rest, Ok None) \<Rightarrow> (rest, Ok None)
      | (rest, Ok (Some line)) \<Rightarrow>
          (rest, and_then (decode_envelope aj (trim_ascii_whitespace line)) (\<lambda>e.
                 and_then (adapter_validate_envelope e) (\<lambda>_. Ok (Some e)))))"

definition adapter_encode :: "adapter_json \<Rightarrow> adapter_envelope \<Rightarrow> (wire_error, string) result" where
  "adapter_encode aj e =
     and_then (adapter_validate_envelope e) (\<lambda>_.
     and_then (map_err EncodeFailure (aj_render aj e)) (\<lambda>bytes.
       if length bytes + 1 > MAX_FRAME_SIZE then Err FrameTooLarge else Ok (bytes @ [newline])))"

section \<open>The reader does not depend on the buffering\<close>

text \<open>The reference: the first line of the whole input, with its newline when it has one.\<close>

definition next_line :: "string \<Rightarrow> (wire_error, string option) result" where
  "next_line s =
     (if s = [] then Ok None
      else if line_take s > MAX_FRAME_SIZE then Err FrameTooLarge
      else Ok (Some (take (line_take s) s)))"

definition feed_bytes :: "feed list \<Rightarrow> string" where
  "feed_bytes fs = concat (map (\<lambda>f. case f of Bytes b \<Rightarrow> b | ReadFails _ \<Rightarrow> []) fs)"

definition healthy :: "feed list \<Rightarrow> bool" where
  "healthy fs \<longleftrightarrow> list_all (\<lambda>f. case f of Bytes b \<Rightarrow> b \<noteq> [] | ReadFails _ \<Rightarrow> False) fs"

lemma feed_simps [simp]:
  "feed_bytes [] = []" "feed_bytes (Bytes b # fs) = b @ feed_bytes fs"
  "healthy []" "healthy (Bytes b # fs) \<longleftrightarrow> b \<noteq> [] \<and> healthy fs" "\<not> healthy (ReadFails e # fs)"
  by (simp_all add: feed_bytes_def healthy_def)

lemma takeWhile_no_newline:
  "newline \<notin> set p \<Longrightarrow> takeWhile (\<lambda>c. c \<noteq> newline) p = p"
  "newline \<notin> set p \<Longrightarrow> takeWhile (\<lambda>c. c \<noteq> newline) (p @ newline # s) = p"
  by (induction p) auto

lemma line_take_no_newline: "newline \<notin> set b \<Longrightarrow> line_take b = length b"
  by (simp add: line_take_def takeWhile_no_newline)

lemma line_take_newline: "newline \<notin> set p \<Longrightarrow> line_take (p @ newline # s) = length p + 1"
  by (simp add: line_take_def takeWhile_no_newline)

lemma line_take_starts: "line_take (newline # s) = 1"
  using line_take_newline [of "[]"] by simp

lemma split_at_newline:
  obtains (whole) "newline \<notin> set s" | (split) p r where "s = p @ newline # r" "newline \<notin> set p"
  by (metis split_list_first)

lemma line_take_prefix: "newline \<notin> set l \<Longrightarrow> line_take (l @ s) = length l + line_take s"
  by (cases s rule: split_at_newline)
     (auto simp: line_take_no_newline simp flip: append_assoc simp: line_take_newline)

lemma line_take_le: "line_take s \<le> length s"
  by (cases s rule: split_at_newline) (auto simp: line_take_no_newline line_take_newline)

lemma line_take_append_ge: "newline \<notin> set b \<Longrightarrow> length b \<le> line_take (b @ s)"
  by (simp add: line_take_prefix)

lemma read_line_spec:
  assumes "healthy fs" and "newline \<notin> set line" and "length line \<le> MAX_FRAME_SIZE"
  shows "snd (read_line line fs) = next_line (line @ feed_bytes fs)
    \<and> (is_ok (snd (read_line line fs)) \<longrightarrow> healthy (fst (read_line line fs))
        \<and> feed_bytes (fst (read_line line fs)) = drop (line_take (line @ feed_bytes fs)) (line @ feed_bytes fs))"
  using assms
proof (induction line fs rule: read_line.induct)
  case (1 line)
  then show ?case by (auto simp: next_line_def line_take_no_newline)
next
  case (3 line b fs)
  show ?case
  proof (cases b rule: split_at_newline)
    case whole
    then have t: "line_take b = length b" by (rule line_take_no_newline)
    have no_nl: "newline \<notin> set (line @ b)" using whole 3 by simp
    have ge: "length line + length b \<le> line_take (line @ b @ feed_bytes fs)"
      using line_take_append_ge [OF no_nl, of "feed_bytes fs"] by simp
    show ?thesis
    proof (cases "length line + length b > MAX_FRAME_SIZE")
      case True
      with ge 3 t show ?thesis by (auto simp: next_line_def)
    next
      case False
      have "last (line @ b) \<noteq> newline" using no_nl 3 by (metis append_is_Nil_conv feed_simps(4) last_in_set)
      with False t 3 no_nl show ?thesis by (simp add: Let_def)
    qed
  next
    case (split p r)
    then have t: "line_take b = length p + 1" by (simp add: line_take_newline)
    have all: "line_take (line @ b @ feed_bytes fs) = length line + length p + 1"
      using split "3.prems" by (simp add: line_take_prefix line_take_starts)
    show ?thesis
      using "3.prems" split t all by (auto simp: next_line_def Let_def line_take_starts)
  qed
qed simp

section \<open>Streams of frames\<close>

text \<open>
  What the sources rely on of the JSON library: a rendered document is on one line, does not
  start or end with white space, and parses back to what was rendered.
\<close>

definition compact :: "string \<Rightarrow> bool" where
  "compact b \<longleftrightarrow> b \<noteq> [] \<and> newline \<notin> set b \<and> \<not> is_ascii_whitespace (hd b) \<and> \<not> is_ascii_whitespace (last b)"

definition plugin_faithful :: "plugin_envelope frame_json \<Rightarrow> plugin_envelope \<Rightarrow> bool" where
  "plugin_faithful fj e \<longleftrightarrow> plugin_validate_envelope e = Ok () \<and>
     (\<forall>b. fj_encode fj e = Ok b \<longrightarrow> compact b \<and> fj_decode fj b = Ok e)"

definition adapter_faithful :: "adapter_json \<Rightarrow> adapter_envelope \<Rightarrow> bool" where
  "adapter_faithful aj e \<longleftrightarrow>
     (\<forall>b. aj_render aj e = Ok b \<longrightarrow> compact b \<and> (\<exists>t u. aj_parse aj b = Ok t \<and> strict t = Ok u \<and> aj_from_value aj u = Ok e))"

lemma dropWhile_hd: "\<not> P (hd s) \<Longrightarrow> dropWhile P s = s"
  by (cases s) auto

lemma trim_compact:
  assumes "compact b"
  shows "trim_ascii_whitespace (b @ [newline]) = b"
proof -
  have "is_ascii_whitespace newline" by (simp add: is_ascii_whitespace_def)
  moreover have "dropWhile is_ascii_whitespace (b @ [newline]) = b @ [newline]"
    using assms by (intro dropWhile_hd) (simp add: compact_def)
  moreover have "dropWhile is_ascii_whitespace (rev b) = rev b"
    using assms by (intro dropWhile_hd) (simp add: compact_def hd_rev)
  ultimately show ?thesis by (simp add: trim_ascii_whitespace_def)
qed

lemma healthy_bytes_Nil: "healthy fs \<Longrightarrow> feed_bytes fs = [] \<Longrightarrow> fs = []"
  by (cases fs; cases "hd fs") auto

lemma read_line_frame:
  assumes "healthy fs" and "feed_bytes fs = b @ newline # rest" and "compact b" and "length b + 1 \<le> MAX_FRAME_SIZE"
  obtains fs' where "read_line [] fs = (fs', Ok (Some (b @ [newline])))" and "healthy fs'" and "feed_bytes fs' = rest"
proof -
  have t: "line_take (feed_bytes fs) = length b + 1"
    using assms(2,3) by (simp add: line_take_newline compact_def)
  have spec: "snd (read_line [] fs) = next_line (feed_bytes fs)
      \<and> (is_ok (snd (read_line [] fs)) \<longrightarrow> healthy (fst (read_line [] fs))
          \<and> feed_bytes (fst (read_line [] fs)) = drop (line_take (feed_bytes fs)) (feed_bytes fs))"
    using read_line_spec [OF assms(1), of "[]"] by simp
  moreover have "next_line (feed_bytes fs) = Ok (Some (b @ [newline]))"
    using t assms(2,4) by (simp add: next_line_def)
  ultimately show ?thesis
    using t assms(2) by (intro that [of "fst (read_line [] fs)"]) (simp_all add: prod_eq_iff)
qed

fun decode_n :: "(feed list \<Rightarrow> feed list \<times> (wire_error, 'e option) result) \<Rightarrow> nat \<Rightarrow> feed list
    \<Rightarrow> feed list \<times> (wire_error, 'e option) result list" where
  "decode_n dec 0 fs = (fs, [])"
| "decode_n dec (Suc n) fs =
     (let (fs1, r) = dec fs; (fs2, rs) = decode_n dec n fs1 in (fs2, r # rs))"

locale framing =
  fixes enc :: "'e \<Rightarrow> (wire_error, string) result"
    and dec :: "feed list \<Rightarrow> feed list \<times> (wire_error, 'e option) result"
    and faithful :: "'e \<Rightarrow> bool"
  assumes dec_frame: "faithful e \<Longrightarrow> enc e = Ok b \<Longrightarrow> healthy fs \<Longrightarrow> feed_bytes fs = b @ rest \<Longrightarrow>
            \<exists>fs'. dec fs = (fs', Ok (Some e)) \<and> healthy fs' \<and> feed_bytes fs' = rest"
    and dec_end: "dec [] = ([], Ok None)"
begin

lemma stream:
  assumes "list_all2 (\<lambda>e b. faithful e \<and> enc e = Ok b) es bs" and "healthy fs" and "feed_bytes fs = concat bs @ rest"
  shows "\<exists>fs'. decode_n dec (length es) fs = (fs', map (\<lambda>e. Ok (Some e)) es) \<and> healthy fs' \<and> feed_bytes fs' = rest"
  using assms
proof (induction arbitrary: fs rule: list_all2_induct)
  case (Cons e es b bs)
  have "feed_bytes fs = b @ (concat bs @ rest)" using Cons.prems by simp
  then obtain fs1 where fs1: "dec fs = (fs1, Ok (Some e))" "healthy fs1" "feed_bytes fs1 = concat bs @ rest"
    using dec_frame Cons.hyps(1) Cons.prems(1) by blast
  with Cons.IH [OF fs1(2,3)] show ?case by auto
qed simp

lemma whole_stream:
  assumes "list_all2 (\<lambda>e b. faithful e \<and> enc e = Ok b) es bs" and "healthy fs" and "feed_bytes fs = concat bs"
  shows "decode_n dec (length es + 1) fs = ([], map (\<lambda>e. Ok (Some e)) es @ [Ok None])"
proof -
  obtain fs' where fs': "decode_n dec (length es) fs = (fs', map (\<lambda>e. Ok (Some e)) es)" "healthy fs'" "feed_bytes fs' = []"
    using stream [OF assms(1,2), of "[]"] assms(3) by auto
  then have "fs' = []" using healthy_bytes_Nil by blast
  have "decode_n dec (n + 1) x = (fst (dec (fst (decode_n dec n x))),
      snd (decode_n dec n x) @ [snd (dec (fst (decode_n dec n x)))])" for n x
    by (induction n arbitrary: x) (simp_all add: split_beta Let_def)
  with fs' \<open>fs' = []\<close> dec_end show ?thesis by simp
qed

end

interpretation plugin_frames: framing "plugin_encode fj" "plugin_decode fj" "plugin_faithful fj" for fj
proof unfold_locales
  fix e b fs rest
  assume ok: "plugin_faithful fj e" "plugin_encode fj e = Ok b" "healthy fs" "feed_bytes fs = b @ rest"
  then obtain d where d: "fj_encode fj e = Ok d" "b = d @ [newline]" "length d + 1 \<le> MAX_FRAME_SIZE"
    by (auto simp: plugin_encode_def and_then_eq_Ok split: if_splits)
  with ok(1) have c: "compact d" "fj_decode fj d = Ok e" "plugin_validate_envelope e = Ok ()"
    by (auto simp: plugin_faithful_def)
  obtain fs' where "read_line [] fs = (fs', Ok (Some (d @ [newline])))" "healthy fs'" "feed_bytes fs' = rest"
    using read_line_frame [OF ok(3) _ c(1) d(3), of rest] ok(4) d(2) by auto
  then show "\<exists>fs'. plugin_decode fj fs = (fs', Ok (Some e)) \<and> healthy fs' \<and> feed_bytes fs' = rest"
    by (simp add: plugin_decode_def trim_compact [OF c(1)] c)
qed (simp add: plugin_decode_def)

interpretation adapter_frames: framing "adapter_encode aj" "adapter_decode aj" "adapter_faithful aj" for aj
proof unfold_locales
  fix e b fs rest
  assume ok: "adapter_faithful aj e" "adapter_encode aj e = Ok b" "healthy fs" "feed_bytes fs = b @ rest"
  then obtain d where d: "aj_render aj e = Ok d" "b = d @ [newline]" "length d + 1 \<le> MAX_FRAME_SIZE"
      "adapter_validate_envelope e = Ok ()"
    by (auto simp: adapter_encode_def and_then_eq_Ok split: if_splits)
  with ok(1) obtain t u where c: "compact d" "aj_parse aj d = Ok t" "strict t = Ok u" "aj_from_value aj u = Ok e"
    by (auto simp: adapter_faithful_def)
  obtain fs' where "read_line [] fs = (fs', Ok (Some (d @ [newline])))" "healthy fs'" "feed_bytes fs' = rest"
    using read_line_frame [OF ok(3) _ c(1) d(3), of rest] ok(4) d(2) by auto
  then show "\<exists>fs'. adapter_decode aj fs = (fs', Ok (Some e)) \<and> healthy fs' \<and> feed_bytes fs' = rest"
    by (simp add: adapter_decode_def decode_envelope_def trim_compact [OF c(1)] c d(4))
qed (simp add: adapter_decode_def)

section \<open>Strictness\<close>

fun unique_keys :: "json \<Rightarrow> bool" where
  "unique_keys (JArray xs) = list_all unique_keys xs"
| "unique_keys (JObject fs) = (distinct (map fst fs) \<and> list_all (\<lambda>(k, v). unique_keys v) fs)"
| "unique_keys _ = True"

fun finite_numbers :: "json \<Rightarrow> bool" where
  "finite_numbers (JFloat x) = is_finite x"
| "finite_numbers (JArray xs) = list_all finite_numbers xs"
| "finite_numbers (JObject fs) = list_all (\<lambda>(k, v). finite_numbers v) fs"
| "finite_numbers _ = True"

lemma is_ok_then_Ok: "is_ok (and_then r (\<lambda>x. Ok (f x))) = is_ok r"
  by (cases r) auto

lemma strict_iff:
  "is_ok (strict j) \<longleftrightarrow> unique_keys j \<and> finite_numbers j"
  "is_ok (strict_seq xs) \<longleftrightarrow> list_all (\<lambda>x. unique_keys x \<and> finite_numbers x) xs"
  "is_ok (strict_map seen m fs) \<longleftrightarrow> distinct (map fst fs) \<and> fst ` set fs \<inter> seen = {}
     \<and> list_all (\<lambda>(k, v). unique_keys v \<and> finite_numbers v) fs"
proof (induction j and xs and seen m fs rule: strict_strict_seq_strict_map.induct)
  case (11 seen m k v fs)
  then show ?case by (cases "k \<in> seen"; cases "strict v") auto
next
  case (9 x xs)
  then show ?case by (cases "strict x") (auto simp: is_ok_then_Ok)
qed (auto simp: is_ok_then_Ok list_all_iff)

lemma strict_map_ok:
  "strict_map seen m fs = Ok m' \<Longrightarrow> ordered m \<Longrightarrow> ordered m' \<and> keys m' = keys m \<union> keys fs"
  by (induction fs arbitrary: seen m) (fastforce simp: and_then_eq_Ok split: if_splits)+

section \<open>Properties\<close>

text \<open>the bounded line reader returns the first line of the input whatever buffers the input arrives in,
  refuses exactly the lines longer than the frame limit, and leaves exactly the rest of the input
  for the next call.\<close>

theorem reader_ignores_buffering:
  assumes "healthy fs"
  shows "snd (read_line [] fs) = next_line (feed_bytes fs)
    \<and> (is_ok (next_line (feed_bytes fs)) \<longrightarrow> healthy (fst (read_line [] fs))
        \<and> feed_bytes (fst (read_line [] fs)) = drop (line_take (feed_bytes fs)) (feed_bytes fs))"
  using read_line_spec [OF assms, of "[]"] by simp

theorem reader_ignores_buffering_witness:
  "snd (read_line [] [Bytes ''a'', Bytes [CHR ''b'', newline, CHR ''c'']]) = Ok (Some [CHR ''a'', CHR ''b'', newline])"
  using reader_ignores_buffering [of "[Bytes ''a'', Bytes [CHR ''b'', newline, CHR ''c'']]"]
  by (simp add: next_line_def line_take_def MAX_FRAME_SIZE_def)


definition ping :: plugin_envelope where
  "ping = \<lparr>en_version = 1, en_id = 7, en_method = ''health'', en_body = None, en_error = None\<rparr>"

definition ping_json :: "plugin_envelope frame_json" where
  "ping_json = \<lparr>fj_encode = (\<lambda>e. Ok ''{}''), fj_decode = (\<lambda>b. if b = ''{}'' then Ok ping else Err ''syntax'')\<rparr>"


text \<open>the strict visitor accepts a document if and only if no object in it, at any depth, has a repeated
  key and every number is finite; an accepted object has the keys it was written with, in order.\<close>

theorem strict_rejects_duplicates:
  "(is_ok (strict j) \<longleftrightarrow> unique_keys j \<and> finite_numbers j)
   \<and> (strict (JObject fs) = Ok u \<longrightarrow> (\<exists>m. u = JObject m \<and> ordered m \<and> keys m = keys fs))"
  using strict_map_ok [of "{}" "[]" fs] by (auto simp: strict_iff and_then_eq_Ok)

theorem strict_rejects_duplicates_witness:
  "\<not> is_ok (strict (JObject [(''body'', JObject [(''ok'', JBool True), (''ok'', JBool False)])]))"
  using strict_rejects_duplicates [of "JObject [(''body'', JObject [(''ok'', JBool True), (''ok'', JBool False)])]"]
  by simp

end
