(* ===== verification/Rpc_Session.thy ===== *)
theory Rpc_Session
  imports Frame_Codec
begin

text \<open>
  The request table that \<open>crates/oikade-plugin-host/src/session.rs\<close> and
  \<open>crates/oikade-adapter-host/src/session.rs\<close> share: the outbound queue, the pending calls and
  their one-shot channels, the responses to ignore, the terminal failure. Each operation is
  a critical section of the source; the abstract machine \<open>rpc_exec\<close> performs them in any
  order, and the locale \<open>rpc_client\<close> carries its invariant to a session whose steps are
  sequences of them. The answered end of a one-shot channel, which in the source lives in
  the suspended \<open>call\<close>, is the entry of \<open>rpc_answers\<close> under the identifier of the call.
\<close>

section \<open>State\<close>

definition OUTBOUND_QUEUE :: nat where "OUTBOUND_QUEUE = 128"
definition MAX_PENDING_REQUESTS :: nat where "MAX_PENDING_REQUESTS = 1024"
definition MAX_IGNORED_RESPONSES :: nat where "MAX_IGNORED_RESPONSES = 2048"

record ('z, 'f) rpc =
  rpc_outbound :: "'z plugin_envelope_scheme list"
  rpc_writer_open :: bool
  rpc_pending :: "nat list"
  rpc_ignored :: "nat list"
  rpc_next_id :: nat
  rpc_answers :: "(nat, ('f, 'z plugin_envelope_scheme) result) btree"
  rpc_failure :: "'f option"
  rpc_pid :: nat
  rpc_killed :: "nat list"

datatype session_invalid =
    HelloConsumed
  | MethodDiffers string string
  | BodyMissing
  | BodyInvalid string
  | BodyNotEncoded string

datatype 'f session_error =
    SessionClosed "'f option"
  | SessionProtocol string string
  | SessionTimeout
  | SessionPendingLimit
  | SessionInvalid session_invalid

definition rpc_new :: "('z, 'f) rpc" where
  "rpc_new = \<lparr>rpc_outbound = [], rpc_writer_open = True, rpc_pending = [], rpc_ignored = [], rpc_next_id = 0,
     rpc_answers = [], rpc_failure = None, rpc_pid = 0, rpc_killed = []\<rparr>"

section \<open>Operations\<close>

definition set_pid :: "nat \<Rightarrow> ('z, 'f, 'x) rpc_scheme \<Rightarrow> ('z, 'f, 'x) rpc_scheme" where
  "set_pid p s = s\<lparr>rpc_pid := p\<rparr>"

definition session_fail :: "'f \<Rightarrow> ('z, 'f, 'x) rpc_scheme \<Rightarrow> ('z, 'f, 'x) rpc_scheme" where
  "session_fail f s =
     (if rpc_failure s \<noteq> None then s
      else s\<lparr>rpc_failure := Some f, rpc_pending := [],
             rpc_answers := fold (\<lambda>i. put i (Err f)) (rpc_pending s) (rpc_answers s),
             rpc_killed := rpc_killed s @ (if rpc_pid s \<noteq> 0 then [rpc_pid s] else [])\<rparr>)"

definition closed_error :: "('z, 'f, 'x) rpc_scheme \<Rightarrow> 'f session_error" where
  "closed_error s = SessionClosed (rpc_failure s)"

text \<open>\<open>call\<close> until the request is in the table.\<close>

definition call_open :: "('z, 'f, 'x) rpc_scheme \<Rightarrow> ('z, 'f, 'x) rpc_scheme \<times> ('f session_error, nat) result" where
  "call_open s =
     (let i = rpc_next_id s + 1; s' = s\<lparr>rpc_next_id := i\<rparr>
      in if length (rpc_pending s) \<ge> MAX_PENDING_REQUESTS then (s', Err SessionPendingLimit)
         else (s'\<lparr>rpc_pending := i # rpc_pending s\<rparr>, Ok i))"

text \<open>\<open>outbound.send(outgoing).await\<close> in \<open>call\<close>; \<open>None\<close> while it waits for room in the queue.\<close>

definition call_send ::
  "'z plugin_envelope_scheme \<Rightarrow> ('z, 'f, 'x) rpc_scheme
     \<Rightarrow> (('z, 'f, 'x) rpc_scheme \<times> ('f session_error, unit) result) option" where
  "call_send e s =
     (if \<not> rpc_writer_open s
      then Some (s\<lparr>rpc_pending := removeAll (en_id e) (rpc_pending s)\<rparr>, Err (closed_error s))
      else if length (rpc_outbound s) < OUTBOUND_QUEUE
      then Some (s\<lparr>rpc_outbound := rpc_outbound s @ [e]\<rparr>, Ok ())
      else None)"

text \<open>
  The receiver of a call is polled: the answer of its one-shot channel, the error of a
  dropped sender, or still waiting. Taking the answer consumes the receiver.
\<close>

definition take_answer ::
  "nat \<Rightarrow> ('z, 'f, 'x) rpc_scheme
     \<Rightarrow> ('z, 'f, 'x) rpc_scheme \<times> ('f session_error, 'z plugin_envelope_scheme) result option" where
  "take_answer i s =
     (case map_of (rpc_answers s) i of
        Some (Ok e) \<Rightarrow> (s\<lparr>rpc_answers := del i (rpc_answers s)\<rparr>, Some (Ok e))
      | Some (Err f) \<Rightarrow> (s\<lparr>rpc_answers := del i (rpc_answers s)\<rparr>, Some (Err (SessionClosed (Some f))))
      | None \<Rightarrow> (s, if i \<in> set (rpc_pending s) then None else Some (Err (closed_error s))))"

text \<open>The deadline of a call drops its receiver.\<close>

definition drop_answer :: "nat \<Rightarrow> ('z, 'f, 'x) rpc_scheme \<Rightarrow> ('z, 'f, 'x) rpc_scheme" where
  "drop_answer i s = s\<lparr>rpc_answers := del i (rpc_answers s)\<rparr>"

definition abandon :: "'f \<Rightarrow> nat \<Rightarrow> ('z, 'f, 'x) rpc_scheme \<Rightarrow> ('z, 'f, 'x) rpc_scheme" where
  "abandon limit i s =
     (if i \<notin> set (rpc_pending s) then s
      else let s' = s\<lparr>rpc_pending := removeAll i (rpc_pending s)\<rparr>
           in if length (rpc_ignored s) \<ge> MAX_IGNORED_RESPONSES then session_fail limit s'
              else s'\<lparr>rpc_ignored := i # rpc_ignored s\<rparr>)"

text \<open>
  The two lookups that the reader makes for a response: the ignored set, then the table.
  The second component says whether the identifier was known.
\<close>

definition deliver :: "'z plugin_envelope_scheme \<Rightarrow> ('z, 'f, 'x) rpc_scheme \<Rightarrow> ('z, 'f, 'x) rpc_scheme \<times> bool" where
  "deliver e s =
     (if en_id e \<in> set (rpc_ignored s)
      then (s\<lparr>rpc_ignored := removeAll (en_id e) (rpc_ignored s)\<rparr>, True)
      else if en_id e \<in> set (rpc_pending s)
      then (s\<lparr>rpc_pending := removeAll (en_id e) (rpc_pending s),
              rpc_answers := put (en_id e) (Ok e) (rpc_answers s)\<rparr>, True)
      else (s, False))"

text \<open>
  One turn of \<open>write_loop\<close>: the encoder is handed the head of the queue and succeeds or
  fails; \<open>None\<close> while the queue is empty or after the loop has returned.
\<close>

definition write_turn ::
  "'f option \<Rightarrow> ('z, 'f, 'x) rpc_scheme \<Rightarrow> (('z, 'f, 'x) rpc_scheme \<times> 'z plugin_envelope_scheme) option" where
  "write_turn failed s =
     (if \<not> rpc_writer_open s then None
      else case rpc_outbound s of
        [] \<Rightarrow> None
      | e # es \<Rightarrow>
          (case failed of
             None \<Rightarrow> Some (s\<lparr>rpc_outbound := es\<rparr>, e)
           | Some f \<Rightarrow> Some (session_fail f (s\<lparr>rpc_outbound := [], rpc_writer_open := False\<rparr>), e)))"

text \<open>An identifier reserved for a request whose response nobody awaits (\<open>send_cancel\<close>).\<close>

definition reserve_ignored :: "'f \<Rightarrow> ('z, 'f, 'x) rpc_scheme \<Rightarrow> ('z, 'f, 'x) rpc_scheme \<times> nat option" where
  "reserve_ignored limit s =
     (let i = rpc_next_id s + 1; s' = s\<lparr>rpc_next_id := i\<rparr>
      in if length (rpc_ignored s) \<ge> MAX_IGNORED_RESPONSES then (session_fail limit s', None)
         else (s'\<lparr>rpc_ignored := i # rpc_ignored s\<rparr>, Some i))"

text \<open>\<open>outbound.try_send\<close>, with the removal from the ignored set when it is refused.\<close>

definition try_send_ignored :: "'z plugin_envelope_scheme \<Rightarrow> ('z, 'f, 'x) rpc_scheme \<Rightarrow> ('z, 'f, 'x) rpc_scheme" where
  "try_send_ignored e s =
     (if rpc_writer_open s \<and> length (rpc_outbound s) < OUTBOUND_QUEUE
      then s\<lparr>rpc_outbound := rpc_outbound s @ [e]\<rparr>
      else s\<lparr>rpc_ignored := removeAll (en_id e) (rpc_ignored s)\<rparr>)"

text \<open>A send whose failure is ignored (the responses of the adapter host); \<open>None\<close> while it waits.\<close>

definition send_frame :: "'z plugin_envelope_scheme \<Rightarrow> ('z, 'f, 'x) rpc_scheme \<Rightarrow> ('z, 'f, 'x) rpc_scheme option" where
  "send_frame e s =
     (if \<not> rpc_writer_open s then Some s
      else if length (rpc_outbound s) < OUTBOUND_QUEUE then Some (s\<lparr>rpc_outbound := rpc_outbound s @ [e]\<rparr>)
      else None)"

text \<open>\<open>call\<close> from the answer on.\<close>

definition call_finish ::
  "(string \<Rightarrow> string \<Rightarrow> 'f) \<Rightarrow> (string \<Rightarrow> (string, 'b) result) \<Rightarrow> string \<Rightarrow> 'z plugin_envelope_scheme
     \<Rightarrow> ('z, 'f, 'x) rpc_scheme \<Rightarrow> ('z, 'f, 'x) rpc_scheme \<times> ('f session_error, 'b) result" where
  "call_finish mismatch decode m e s =
     (if en_method e \<noteq> m
      then (session_fail (mismatch (en_method e) m) s, Err (SessionInvalid (MethodDiffers (en_method e) m)))
      else case en_error e of
        Some pe \<Rightarrow> (s, Err (SessionProtocol (pe_code pe) (pe_message pe)))
      | None \<Rightarrow>
          (s, and_then (ok_or (SessionInvalid BodyMissing) (en_body e)) (\<lambda>b.
                map_err (\<lambda>d. SessionInvalid (BodyInvalid d)) (decode b))))"

section \<open>The abstract machine\<close>

datatype ('z, 'f) rpc_op =
    OpSetPid nat
  | OpFail 'f
  | OpOpen
  | OpSend "'z plugin_envelope_scheme"
  | OpTake nat
  | OpDrop nat
  | OpAbandon 'f nat
  | OpDeliver "'z plugin_envelope_scheme"
  | OpWrite "'f option"
  | OpReserve 'f
  | OpTrySend "'z plugin_envelope_scheme"
  | OpFrame "'z plugin_envelope_scheme"

fun rpc_exec :: "('z, 'f) rpc_op \<Rightarrow> ('z, 'f, 'x) rpc_scheme \<Rightarrow> ('z, 'f, 'x) rpc_scheme" where
  "rpc_exec (OpSetPid p) s = set_pid p s"
| "rpc_exec (OpFail f) s = session_fail f s"
| "rpc_exec OpOpen s = fst (call_open s)"
| "rpc_exec (OpSend e) s = (case call_send e s of None \<Rightarrow> s | Some (s', _) \<Rightarrow> s')"
| "rpc_exec (OpTake i) s = fst (take_answer i s)"
| "rpc_exec (OpDrop i) s = drop_answer i s"
| "rpc_exec (OpAbandon f i) s = abandon f i s"
| "rpc_exec (OpDeliver e) s = fst (deliver e s)"
| "rpc_exec (OpWrite f) s = (case write_turn f s of None \<Rightarrow> s | Some (s', _) \<Rightarrow> s')"
| "rpc_exec (OpReserve f) s = fst (reserve_ignored f s)"
| "rpc_exec (OpTrySend e) s = try_send_ignored e s"
| "rpc_exec (OpFrame e) s = (case send_frame e s of None \<Rightarrow> s | Some s' \<Rightarrow> s')"

lemmas rpc_defs = set_pid_def session_fail_def call_open_def call_send_def take_answer_def drop_answer_def
  abandon_def deliver_def write_turn_def reserve_ignored_def try_send_ignored_def send_frame_def Let_def

section \<open>The invariant\<close>

text \<open>
  The bounds of the table, the identifiers it hands out, and what its answers say: a
  response is filed under its own identifier, an error is the failure of the session.
\<close>

definition rpc_bounded :: "('z, 'f, 'x) rpc_scheme \<Rightarrow> bool" where
  "rpc_bounded s \<longleftrightarrow> length (rpc_pending s) \<le> MAX_PENDING_REQUESTS
     \<and> length (rpc_ignored s) \<le> MAX_IGNORED_RESPONSES \<and> length (rpc_outbound s) \<le> OUTBOUND_QUEUE"

definition rpc_ids :: "('z, 'f, 'x) rpc_scheme \<Rightarrow> bool" where
  "rpc_ids s \<longleftrightarrow> distinct (rpc_pending s) \<and> distinct (rpc_ignored s)
     \<and> set (rpc_pending s) \<inter> set (rpc_ignored s) = {} \<and> set (rpc_pending s) \<inter> keys (rpc_answers s) = {}
     \<and> set (rpc_pending s) \<union> set (rpc_ignored s) \<union> keys (rpc_answers s) \<subseteq> {0<..rpc_next_id s}"

definition rpc_answered :: "('z, 'f, 'x) rpc_scheme \<Rightarrow> bool" where
  "rpc_answered s \<longleftrightarrow>
     (\<forall>i e. map_of (rpc_answers s) i = Some (Ok e) \<longrightarrow> en_id e = i)
     \<and> (\<forall>i f. map_of (rpc_answers s) i = Some (Err f) \<longrightarrow> rpc_failure s = Some f)"

definition rpc_killed_once :: "('z, 'f, 'x) rpc_scheme \<Rightarrow> bool" where
  "rpc_killed_once s \<longleftrightarrow> length (rpc_killed s) \<le> 1 \<and> 0 \<notin> set (rpc_killed s)
     \<and> (rpc_failure s = None \<longrightarrow> rpc_killed s = [])"

definition rpc_ok :: "('z, 'f, 'x) rpc_scheme \<Rightarrow> bool" where
  "rpc_ok s \<longleftrightarrow> rpc_bounded s \<and> rpc_ids s \<and> rpc_answered s \<and> rpc_killed_once s"

lemma rpc_ok_new: "rpc_ok (rpc_new :: ('z, 'f) rpc)"
  by (simp add: rpc_ok_def rpc_new_def rpc_bounded_def rpc_ids_def rpc_answered_def rpc_killed_once_def)

lemma answers_after_fail:
  "map_of (fold (\<lambda>i. put i x) is m) i = (if i \<in> set is then Some x else map_of m i)"
  by (induction "is" arbitrary: m) auto

lemma keys_after_fail [simp]: "keys (fold (\<lambda>i. put i x) is m) = keys m \<union> set is"
  by (induction "is" arbitrary: m) auto

lemma bounded_exec: "rpc_bounded s \<Longrightarrow> rpc_bounded (rpc_exec op s)"
  by (cases op)
     (auto simp: rpc_bounded_def rpc_defs MAX_PENDING_REQUESTS_def MAX_IGNORED_RESPONSES_def
       split: option.splits sum.splits list.splits intro: order_trans [OF length_removeAll_less_eq])

lemma ids_fail: "rpc_ids s \<Longrightarrow> rpc_ids (session_fail f s)"
  by (auto simp: rpc_ids_def session_fail_def)

lemma ids_shrink:
  assumes "rpc_ids s" and "rpc_next_id s \<le> rpc_next_id s'"
    and "distinct (rpc_pending s')" "distinct (rpc_ignored s')"
    and "set (rpc_pending s') \<subseteq> set (rpc_pending s)" "set (rpc_ignored s') \<subseteq> set (rpc_ignored s)"
    and "keys (rpc_answers s') \<subseteq> keys (rpc_answers s)"
  shows "rpc_ids s'"
proof -
  have "{0<..rpc_next_id s} \<subseteq> {0<..rpc_next_id s'}" using assms(2) by auto
  then show ?thesis using assms unfolding rpc_ids_def by blast
qed

lemma ids_fresh: "rpc_ids s \<Longrightarrow> Suc (rpc_next_id s) \<notin> set (rpc_pending s) \<union> set (rpc_ignored s) \<union> keys (rpc_answers s)"
  by (fastforce simp: rpc_ids_def)

lemma ids_open: "rpc_ids s \<Longrightarrow> rpc_ids (fst (call_open s))"
  using ids_fresh [of s] by (auto simp: call_open_def Let_def rpc_ids_def)

lemma ids_reserve: "rpc_ids s \<Longrightarrow> rpc_ids (fst (reserve_ignored f s))"
  using ids_fresh [of s]
  by (auto simp: reserve_ignored_def Let_def rpc_ids_def session_fail_def)

lemma ids_abandon: "rpc_ids s \<Longrightarrow> rpc_ids (abandon f i s)"
  by (auto simp: abandon_def Let_def rpc_ids_def session_fail_def distinct_removeAll)

lemma ids_deliver: "rpc_ids s \<Longrightarrow> rpc_ids (fst (deliver e s))"
  by (auto simp: deliver_def rpc_ids_def distinct_removeAll)

lemma ids_exec:
  assumes "rpc_ids s"
  shows "rpc_ids (rpc_exec op s)"
proof -
  have d: "distinct (rpc_pending s)" "distinct (rpc_ignored s)" using assms by (simp_all add: rpc_ids_def)
  show ?thesis
    by (cases op)
       (auto simp: ids_fail ids_open ids_reserve ids_abandon ids_deliver assms d distinct_removeAll
         call_send_def set_pid_def take_answer_def drop_answer_def write_turn_def try_send_ignored_def send_frame_def
         intro!: ids_fail ids_shrink [OF assms] split: option.split list.split sum.split)
qed

lemma answered_del: "rpc_answered s \<Longrightarrow> rpc_answered (s\<lparr>rpc_answers := del i (rpc_answers s)\<rparr>)"
  unfolding rpc_answered_def by simp

lemma answered_take: "rpc_answered s \<Longrightarrow> rpc_answered (fst (take_answer i s))"
  by (simp add: take_answer_def answered_del split: option.split sum.split)

lemma answered_exec: "rpc_ids s \<Longrightarrow> rpc_answered s \<Longrightarrow> rpc_answered (rpc_exec op s)"
proof (cases op)
  case (OpTake i)
  then show "rpc_answered s \<Longrightarrow> ?thesis" by (simp add: answered_take)
qed (auto simp: rpc_answered_def rpc_defs answers_after_fail split: option.split sum.split list.split if_splits)

lemma killed_exec: "rpc_killed_once s \<Longrightarrow> rpc_killed_once (rpc_exec op s)"
  by (cases op)
     (auto simp: rpc_killed_once_def rpc_defs split: option.splits sum.splits list.splits if_splits)

lemma rpc_ok_exec [wf_intros]: "rpc_ok s \<Longrightarrow> rpc_ok (rpc_exec op s)"
  by (simp add: rpc_ok_def bounded_exec ids_exec answered_exec killed_exec)

lemma rpc_ok_ops: "rpc_ok s \<Longrightarrow> rpc_ok (fold rpc_exec ops s)"
  by (induction ops arbitrary: s) (simp_all add: rpc_ok_exec)

lemma failure_exec: "rpc_failure s = Some f \<Longrightarrow> rpc_failure (rpc_exec op s) = Some f"
  by (cases op) (auto simp: rpc_defs split: option.splits sum.splits list.splits)

lemma failure_ops: "rpc_failure s = Some f \<Longrightarrow> rpc_failure (fold rpc_exec ops s) = Some f"
  by (induction ops arbitrary: s) (simp_all add: failure_exec)

lemma killed_failed_exec: "rpc_failure s = Some f \<Longrightarrow> rpc_killed (rpc_exec op s) = rpc_killed s"
  by (cases op) (auto simp: rpc_defs split: option.splits sum.splits list.splits)

lemma killed_failed_ops: "rpc_failure s = Some f \<Longrightarrow> rpc_killed (fold rpc_exec ops s) = rpc_killed s"
  by (induction ops arbitrary: s) (simp_all add: failure_exec killed_failed_exec)

lemma next_id_exec: "rpc_next_id s \<le> rpc_next_id (rpc_exec op s)"
  by (cases op) (auto simp: rpc_defs split: option.splits sum.splits list.splits)

lemma next_id_ops: "rpc_next_id s \<le> rpc_next_id (fold rpc_exec ops s)"
  by (induction ops arbitrary: s) (auto intro: order_trans [OF next_id_exec])

lemma answers_exec:
  assumes "map_of (rpc_answers (rpc_exec op s)) i = Some (Ok e)"
  shows "map_of (rpc_answers s) i = Some (Ok e) \<or> op = OpDeliver e"
  using assms
  by (cases op)
     (auto simp: rpc_defs answers_after_fail split: option.splits sum.splits list.splits if_splits)

lemma answers_ops:
  assumes "map_of (rpc_answers (fold rpc_exec ops s)) i = Some (Ok e)"
  shows "map_of (rpc_answers s) i = Some (Ok e) \<or> OpDeliver e \<in> set ops"
  using assms
proof (induction ops arbitrary: s)
  case (Cons op ops)
  then have "map_of (rpc_answers (rpc_exec op s)) i = Some (Ok e) \<or> OpDeliver e \<in> set ops" by simp
  then show ?case using answers_exec [of op s i e] by auto
qed simp

lemma failed_answers_exec:
  assumes "rpc_failure s \<noteq> None" and "\<And>e. op \<noteq> OpDeliver e" and "map_of (rpc_answers s) i = None"
  shows "map_of (rpc_answers (rpc_exec op s)) i = None"
  using assms by (cases op) (auto simp: rpc_defs split: option.splits sum.splits list.splits)

lemma failed_answers_ops:
  assumes "rpc_failure s \<noteq> None" and "\<And>e. OpDeliver e \<notin> set ops" and "map_of (rpc_answers s) i = None"
  shows "map_of (rpc_answers (fold rpc_exec ops s)) i = None"
  using assms
proof (induction ops arbitrary: s)
  case (Cons op ops)
  from Cons.prems have "rpc_failure (rpc_exec op s) \<noteq> None" by (auto simp: failure_exec)
  moreover from Cons.prems have "map_of (rpc_answers (rpc_exec op s)) i = None"
    using failed_answers_exec [of s op i] by auto
  ultimately show ?case using Cons.prems(2) by (auto intro: Cons.IH)
qed simp

lemma truncate_exec: "rpc.truncate (rpc_exec op s) = rpc_exec op (rpc.truncate s)"
  by (cases op) (simp_all add: rpc.truncate_def rpc_defs closed_error_def split: option.split sum.split list.split)

lemmas truncate_op =
  truncate_exec [of "OpSetPid p" for p, simplified] truncate_exec [of "OpFail f" for f, simplified]
  truncate_exec [of OpOpen, simplified] truncate_exec [of "OpTake i" for i, simplified]
  truncate_exec [of "OpDrop i" for i, simplified] truncate_exec [of "OpAbandon f i" for f i, simplified]
  truncate_exec [of "OpDeliver e" for e, simplified] truncate_exec [of "OpReserve f" for f, simplified]
  truncate_exec [of "OpTrySend e" for e, simplified]

section \<open>Sessions over the table\<close>

text \<open>
  A session is a client of the table when each of its steps is a sequence of table
  operations, and the responses it delivers were received in that step.
\<close>

locale rpc_client =
  fixes exec :: "'ev \<Rightarrow> 's \<Rightarrow> 's"
    and core :: "'s \<Rightarrow> ('z, 'f) rpc"
    and ops :: "'ev \<Rightarrow> 's \<Rightarrow> ('z, 'f) rpc_op list"
    and received :: "'ev \<Rightarrow> 'z plugin_envelope_scheme set"
  assumes simulates: "core (exec ev s) = fold rpc_exec (ops ev s) (core s)"
    and delivered: "OpDeliver e \<in> set (ops ev s) \<Longrightarrow> e \<in> received ev"
begin

lemma run_ok: "rpc_ok (core s) \<Longrightarrow> rpc_ok (core (fold exec evs s))"
  by (induction evs arbitrary: s) (simp_all add: simulates rpc_ok_ops)

lemma run_failure: "rpc_failure (core s) = Some f \<Longrightarrow> rpc_failure (core (fold exec evs s)) = Some f"
  by (induction evs arbitrary: s) (simp_all add: simulates failure_ops)

lemma run_killed:
  "rpc_failure (core s) = Some f \<Longrightarrow> rpc_killed (core (fold exec evs s)) = rpc_killed (core s)"
  by (induction evs arbitrary: s) (simp_all add: simulates failure_ops killed_failed_ops)

lemma run_answer:
  assumes "map_of (rpc_answers (core (fold exec evs s))) i = Some (Ok e)"
  shows "map_of (rpc_answers (core s)) i = Some (Ok e) \<or> (\<exists>ev \<in> set evs. e \<in> received ev)"
  using assms
proof (induction evs arbitrary: s)
  case (Cons ev evs)
  then have "map_of (rpc_answers (core (exec ev s))) i = Some (Ok e) \<or> (\<exists>ev \<in> set evs. e \<in> received ev)"
    by simp
  then show ?case using answers_ops [of "ops ev s" "core s" i e] delivered [of e ev s] by (auto simp: simulates)
qed simp

lemma run_answer_id:
  assumes "rpc_ok (core s)" and "map_of (rpc_answers (core (fold exec evs s))) i = Some (Ok e)"
  shows "en_id e = i"
  using run_ok [OF assms(1), of evs] assms(2) by (simp add: rpc_ok_def rpc_answered_def)

end

text \<open>A session whose reader stops for good, and only after the session has failed.\<close>

locale rpc_reader = rpc_client exec core ops received
  for exec :: "'ev \<Rightarrow> 's \<Rightarrow> 's" and core :: "'s \<Rightarrow> ('z, 'f) rpc"
    and ops :: "'ev \<Rightarrow> 's \<Rightarrow> ('z, 'f) rpc_op list" and received :: "'ev \<Rightarrow> 'z plugin_envelope_scheme set" +
  fixes stopped :: "'s \<Rightarrow> bool"
  assumes stays_stopped: "stopped s \<Longrightarrow> stopped (exec ev s)"
    and stopped_silent: "stopped s \<Longrightarrow> OpDeliver e \<notin> set (ops ev s)"
    and stops_failed: "\<not> stopped s \<Longrightarrow> stopped (exec ev s) \<Longrightarrow> rpc_failure (core (exec ev s)) \<noteq> None"
begin

lemma run_stopped_failed:
  assumes "stopped s \<longrightarrow> rpc_failure (core s) \<noteq> None" and "stopped (fold exec evs s)"
  shows "rpc_failure (core (fold exec evs s)) \<noteq> None"
  using assms
proof (induction evs arbitrary: s)
  case (Cons ev evs)
  have "stopped (exec ev s) \<longrightarrow> rpc_failure (core (exec ev s)) \<noteq> None"
    using stops_failed [of s ev] Cons.prems(1) failure_ops [of "core s" _ "ops ev s"]
    by (cases "stopped s") (auto simp: simulates)
  then show ?case using Cons by simp
qed simp

lemma run_no_answer:
  assumes "stopped s" and "rpc_failure (core s) \<noteq> None" and "map_of (rpc_answers (core s)) i = None"
  shows "map_of (rpc_answers (core (fold exec evs s))) i = None"
  using assms
proof (induction evs arbitrary: s)
  case (Cons ev evs)
  have "rpc_failure (core (exec ev s)) \<noteq> None"
    using Cons.prems failure_ops [of "core s" _ "ops ev s"] by (auto simp: simulates)
  moreover have "map_of (rpc_answers (core (exec ev s))) i = None"
    using Cons.prems by (simp add: simulates failed_answers_ops stopped_silent)
  ultimately show ?case using Cons.prems stays_stopped by (auto intro!: Cons.IH)
qed simp

end

end
