(* ===== verification/Plugin_Session.thy ===== *)
theory Plugin_Session
  imports Rpc_Session Wire_Values
begin

text \<open>
  The daemon's side of a plugin connection, \<open>crates/oikade-plugin-host/src/session.rs\<close>, and
  the message bodies of \<open>crates/oikade-plugin-api/src/v1.rs\<close> that it carries. The session
  extends the request table by the hello handshake and the notification queue. A body is
  the text of the frame; \<open>serde_json\<close> on bodies is a parameter. The tasks of a session
  (callers, reader, writer, monitor) interleave: \<open>plugin_exec\<close> performs one critical section
  of any of them, and the properties hold for every sequence.
\<close>

section \<open>Message bodies\<close>

definition METHOD_HELLO :: string where "METHOD_HELLO = ''hello''"
definition METHOD_INITIALIZE :: string where "METHOD_INITIALIZE = ''initialize''"
definition METHOD_COMMAND :: string where "METHOD_COMMAND = ''command''"
definition METHOD_CANCEL :: string where "METHOD_CANCEL = ''cancel''"
definition METHOD_EVENT :: string where "METHOD_EVENT = ''event''"
definition METHOD_RECONCILE :: string where "METHOD_RECONCILE = ''reconcile''"
definition METHOD_HEALTH :: string where "METHOD_HEALTH = ''health''"

lemmas method_names = METHOD_HELLO_def METHOD_INITIALIZE_def METHOD_COMMAND_def METHOD_CANCEL_def
  METHOD_EVENT_def METHOD_RECONCILE_def METHOD_HEALTH_def

record hello =
  hello_plugin_id :: string
  hello_plugin_version :: string
  hello_min_api_version :: nat
  hello_max_api_version :: nat

record api_permissions =
  ap_read :: bool
  ap_write :: bool
  ap_observe :: bool

record api_capability =
  ac_id :: string
  ac_type :: string
  ac_name :: string
  ac_kind :: string
  ac_permissions :: api_permissions
  ac_initial_value :: wire_value

record api_device =
  ad_id :: string
  ad_name :: string
  ad_manufacturer :: string
  ad_model :: string
  ad_capabilities :: "api_capability list"

record api_event =
  ae_device_id :: string
  ae_capability_id :: string
  ae_value :: wire_value

record health_response =
  hr_healthy :: bool
  hr_detail :: string

datatype notification = NotifyEvent api_event | NotifyReconcile "api_device list"

record body_json =
  bj_hello :: "string \<Rightarrow> (string, hello) result"
  bj_event :: "string \<Rightarrow> (string, api_event) result"
  bj_reconcile :: "string \<Rightarrow> (string, api_device list) result"
  bj_cancel :: "nat \<Rightarrow> (string, string) result"

section \<open>The session\<close>

definition NOTIFICATION_QUEUE :: nat where "NOTIFICATION_QUEUE = 256"

datatype notification_error =
    NotificationBodyRequired string
  | DuplicateHello
  | BodyUndecodable string
  | EventQueueFull
  | ReconcileQueueFull
  | NotificationBeforeHello
  | UnsupportedUnsolicited string

datatype session_failure =
    TransportClosed
  | FrameRejected wire_error
  | UnknownRequestId nat
  | ResponseMethodMismatch string string
  | AbandonedLimit
  | IgnoredLimit
  | BadNotification notification_error
  | FailedByHost string

record plugin_session = "(unit, session_failure) rpc" +
  ps_hello_taken :: bool
  ps_hello :: "hello option"
  ps_hello_received :: bool
  ps_notifications :: "notification list"
  ps_reading :: bool

definition session_spawn :: plugin_session where
  "session_spawn = rpc.extend rpc_new
     \<lparr>ps_hello_taken = False, ps_hello = None, ps_hello_received = False, ps_notifications = [], ps_reading = True\<rparr>"

text \<open>\<open>wait_hello\<close>: the receiver can be taken once; then it is polled until the deadline.\<close>

definition take_hello :: "plugin_session \<Rightarrow> plugin_session \<times> (session_failure session_error, unit) result" where
  "take_hello s =
     (if ps_hello_taken s then (s, Err (SessionInvalid HelloConsumed))
      else (s\<lparr>ps_hello_taken := True\<rparr>, Ok ()))"

definition poll_hello :: "bool \<Rightarrow> plugin_session \<Rightarrow> (session_failure session_error, hello) result option" where
  "poll_hello expired s =
     (case ps_hello s of
        Some h \<Rightarrow> Some (Ok h)
      | None \<Rightarrow> if \<not> ps_reading s then Some (Err (closed_error s))
                else if expired then Some (Err SessionTimeout) else None)"

definition request_envelope :: "nat \<Rightarrow> string \<Rightarrow> string \<Rightarrow> plugin_envelope" where
  "request_envelope i m body =
     \<lparr>en_version = PROTOCOL_VERSION, en_id = i, en_method = m, en_body = Some body, en_error = None\<rparr>"

text \<open>\<open>call\<close> up to the entry in the table: the request is encoded first.\<close>

definition call_begin ::
  "(string, string) result \<Rightarrow> plugin_session \<Rightarrow> plugin_session \<times> (session_failure session_error, nat \<times> string) result" where
  "call_begin encoded s =
     (case encoded of
        Err e \<Rightarrow> (s, Err (SessionInvalid (BodyNotEncoded e)))
      | Ok body \<Rightarrow>
          (case call_open s of (s', Err e) \<Rightarrow> (s', Err e) | (s', Ok i) \<Rightarrow> (s', Ok (i, body))))"

definition send_cancel :: "body_json \<Rightarrow> nat \<Rightarrow> plugin_session \<Rightarrow> plugin_session" where
  "send_cancel bj i s =
     (case bj_cancel bj i of
        Err _ \<Rightarrow> s
      | Ok body \<Rightarrow>
          (case reserve_ignored IgnoredLimit s of
             (s', None) \<Rightarrow> s'
           | (s', Some c) \<Rightarrow> try_send_ignored (request_envelope c METHOD_CANCEL body) s'))"

text \<open>The deadline of a call has passed without an answer.\<close>

definition call_expire :: "body_json \<Rightarrow> nat \<Rightarrow> plugin_session \<Rightarrow> plugin_session" where
  "call_expire bj i s = send_cancel bj i (abandon AbandonedLimit i (drop_answer i s))"

text \<open>The wait of \<open>call\<close> is polled, with the deadline passed or not; \<open>None\<close> while it waits.\<close>

definition call_poll ::
  "body_json \<Rightarrow> (string \<Rightarrow> (string, 'b) result) \<Rightarrow> string \<Rightarrow> nat \<Rightarrow> bool \<Rightarrow> plugin_session
     \<Rightarrow> plugin_session \<times> (session_failure session_error, 'b) result option" where
  "call_poll bj decode m i expired s =
     (case take_answer i s of
        (s', Some (Err e)) \<Rightarrow> (s', Some (Err e))
      | (s', Some (Ok e)) \<Rightarrow> (case call_finish ResponseMethodMismatch decode m e s' of (t, r) \<Rightarrow> (t, Some r))
      | (s', None) \<Rightarrow> if expired then (call_expire bj i s', Some (Err SessionTimeout)) else (s', None))"

definition next_notification :: "plugin_session \<Rightarrow> plugin_session \<times> notification option option" where
  "next_notification s =
     (case ps_notifications s of
        n # ns \<Rightarrow> (s\<lparr>ps_notifications := ns\<rparr>, Some (Some n))
      | [] \<Rightarrow> (s, if ps_reading s then None else Some None))"

definition push_notification :: "notification_error \<Rightarrow> notification \<Rightarrow> plugin_session
     \<Rightarrow> plugin_session \<times> (notification_error, unit) result" where
  "push_notification full n s =
     (if length (ps_notifications s) < NOTIFICATION_QUEUE
      then (s\<lparr>ps_notifications := ps_notifications s @ [n]\<rparr>, Ok ())
      else (s, Err full))"

definition handle_notification ::
  "body_json \<Rightarrow> plugin_envelope \<Rightarrow> plugin_session \<Rightarrow> plugin_session \<times> (notification_error, unit) result" where
  "handle_notification bj e s =
     (case en_body e of
        None \<Rightarrow> (s, Err (NotificationBodyRequired (en_method e)))
      | Some body \<Rightarrow>
          if en_method e = METHOD_HELLO then
            if ps_hello_received s then (s, Err DuplicateHello)
            else (case bj_hello bj body of
                    Err m \<Rightarrow> (s, Err (BodyUndecodable m))
                  | Ok h \<Rightarrow> (s\<lparr>ps_hello_received := True, ps_hello := Some h\<rparr>, Ok ()))
          else if en_method e = METHOD_EVENT \<and> ps_hello_received s then
            (case bj_event bj body of
               Err m \<Rightarrow> (s, Err (BodyUndecodable m))
             | Ok v \<Rightarrow> push_notification EventQueueFull (NotifyEvent v) s)
          else if en_method e = METHOD_RECONCILE \<and> ps_hello_received s then
            (case bj_reconcile bj body of
               Err m \<Rightarrow> (s, Err (BodyUndecodable m))
             | Ok ds \<Rightarrow> push_notification ReconcileQueueFull (NotifyReconcile ds) s)
          else if en_method e = METHOD_EVENT \<or> en_method e = METHOD_RECONCILE
          then (s, Err NotificationBeforeHello)
          else (s, Err (UnsupportedUnsolicited (en_method e))))"

text \<open>One turn of \<open>read_loop\<close> on what the decoder returned.\<close>

definition stop_reading :: "session_failure \<Rightarrow> plugin_session \<Rightarrow> plugin_session" where
  "stop_reading f s = (session_fail f s)\<lparr>ps_reading := False\<rparr>"

definition read_turn ::
  "body_json \<Rightarrow> (wire_error, plugin_envelope option) result \<Rightarrow> plugin_session \<Rightarrow> plugin_session" where
  "read_turn bj incoming s =
     (if \<not> ps_reading s then s
      else case incoming of
        Err w \<Rightarrow> stop_reading (FrameRejected w) s
      | Ok None \<Rightarrow> stop_reading TransportClosed s
      | Ok (Some e) \<Rightarrow>
          if en_id e = 0
          then (case handle_notification bj e s of
                  (s', Err n) \<Rightarrow> stop_reading (BadNotification n) s'
                | (s', Ok _) \<Rightarrow> s')
          else (case deliver e s of
                  (s', True) \<Rightarrow> s'
                | (s', False) \<Rightarrow> stop_reading (UnknownRequestId (en_id e)) s'))"

section \<open>Interleavings\<close>

datatype session_event =
    SetPid nat
  | TakeHello
  | BeginCall "(string, string) result"
  | SendRequest nat string string
  | PollCall string nat bool
  | ReadFrame "(wire_error, plugin_envelope option) result"
  | WriteFrame "wire_error option"
  | TakeNotification
  | HostFails string

fun plugin_exec :: "body_json \<Rightarrow> session_event \<Rightarrow> plugin_session \<Rightarrow> plugin_session" where
  "plugin_exec bj (SetPid p) s = set_pid p s"
| "plugin_exec bj TakeHello s = fst (take_hello s)"
| "plugin_exec bj (BeginCall encoded) s = fst (call_begin encoded s)"
| "plugin_exec bj (SendRequest i m body) s =
     (case call_send (request_envelope i m body) s of None \<Rightarrow> s | Some (s', _) \<Rightarrow> s')"
| "plugin_exec bj (PollCall m i expired) s = fst (call_poll bj (\<lambda>b. Ok b) m i expired s)"
| "plugin_exec bj (ReadFrame incoming) s = read_turn bj incoming s"
| "plugin_exec bj (WriteFrame failed) s =
     (case write_turn (map_option FrameRejected failed) s of None \<Rightarrow> s | Some (s', _) \<Rightarrow> s')"
| "plugin_exec bj TakeNotification s = fst (next_notification s)"
| "plugin_exec bj (HostFails m) s = session_fail (FailedByHost m) s"

definition plugin_run :: "body_json \<Rightarrow> session_event list \<Rightarrow> plugin_session \<Rightarrow> plugin_session" where
  "plugin_run bj evs s = fold (plugin_exec bj) evs s"

section \<open>The session is a client of the request table\<close>

definition cancel_ops :: "body_json \<Rightarrow> nat \<Rightarrow> plugin_session \<Rightarrow> (unit, session_failure) rpc_op list" where
  "cancel_ops bj i s =
     (case bj_cancel bj i of
        Err _ \<Rightarrow> []
      | Ok body \<Rightarrow> OpReserve IgnoredLimit #
          (case snd (reserve_ignored IgnoredLimit s) of
             None \<Rightarrow> [] | Some c \<Rightarrow> [OpTrySend (request_envelope c METHOD_CANCEL body)]))"

definition expire_ops :: "body_json \<Rightarrow> nat \<Rightarrow> plugin_session \<Rightarrow> (unit, session_failure) rpc_op list" where
  "expire_ops bj i s =
     [OpDrop i, OpAbandon AbandonedLimit i] @ cancel_ops bj i (abandon AbandonedLimit i (drop_answer i s))"

definition poll_ops :: "body_json \<Rightarrow> string \<Rightarrow> nat \<Rightarrow> bool \<Rightarrow> plugin_session \<Rightarrow> (unit, session_failure) rpc_op list" where
  "poll_ops bj m i expired s = OpTake i #
     (case snd (take_answer i s) of
        None \<Rightarrow> if expired then expire_ops bj i (fst (take_answer i s)) else []
      | Some (Err _) \<Rightarrow> []
      | Some (Ok e) \<Rightarrow> if en_method e \<noteq> m then [OpFail (ResponseMethodMismatch (en_method e) m)] else [])"

fun read_ops :: "body_json \<Rightarrow> (wire_error, plugin_envelope option) result \<Rightarrow> plugin_session
     \<Rightarrow> (unit, session_failure) rpc_op list" where
  "read_ops bj (Err w) s = [OpFail (FrameRejected w)]"
| "read_ops bj (Ok None) s = [OpFail TransportClosed]"
| "read_ops bj (Ok (Some e)) s =
     (if en_id e = 0
      then (case snd (handle_notification bj e s) of Err n \<Rightarrow> [OpFail (BadNotification n)] | Ok _ \<Rightarrow> [])
      else OpDeliver e # (if snd (deliver e s) then [] else [OpFail (UnknownRequestId (en_id e))]))"

fun plugin_ops :: "body_json \<Rightarrow> session_event \<Rightarrow> plugin_session \<Rightarrow> (unit, session_failure) rpc_op list" where
  "plugin_ops bj (SetPid p) s = [OpSetPid p]"
| "plugin_ops bj TakeHello s = []"
| "plugin_ops bj (BeginCall encoded) s = (if is_ok encoded then [OpOpen] else [])"
| "plugin_ops bj (SendRequest i m body) s = [OpSend (request_envelope i m body)]"
| "plugin_ops bj (PollCall m i expired) s = poll_ops bj m i expired s"
| "plugin_ops bj (ReadFrame incoming) s = (if ps_reading s then read_ops bj incoming s else [])"
| "plugin_ops bj (WriteFrame failed) s = [OpWrite (map_option FrameRejected failed)]"
| "plugin_ops bj TakeNotification s = []"
| "plugin_ops bj (HostFails m) s = [OpFail (FailedByHost m)]"

fun frames_read :: "session_event \<Rightarrow> plugin_envelope set" where
  "frames_read (ReadFrame (Ok (Some e))) = {e}"
| "frames_read _ = {}"

abbreviation table :: "plugin_session \<Rightarrow> (unit, session_failure) rpc" where
  "table \<equiv> rpc.truncate"

lemma frames_read_iff: "e \<in> frames_read ev \<longleftrightarrow> ev = ReadFrame (Ok (Some e))"
  by (cases ev rule: frames_read.cases) auto

lemma table_fields [simp]:
  "rpc_outbound (table s) = rpc_outbound s" "rpc_writer_open (table s) = rpc_writer_open s"
  "rpc_pending (table s) = rpc_pending s" "rpc_ignored (table s) = rpc_ignored s"
  "rpc_next_id (table s) = rpc_next_id s" "rpc_answers (table s) = rpc_answers s"
  "rpc_failure (table s) = rpc_failure s" "rpc_pid (table s) = rpc_pid s" "rpc_killed (table s) = rpc_killed s"
  by (simp_all add: rpc.truncate_def)

lemma table_rest [simp]:
  "table (s\<lparr>ps_hello_taken := a\<rparr>) = table s" "table (s\<lparr>ps_hello := b\<rparr>) = table s"
  "table (s\<lparr>ps_hello_received := c\<rparr>) = table s" "table (s\<lparr>ps_notifications := d\<rparr>) = table s"
  "table (s\<lparr>ps_reading := f\<rparr>) = table s"
  by (simp_all add: rpc.truncate_def)

lemma rpc_ok_table: "rpc_ok (table s) = rpc_ok s"
  by (simp add: rpc_ok_def rpc_bounded_def rpc_ids_def rpc_answered_def rpc_killed_once_def)

lemma table_spawn: "table session_spawn = rpc_new"
  by (simp add: session_spawn_def rpc.truncate_def rpc.extend_def rpc_new_def)

lemma table_handle: "table (fst (handle_notification bj e s)) = table s"
  by (simp add: handle_notification_def push_notification_def split: option.split sum.split)

lemma table_read:
  "table (read_turn bj incoming s) = fold rpc_exec (plugin_ops bj (ReadFrame incoming) s) (table s)"
proof (cases "\<exists>e. incoming = Ok (Some e) \<and> ps_reading s")
  case True
  then obtain e where e: "incoming = Ok (Some e)" "ps_reading s" by auto
  obtain t r where h: "handle_notification bj e s = (t, r)" by (cases "handle_notification bj e s")
  obtain u known where d: "deliver e s = (u, known)" by (cases "deliver e s")
  have "table t = table s" using table_handle [of bj e s] by (simp add: h)
  moreover have "fst (deliver e (table s)) = table u" using truncate_op(7) [of e s] by (simp add: d)
  ultimately show ?thesis
    using e h d by (cases r; cases known) (simp_all add: read_turn_def stop_reading_def truncate_op)
next
  case False
  then show ?thesis
    by (auto simp: read_turn_def stop_reading_def truncate_op split: sum.split option.split)
qed

lemma table_send_cancel: "table (send_cancel bj i s) = fold rpc_exec (cancel_ops bj i s) (table s)"
  by (auto simp: send_cancel_def cancel_ops_def truncate_op
      simp flip: truncate_op split: sum.split option.split prod.split)

lemma table_poll:
  "table (fst (call_poll bj decode m i expired s)) = fold rpc_exec (poll_ops bj m i expired s) (table s)"
proof -
  obtain t r where t: "take_answer i s = (t, r)" by (cases "take_answer i s")
  have "fst (take_answer i (table s)) = table t" using truncate_op(4) [of i s] by (simp add: t)
  then show ?thesis
    by (auto simp: t call_poll_def poll_ops_def expire_ops_def call_expire_def call_finish_def table_send_cancel
        truncate_op split: option.split sum.split)
qed

lemma table_exec: "table (plugin_exec bj ev s) = fold rpc_exec (plugin_ops bj ev s) (table s)"
proof (cases ev)
  case (BeginCall encoded)
  then show ?thesis
    by (auto simp: call_begin_def truncate_op simp flip: truncate_op split: sum.split prod.split)
next
  case (SendRequest i m body)
  then show ?thesis using truncate_exec [of "OpSend (request_envelope i m body)" s] by simp
next
  case (WriteFrame failed)
  then show ?thesis using truncate_exec [of "OpWrite (map_option FrameRejected failed)" s] by simp
qed (simp_all add: truncate_op take_hello_def next_notification_def table_poll table_read
    del: plugin_ops.simps(6) split: list.split)

lemma poll_ops_silent: "OpDeliver e \<notin> set (poll_ops bj m i expired s)"
  by (simp add: poll_ops_def expire_ops_def cancel_ops_def split: option.split sum.split)

lemma read_ops_deliver: "OpDeliver e \<in> set (read_ops bj incoming s) \<Longrightarrow> incoming = Ok (Some e)"
  by (cases "(bj, incoming, s)" rule: read_ops.cases) (auto split: if_splits sum.splits)

lemma deliver_only_read:
  assumes "OpDeliver e \<in> set (plugin_ops bj ev s)"
  shows "ps_reading s" and "e \<in> frames_read ev"
  using assms by (cases ev; simp add: poll_ops_silent split: if_splits; auto dest: read_ops_deliver)+

lemma reading_poll: "ps_reading (fst (call_poll bj decode m i expired s)) = ps_reading s"
  by (auto simp: call_poll_def call_expire_def send_cancel_def call_finish_def rpc_defs
      split: option.split sum.split prod.split)

lemma reading_exec: "ps_reading (plugin_exec bj ev s) \<Longrightarrow> ps_reading s"
proof (cases ev)
  case (PollCall m i expired)
  then show "ps_reading (plugin_exec bj ev s) \<Longrightarrow> ps_reading s" by (simp add: reading_poll)
qed (auto simp: read_turn_def take_hello_def call_begin_def next_notification_def rpc_defs
    split: option.splits sum.splits prod.splits list.splits if_splits)

lemma fail_failed: "rpc_failure (session_fail f s) \<noteq> None"
  by (simp add: session_fail_def)

lemma handle_reading: "ps_reading (fst (handle_notification bj e s)) = ps_reading s"
  by (simp add: handle_notification_def push_notification_def split: option.split sum.split)

lemma deliver_reading: "ps_reading (fst (deliver e s)) = ps_reading s"
  by (simp add: deliver_def)

lemma stop_reading_failed: "rpc_failure (stop_reading f s) \<noteq> None"
  by (simp add: stop_reading_def session_fail_def)

lemma read_turn_cases:
  obtains (same) "\<not> ps_reading s" "read_turn bj incoming s = s"
  | (stop) f t where "ps_reading s" "read_turn bj incoming s = stop_reading f t"
      "t \<in> {s} \<union> (\<lambda>e. fst (handle_notification bj e s)) ` UNIV \<union> (\<lambda>e. fst (deliver e s)) ` UNIV"
  | (notified) e where "ps_reading s" "read_turn bj incoming s = fst (handle_notification bj e s)"
  | (delivered) e where "ps_reading s" "read_turn bj incoming s = fst (deliver e s)"
proof -
  consider (off) "\<not> ps_reading s" | (bad) w where "ps_reading s" "incoming = Err w"
    | (eof) "ps_reading s" "incoming = Ok None"
    | (unsolicited) e where "ps_reading s" "incoming = Ok (Some e)" "en_id e = 0"
    | (response) e where "ps_reading s" "incoming = Ok (Some e)" "en_id e \<noteq> 0"
    by (metis obj_sumE option.exhaust)
  then show ?thesis
  proof cases
    case off
    then show ?thesis by (intro same) (simp_all add: read_turn_def)
  next
    case (bad w)
    then show ?thesis by (intro stop [of "FrameRejected w" s]) (simp_all add: read_turn_def)
  next
    case eof
    then show ?thesis by (intro stop [of TransportClosed s]) (simp_all add: read_turn_def)
  next
    case (unsolicited e)
    show ?thesis
    proof (cases "handle_notification bj e s")
      case (Pair t r)
      have "t \<in> (\<lambda>e. fst (handle_notification bj e s)) ` UNIV" using Pair by (metis fst_conv rangeI)
      then show ?thesis
        using unsolicited Pair stop [of _ t] notified [of e] by (cases r) (simp_all add: read_turn_def)
    qed
  next
    case (response e)
    show ?thesis
    proof (cases "deliver e s")
      case (Pair t r)
      have "t \<in> (\<lambda>e. fst (deliver e s)) ` UNIV" using Pair by (metis fst_conv rangeI)
      then show ?thesis
        using response Pair stop [of _ t] delivered [of e] by (cases r) (simp_all add: read_turn_def)
    qed
  qed
qed

lemma read_stops_failed:
  assumes "ps_reading s" and "\<not> ps_reading (read_turn bj incoming s)"
  shows "rpc_failure (read_turn bj incoming s) \<noteq> None"
proof (cases rule: read_turn_cases [of s bj incoming])
  case (stop f t)
  then show ?thesis by (simp only: stop_reading_failed not_False_eq_True)
qed (use assms in \<open>simp_all add: handle_reading deliver_reading\<close>)

lemma only_read_stops:
  assumes "ps_reading s" and "\<not> ps_reading (plugin_exec bj ev s)"
  obtains incoming where "ev = ReadFrame incoming"
proof (cases ev)
  case (PollCall m i expired)
  then show thesis using assms by (simp add: reading_poll)
qed (use assms that in \<open>auto simp: take_hello_def call_begin_def next_notification_def rpc_defs
    split: option.splits sum.splits prod.splits list.splits if_splits\<close>)

interpretation plugin_rpc: rpc_reader "plugin_exec bj" table "plugin_ops bj" frames_read "\<lambda>s. \<not> ps_reading s" for bj
proof unfold_locales
  show "table (plugin_exec bj ev s) = fold rpc_exec (plugin_ops bj ev s) (table s)" for ev s
    by (rule table_exec)
  show "OpDeliver e \<in> set (plugin_ops bj ev s) \<Longrightarrow> e \<in> frames_read ev" for e ev s
    by (rule deliver_only_read)
  show "\<not> ps_reading s \<Longrightarrow> \<not> ps_reading (plugin_exec bj ev s)" for ev s
    using reading_exec by blast
  show "\<not> ps_reading s \<Longrightarrow> OpDeliver e \<notin> set (plugin_ops bj ev s)" for s e ev
    using deliver_only_read(1) by blast
next
  fix s ev
  assume "\<not> \<not> ps_reading s" and stops: "\<not> ps_reading (plugin_exec bj ev s)"
  then have reading: "ps_reading s" by simp
  from reading stops obtain incoming where "ev = ReadFrame incoming" by (rule only_read_stops)
  then show "rpc_failure (table (plugin_exec bj ev s)) \<noteq> None"
    using read_stops_failed [OF reading] stops by simp
qed

section \<open>Properties\<close>

definition session_ok :: "plugin_session \<Rightarrow> bool" where
  "session_ok s \<longleftrightarrow> rpc_ok s \<and> length (ps_notifications s) \<le> NOTIFICATION_QUEUE
     \<and> (ps_notifications s \<noteq> [] \<or> ps_hello s \<noteq> None \<longrightarrow> ps_hello_received s)
     \<and> (\<not> ps_reading s \<longrightarrow> rpc_failure s \<noteq> None)"

definition queue_ok :: "plugin_session \<Rightarrow> bool" where
  "queue_ok s \<longleftrightarrow> length (ps_notifications s) \<le> NOTIFICATION_QUEUE
     \<and> (ps_notifications s \<noteq> [] \<or> ps_hello s \<noteq> None \<longrightarrow> ps_hello_received s)"

lemma queue_poll: "queue_ok s \<Longrightarrow> queue_ok (fst (call_poll bj decode m i expired s))"
  by (auto simp: queue_ok_def call_poll_def call_expire_def send_cancel_def call_finish_def rpc_defs
      split: option.split sum.split prod.split)

lemma queue_handle: "queue_ok s \<Longrightarrow> queue_ok (fst (handle_notification bj e s))"
  by (auto simp: queue_ok_def handle_notification_def push_notification_def split: option.split sum.split)

lemma queue_stop: "queue_ok s \<Longrightarrow> queue_ok (stop_reading f s)"
  by (auto simp: queue_ok_def stop_reading_def session_fail_def)

lemma queue_deliver: "queue_ok s \<Longrightarrow> queue_ok (fst (deliver e s))"
  by (auto simp: queue_ok_def deliver_def)

lemma queue_read: "queue_ok s \<Longrightarrow> queue_ok (read_turn bj incoming s)"
  by (cases rule: read_turn_cases [of s bj incoming]) (auto simp: queue_stop queue_handle queue_deliver)

lemma queue_exec: "queue_ok s \<Longrightarrow> queue_ok (plugin_exec bj ev s)"
proof (cases ev)
  case (PollCall m i expired)
  then show "queue_ok s \<Longrightarrow> ?thesis" by (simp add: queue_poll)
next
  case (ReadFrame incoming)
  then show "queue_ok s \<Longrightarrow> ?thesis" by (simp add: queue_read)
qed (auto simp: queue_ok_def take_hello_def call_begin_def next_notification_def rpc_defs
    split: option.splits sum.splits prod.splits list.splits if_splits)

lemma queue_run: "queue_ok s \<Longrightarrow> queue_ok (fold (plugin_exec bj) evs s)"
  by (induction evs arbitrary: s) (simp_all add: queue_exec)

lemma spawn_ok: "rpc_ok session_spawn" "queue_ok session_spawn" "ps_reading session_spawn"
  using rpc_ok_new by (simp_all add: queue_ok_def session_spawn_def rpc.extend_def flip: rpc_ok_table)
    (simp_all add: rpc.truncate_def rpc_new_def)

lemma run_rpc_ok: "rpc_ok s \<Longrightarrow> rpc_ok (plugin_run bj evs s)"
  using plugin_rpc.run_ok [of s bj evs] by (simp add: plugin_run_def rpc_ok_table)

lemma poll_ok_answer:
  assumes "call_poll bj decode m i expired s = (s', Some (Ok b))"
  obtains e body where "map_of (rpc_answers s) i = Some (Ok e)" "en_method e = m" "en_error e = None"
    "en_body e = Some body" "decode body = Ok b"
  using assms
  by (auto simp: call_poll_def take_answer_def call_finish_def and_then_eq_Ok
      split: option.splits sum.splits if_splits)

lemma finish_keeps_table:
  assumes "rpc_ok s" and "i \<in> set (rpc_pending s)"
  shows "take_answer i s = (s, None)" and "i \<noteq> 0" and "i \<notin> set (rpc_ignored s)"
  using assms by (auto simp: rpc_ok_def rpc_ids_def take_answer_def disjoint_iff map_of_None_keys [symmetric]
      split: option.split)


text \<open>C7: A call that returns a value returns the decoded body of a frame that the plugin sent
  with the identifier and the method of that call and without an error, whatever else
  was sent or requested meanwhile.\<close>

theorem response_correlation:
  assumes "call_poll bj decode m i expired (plugin_run bj evs session_spawn) = (s', Some (Ok b))"
  shows "\<exists>e body. ReadFrame (Ok (Some e)) \<in> set evs \<and> en_id e = i \<and> en_method e = m
    \<and> en_error e = None \<and> en_body e = Some body \<and> decode body = Ok b"
  using assms
proof (rule poll_ok_answer)
  fix e body
  assume e: "map_of (rpc_answers (plugin_run bj evs session_spawn)) i = Some (Ok e)"
    and rest: "en_method e = m" "en_error e = None" "en_body e = Some body" "decode body = Ok b"
  have "en_id e = i"
    using run_rpc_ok [OF spawn_ok(1), of bj evs] e by (auto simp: rpc_ok_def rpc_answered_def)
  moreover have "\<exists>ev \<in> set evs. e \<in> frames_read ev"
    using plugin_rpc.run_answer [of bj evs session_spawn i e] e
    by (simp add: plugin_run_def session_spawn_def rpc.extend_def rpc_new_def)
  then have "ReadFrame (Ok (Some e)) \<in> set evs" by (auto simp: frames_read_iff)
  ultimately show ?thesis using rest by blast
qed


text \<open>When a call times out, its late response is dropped without harm, and a second
  response under the same identifier fails the session as an unknown request.\<close>

theorem late_response_ignored:
  assumes "rpc_ok s" and "rpc_failure s = None" and "ps_reading s" and "i \<in> set (rpc_pending s)"
    and "length (rpc_ignored s) + 2 \<le> MAX_IGNORED_RESPONSES" and "en_id e = i"
    and "t = fst (call_poll bj decode m i True s)"
    and "u = plugin_exec bj (ReadFrame (Ok (Some e))) t"
  shows "snd (call_poll bj decode m i True s) = Some (Err SessionTimeout)
    \<and> rpc_failure u = None \<and> ps_reading u \<and> rpc_answers u = rpc_answers s
    \<and> rpc_pending u = removeAll i (rpc_pending s)
    \<and> rpc_failure (plugin_exec bj (ReadFrame (Ok (Some e))) u) = Some (UnknownRequestId i)"
proof -
  note i = finish_keeps_table [OF assms(1,4)]
  have absent: "i \<notin> keys (rpc_answers s)" and fresh: "i < Suc (rpc_next_id s)"
    using assms(1,4) by (auto simp: rpc_ok_def rpc_ids_def)
  define a where "a = s\<lparr>rpc_pending := removeAll i (rpc_pending s), rpc_ignored := i # rpc_ignored s\<rparr>"
  have a: "abandon AbandonedLimit i (drop_answer i s) = a"
    using assms(4,5) absent by (simp add: a_def abandon_def drop_answer_def Let_def)
  have t: "t = send_cancel bj i a" using i(1) a by (simp add: assms(7) call_poll_def call_expire_def)
  have t_fields: "rpc_failure t = None" "ps_reading t" "rpc_answers t = rpc_answers s"
      "rpc_pending t = removeAll i (rpc_pending s)" "i \<in> set (rpc_ignored t)"
    using assms(2,3,5) fresh i(3)
    by (auto simp: t a_def send_cancel_def reserve_ignored_def try_send_ignored_def Let_def request_envelope_def
        split: sum.split)
  have u: "u = t\<lparr>rpc_ignored := removeAll i (rpc_ignored t)\<rparr>"
    using t_fields i(2) by (simp add: assms(6,8) read_turn_def deliver_def)
  show ?thesis
    using i t_fields by (simp add: u assms(6) call_poll_def read_turn_def deliver_def stop_reading_def session_fail_def)
qed

text \<open>A call that begins after the reader of the session has stopped is never answered: in
  every later interleaving it waits while it is in the table, until its own deadline,
  although the session has failed.\<close>

theorem stopped_session_never_answers:
  assumes "s = plugin_run bj evs session_spawn" and "\<not> ps_reading s" and "rpc_next_id s < i"
    and "i \<in> set (rpc_pending (plugin_run bj evs' s))"
  shows "rpc_failure s \<noteq> None \<and> snd (call_poll bj decode m i expired (plugin_run bj evs' s))
    = (if expired then Some (Err SessionTimeout) else None)"
proof -
  have failed: "rpc_failure s \<noteq> None"
    using plugin_rpc.run_stopped_failed [of session_spawn bj evs] spawn_ok(3) assms(1,2) by (simp add: plugin_run_def)
  have "rpc_ok s" using run_rpc_ok [OF spawn_ok(1)] assms(1) by simp
  then have "map_of (rpc_answers s) i = None"
    using assms(3) by (auto simp: rpc_ok_def rpc_ids_def map_of_None_keys subset_iff)
  then have "map_of (rpc_answers (plugin_run bj evs' s)) i = None"
    using plugin_rpc.run_no_answer [of s i bj evs'] assms(2) failed by (simp add: plugin_run_def)
  then show ?thesis using assms(4) failed by (simp add: call_poll_def take_answer_def)
qed

section \<open>Witnesses\<close>

definition sample_bodies :: body_json where
  "sample_bodies =
     \<lparr>bj_hello = (\<lambda>_. Ok \<lparr>hello_plugin_id = ''p'', hello_plugin_version = ''1'',
                             hello_min_api_version = 1, hello_max_api_version = 1\<rparr>),
      bj_event = (\<lambda>b. Err b), bj_reconcile = (\<lambda>b. Err b), bj_cancel = (\<lambda>_. Ok ''{}'')\<rparr>"

definition sample_response :: plugin_envelope where
  "sample_response = \<lparr>en_version = 1, en_id = 1, en_method = ''health'', en_body = Some ''true'', en_error = None\<rparr>"

definition sample_begun :: "session_event list" where
  "sample_begun = [SetPid 7, BeginCall (Ok ''{}''), SendRequest 1 ''health'' ''{}'', WriteFrame None]"

lemma sample_begun_run:
  "plugin_run sample_bodies sample_begun session_spawn =
     session_spawn\<lparr>rpc_pid := 7, rpc_next_id := 1, rpc_pending := [1]\<rparr>"
  by (simp add: plugin_run_def sample_begun_def session_spawn_def rpc.extend_def rpc_new_def rpc_defs
      call_begin_def MAX_PENDING_REQUESTS_def OUTBOUND_QUEUE_def)

theorem response_correlation_witness:
  "\<exists>e body. ReadFrame (Ok (Some e)) \<in> set (sample_begun @ [ReadFrame (Ok (Some sample_response))])
    \<and> en_id e = 1 \<and> en_method e = ''health'' \<and> en_error e = None \<and> en_body e = Some body \<and> Ok body = Ok ''true''"
proof -
  define evs where "evs = sample_begun @ [ReadFrame (Ok (Some sample_response))]"
  have "plugin_run sample_bodies evs session_spawn
      = plugin_exec sample_bodies (ReadFrame (Ok (Some sample_response)))
          (session_spawn\<lparr>rpc_pid := 7, rpc_next_id := 1, rpc_pending := [1]\<rparr>)"
    using sample_begun_run by (simp add: evs_def plugin_run_def)
  then have "snd (call_poll sample_bodies (\<lambda>b. Ok b) ''health'' 1 False (plugin_run sample_bodies evs session_spawn))
      = Some (Ok ''true'')"
    by (simp add: session_spawn_def rpc.extend_def rpc_new_def read_turn_def deliver_def sample_response_def
        call_poll_def take_answer_def call_finish_def)
  then show ?thesis
    using response_correlation [of sample_bodies "\<lambda>b. Ok b" "''health''" 1 False evs _ "''true''"]
    by (simp add: evs_def prod_eq_iff)
qed


theorem late_response_ignored_witness:
  "rpc_failure (plugin_exec sample_bodies (ReadFrame (Ok (Some sample_response)))
     (plugin_exec sample_bodies (ReadFrame (Ok (Some sample_response)))
       (fst (call_poll sample_bodies (\<lambda>b. Ok b) ''health'' 1 True
         (plugin_run sample_bodies sample_begun session_spawn)))))
   = Some (UnknownRequestId 1)"
proof -
  define s where "s = plugin_run sample_bodies sample_begun session_spawn"
  have "rpc_ok s" unfolding s_def by (rule run_rpc_ok [OF spawn_ok(1)])
  moreover have "rpc_failure s = None" "ps_reading s" "1 \<in> set (rpc_pending s)" "rpc_ignored s = []"
    unfolding s_def sample_begun_run by (simp_all add: session_spawn_def rpc.extend_def rpc_new_def)
  ultimately show ?thesis
    using late_response_ignored [of s 1 sample_response
        "fst (call_poll sample_bodies (\<lambda>b. Ok b) ''health'' 1 True s)" sample_bodies "\<lambda>b. Ok b" "''health''"]
    by (simp add: sample_response_def MAX_IGNORED_RESPONSES_def flip: s_def)
qed

theorem stopped_session_never_answers_witness:
  "snd (call_poll sample_bodies (\<lambda>b. Ok b) ''health'' 1 False
     (plugin_run sample_bodies [BeginCall (Ok ''{}'')]
       (plugin_run sample_bodies [ReadFrame (Ok None)] session_spawn))) = None"
proof -
  define s where "s = plugin_run sample_bodies [ReadFrame (Ok None)] session_spawn"
  have "\<not> ps_reading s" "rpc_next_id s < 1" "1 \<in> set (rpc_pending (plugin_run sample_bodies [BeginCall (Ok ''{}'')] s))"
    by (simp_all add: s_def plugin_run_def session_spawn_def rpc.extend_def rpc_new_def read_turn_def
        stop_reading_def session_fail_def call_begin_def call_open_def MAX_PENDING_REQUESTS_def)
  then show ?thesis
    using stopped_session_never_answers [OF s_def, of 1 "[BeginCall (Ok ''{}'')]" "\<lambda>b. Ok b" "''health''" False]
    by (simp add: s_def)
qed

end
