(* ===== verification/Plugin_Host.thy ===== *)
theory Plugin_Host
  imports Device_Group Plugin_Session
begin

text \<open>
  A plugin instance, \<open>crates/oikade-plugin-host/src/convert.rs\<close> and \<open>instance.rs\<close>: the conversion of
  the devices that a plugin announces, their registration with the runtime, the events and
  reconciliations of the active session, and the commands sent to it. A session is named by
  an address, so that \<open>Arc::ptr_eq\<close> is equality of addresses. The transitions of an instance
  are serialised by its \<open>transition\<close> lock.
\<close>

section \<open>Conversion\<close>

definition kind_from_api :: "string \<Rightarrow> (conversion_error, value_kind) result" where
  "kind_from_api k =
     (if k = ''bool'' then Ok KBool
      else if k = ''integer'' then Ok KInteger
      else if k = ''number'' then Ok KNumber
      else if k = ''string'' then Ok KString
      else Err (UnsupportedKind k))"

definition global_id :: "string \<Rightarrow> string \<Rightarrow> string" where
  "global_id inst local = ''plugin.'' @ inst @ ''.'' @ local"

definition capability_from_api :: "api_capability \<Rightarrow> (conversion_error, capability) result" where
  "capability_from_api c =
     and_then (kind_from_api (ac_kind c)) (\<lambda>k.
     and_then (map_err ConversionModel (capability_id_new (ac_id c))) (\<lambda>i.
     and_then (map_err ConversionModel (capability_type_new (ac_type c))) (\<lambda>t.
     and_then (plugin_value_from_api (ac_initial_value c)) (\<lambda>v.
       Ok \<lparr>cap_id = i, cap_type = t, cap_name = ac_name c, cap_kind = k,
           cap_permissions = \<lparr>perm_read = ap_read (ac_permissions c), perm_write = ap_write (ac_permissions c),
                              perm_observe = ap_observe (ac_permissions c)\<rparr>,
           cap_initial = v\<rparr>))))"

definition device_from_api :: "string \<Rightarrow> api_device \<Rightarrow> (conversion_error, device) result" where
  "device_from_api inst d =
     and_then (map_err ConversionModel (device_id_new (global_id inst (ad_id d)))) (\<lambda>i.
     and_then (collect capability_from_api (ad_capabilities d)) (\<lambda>cs.
       let converted = \<lparr>dev_id = i, dev_name = ad_name d, dev_manufacturer = ad_manufacturer d,
                        dev_model = ad_model d, dev_capabilities = cs\<rparr>
       in and_then (map_err ConversionModel (device_validate converted)) (\<lambda>_. Ok converted)))"

section \<open>The instance\<close>

datatype host_error =
    DuplicateDeviceId string
  | ConversionFailed conversion_error
  | PluginNotActive
  | FromInactiveSession
  | UnknownPluginDevice string
  | InvalidCapability model_error
  | RegisterFailed device_id runtime_error
  | RestoreFailed host_error host_error
  | RuntimeRefused runtime_error
  | DeviceNotOwned
  | ResponseKindDiffers value_kind value_kind
  | SessionNotPrepared
  | HelloIdDiffers string string
  | HelloVersionDiffers string string
  | ApiRangeUnsupported nat nat
  | NotificationsClosed

fun convert_devices :: "string \<Rightarrow> api_device list \<Rightarrow> (string, device) btree \<Rightarrow> (host_error, (string, device) btree) result" where
  "convert_devices inst [] m = Ok m"
| "convert_devices inst (d # ds) m =
     (if map_of m (ad_id d) \<noteq> None then Err (DuplicateDeviceId (ad_id d))
      else and_then (map_err ConversionFailed (device_from_api inst d)) (\<lambda>c.
             convert_devices inst ds (put (ad_id d) c m)))"

record active =
  av_session :: nat
  av_local_to_global :: "(string, device_id) btree"
  av_global_to_local :: "(device_id, string) btree"
  av_definitions :: "(string, device) btree"
  av_registered :: "device_id list"
  av_healthy :: bool
  av_health_detail :: string

record plugin_inner =
  pi_id :: string
  pi_manifest_id :: string
  pi_manifest_version :: string
  pi_prepared :: "nat option"
  pi_active :: "active option"

type_synonym ('w, 'a) host_outcome = "plugin_inner \<times> 'w host \<times> (host_error, 'a) result"

definition new_active :: "nat \<Rightarrow> (string, device) btree \<Rightarrow> active" where
  "new_active sid defs =
     (let l2g = map (\<lambda>(l, d). (l, dev_id d)) defs
      in \<lparr>av_session = sid, av_local_to_global = l2g,
          av_global_to_local = of_entries (map (\<lambda>(l, g). (g, l)) l2g),
          av_definitions = defs, av_registered = [], av_healthy = True, av_health_detail = []\<rparr>)"

definition install_locked :: "'w handler \<Rightarrow> nat \<Rightarrow> (string, device) btree \<Rightarrow> plugin_inner \<Rightarrow> 'w host \<Rightarrow> ('w, unit) host_outcome" where
  "install_locked h sid defs inner s =
     (case register_all (Some h) (map snd defs) s of
        (s', Err (d, e)) \<Rightarrow> (inner\<lparr>pi_active := None\<rparr>, s', Err (RegisterFailed (dev_id d) e))
      | (s', Ok ds) \<Rightarrow>
          (inner\<lparr>pi_active := Some ((new_active sid defs)\<lparr>av_registered := map dev_id ds\<rparr>)\<rparr>, s', Ok ()))"

definition deactivate_locked :: "nat option \<Rightarrow> plugin_inner \<Rightarrow> 'w host \<Rightarrow> plugin_inner \<times> 'w host" where
  "deactivate_locked expected inner s =
     (if (case expected of None \<Rightarrow> False
          | Some e \<Rightarrow> (case pi_active inner of None \<Rightarrow> True | Some a \<Rightarrow> av_session a \<noteq> e))
      then (inner, s)
      else let registered = (case pi_active inner of None \<Rightarrow> [] | Some a \<Rightarrow> av_registered a)
           in (inner\<lparr>pi_active := None\<rparr>, unregister_all (rev registered) (fst s), snd s))"

definition activate :: "'w handler \<Rightarrow> nat \<Rightarrow> (string, device) btree \<Rightarrow> plugin_inner \<Rightarrow> 'w host \<Rightarrow> ('w, unit) host_outcome" where
  "activate h sid defs inner s =
     (case deactivate_locked None inner s of (inner', s') \<Rightarrow> install_locked h sid defs inner' s')"

text \<open>\<open>Device\<close> derives \<open>PartialEq\<close>, which compares the initial values as \<open>f64\<close>.\<close>

definition capability_eq :: "capability \<Rightarrow> capability \<Rightarrow> bool" where
  "capability_eq c d \<longleftrightarrow> cap_id c = cap_id d \<and> cap_type c = cap_type d \<and> cap_name c = cap_name d
     \<and> cap_kind c = cap_kind d \<and> cap_permissions c = cap_permissions d \<and> value_eq (cap_initial c) (cap_initial d)"

definition device_eq :: "device \<Rightarrow> device \<Rightarrow> bool" where
  "device_eq a b \<longleftrightarrow> dev_id a = dev_id b \<and> dev_name a = dev_name b \<and> dev_manufacturer a = dev_manufacturer b
     \<and> dev_model a = dev_model b \<and> list_all2 capability_eq (dev_capabilities a) (dev_capabilities b)"

definition definitions_eq :: "(string, device) btree \<Rightarrow> (string, device) btree \<Rightarrow> bool" where
  "definitions_eq m m' \<longleftrightarrow> list_all2 (\<lambda>(l, d) (l', d'). l = l' \<and> device_eq d d') m m'"

definition active_for :: "nat \<Rightarrow> plugin_inner \<Rightarrow> (host_error, active) result" where
  "active_for sid inner =
     and_then (ok_or PluginNotActive (pi_active inner)) (\<lambda>a.
     and_then (reject (av_session a \<noteq> sid) FromInactiveSession) (\<lambda>_. Ok a))"

definition reconcile :: "'w handler \<Rightarrow> nat \<Rightarrow> api_device list \<Rightarrow> plugin_inner \<Rightarrow> 'w host \<Rightarrow> ('w, unit) host_outcome" where
  "reconcile h sid devices inner s =
     (case and_then (convert_devices (pi_id inner) devices []) (\<lambda>defs.
             and_then (active_for sid inner) (\<lambda>a. Ok (defs, av_definitions a))) of
        Err e \<Rightarrow> (inner, s, Err e)
      | Ok (defs, previous) \<Rightarrow>
          if definitions_eq previous defs then (inner, s, Ok ())
          else
            (case deactivate_locked (Some sid) inner s of (inner1, s1) \<Rightarrow>
             case install_locked h sid defs inner1 s1 of
               (inner2, s2, Ok _) \<Rightarrow> (inner2, s2, Ok ())
             | (inner2, s2, Err e) \<Rightarrow>
                 (case install_locked h sid previous inner2 s2 of
                    (inner3, s3, Err r) \<Rightarrow> (inner3, s3, Err (RestoreFailed e r))
                  | (inner3, s3, Ok _) \<Rightarrow> (inner3, s3, Err e))))"

definition publish_event :: "system_time \<Rightarrow> nat \<Rightarrow> api_event \<Rightarrow> plugin_inner \<Rightarrow> 'w host \<Rightarrow> 'w host \<times> (host_error, unit) result" where
  "publish_event now sid ev inner s =
     (case and_then (active_for sid inner) (\<lambda>a.
           and_then (ok_or (UnknownPluginDevice (ae_device_id ev)) (map_of (av_local_to_global a) (ae_device_id ev))) (\<lambda>d.
           and_then (map_err InvalidCapability (capability_id_new (ae_capability_id ev))) (\<lambda>c.
           and_then (map_err ConversionFailed (plugin_value_from_api (ae_value ev))) (\<lambda>v. Ok (d, c, v))))) of
        Err e \<Rightarrow> (s, Err e)
      | Ok (d, c, v) \<Rightarrow>
          (case publish now d c v (fst s) (snd s) of (rt, w, r) \<Rightarrow> ((rt, w), map_err RuntimeRefused r)))"

section \<open>Commands\<close>

record command_request =
  cr_device_id :: string
  cr_capability_id :: string
  cr_value :: wire_value

definition begin_command :: "command \<Rightarrow> plugin_inner \<Rightarrow> (host_error, nat \<times> command_request) result" where
  "begin_command cmd inner =
     and_then (ok_or PluginNotActive (pi_active inner)) (\<lambda>a.
     and_then (ok_or DeviceNotOwned (map_of (av_global_to_local a) (cmd_device cmd))) (\<lambda>l.
       Ok (av_session a, \<lparr>cr_device_id = l, cr_capability_id = cmd_capability cmd,
                          cr_value = plugin_value_to_api (cmd_value cmd)\<rparr>)))"

text \<open>The end of \<open>command\<close>, on the body of the response; the second component is the session's.\<close>

definition command_response :: "command \<Rightarrow> wire_value \<Rightarrow> plugin_session \<Rightarrow> plugin_session \<times> (host_error, scalar) result" where
  "command_response cmd response ss =
     (case plugin_value_from_api response of
        Err e \<Rightarrow> (ss, Err (ConversionFailed e))
      | Ok effective \<Rightarrow>
          if kind_of effective \<noteq> kind_of (cmd_value cmd)
          then (session_fail (FailedByHost ''command response kind'') ss,
                Err (ResponseKindDiffers (kind_of effective) (kind_of (cmd_value cmd))))
          else (ss, Ok effective))"

section \<open>Readiness, monitoring and status\<close>

definition check_hello :: "plugin_inner \<Rightarrow> hello \<Rightarrow> (host_error, unit) result" where
  "check_hello inner h =
     (if hello_plugin_id h \<noteq> pi_manifest_id inner
      then Err (HelloIdDiffers (hello_plugin_id h) (pi_manifest_id inner))
      else if hello_plugin_version h \<noteq> pi_manifest_version inner
      then Err (HelloVersionDiffers (hello_plugin_version h) (pi_manifest_version inner))
      else reject (hello_min_api_version h > PROTOCOL_VERSION \<or> hello_max_api_version h < PROTOCOL_VERSION)
             (ApiRangeUnsupported (hello_min_api_version h) (hello_max_api_version h)))"

definition take_prepared :: "plugin_inner \<Rightarrow> plugin_inner \<times> (host_error, nat) result" where
  "take_prepared inner = (inner\<lparr>pi_prepared := None\<rparr>, ok_or SessionNotPrepared (pi_prepared inner))"

text \<open>The end of \<open>wait_ready\<close>, on the devices of the initialize response.\<close>

definition become_ready :: "'w handler \<Rightarrow> nat \<Rightarrow> api_device list \<Rightarrow> plugin_inner \<Rightarrow> 'w host \<Rightarrow> ('w, unit) host_outcome" where
  "become_ready h sid devices inner s =
     (case convert_devices (pi_id inner) devices [] of
        Err e \<Rightarrow> (inner, s, Err e)
      | Ok defs \<Rightarrow> activate h sid defs inner s)"

definition record_health :: "nat \<Rightarrow> health_response \<Rightarrow> plugin_inner \<Rightarrow> plugin_inner" where
  "record_health sid r inner =
     (case pi_active inner of
        None \<Rightarrow> inner
      | Some a \<Rightarrow>
          if av_session a = sid
          then inner\<lparr>pi_active := Some (a\<lparr>av_healthy := hr_healthy r, av_health_detail := hr_detail r\<rparr>)\<rparr>
          else inner)"

datatype monitor_input =
    MonitorNotification system_time "notification option"
  | MonitorHealth "(session_failure session_error, health_response) result"
  | MonitorFailure

datatype monitor_next = Continue | Break "string option"

text \<open>
  One turn of the loop of \<open>monitor\<close>. \<open>Break\<close> carries the reason with which the loop fails the
  session; the loop ends with \<open>deactivate\<close> for its own session.
\<close>

fun monitor_turn :: "'w handler \<Rightarrow> nat \<Rightarrow> monitor_input \<Rightarrow> plugin_inner \<Rightarrow> 'w host
     \<Rightarrow> plugin_inner \<times> 'w host \<times> monitor_next" where
  "monitor_turn h sid (MonitorNotification now (Some (NotifyEvent ev))) inner s =
     (case publish_event now sid ev inner s of
        (s', Ok _) \<Rightarrow> (inner, s', Continue)
      | (s', Err _) \<Rightarrow>
          (case deactivate_locked (Some sid) inner s' of (inner', s'') \<Rightarrow>
             (inner', s'', Break (Some ''invalid plugin notification''))))"
| "monitor_turn h sid (MonitorNotification now (Some (NotifyReconcile devices))) inner s =
     (case reconcile h sid devices inner s of
        (inner', s', Ok _) \<Rightarrow> (inner', s', Continue)
      | (inner', s', Err _) \<Rightarrow>
          (case deactivate_locked (Some sid) inner' s' of (inner'', s'') \<Rightarrow>
             (inner'', s'', Break (Some ''invalid plugin notification''))))"
| "monitor_turn h sid (MonitorNotification now None) inner s =
     (case deactivate_locked (Some sid) inner s of (inner', s') \<Rightarrow>
        (inner', s', Break (Some ''invalid plugin notification'')))"
| "monitor_turn h sid (MonitorHealth (Ok r)) inner s = (record_health sid r inner, s, Continue)"
| "monitor_turn h sid (MonitorHealth (Err _)) inner s =
     (case deactivate_locked (Some sid) inner s of (inner', s') \<Rightarrow>
        (inner', s', Break (Some ''plugin health check failed'')))"
| "monitor_turn h sid MonitorFailure inner s =
     (case deactivate_locked (Some sid) inner s of (inner', s') \<Rightarrow> (inner', s', Break None))"

section \<open>What an instance owns\<close>

definition owned :: "plugin_inner \<Rightarrow> device_id list" where
  "owned inner = (case pi_active inner of None \<Rightarrow> [] | Some a \<Rightarrow> av_registered a)"

text \<open>The devices of the runtime that are not the instance's.\<close>

definition foreign :: "plugin_inner \<Rightarrow> 'w runtime \<Rightarrow> device_id \<Rightarrow> nat option" where
  "foreign inner rt k = (if k \<in> set (owned inner) then None else map_of (rt_devices rt) k)"

definition converted :: "string \<Rightarrow> (string, device) btree \<Rightarrow> bool" where
  "converted inst defs \<longleftrightarrow> ordered defs
     \<and> (\<forall>(l, d) \<in> set defs. dev_id d = global_id inst l \<and> device_ok d \<and> valid_identifier (dev_id d))"

definition instance_ok :: "plugin_inner \<Rightarrow> 'w runtime \<Rightarrow> bool" where
  "instance_ok inner rt \<longleftrightarrow>
     (case pi_active inner of
        None \<Rightarrow> True
      | Some a \<Rightarrow> converted (pi_id inner) (av_definitions a)
          \<and> av_local_to_global a = map (\<lambda>(l, d). (l, dev_id d)) (av_definitions a)
          \<and> av_registered a = map (dev_id \<circ> snd) (av_definitions a)
          \<and> (\<forall>d \<in> snd ` set (av_definitions a). registered_as rt d))"

definition host_ok :: "plugin_inner \<Rightarrow> 'w host \<Rightarrow> bool" where
  "host_ok inner s \<longleftrightarrow> rt_ok (fst s) \<and> rt_started (fst s) \<and> instance_ok inner (fst s)"

text \<open>A transition of the instance keeps it sound and touches no device of another owner.\<close>

definition keeps :: "plugin_inner \<Rightarrow> 'w host \<Rightarrow> plugin_inner \<Rightarrow> 'w host \<Rightarrow> bool" where
  "keeps inner s inner' s' \<longleftrightarrow> host_ok inner' s' \<and> foreign inner' (fst s') = foreign inner (fst s)
     \<and> pi_id inner' = pi_id inner"

lemma keeps_refl: "host_ok inner s \<Longrightarrow> keeps inner s inner s"
  by (simp add: keeps_def)

lemma keeps_trans: "keeps a s b t \<Longrightarrow> keeps b t c u \<Longrightarrow> keeps a s c u"
  by (simp add: keeps_def)

lemma keeps_ok: "keeps inner s inner' s' \<Longrightarrow> host_ok inner' s'"
  by (simp add: keeps_def)

lemma device_from_api_ok:
  assumes "device_from_api inst d = Ok c"
  shows "dev_id c = global_id inst (ad_id d) \<and> device_ok c \<and> valid_identifier (dev_id c)"
  using assms by (auto simp: device_from_api_def and_then_eq_Ok Let_def device_validate_ok)

lemma convert_devices_ok:
  "convert_devices inst ds m = Ok defs \<Longrightarrow> converted inst m \<Longrightarrow> converted inst defs"
proof (induction inst ds m rule: convert_devices.induct)
  case (2 inst d ds m)
  then obtain c where c: "device_from_api inst d = Ok c" "convert_devices inst ds (put (ad_id d) c m) = Ok defs"
    by (auto simp: and_then_eq_Ok split: if_splits)
  have "converted inst (put (ad_id d) c m)"
    using "2.prems"(2) device_from_api_ok [OF c(1)] unfolding converted_def by (auto dest!: mem_put)
  then show ?case using "2.IH" "2.prems"(1) c by (auto split: if_splits)
qed simp

lemma install_failed:
  assumes "host_ok inner s" and "pi_active inner = None" and "install_locked h sid defs inner s = (inner', s', Err e)"
  shows "keeps inner s inner' s'" and "pi_active inner' = None" and "rt_devices (fst s') = rt_devices (fst s)"
proof -
  obtain d m where run: "register_all (Some h) (map snd defs) s = (s', Err (d, m))"
    and inner': "inner' = inner\<lparr>pi_active := None\<rparr>"
    using assms(3) by (auto simp: install_locked_def split: prod.splits sum.splits)
  have ok: "rt_ok (fst s)" using assms(1) by (simp add: host_ok_def)
  note same = register_all_refused [OF ok run]
  show "rt_devices (fst s') = rt_devices (fst s)" by (rule same(2))
  show "pi_active inner' = None" by (simp add: inner')
  have "rt_ok (fst s')" using register_all_ok [OF ok, of "Some h" "map snd defs"] run by simp
  then show "keeps inner s inner' s'"
    using assms(1,2) same by (simp add: keeps_def host_ok_def instance_ok_def foreign_def owned_def inner' fun_eq_iff)
qed

lemma install_done:
  assumes "host_ok inner s" and "pi_active inner = None" and "converted (pi_id inner) defs"
    and "install_locked h sid defs inner s = (inner', s', Ok u)"
  shows "keeps inner s inner' s'"
    and "pi_active inner' = Some ((new_active sid defs)\<lparr>av_registered := map (dev_id \<circ> snd) defs\<rparr>)"
proof -
  obtain ds where run: "register_all (Some h) (map snd defs) s = (s', Ok ds)"
    and inner': "inner' = inner\<lparr>pi_active := Some ((new_active sid defs)\<lparr>av_registered := map dev_id ds\<rparr>)\<rparr>"
    using assms(4) by (auto simp: install_locked_def split: prod.splits sum.splits)
  have ok: "rt_ok (fst s)" using assms(1) by (simp add: host_ok_def)
  note eff = register_all_done [OF ok run]
  show act: "pi_active inner' = Some ((new_active sid defs)\<lparr>av_registered := map (dev_id \<circ> snd) defs\<rparr>)"
    by (simp add: inner' eff(1))
  have "rt_ok (fst s')" using register_all_ok [OF ok, of "Some h" "map snd defs"] run by simp
  moreover have "map_of (rt_devices (fst s)) k = None" if "k \<in> dev_id ` set (map snd defs)" for k
    using eff(5) that by (auto simp: map_of_None_keys)
  then have "foreign inner' (fst s') = foreign inner (fst s)"
    using eff(6) assms(2) by (intro ext) (simp add: foreign_def owned_def act image_comp)
  ultimately show "keeps inner s inner' s'"
    using assms(1,3) eff(1,3,7) by (auto simp: keeps_def host_ok_def instance_ok_def inner' new_active_def Let_def)
qed

lemma install_keeps:
  assumes "host_ok inner s" and "pi_active inner = None" and "converted (pi_id inner) defs"
    and "install_locked h sid defs inner s = (inner', s', r)"
  shows "keeps inner s inner' s'"
  using assms install_failed(1) install_done(1) by (cases r) blast+

lemma deactivate_keeps:
  assumes "host_ok inner s" and "deactivate_locked expected inner s = (inner', s')"
  shows "keeps inner s inner' s'"
    and "inner' = inner \<and> s' = s \<or> pi_active inner' = None \<and> foreign inner (fst s) = map_of (rt_devices (fst s'))
      \<and> rt_store (fst s') = rt_store (fst s)"
proof -
  have ok: "rt_ok (fst s)" "rt_started (fst s)" using assms(1) by (simp_all add: host_ok_def)
  consider (same) "inner' = inner" "s' = s"
    | (off) "inner' = inner\<lparr>pi_active := None\<rparr>" "s' = (unregister_all (rev (owned inner)) (fst s), snd s)"
    using assms(2) by (auto simp: deactivate_locked_def owned_def Let_def split: if_splits)
  then have "keeps inner s inner' s' \<and> (inner' = inner \<and> s' = s \<or> pi_active inner' = None
      \<and> foreign inner (fst s) = map_of (rt_devices (fst s')) \<and> rt_store (fst s') = rt_store (fst s))"
  proof cases
    case off
    then show ?thesis
      using ok unregister_all_devices [OF ok(2), of "rev (owned inner)"]
      by (auto simp: keeps_def host_ok_def instance_ok_def foreign_def fun_eq_iff rt_ok_unregister_all owned_def)
  qed (simp add: keeps_refl assms(1))
  then show "keeps inner s inner' s'" "inner' = inner \<and> s' = s \<or> pi_active inner' = None
      \<and> foreign inner (fst s) = map_of (rt_devices (fst s')) \<and> rt_store (fst s') = rt_store (fst s)" by blast+
qed

lemma deactivate_off:
  assumes "deactivate_locked expected inner s = (inner', s')"
    and "expected = None \<or> map_option av_session (pi_active inner) = expected"
  shows "pi_active inner' = None"
  using assms by (auto simp: deactivate_locked_def Let_def split: option.splits if_splits)

lemma commit_registered:
  assumes "rt_ok rt" and "lookup rt d c = Ok (a, cap)" and "commit now a d cap v rt w = (rt', w', r)"
  shows "rt_devices rt' = rt_devices rt \<and> rt_started rt' = rt_started rt \<and> (registered_as rt dd \<longrightarrow> registered_as rt' dd)"
  using assms(3)
  by (auto simp: commit_def registered_as_def commit_values_def publish_revision_def Let_def dispatch_events_def
      split: option.splits if_splits prod.splits sum.splits)

lemma publish_registered:
  assumes "rt_ok rt" and "publish now d c v rt w = (rt', w', r)"
  shows "rt_ok rt'" and "rt_devices rt' = rt_devices rt" and "rt_started rt' = rt_started rt"
    and "registered_as rt dd \<Longrightarrow> registered_as rt' dd"
proof -
  show "rt_ok rt'" using rt_ok_publish [OF assms(1), of now d c v w] assms(2) by simp
  have "rt_devices rt' = rt_devices rt \<and> rt_started rt' = rt_started rt \<and> (registered_as rt dd \<longrightarrow> registered_as rt' dd)"
  proof (cases rule: publish_cases [OF assms(1), of now d c v w])
    case (2 a cap)
    have "commit now a d cap v rt w = (rt', w', r)" using 2(3) assms(2) by simp
    then show ?thesis by (rule commit_registered [OF assms(1) 2(1)])
  qed (use assms(2) in auto)
  then show "rt_devices rt' = rt_devices rt" "rt_started rt' = rt_started rt"
    "registered_as rt dd \<Longrightarrow> registered_as rt' dd" by blast+
qed

lemma publish_event_keeps:
  assumes "host_ok inner s" and "publish_event now sid ev inner s = (s', r)"
  shows "keeps inner s inner s'"
proof -
  consider "s' = s" | d c v m where "publish now d c v (fst s) (snd s) = (fst s', snd s', m)"
    using assms(2) by (auto simp: publish_event_def split: sum.splits prod.splits)
  then show ?thesis
  proof cases
    case (2 d c v m)
    have "rt_ok (fst s)" using assms(1) by (simp add: host_ok_def)
    note pub = publish_registered [OF this 2]
    show ?thesis
      using assms(1) pub by (auto simp: keeps_def host_ok_def instance_ok_def foreign_def fun_eq_iff split: option.splits)
  qed (simp add: keeps_refl assms(1))
qed

lemma active_for_ok: "active_for sid inner = Ok a \<longleftrightarrow> pi_active inner = Some a \<and> av_session a = sid"
  by (auto simp: active_for_def and_then_eq_Ok)

lemma instance_definitions: "instance_ok inner rt \<Longrightarrow> pi_active inner = Some a \<Longrightarrow> converted (pi_id inner) (av_definitions a)"
  by (simp add: instance_ok_def)

lemma reconcile_cases:
  assumes "reconcile h sid devices inner s = (inner', s', r)"
  obtains (refused) e where "inner' = inner" "s' = s" "r = Err e"
  | (unchanged) defs a where "convert_devices (pi_id inner) devices [] = Ok defs" "pi_active inner = Some a"
      "av_session a = sid" "definitions_eq (av_definitions a) defs" "inner' = inner" "s' = s" "r = Ok ()"
  | (replaced) defs a inner1 s1 where "convert_devices (pi_id inner) devices [] = Ok defs" "pi_active inner = Some a"
      "av_session a = sid" "deactivate_locked (Some sid) inner s = (inner1, s1)"
      "install_locked h sid defs inner1 s1 = (inner', s', Ok ())" "r = Ok ()"
  | (rolled_back) defs a inner1 s1 inner2 s2 e e2 where "convert_devices (pi_id inner) devices [] = Ok defs"
      "pi_active inner = Some a" "av_session a = sid" "deactivate_locked (Some sid) inner s = (inner1, s1)"
      "install_locked h sid defs inner1 s1 = (inner2, s2, Err e)"
      "install_locked h sid (av_definitions a) inner2 s2 = (inner', s', e2)" "is_ok r = False"
proof (cases "and_then (convert_devices (pi_id inner) devices []) (\<lambda>defs.
             and_then (active_for sid inner) (\<lambda>a. Ok (defs, av_definitions a)))")
  case (Inl e)
  then show thesis using assms by (intro refused [of e]) (simp_all add: reconcile_def)
next
  case (Inr p)
  then obtain defs a where p: "convert_devices (pi_id inner) devices [] = Ok defs" "active_for sid inner = Ok a"
    "p = (defs, av_definitions a)" by (auto simp: and_then_eq_Ok)
  then have a: "pi_active inner = Some a" "av_session a = sid" by (simp_all add: active_for_ok)
  obtain inner1 s1 where off: "deactivate_locked (Some sid) inner s = (inner1, s1)" by (metis prod.exhaust)
  obtain inner2 s2 r2 where on: "install_locked h sid defs inner1 s1 = (inner2, s2, r2)" by (metis prod_cases3)
  obtain inner3 s3 r3 where undo: "install_locked h sid (av_definitions a) inner2 s2 = (inner3, s3, r3)"
    by (metis prod_cases3)
  show thesis
  proof (cases "definitions_eq (av_definitions a) defs")
    case True
    then show thesis using unchanged [OF p(1) a] assms p by (simp add: reconcile_def)
  next
    case False
    show thesis
    proof (cases r2)
      case (Inl e)
      then show thesis
        using rolled_back [OF p(1) a off on [unfolded Inl]] undo assms p False off on
        by (cases r3) (auto simp: reconcile_def)
    next
      case (Inr u)
      then show thesis using replaced [OF p(1) a off] assms p False off on by (simp add: reconcile_def)
    qed
  qed
qed

lemma reconcile_keeps:
  assumes "host_ok inner s" and "reconcile h sid devices inner s = (inner', s', r)"
  shows "keeps inner s inner' s'"
  using assms(2)
proof (cases rule: reconcile_cases)
  case (replaced defs a inner1 s1)
  note off = deactivate_keeps(1) [OF assms(1) replaced(4)]
  have "pi_active inner1 = None" by (rule deactivate_off [OF replaced(4)]) (simp add: replaced)
  moreover have "converted (pi_id inner1) defs"
    using convert_devices_ok [OF replaced(1)] off by (simp add: keeps_def converted_def)
  ultimately show ?thesis using keeps_trans [OF off] install_done(1) [OF keeps_ok [OF off]] replaced(5) by blast
next
  case (rolled_back defs a inner1 s1 inner2 s2 e e2)
  note off = deactivate_keeps(1) [OF assms(1) rolled_back(4)]
  have none: "pi_active inner1 = None" by (rule deactivate_off [OF rolled_back(4)]) (simp add: rolled_back)
  note failed = install_failed [OF keeps_ok [OF off] none rolled_back(5)]
  have "converted (pi_id inner2) (av_definitions a)"
    using instance_definitions [of inner "fst s" a] assms(1) rolled_back(2) off failed(1)
    by (simp add: keeps_def host_ok_def)
  then have "keeps inner2 s2 inner' s'"
    using install_keeps [OF keeps_ok [OF failed(1)] failed(2) _ rolled_back(6)] by simp
  then show ?thesis using keeps_trans off failed(1) by blast
qed (use assms(1) in \<open>simp_all add: keeps_refl\<close>)

lemma become_ready_keeps:
  assumes "host_ok inner s" and "become_ready h sid devices inner s = (inner', s', r)"
  shows "keeps inner s inner' s'"
proof (cases "convert_devices (pi_id inner) devices []")
  case (Inl e)
  then show ?thesis using assms by (simp add: become_ready_def keeps_refl)
next
  case (Inr defs)
  obtain inner1 s1 where off: "deactivate_locked None inner s = (inner1, s1)" by (metis prod.exhaust)
  note k = deactivate_keeps(1) [OF assms(1) off]
  have "converted (pi_id inner1) defs" using convert_devices_ok [OF Inr] k by (simp add: keeps_def converted_def)
  moreover have "install_locked h sid defs inner1 s1 = (inner', s', r)"
    using assms(2) by (simp add: become_ready_def Inr activate_def off)
  ultimately show ?thesis
    using keeps_trans [OF k] install_keeps [OF keeps_ok [OF k] deactivate_off [OF off]] by blast
qed

lemma record_health_keeps: "host_ok inner s \<Longrightarrow> keeps inner s (record_health sid r inner) s"
  by (auto simp: record_health_def keeps_def host_ok_def instance_ok_def foreign_def owned_def fun_eq_iff split: option.splits)

lemma monitor_keeps:
  assumes "host_ok inner s"
  shows "keeps inner s (fst (monitor_turn h sid m inner s)) (fst (snd (monitor_turn h sid m inner s)))"
proof -
  have off: "keeps inner1 s1 (fst (deactivate_locked (Some sid) inner1 s1)) (snd (deactivate_locked (Some sid) inner1 s1))"
    if "host_ok inner1 s1" for inner1 :: plugin_inner and s1 :: "'a host"
    using deactivate_keeps(1) [OF that] by (metis prod.collapse)
  show ?thesis
  proof (cases "(h, sid, m, inner, s)" rule: monitor_turn.cases)
    case (1 h sid now ev inner s)
    obtain s' r where p: "publish_event now sid ev inner s = (s', r)" by fastforce
    have k: "keeps inner s inner s'" using publish_event_keeps [OF _ p] assms 1 by simp
    show ?thesis using 1 p k keeps_trans [OF k off [OF keeps_ok [OF k]]] by (cases r) (auto split: prod.splits)
  next
    case (2 h sid now devices inner s)
    obtain i' s' r where p: "reconcile h sid devices inner s = (i', s', r)" by (metis prod_cases3)
    have k: "keeps inner s i' s'" using reconcile_keeps [OF _ p] assms 2 by simp
    show ?thesis using 2 p k keeps_trans [OF k off [OF keeps_ok [OF k]]] by (cases r) (auto split: prod.splits)
  qed (use assms off [OF assms] in \<open>auto simp: record_health_keeps split: prod.splits\<close>)
qed

lemma global_id_inj: "global_id inst l = global_id inst l' \<longleftrightarrow> l = l'"
  by (simp add: global_id_def)

lemma converted_distinct: "converted inst defs \<Longrightarrow> distinct (map (dev_id \<circ> snd) defs)"
proof -
  assume c: "converted inst defs"
  then have "map (dev_id \<circ> snd) defs = map (global_id inst) (map fst defs)"
    by (auto simp: converted_def split: prod.splits)
  then show ?thesis
    using c ordered_distinct [of defs] global_id_inj by (simp add: distinct_map converted_def inj_on_def)
qed

lemma install_succeeds:
  assumes "host_ok inner s" and "rt_store (fst s) = None" and "converted (pi_id inner) defs"
    and "\<forall>d \<in> snd ` set defs. map_of (rt_devices (fst s)) (dev_id d) = None"
  shows "\<exists>inner' s'. install_locked h sid defs inner s = (inner', s', Ok ())"
proof -
  have "\<exists>t ds'. register_all (Some h) (map snd defs) s = (t, Ok ds')"
    using assms converted_distinct [OF assms(3)]
    by (intro register_all_succeeds) (auto simp: host_ok_def converted_def split: prod.splits)
  then show ?thesis by (auto simp: install_locked_def)
qed

lemma definitions_eq_refl: "converted inst defs \<Longrightarrow> definitions_eq defs defs"
proof -
  have "device_eq d d" if "device_ok d" for d
    using that by (auto simp: device_eq_def capability_eq_def device_ok_def capability_ok_def
        intro!: list.rel_refl_strong value_eq_refl admits_validate)
  then show "converted inst defs \<Longrightarrow> definitions_eq defs defs"
    by (auto simp: definitions_eq_def converted_def intro!: list.rel_refl_strong)
qed

lemma foreign_owned: "k \<in> set (owned inner) \<Longrightarrow> foreign inner rt k = None"
  by (simp add: foreign_def)

section \<open>Runs of an instance\<close>

datatype instance_op =
    BecomeReady nat "api_device list"
  | MonitorTurn nat monitor_input
  | Deactivate "nat option"

fun instance_exec :: "'w handler \<Rightarrow> instance_op \<Rightarrow> plugin_inner \<times> 'w host \<Rightarrow> plugin_inner \<times> 'w host" where
  "instance_exec h (BecomeReady sid devices) (inner, s) =
     (case become_ready h sid devices inner s of (inner', s', _) \<Rightarrow> (inner', s'))"
| "instance_exec h (MonitorTurn sid m) (inner, s) =
     (case monitor_turn h sid m inner s of (inner', s', _) \<Rightarrow> (inner', s'))"
| "instance_exec h (Deactivate expected) (inner, s) = deactivate_locked expected inner s"

lemma instance_exec_keeps:
  "host_ok inner s \<Longrightarrow> instance_exec h op (inner, s) = (inner', s') \<Longrightarrow> keeps inner s inner' s'"
proof (cases op)
  case (MonitorTurn sid m)
  then show "host_ok inner s \<Longrightarrow> instance_exec h op (inner, s) = (inner', s') \<Longrightarrow> ?thesis"
    using monitor_keeps [of inner s h sid m] by (cases "monitor_turn h sid m inner s") auto
qed (auto dest: become_ready_keeps deactivate_keeps(1) split: prod.splits)



text \<open>Within one instance different devices get different core identifiers, but two instances
  can produce the same one: the separator is a character of the identifiers themselves.\<close>

theorem global_ids:
  "(global_id inst l = global_id inst l' \<longleftrightarrow> l = l')
   \<and> global_id ''a'' ''b.c'' = global_id ''a.b'' ''c''
   \<and> validate_identifier ''a'' = Ok () \<and> validate_identifier ''a.b'' = Ok ()
   \<and> validate_identifier (global_id ''a'' ''b.c'') = Ok ()"
  by (simp add: global_id_def validate_identifier_def MAX_IDENTIFIER_LENGTH_def valid_inner_def valid_edge_def
      is_ascii_lowercase_def is_ascii_digit_def)

section \<open>Witnesses\<close>

definition sample_api_device :: "string \<Rightarrow> api_device" where
  "sample_api_device l =
     \<lparr>ad_id = l, ad_name = ''Lamp'', ad_manufacturer = [], ad_model = [],
      ad_capabilities = [\<lparr>ac_id = ''on'', ac_type = CAPABILITY_SWITCH_ON, ac_name = ''On'', ac_kind = ''bool'',
        ac_permissions = \<lparr>ap_read = True, ap_write = True, ap_observe = True\<rparr>,
        ac_initial_value = encode_wire (VBool False)\<rparr>]\<rparr>"

definition sample_inner :: plugin_inner where
  "sample_inner = \<lparr>pi_id = ''p'', pi_manifest_id = ''p'', pi_manifest_version = ''1'', pi_prepared = None, pi_active = None\<rparr>"

definition echo_handler :: "unit handler" where
  "echo_handler c w = (w, Ok (cmd_value c))"

text \<open>A started runtime in which another owner holds the identifier of the local device \<open>taken\<close>.\<close>

definition occupied_host :: "unit host" where
  "occupied_host =
     (case device_from_api ''p'' (sample_api_device ''taken'') of
        Err _ \<Rightarrow> (runtime_new None, ())
      | Ok d \<Rightarrow> fst (register_device (Some echo_handler) d (fst (start (runtime_new None)), ())))"

definition ready_host :: "plugin_inner \<times> unit host" where
  "ready_host = instance_exec echo_handler (BecomeReady 1 [sample_api_device ''lamp'']) (sample_inner, occupied_host)"

lemma occupied_host_ok: "host_ok sample_inner occupied_host" "rt_store (fst occupied_host) = None"
proof -
  define d where "d = (case device_from_api ''p'' (sample_api_device ''taken'') of Ok d \<Rightarrow> d)"
  have conv: "device_from_api ''p'' (sample_api_device ''taken'') = Ok d"
    unfolding d_def by code_simp
  obtain t r where reg: "register_device (Some echo_handler) d (fst (start (runtime_new None)), ()) = (t, r)"
    by (metis prod.exhaust)
  have new: "rt_ok (fst (start (runtime_new None :: unit runtime)))" by (rule rt_ok_start [OF rt_ok_new])
  note eff = register_effect(1,3,4) [OF _ register_device_eq [OF reg]]
  have "occupied_host = t" by (simp add: occupied_host_def conv reg)
  then show "host_ok sample_inner occupied_host" "rt_store (fst occupied_host) = None"
    using eff new by (simp_all add: host_ok_def instance_ok_def sample_inner_def start_def runtime_new_def)
qed

lemma ready_host_ok: "host_ok (fst ready_host) (snd ready_host)"
  using instance_exec_keeps [OF occupied_host_ok(1), of echo_handler "BecomeReady 1 [sample_api_device ''lamp'']"]
  by (simp add: ready_host_def keeps_def)



end
