(* ===== verification/Yaml.thy ===== *)
theory Yaml
  imports Frame_Codec
begin

text \<open>
  The strict YAML subset of \<open>crates/oikade-config/src/yaml.rs\<close>. The scanner (\<open>saphyr_parser\<close>) is
  outside the repository: the model starts from its event stream, with the position of each
  event, and takes its test for core-schema tags as a parameter. The index into the event
  vector is the remaining list. The three loops call each other, so the recursion carries
  fuel; \<open>parse_fuel\<close> is enough for every stream.
\<close>

section \<open>Numbers of the standard library\<close>

text \<open>\<open>f64::from_str\<close>, rounded by \<open>nearest_f64\<close>.\<close>

definition split_sign :: "string \<Rightarrow> bool \<times> string" where
  "split_sign s =
     (case s of
        c # r \<Rightarrow> if c = CHR ''-'' then (True, r) else if c = CHR ''+'' then (False, r) else (False, s)
      | [] \<Rightarrow> (False, s))"

definition parse_exponent :: "string \<Rightarrow> int option" where
  "parse_exponent s =
     (case s of
        [] \<Rightarrow> Some 0
      | c # r \<Rightarrow>
          if c = CHR ''e'' \<or> c = CHR ''E''
          then (case split_sign r of (negative, ds) \<Rightarrow>
                  if ds \<noteq> [] \<and> list_all is_ascii_digit ds
                  then Some (if negative then - int (from_digits ds) else int (from_digits ds)) else None)
          else None)"

definition f64_from_str :: "string \<Rightarrow> f64 option" where
  "f64_from_str s =
     (case split_sign s of (negative, body) \<Rightarrow>
        let whole = takeWhile is_ascii_digit body; after = dropWhile is_ascii_digit body;
            (frac, tail) = (case after of
               c # r \<Rightarrow> if c = CHR ''.'' then (takeWhile is_ascii_digit r, dropWhile is_ascii_digit r) else ([], after)
             | [] \<Rightarrow> ([], []));
            lower = map to_ascii_lowercase body
        in if lower = ''nan'' then Some (f64_of_fields negative 2047 (2 ^ 51))
           else if lower = ''inf'' \<or> lower = ''infinity'' then Some (f64_of_fields negative 2047 0)
           else if whole = [] \<and> frac = [] then None
           else case parse_exponent tail of
             None \<Rightarrow> None
           | Some x \<Rightarrow>
               let n = from_digits (whole @ frac); e = x - int (length frac)
               in Some (if e \<ge> 0 then nearest_f64 negative (n * 10 ^ nat e) 1
                        else nearest_f64 negative n (10 ^ nat (- e))))"

text \<open>\<open>u64::from_str_radix\<close>, which accepts a leading plus sign.\<close>

definition radix_digit :: "nat \<Rightarrow> char \<Rightarrow> nat option" where
  "radix_digit radix c =
     (let v = (if is_ascii_digit c then code c - 48
               else if is_ascii_lowercase c then code c - 87
               else if 65 \<le> code c \<and> code c \<le> 90 then code c - 55 else 36)
      in if v < radix then Some v else None)"

fun radix_value :: "nat \<Rightarrow> nat \<Rightarrow> string \<Rightarrow> nat option" where
  "radix_value radix acc [] = Some acc"
| "radix_value radix acc (c # cs) =
     (case radix_digit radix c of
        None \<Rightarrow> None
      | Some v \<Rightarrow> if acc * radix + v < 2 ^ 64 then radix_value radix (acc * radix + v) cs else None)"

definition u64_from_str_radix :: "nat \<Rightarrow> string \<Rightarrow> nat option" where
  "u64_from_str_radix radix s =
     (let body = (case s of c # r \<Rightarrow> if c = CHR ''+'' then r else s | [] \<Rightarrow> s)
      in if body = [] then None else radix_value radix 0 body)"

section \<open>Nodes and events\<close>

type_synonym span = "nat \<times> nat"

datatype node =
    NNull
  | NBool bool
  | NInt int
  | NFloat f64
  | NString string
  | NSequence "node list"
  | NMapping "(string \<times> node) list"

fun into_json :: "node \<Rightarrow> json" where
  "into_json NNull = JNull"
| "into_json (NBool b) = JBool b"
| "into_json (NInt i) = JInt i"
| "into_json (NFloat x) = JFloat x"
| "into_json (NString s) = JString s"
| "into_json (NSequence ns) = JArray (map into_json ns)"
| "into_json (NMapping m) = JObject (map (map_prod id into_json) m)"

datatype scalar_style = Plain | SingleQuoted | DoubleQuoted | Literal | Folded

record tag =
  tag_handle :: string
  tag_suffix :: string

datatype yaml_event =
    StreamStart
  | StreamEnd
  | DocumentStart
  | DocumentEnd
  | Alias
  | Scalar string scalar_style nat "tag option"
  | SequenceStart nat "tag option"
  | SequenceEnd
  | MappingStart nat "tag option"
  | MappingEnd
  | Nothing

type_synonym events = "(yaml_event \<times> span) list"

datatype yaml_problem =
    ScannerFailed string
  | DocumentEmpty
  | MultipleDocuments
  | NestingTooDeep
  | UnexpectedEnd
  | UnexpectedEvent
  | ExpectedValue
  | AnchorUnsupported
  | CustomTag tag
  | UnsupportedCoreTag string
  | AmbiguousPlain string
  | InvalidBool string
  | InvalidInteger string
  | IntegerOutOfRange string
  | InvalidNumber string
  | NumberNotFiniteYaml
  | KeyNotString
  | DuplicateKey string
  | OutOfFuel

datatype config_problem = YamlAt span yaml_problem | YamlProblem yaml_problem

definition MAX_YAML_DEPTH :: nat where "MAX_YAML_DEPTH = 64"

section \<open>Scalars\<close>

definition validate_metadata :: "(tag \<Rightarrow> bool) \<Rightarrow> nat \<Rightarrow> tag option \<Rightarrow> span \<Rightarrow> (config_problem, unit) result" where
  "validate_metadata core anchor t sp =
     (if anchor \<noteq> 0 then Err (YamlAt sp AnchorUnsupported)
      else case t of
        None \<Rightarrow> Ok ()
      | Some tg \<Rightarrow> reject (\<not> core tg) (YamlAt sp (CustomTag tg)))"

definition parse_bool :: "string \<Rightarrow> span \<Rightarrow> (config_problem, node) result" where
  "parse_bool v sp =
     (let lower = map to_ascii_lowercase v
      in if lower = ''true'' then Ok (NBool True)
         else if lower = ''false'' then Ok (NBool False)
         else Err (YamlAt sp (InvalidBool v)))"

definition without_underscores :: "string \<Rightarrow> string" where
  "without_underscores = filter (\<lambda>c. c \<noteq> CHR ''_'')"

definition looks_like_integer :: "string \<Rightarrow> bool" where
  "looks_like_integer v =
     (let body = dropWhile (\<lambda>c. c = CHR ''+'' \<or> c = CHR ''-'') v
      in starts_with ''0x'' body \<or> starts_with ''0X'' body \<or> starts_with ''0o'' body \<or> starts_with ''0O'' body
         \<or> (body \<noteq> [] \<and> list_all (\<lambda>c. is_ascii_digit c \<or> c = CHR ''_'') body))"

definition parse_integer :: "string \<Rightarrow> span \<Rightarrow> (config_problem, node) result" where
  "parse_integer v sp =
     (case split_sign (without_underscores v) of (negative, body) \<Rightarrow>
        let (radix, ds) =
              (if starts_with ''0x'' body \<or> starts_with ''0X'' body then (16, drop 2 body)
               else if starts_with ''0o'' body \<or> starts_with ''0O'' body then (8, drop 2 body)
               else (10, body))
        in case u64_from_str_radix radix ds of
             None \<Rightarrow> Err (YamlAt sp (InvalidInteger v))
           | Some mag \<Rightarrow>
               if negative
               then (if int mag \<le> 2 ^ 63 then Ok (NInt (- int mag)) else Err (YamlAt sp (IntegerOutOfRange v)))
               else Ok (NInt (int mag)))"

definition looks_like_float :: "string \<Rightarrow> bool" where
  "looks_like_float v =
     (let lower = map to_ascii_lowercase v
      in lower \<in> {''.inf'', ''+.inf'', ''-.inf'', ''.nan''}
         \<or> (CHR ''.'' \<in> set lower \<or> CHR ''e'' \<in> set lower) \<and> f64_from_str (without_underscores lower) \<noteq> None)"

definition parse_float :: "string \<Rightarrow> span \<Rightarrow> (config_problem, node) result" where
  "parse_float v sp =
     (case f64_from_str (without_underscores v) of
        None \<Rightarrow> Err (YamlAt sp (InvalidNumber v))
      | Some x \<Rightarrow> if is_finite x then Ok (NFloat x) else Err (YamlAt sp NumberNotFiniteYaml))"

definition parse_scalar :: "string \<Rightarrow> scalar_style \<Rightarrow> tag option \<Rightarrow> span \<Rightarrow> (config_problem, node) result" where
  "parse_scalar v style t sp =
     (let lower = map to_ascii_lowercase v in
      if style = Plain \<and> lower \<in> {''yes'', ''no'', ''on'', ''off''} then Err (YamlAt sp (AmbiguousPlain v))
      else case t of
        Some tg \<Rightarrow>
          if tag_suffix tg = ''str'' then Ok (NString v)
          else if tag_suffix tg = ''null'' then Ok NNull
          else if tag_suffix tg = ''bool'' then parse_bool v sp
          else if tag_suffix tg = ''int'' then parse_integer v sp
          else if tag_suffix tg = ''float'' then parse_float v sp
          else Err (YamlAt sp (UnsupportedCoreTag (tag_suffix tg)))
      | None \<Rightarrow>
          if style \<noteq> Plain then Ok (NString v)
          else if lower \<in> {[], ''~'', ''null''} then Ok NNull
          else if lower \<in> {''true'', ''false''} then parse_bool v sp
          else if looks_like_integer v then parse_integer v sp
          else if looks_like_float v then parse_float v sp
          else Ok (NString v))"

section \<open>Documents\<close>

definition at_head :: "events \<Rightarrow> yaml_problem \<Rightarrow> config_problem" where
  "at_head evs p = (case evs of [] \<Rightarrow> YamlProblem p | e # _ \<Rightarrow> YamlAt (snd e) p)"

definition head_event :: "events \<Rightarrow> yaml_event option" where
  "head_event evs = (case evs of [] \<Rightarrow> None | e # _ \<Rightarrow> Some (fst e))"

text \<open>The loops of a sequence and of a mapping, over the parser of the next node.\<close>

type_synonym node_parser = "events \<Rightarrow> (config_problem, node \<times> events) result"

fun parse_items :: "nat \<Rightarrow> node_parser \<Rightarrow> node list \<Rightarrow> events \<Rightarrow> (config_problem, node list \<times> events) result" where
  "parse_items 0 next acc evs = Err (YamlProblem OutOfFuel)"
| "parse_items (Suc fuel) next acc evs =
     (if head_event evs = Some SequenceEnd then Ok (acc, tl evs)
      else and_then (next evs) (\<lambda>(n, rest). parse_items fuel next (acc @ [n]) rest))"

fun parse_entries :: "nat \<Rightarrow> node_parser \<Rightarrow> span \<Rightarrow> (string, node) btree \<Rightarrow> events
     \<Rightarrow> (config_problem, (string, node) btree \<times> events) result" where
  "parse_entries 0 next sp m evs = Err (YamlProblem OutOfFuel)"
| "parse_entries (Suc fuel) next sp m evs =
     (if head_event evs = Some MappingEnd then Ok (m, tl evs)
      else
        let key_span = (case evs of [] \<Rightarrow> sp | e # _ \<Rightarrow> snd e)
        in and_then (next evs) (\<lambda>(kn, rest).
           case kn of
             NString key \<Rightarrow>
               and_then (next rest) (\<lambda>(v, rest').
                 if map_of m key \<noteq> None then Err (YamlAt key_span (DuplicateKey key))
                 else parse_entries fuel next sp (put key v m) rest')
           | _ \<Rightarrow> Err (YamlAt key_span KeyNotString)))"

primrec parse_node :: "nat \<Rightarrow> (tag \<Rightarrow> bool) \<Rightarrow> nat \<Rightarrow> node_parser" where
  "parse_node 0 core depth evs = Err (YamlProblem OutOfFuel)"
| "parse_node (Suc fuel) core depth evs =
     (if depth > MAX_YAML_DEPTH then Err (at_head evs NestingTooDeep)
      else case evs of
        [] \<Rightarrow> Err (YamlProblem UnexpectedEnd)
      | (ev, sp) # rest \<Rightarrow>
          (case ev of
             Alias \<Rightarrow> Err (YamlAt sp AnchorUnsupported)
           | Scalar v style anchor t \<Rightarrow>
               and_then (validate_metadata core anchor t sp) (\<lambda>_.
               and_then (parse_scalar v style t sp) (\<lambda>n. Ok (n, rest)))
           | SequenceStart anchor t \<Rightarrow>
               and_then (validate_metadata core anchor t sp) (\<lambda>_.
               and_then (parse_items fuel (parse_node fuel core (depth + 1)) [] rest) (\<lambda>(ns, rest').
                 Ok (NSequence ns, rest')))
           | MappingStart anchor t \<Rightarrow>
               and_then (validate_metadata core anchor t sp) (\<lambda>_.
               and_then (parse_entries fuel (parse_node fuel core (depth + 1)) sp [] rest) (\<lambda>(m, rest').
                 Ok (NMapping m, rest')))
           | _ \<Rightarrow> Err (YamlAt sp ExpectedValue)))"

definition parse_fuel :: "events \<Rightarrow> nat" where
  "parse_fuel evs = length evs + 1"

definition expect :: "yaml_event \<Rightarrow> events \<Rightarrow> (config_problem, events) result" where
  "expect ev evs =
     (case evs of
        [] \<Rightarrow> Err (YamlProblem UnexpectedEnd)
      | (e, sp) # rest \<Rightarrow> if e = ev then Ok rest else Err (YamlAt sp UnexpectedEvent))"

text \<open>The loop over the documents of the stream.\<close>

fun parse_documents :: "(tag \<Rightarrow> bool) \<Rightarrow> nat \<Rightarrow> node list \<Rightarrow> events \<Rightarrow> (config_problem, node list) result" where
  "parse_documents core 0 docs evs = Err (YamlProblem OutOfFuel)"
| "parse_documents core (Suc fuel) docs evs =
     (if head_event evs = Some StreamEnd then Ok docs
      else and_then (expect DocumentStart evs) (\<lambda>evs1.
           and_then (parse_node (parse_fuel evs1) core 0 evs1) (\<lambda>(n, evs2).
           and_then (expect DocumentEnd evs2) (\<lambda>evs3.
             parse_documents core fuel (docs @ [n]) evs3))))"

definition yaml_parse :: "(tag \<Rightarrow> bool) \<Rightarrow> (string, events) result \<Rightarrow> (config_problem, node) result" where
  "yaml_parse core scanned =
     and_then (map_err (\<lambda>e. YamlProblem (ScannerFailed e)) scanned) (\<lambda>evs.
     and_then (expect StreamStart evs) (\<lambda>evs1.
     and_then (parse_documents core (length evs1 + 1) [] evs1) (\<lambda>docs.
       case docs of
         [] \<Rightarrow> Err (YamlProblem DocumentEmpty)
       | [d] \<Rightarrow> if d = NNull then Err (YamlProblem DocumentEmpty) else Ok d
       | _ \<Rightarrow> Err (YamlProblem MultipleDocuments))))"

section \<open>Termination\<close>

abbreviation out_of_fuel :: "(config_problem, 'a) result" where
  "out_of_fuel \<equiv> Err (YamlProblem OutOfFuel)"

text \<open>More fuel refines a result: it is the same unless the fuel ran out.\<close>

definition refines :: "(config_problem, 'a) result \<Rightarrow> (config_problem, 'a) result \<Rightarrow> bool" where
  "refines r r' \<longleftrightarrow> r = out_of_fuel \<or> r = r'"

lemma refines_refl [simp]: "refines r r"
  by (simp add: refines_def)

lemma refines_and_then:
  "refines r r' \<Longrightarrow> (\<And>x. r = Ok x \<Longrightarrow> refines (f x) (f' x)) \<Longrightarrow> refines (and_then r f) (and_then r' f')"
  by (cases r) (auto simp: refines_def)

lemma parse_items_refines:
  "(\<And>evs. refines (next evs) (next' evs)) \<Longrightarrow> fuel \<le> fuel' \<Longrightarrow>
     refines (parse_items fuel next acc evs) (parse_items fuel' next' acc evs)"
proof (induction fuel arbitrary: fuel' acc evs)
  case (Suc fuel)
  then obtain g where "fuel' = Suc g" "fuel \<le> g" by (cases fuel') auto
  then show ?case using Suc by (auto split: prod.splits intro!: refines_and_then)
qed (simp add: refines_def)

lemma parse_entries_refines:
  "(\<And>evs. refines (next evs) (next' evs)) \<Longrightarrow> fuel \<le> fuel' \<Longrightarrow>
     refines (parse_entries fuel next sp m evs) (parse_entries fuel' next' sp m evs)"
proof (induction fuel arbitrary: fuel' m evs)
  case (Suc fuel)
  then obtain g where "fuel' = Suc g" "fuel \<le> g" by (cases fuel') auto
  then show ?case using Suc by (auto simp: Let_def split: prod.splits node.splits intro!: refines_and_then)
qed (simp add: refines_def)

lemma parse_node_refines: "fuel \<le> fuel' \<Longrightarrow> refines (parse_node fuel core depth evs) (parse_node fuel' core depth evs)"
proof (induction fuel arbitrary: fuel' depth evs)
  case (Suc fuel)
  then obtain g where g: "fuel' = Suc g" "fuel \<le> g" by (cases fuel') auto
  have "refines (parse_node fuel core (depth + 1) es) (parse_node g core (depth + 1) es)" for es
    by (rule Suc.IH [OF g(2)])
  then show ?case
    using g by (auto split: list.split yaml_event.split prod.split
        intro!: refines_and_then parse_items_refines parse_entries_refines)
qed (simp add: refines_def)

text \<open>Every node consumes at least one event.\<close>

definition consuming :: "node_parser \<Rightarrow> bool" where
  "consuming next \<longleftrightarrow> (\<forall>evs n rest. next evs = Ok (n, rest) \<longrightarrow> length rest < length evs)"

lemma parse_items_consumes:
  "consuming next \<Longrightarrow> parse_items fuel next acc evs = Ok (ns, rest) \<Longrightarrow> length rest \<le> length evs"
proof (induction fuel arbitrary: acc evs)
  case (Suc fuel)
  show ?case
  proof (cases "head_event evs = Some SequenceEnd")
    case False
    then obtain n r where n: "next evs = Ok (n, r)" "parse_items fuel next (acc @ [n]) r = Ok (ns, rest)"
      using Suc.prems by (auto simp: and_then_eq_Ok)
    then show ?thesis using Suc.IH [OF Suc.prems(1) n(2)] Suc.prems(1) by (fastforce simp: consuming_def)
  qed (use Suc.prems in auto)
qed simp

lemma parse_entries_Ok:
  assumes "parse_entries (Suc fuel) next sp m evs = Ok (es, rest)"
  obtains (finish) "head_event evs = Some MappingEnd" "es = m" "rest = tl evs"
  | (entry) k r v r' where "head_event evs \<noteq> Some MappingEnd" "next evs = Ok (NString k, r)" "next r = Ok (v, r')"
      "map_of m k = None" "parse_entries fuel next sp (put k v m) r' = Ok (es, rest)"
proof (cases "head_event evs = Some MappingEnd")
  case False
  then obtain kn r where n: "next evs = Ok (kn, r)" using assms by (auto simp: Let_def and_then_eq_Ok)
  show thesis
  proof (cases kn)
    case (NString k)
    then obtain v r' where v: "next r = Ok (v, r')" using False assms n by (auto simp: Let_def and_then_eq_Ok)
    show thesis by (rule entry [OF False n [unfolded NString] v])
      (use False assms n NString v in \<open>auto simp: Let_def split: if_splits\<close>)
  qed (use False assms n in \<open>auto simp: Let_def\<close>)
qed (use assms finish in auto)

lemma parse_entries_consumes:
  "consuming next \<Longrightarrow> parse_entries fuel next sp m evs = Ok (es, rest) \<Longrightarrow> length rest \<le> length evs"
proof (induction fuel arbitrary: m evs)
  case (Suc fuel)
  from Suc.prems(2) show ?case
  proof (cases rule: parse_entries_Ok)
    case (entry k r v r')
    have "length r' < length r" "length r < length evs" using entry(2,3) Suc.prems(1) by (auto simp: consuming_def)
    then show ?thesis using Suc.IH [OF Suc.prems(1) entry(5)] by simp
  qed simp
qed simp

lemma parse_node_consumes: "consuming (parse_node fuel core depth)"
proof (induction fuel arbitrary: depth)
  case (Suc fuel)
  show ?case
    unfolding consuming_def
  proof (intro allI impI)
    fix evs n rest
    assume *: "parse_node (Suc fuel) core depth evs = Ok (n, rest)"
    then obtain ev sp tail where evs: "evs = (ev, sp) # tail" by (cases evs) (auto split: if_splits)
    have "length rest \<le> length tail"
      using * Suc.IH [of "depth + 1"]
      by (auto simp: evs and_then_eq_Ok split: if_splits yaml_event.splits
          dest: parse_items_consumes parse_entries_consumes)
    then show "length rest < length evs" by (simp add: evs)
  qed
qed (simp add: consuming_def)

definition fuelled :: "nat \<Rightarrow> node_parser \<Rightarrow> bool" where
  "fuelled n next \<longleftrightarrow> (\<forall>evs. length evs < n \<longrightarrow> next evs \<noteq> out_of_fuel)"

lemma parse_items_fuelled:
  assumes "consuming next" and "fuelled n next" and "length evs < n" and "length evs < fuel"
  shows "parse_items fuel next acc evs \<noteq> out_of_fuel"
  using assms
proof (induction fuel arbitrary: acc evs)
  case (Suc fuel)
  have "parse_items fuel next acc' r \<noteq> out_of_fuel" if "next evs = Ok (x, r)" for acc' x r
  proof -
    have "length r < length evs" using that Suc.prems(1) by (auto simp: consuming_def)
    then show ?thesis using Suc by simp
  qed
  then show ?case using Suc.prems by (auto simp: and_then_eq_Err fuelled_def)
qed simp

lemma parse_entries_fuelled:
  assumes "consuming next" and "fuelled n next" and "length evs < n" and "length evs < fuel"
  shows "parse_entries fuel next sp m evs \<noteq> out_of_fuel"
  using assms
proof (induction fuel arbitrary: m evs)
  case (Suc fuel)
  have key: "length r < length evs" if "next evs = Ok (x, r)" for x r
    using that Suc.prems(1) by (auto simp: consuming_def)
  have val: "length r' < length r" if "next r = Ok (x, r')" for x r r'
    using that Suc.prems(1) by (auto simp: consuming_def)
  have "parse_entries fuel next sp m' r' \<noteq> out_of_fuel" if "next evs = Ok (x, r)" "next r = Ok (y, r')" for m' x r y r'
    using Suc.IH [of r' m'] Suc.prems key [OF that(1)] val [OF that(2)] by simp
  moreover have "next r \<noteq> out_of_fuel" if "next evs = Ok (x, r)" for x r
    using key [OF that] Suc.prems(2,3) by (simp add: fuelled_def)
  ultimately show ?case
    using Suc.prems(2,3) by (auto simp: and_then_eq_Err fuelled_def Let_def split: node.splits if_splits)
qed simp

lemma number_fuelled:
  "parse_bool v sp \<noteq> out_of_fuel" "parse_integer v sp \<noteq> out_of_fuel" "parse_float v sp \<noteq> out_of_fuel"
  by (simp_all add: parse_bool_def parse_integer_def parse_float_def Let_def split: option.split prod.split)

lemma scalar_fuelled: "parse_scalar v style t sp \<noteq> out_of_fuel"
  using number_fuelled by (simp add: parse_scalar_def Let_def split: option.split)

lemma parse_node_fuelled: "fuelled fuel (parse_node fuel core depth)"
proof (induction fuel arbitrary: depth)
  case (Suc fuel)
  have seq: "parse_items fuel (parse_node fuel core (depth + 1)) [] rest \<noteq> out_of_fuel"
    and map: "parse_entries fuel (parse_node fuel core (depth + 1)) sp [] rest \<noteq> out_of_fuel" if "length rest < fuel" for rest sp
    using parse_items_fuelled [OF parse_node_consumes Suc.IH that that]
      parse_entries_fuelled [OF parse_node_consumes Suc.IH that that] by blast+
  have meta: "validate_metadata c a t sp \<noteq> out_of_fuel" for c a t sp
    by (auto simp: validate_metadata_def split: option.split)
  show ?case
    unfolding fuelled_def
    using seq map scalar_fuelled meta
    by (auto simp: and_then_eq_Err at_head_def split: list.splits yaml_event.splits)
qed (simp add: fuelled_def)

lemma expect_Ok: "expect ev evs = Ok rest \<Longrightarrow> length evs = Suc (length rest)"
  by (auto simp: expect_def split: list.splits if_splits)

lemma expect_fuelled: "expect ev evs \<noteq> out_of_fuel"
  by (auto simp: expect_def split: list.split)

lemma parse_enough: "length evs < fuel \<Longrightarrow> parse_node fuel core depth evs \<noteq> out_of_fuel"
  using parse_node_fuelled by (simp add: fuelled_def)

lemma parse_fuel_enough: "parse_node (parse_fuel evs) core depth evs \<noteq> out_of_fuel"
  by (rule parse_enough) (simp add: parse_fuel_def)

lemma parse_documents_fuelled: "length evs < fuel \<Longrightarrow> parse_documents core fuel docs evs \<noteq> out_of_fuel"
proof (induction fuel arbitrary: docs evs)
  case (Suc fuel)
  have "parse_documents core fuel docs' evs3 \<noteq> out_of_fuel"
    if "expect DocumentStart evs = Ok evs1" "parse_node (parse_fuel evs1) core 0 evs1 = Ok (n, evs2)"
      "expect DocumentEnd evs2 = Ok evs3" for evs1 n evs2 evs3 docs'
  proof -
    have "length evs2 < length evs1" using parse_node_consumes that(2) unfolding consuming_def by blast
    then show ?thesis using that(1,3) Suc.prems by (intro Suc.IH) (auto dest!: expect_Ok)
  qed
  then show ?case
    using expect_fuelled parse_fuel_enough by (auto simp: and_then_eq_Err)
qed simp

lemma documents_enough: "parse_documents core (Suc (length evs)) docs evs \<noteq> out_of_fuel"
  by (rule parse_documents_fuelled) simp

text \<open>C14: The parser always ends with a document or an error of its own: the fuel that the model
  gives to its loops suffices for every event stream, and more fuel changes nothing.\<close>

theorem yaml_parse_terminates:
  "yaml_parse core scanned \<noteq> Err (YamlProblem OutOfFuel)
   \<and> parse_node (parse_fuel evs + k) core depth evs = parse_node (parse_fuel evs) core depth evs"
proof
  show "yaml_parse core scanned \<noteq> Err (YamlProblem OutOfFuel)"
    using expect_fuelled documents_enough
    by (auto simp: yaml_parse_def and_then_eq_Err map_err_eq_Err simp del: parse_documents.simps
        split: list.splits if_splits)
  show "parse_node (parse_fuel evs + k) core depth evs = parse_node (parse_fuel evs) core depth evs"
    using parse_node_refines [of "parse_fuel evs" "parse_fuel evs + k" core depth evs] parse_fuel_enough
    by (simp add: refines_def)
qed

section \<open>Nesting\<close>

fun height :: "node \<Rightarrow> nat" where
  "height (NSequence ns) = fold max (map (\<lambda>n. Suc (height n)) ns) 0"
| "height (NMapping m) = fold max (map (\<lambda>(k, n). Suc (height n)) m) 0"
| "height _ = 0"

lemma fold_max_le: "fold max xs a \<le> (b :: nat) \<longleftrightarrow> a \<le> b \<and> (\<forall>x \<in> set xs. x \<le> b)"
  by (induction xs arbitrary: a) auto

lemma height_le [simp]:
  "height (NSequence ns) \<le> b \<longleftrightarrow> (\<forall>n \<in> set ns. Suc (height n) \<le> b)"
  "height (NMapping m) \<le> b \<longleftrightarrow> (\<forall>(k, n) \<in> set m. Suc (height n) \<le> b)"
  by (auto simp: fold_max_le)

lemma parse_items_all:
  assumes "parse_items fuel next acc evs = Ok (ns, rest)" and "\<And>es n r. next es = Ok (n, r) \<Longrightarrow> P n"
    and "\<forall>n \<in> set acc. P n"
  shows "\<forall>n \<in> set ns. P n"
  using assms(1,3)
proof (induction fuel arbitrary: acc evs)
  case (Suc fuel)
  show ?case
  proof (cases "head_event evs = Some SequenceEnd")
    case False
    then obtain n r where n: "next evs = Ok (n, r)" "parse_items fuel next (acc @ [n]) r = Ok (ns, rest)"
      using Suc.prems by (auto simp: and_then_eq_Ok)
    then show ?thesis using Suc.IH [OF n(2)] Suc.prems(2) assms(2) [OF n(1)] by simp
  qed (use Suc.prems in auto)
qed simp

lemma parse_entries_all:
  assumes "parse_entries fuel next sp m evs = Ok (es, rest)" and "\<And>es n r. next es = Ok (n, r) \<Longrightarrow> P n"
    and "\<forall>(k, n) \<in> set m. P n"
  shows "\<forall>(k, n) \<in> set es. P n"
  using assms(1,3)
proof (induction fuel arbitrary: m evs)
  case (Suc fuel)
  from Suc.prems(1) show ?case
  proof (cases rule: parse_entries_Ok)
    case (entry k r v r')
    have "\<forall>(k, n) \<in> set (put k v m). P n" using Suc.prems(2) assms(2) [OF entry(3)] by (auto dest!: mem_put)
    then show ?thesis by (rule Suc.IH [OF entry(5)])
  qed (use Suc.prems in simp)
qed simp

lemma parse_entries_ordered:
  "parse_entries fuel next sp m evs = Ok (es, rest) \<Longrightarrow> ordered m \<Longrightarrow> ordered es"
proof (induction fuel arbitrary: m evs)
  case (Suc fuel)
  from Suc.prems(1) show ?case
    by (cases rule: parse_entries_Ok) (use Suc in auto)
qed simp

lemma parse_scalar_height: "parse_scalar v style t sp = Ok n \<Longrightarrow> height n = 0"
  by (auto simp: parse_scalar_def parse_bool_def parse_integer_def parse_float_def Let_def
      split: option.splits prod.splits if_splits)

lemma parse_node_height: "parse_node fuel core depth evs = Ok (n, rest) \<Longrightarrow> depth + height n \<le> MAX_YAML_DEPTH"
proof (induction fuel arbitrary: depth evs n rest)
  case (Suc fuel)
  then have depth: "depth \<le> MAX_YAML_DEPTH" by (auto split: if_splits)
  obtain ev sp tail where evs: "evs = (ev, sp) # tail" using Suc.prems by (cases evs) (auto split: if_splits)
  have below: "Suc (height n) \<le> MAX_YAML_DEPTH - depth" if "parse_node fuel core (depth + 1) es = Ok (n, r)" for es n r
    using Suc.IH [OF that] by simp
  show ?case
  proof (cases ev)
    case (SequenceStart a t)
    then obtain ns where ns: "parse_items fuel (parse_node fuel core (depth + 1)) [] tail = Ok (ns, rest)" "n = NSequence ns"
      using Suc.prems evs depth by (auto simp: and_then_eq_Ok)
    have "\<forall>n \<in> set ns. Suc (height n) \<le> MAX_YAML_DEPTH - depth"
      by (rule parse_items_all [OF ns(1)]) (auto intro: below)
    then have "height n \<le> MAX_YAML_DEPTH - depth" unfolding ns(2) height_le .
    then show ?thesis using depth by simp
  next
    case (MappingStart a t)
    then obtain m where m: "parse_entries fuel (parse_node fuel core (depth + 1)) sp [] tail = Ok (m, rest)" "n = NMapping m"
      using Suc.prems evs depth by (auto simp: and_then_eq_Ok)
    have "\<forall>(k, n) \<in> set m. Suc (height n) \<le> MAX_YAML_DEPTH - depth"
      by (rule parse_entries_all [OF m(1)]) (auto intro: below)
    then have "height n \<le> MAX_YAML_DEPTH - depth" unfolding m(2) height_le .
    then show ?thesis using depth by simp
  qed (use Suc.prems evs depth in \<open>auto simp: and_then_eq_Ok parse_scalar_height\<close>)
qed simp

section \<open>Printing and parsing\<close>

definition integer_text :: "int \<Rightarrow> string" where
  "integer_text i = (if i < 0 then CHR ''-'' # digits (nat (- i)) else digits (nat i))"

definition here :: span where "here = (0, 0)"

text \<open>The events of a document in which strings and keys are quoted.\<close>

fun emit :: "node \<Rightarrow> events" where
  "emit NNull = [(Scalar ''null'' Plain 0 None, here)]"
| "emit (NBool b) = [(Scalar (if b then ''true'' else ''false'') Plain 0 None, here)]"
| "emit (NInt i) = [(Scalar (integer_text i) Plain 0 None, here)]"
| "emit (NFloat x) = []"
| "emit (NString s) = [(Scalar s DoubleQuoted 0 None, here)]"
| "emit (NSequence ns) = (SequenceStart 0 None, here) # concat (map emit ns) @ [(SequenceEnd, here)]"
| "emit (NMapping m) = (MappingStart 0 None, here)
     # concat (map (\<lambda>(k, n). (Scalar k DoubleQuoted 0 None, here) # emit n) m) @ [(MappingEnd, here)]"

fun printable :: "node \<Rightarrow> bool" where
  "printable (NInt i) \<longleftrightarrow> - (2 ^ 63) \<le> i \<and> i < 2 ^ 64"
| "printable (NFloat x) \<longleftrightarrow> False"
| "printable (NSequence ns) \<longleftrightarrow> list_all printable ns"
| "printable (NMapping m) \<longleftrightarrow> ordered m \<and> list_all (\<lambda>(k, n). printable n) m"
| "printable _ \<longleftrightarrow> True"

lemma radix_value_digits:
  assumes "list_all is_ascii_digit s" and "foldl (\<lambda>acc c. 10 * acc + digit_value c) acc s < 2 ^ 64"
  shows "radix_value 10 acc s = Some (foldl (\<lambda>acc c. 10 * acc + digit_value c) acc s)"
  using assms
proof (induction s arbitrary: acc)
  case (Cons c s)
  have grow: "acc' \<le> foldl (\<lambda>acc c. 10 * acc + digit_value c) acc' s" for acc' s
  proof (induction s arbitrary: acc')
    case (Cons a s)
    show ?case using Cons.IH [of "10 * acc' + digit_value a"] by simp
  qed simp
  have c: "radix_digit 10 c = Some (digit_value c)"
    using Cons.prems(1) by (auto simp: radix_digit_def digit_value_def is_ascii_digit_def Let_def)
  have "10 * acc + digit_value c < 2 ^ 64" using grow [of "10 * acc + digit_value c" s] Cons.prems(2) by simp
  then show ?case using Cons c by (simp add: mult.commute)
qed simp

lemma u64_digits: "n < 2 ^ 64 \<Longrightarrow> u64_from_str_radix 10 (digits n) = Some n"
proof -
  assume n: "n < 2 ^ 64"
  obtain c s where d: "digits n = c # s" "is_ascii_digit c"
    using digits_all [of n] by (cases "digits n") (auto simp: digits.simps [of n] split: if_splits)
  then have "c \<noteq> CHR ''+''" by (auto simp: is_ascii_digit_def)
  then show ?thesis
    using radix_value_digits [OF digits_all [of n], of 0] n d from_digits_digits [of n]
    by (simp add: u64_from_str_radix_def from_digits_def)
qed

lemma digits_head: obtains c s where "digits n = c # s" "is_ascii_digit c" "list_all is_ascii_digit s"
  using digits_all [of n] by (cases "digits n") (auto simp: digits.simps [of n] split: if_splits)

lemma lower_digits: "list_all is_ascii_digit s \<Longrightarrow> map to_ascii_lowercase s = s"
  by (induction s) (auto simp: to_ascii_lowercase_def is_ascii_digit_def)

lemma no_underscore_digits: "list_all is_ascii_digit s \<Longrightarrow> without_underscores s = s"
  by (induction s) (auto simp: without_underscores_def is_ascii_digit_def)

lemma no_radix_prefix: "list_all is_ascii_digit s \<Longrightarrow> p \<in> {''0x'', ''0X'', ''0o'', ''0O''} \<Longrightarrow> \<not> starts_with p s"
  by (auto simp: starts_with_iff is_ascii_digit_def)

lemma digits_no_sign:
  "split_sign (digits n) = (False, digits n)" "dropWhile (\<lambda>c. c = CHR ''+'' \<or> c = CHR ''-'') (digits n) = digits n"
proof -
  obtain c s where d: "digits n = c # s" "is_ascii_digit c" by (rule digits_head)
  then have "c \<noteq> CHR ''-''" "c \<noteq> CHR ''+''" by (auto simp: is_ascii_digit_def)
  then show "split_sign (digits n) = (False, digits n)"
    "dropWhile (\<lambda>c. c = CHR ''+'' \<or> c = CHR ''-'') (digits n) = digits n"
    by (simp_all add: d split_sign_def)
qed

lemma integer_text_sign:
  "split_sign (without_underscores (integer_text i)) = (i < 0, digits (nat \<bar>i\<bar>))"
proof -
  have "without_underscores (integer_text i) = integer_text i"
    using no_underscore_digits [OF digits_all] by (simp add: integer_text_def without_underscores_def)
  then show ?thesis using digits_no_sign(1) by (auto simp: integer_text_def split_sign_def abs_if)
qed

lemma parse_integer_text:
  assumes "- (2 ^ 63) \<le> i" and "i < 2 ^ 64"
  shows "parse_integer (integer_text i) sp = Ok (NInt i)"
proof -
  have "u64_from_str_radix 10 (digits (nat \<bar>i\<bar>)) = Some (nat \<bar>i\<bar>)"
    using assms by (intro u64_digits) (auto simp: abs_if)
  then show ?thesis
    using assms no_radix_prefix [OF digits_all [of "nat \<bar>i\<bar>"]]
    by (simp add: parse_integer_def integer_text_sign Let_def abs_if)
qed

lemma looks_like_integer_text: "looks_like_integer (integer_text i)"
proof -
  have "dropWhile (\<lambda>c. c = CHR ''+'' \<or> c = CHR ''-'') (integer_text i) = digits (nat \<bar>i\<bar>)"
    using digits_no_sign(2) by (simp add: integer_text_def)
  moreover have "digits (nat \<bar>i\<bar>) \<noteq> []" by (rule digits_head [of "nat \<bar>i\<bar>"]) simp
  moreover have "list_all (\<lambda>c. is_ascii_digit c \<or> c = CHR ''_'') (digits (nat \<bar>i\<bar>))"
    using digits_all by (simp add: list_all_iff)
  ultimately show ?thesis by (simp add: looks_like_integer_def Let_def)
qed

lemma lower_integer_text: "map to_ascii_lowercase (integer_text i) = integer_text i"
  using lower_digits [OF digits_all] by (simp add: integer_text_def to_ascii_lowercase_def)

lemma integer_text_head: obtains c s where "integer_text i = c # s" "c = CHR ''-'' \<or> is_ascii_digit c"
  by (cases "i < 0") (auto simp: integer_text_def intro: digits_head [of "nat i"])

lemma parse_scalar_integer:
  assumes "- (2 ^ 63) \<le> i" and "i < 2 ^ 64"
  shows "parse_scalar (integer_text i) Plain None sp = Ok (NInt i)"
proof -
  obtain c s where "integer_text i = c # s" "c = CHR ''-'' \<or> is_ascii_digit c" by (rule integer_text_head)
  then have "integer_text i \<notin> {''yes'', ''no'', ''on'', ''off'', [], ''~'', ''null'', ''true'', ''false''}"
    by (auto simp: is_ascii_digit_def)
  then show ?thesis
    using parse_integer_text [OF assms] looks_like_integer_text [of i]
    by (simp add: parse_scalar_def lower_integer_text Let_def)
qed

text \<open>The loops read back what the concatenation of the parts printed.\<close>

definition value_event :: "yaml_event \<Rightarrow> bool" where
  "value_event ev \<longleftrightarrow> (case ev of Scalar _ _ _ _ \<Rightarrow> True | SequenceStart _ _ \<Rightarrow> True | MappingStart _ _ \<Rightarrow> True | _ \<Rightarrow> False)"

lemma emit_head: "printable n \<Longrightarrow> \<exists>ev. head_event (emit n @ rest) = Some ev \<and> value_event ev"
  by (cases n) (auto simp: head_event_def value_event_def)

lemma parse_items_emit:
  assumes "\<And>n r. n \<in> set ns \<Longrightarrow> length (emit n @ r) \<le> lim \<Longrightarrow> next (emit n @ r) = Ok (n, r)"
    and "list_all printable ns" and "length ns < fuel"
    and "length (concat (map emit ns) @ (SequenceEnd, here) # rest) \<le> lim"
  shows "parse_items fuel next acc (concat (map emit ns) @ (SequenceEnd, here) # rest) = Ok (acc @ ns, rest)"
  using assms
proof (induction ns arbitrary: acc fuel)
  case Nil
  then show ?case by (cases fuel) (auto simp: head_event_def)
next
  case (Cons n ns)
  obtain g where g: "fuel = Suc g" "length ns < g" using Cons.prems(3) by (cases fuel) auto
  define tail where "tail = concat (map emit ns) @ (SequenceEnd, here) # rest"
  obtain ev where "head_event (emit n @ tail) = Some ev" "value_event ev"
    using emit_head [of n tail] Cons.prems(2) by auto
  then have "head_event (emit n @ tail) \<noteq> Some SequenceEnd" by (auto simp: value_event_def)
  moreover have "next (emit n @ tail) = Ok (n, tail)"
    using Cons.prems(1) [of n tail] Cons.prems(4) by (simp add: tail_def)
  moreover have "parse_items g next (acc @ [n]) tail = Ok ((acc @ [n]) @ ns, rest)"
    unfolding tail_def using Cons.prems g(2) by (intro Cons.IH) auto
  ultimately show ?case by (simp add: g(1) flip: tail_def)
qed

abbreviation emit_entry :: "string \<times> node \<Rightarrow> events" where
  "emit_entry e \<equiv> (case e of (k, n) \<Rightarrow> (Scalar k DoubleQuoted 0 None, here) # emit n)"

lemma parse_entries_emit:
  assumes "\<And>k n r. (k, n) \<in> set es \<Longrightarrow> length (emit n @ r) \<le> lim \<Longrightarrow> next (emit n @ r) = Ok (n, r)"
    and "\<And>k r. next ((Scalar k DoubleQuoted 0 None, here) # r) = Ok (NString k, r)"
    and "ordered (m @ es)" and "length es < fuel"
    and "length (concat (map emit_entry es) @ (MappingEnd, here) # rest) \<le> lim"
  shows "parse_entries fuel next sp m (concat (map emit_entry es) @ (MappingEnd, here) # rest) = Ok (m @ es, rest)"
  using assms
proof (induction es arbitrary: m fuel)
  case Nil
  then show ?case by (cases fuel) (auto simp: head_event_def)
next
  case (Cons e es)
  obtain k n where e: "e = (k, n)" by (cases e)
  obtain g where g: "fuel = Suc g" "length es < g" using Cons.prems(4) by (cases fuel) auto
  define tail where "tail = concat (map emit_entry es) @ (MappingEnd, here) # rest"
  have above: "\<forall>x \<in> keys m. x < k" using Cons.prems(3) by (induction m) (auto simp: e)
  then have put: "put k n m = m @ [(k, n)]" and absent: "map_of m k = None"
    by (induction m) (auto simp: map_of_None_keys dest: less_not_sym)
  have "next (emit n @ tail) = Ok (n, tail)"
    using Cons.prems(1) [of k n tail] Cons.prems(5) by (simp add: tail_def e)
  moreover have "parse_entries g next sp (m @ [(k, n)]) tail = Ok ((m @ [(k, n)]) @ es, rest)"
    unfolding tail_def using Cons.prems g(2) by (intro Cons.IH) (auto simp: e)
  ultimately show ?case
    using Cons.prems(2) [of k "emit n @ tail"] put absent
    by (simp add: g(1) e head_event_def Let_def flip: tail_def)
qed

lemma ordered_length: "length (es :: (string \<times> node) list) \<le> length (concat (map emit_entry es))"
  by (induction es) (auto split: prod.split)

lemma items_length: "list_all printable ns \<Longrightarrow> length ns \<le> length (concat (map emit ns))"
proof (induction ns)
  case (Cons n ns)
  have "emit n \<noteq> []" using Cons.prems by (cases n) auto
  then have "1 \<le> length (emit n)" by (cases "emit n") auto
  then show ?case using Cons by simp
qed simp

lemma child_depth:
  "depth + height (NSequence ns) \<le> MAX_YAML_DEPTH \<Longrightarrow> n \<in> set ns \<Longrightarrow> Suc depth + height n \<le> MAX_YAML_DEPTH"
  "depth + height (NMapping m) \<le> MAX_YAML_DEPTH \<Longrightarrow> (k, n) \<in> set m \<Longrightarrow> Suc depth + height n \<le> MAX_YAML_DEPTH"
proof -
  assume d: "depth + height (NSequence ns) \<le> MAX_YAML_DEPTH" "n \<in> set ns"
  then have "height (NSequence ns) \<le> MAX_YAML_DEPTH - depth" by simp
  then show "Suc depth + height n \<le> MAX_YAML_DEPTH" using d unfolding height_le by fastforce
next
  assume d: "depth + height (NMapping m) \<le> MAX_YAML_DEPTH" "(k, n) \<in> set m"
  then have "height (NMapping m) \<le> MAX_YAML_DEPTH - depth" by simp
  then show "Suc depth + height n \<le> MAX_YAML_DEPTH" using d unfolding height_le by fastforce
qed

lemma parse_sequence_emit:
  assumes "\<And>n r. n \<in> set ns \<Longrightarrow> length (emit n @ r) < g \<Longrightarrow> parse_node g core (depth + 1) (emit n @ r) = Ok (n, r)"
    and "list_all printable ns" and "length (concat (map emit ns) @ (SequenceEnd, here) # rest) < g" and "depth \<le> MAX_YAML_DEPTH"
  shows "parse_node (Suc g) core depth (emit (NSequence ns) @ rest) = Ok (NSequence ns, rest)"
proof -
  have "parse_items g (parse_node g core (depth + 1)) [] (concat (map emit ns) @ (SequenceEnd, here) # rest) = Ok ([] @ ns, rest)"
    using assms(1-3) items_length [of ns] by (intro parse_items_emit [where lim = "g - 1"]) auto
  then show ?thesis using assms(4) by (simp add: validate_metadata_def)
qed

lemma parse_mapping_emit:
  assumes "\<And>k n r. (k, n) \<in> set m \<Longrightarrow> length (emit n @ r) < g \<Longrightarrow> parse_node g core (depth + 1) (emit n @ r) = Ok (n, r)"
    and "ordered m" and "length (concat (map emit_entry m) @ (MappingEnd, here) # rest) < g"
    and "depth + (if m = [] then 0 else 1) \<le> MAX_YAML_DEPTH"
  shows "parse_node (Suc g) core depth (emit (NMapping m) @ rest) = Ok (NMapping m, rest)"
proof -
  have key: "parse_node g core (depth + 1) ((Scalar k DoubleQuoted 0 None, here) # r) = Ok (NString k, r)" if "m \<noteq> []" for k r
    using that assms(3,4) by (cases g) (simp_all add: validate_metadata_def parse_scalar_def Let_def)
  have "parse_entries g (parse_node g core (depth + 1)) here [] (concat (map emit_entry m) @ (MappingEnd, here) # rest) = Ok ([] @ m, rest)"
  proof (cases "m = []")
    case True
    then show ?thesis using assms(3) by (cases g) (simp_all add: head_event_def)
  next
    case False
    then show ?thesis
      using assms(1-3) ordered_length [of m] key by (intro parse_entries_emit [where lim = "g - 1"]) fastforce+
  qed
  then show ?thesis using assms(4) by (simp add: validate_metadata_def split: if_splits)
qed

lemma parse_node_emit:
  "length (emit n @ rest) < fuel \<Longrightarrow> printable n \<Longrightarrow> depth + height n \<le> MAX_YAML_DEPTH
     \<Longrightarrow> parse_node fuel core depth (emit n @ rest) = Ok (n, rest)"
proof (induction n arbitrary: fuel depth rest)
  case (NInt i)
  then show ?case by (cases fuel) (auto simp: validate_metadata_def parse_scalar_integer)
next
  case (NSequence ns)
  then obtain g where g: "fuel = Suc g" by (cases fuel) auto
  show ?case unfolding g
  proof (rule parse_sequence_emit)
    show "parse_node g core (depth + 1) (emit n @ r) = Ok (n, r)" if "n \<in> set ns" "length (emit n @ r) < g" for n r
      using NSequence.IH [OF that] NSequence.prems(2) child_depth(1) [OF NSequence.prems(3) that(1)] that(1) by (simp add: list_all_iff)
  qed (use NSequence.prems g in auto)
next
  case (NMapping m)
  then obtain g where g: "fuel = Suc g" by (cases fuel) auto
  note deep = child_depth(2) [OF NMapping.prems(3)]
  show ?case unfolding g
  proof (rule parse_mapping_emit)
    show "parse_node g core (depth + 1) (emit n @ r) = Ok (n, r)" if "(k, n) \<in> set m" "length (emit n @ r) < g" for k n r
      using NMapping.IH [OF that(1) _ that(2)] NMapping.prems(2) deep [OF that(1)] that(1) by (fastforce simp: list_all_iff)
    show "depth + (if m = [] then 0 else 1) \<le> MAX_YAML_DEPTH"
      using NMapping.prems(3) deep [of "fst (hd m)" "snd (hd m)"] by (cases m) auto
  qed (use NMapping.prems g in auto)
qed (case_tac fuel; simp add: validate_metadata_def parse_scalar_def parse_bool_def to_ascii_lowercase_def Let_def)+

text \<open>C13: Every document tree without floats whose integers fit and whose nesting is at most 64 is
  read back from its printed events, at any position of a longer stream; and no document
  that the parser accepts is nested deeper.\<close>

theorem yaml_roundtrip:
  assumes "printable n" and "depth + height n \<le> MAX_YAML_DEPTH"
  shows "parse_node (parse_fuel (emit n @ rest) + k) core depth (emit n @ rest) = Ok (n, rest)
    \<and> (case parse_node fuel core 0 evs of Ok (accepted, _) \<Rightarrow> height accepted \<le> MAX_YAML_DEPTH | Err _ \<Rightarrow> True)"
proof -
  have "parse_node (parse_fuel (emit n @ rest) + k) core depth (emit n @ rest) = Ok (n, rest)"
    by (rule parse_node_emit [OF _ assms]) (simp add: parse_fuel_def)
  then show ?thesis using parse_node_height [of fuel core 0 evs] by (auto split: sum.split)
qed

theorem yaml_roundtrip_witness:
  "parse_node (parse_fuel (emit (NMapping [(''a'', NInt (-5)), (''b'', NSequence [NString ''x'', NNull])]) @ [])) (\<lambda>_. True) 0
     (emit (NMapping [(''a'', NInt (-5)), (''b'', NSequence [NString ''x'', NNull])]) @ [])
   = Ok (NMapping [(''a'', NInt (-5)), (''b'', NSequence [NString ''x'', NNull])], [])"
proof -
  define n where "n = NMapping [(''a'', NInt (-5)), (''b'', NSequence [NString ''x'', NNull])]"
  have "printable n" by (simp add: n_def)
  moreover have "0 + height n \<le> MAX_YAML_DEPTH" by (simp add: n_def MAX_YAML_DEPTH_def)
  ultimately show ?thesis using yaml_roundtrip [of n 0 "[]" 0] unfolding n_def by simp
qed

end
