(* ===== verification/Daemon.thy ===== *)
theory Daemon
  imports Device_Group
begin

text \<open>
  The lifecycle of the process, \<open>crates/oikade-runtime/src/daemon.rs\<close>, and the built-in integration
  \<open>crates/oikade-runtime/src/virtual_integration.rs\<close>. A component is its pair of asynchronous
  operations on the state of the process; the calls that the daemon makes are recorded, so
  that their order can be stated.
\<close>

section \<open>The daemon\<close>

record 's component =
  comp_name :: string
  comp_start :: "'s \<Rightarrow> 's \<times> (string, unit) result"
  comp_stop :: "'s \<Rightarrow> 's \<times> (string, unit) result"

datatype daemon_error =
    StartFailed string string
  | StopFailed string string
  | RollbackFailed daemon_error daemon_error

datatype call = CallStart string | CallStop string

text \<open>The loop of \<open>stop_reverse\<close>, on the components already reversed.\<close>

fun stop_each :: "'s component list \<Rightarrow> daemon_error option \<Rightarrow> 's \<Rightarrow> 's \<times> call list \<times> daemon_error option" where
  "stop_each [] first s = (s, [], first)"
| "stop_each (c # cs) first s =
     (case comp_stop c s of (s', r) \<Rightarrow>
        let first' = (case r of
              Err m \<Rightarrow> if Option.is_none first then Some (StopFailed (comp_name c) m) else first
            | Ok _ \<Rightarrow> first)
        in case stop_each cs first' s' of (s'', calls, e) \<Rightarrow> (s'', CallStop (comp_name c) # calls, e))"

definition stop_reverse :: "'s component list \<Rightarrow> 's \<Rightarrow> 's \<times> call list \<times> (daemon_error, unit) result" where
  "stop_reverse started s =
     (case stop_each (rev started) None s of
        (s', calls, None) \<Rightarrow> (s', calls, Ok ())
      | (s', calls, Some e) \<Rightarrow> (s', calls, Err e))"

text \<open>
  The start loop of \<open>run_until\<close>. \<open>Ok\<close> gives the started components; on a failure the
  rollback has been done and the error is what \<open>run_until\<close> returns.
\<close>

fun start_each :: "'s component list \<Rightarrow> 's component list \<Rightarrow> 's \<Rightarrow> 's \<times> call list \<times> (daemon_error, 's component list) result" where
  "start_each started [] s = (s, [], Ok started)"
| "start_each started (c # cs) s =
     (case comp_start c s of
        (s', Err m) \<Rightarrow>
          (let original = StartFailed (comp_name c) m
           in case stop_reverse started s' of
                (s'', calls, Err e) \<Rightarrow> (s'', CallStart (comp_name c) # calls, Err (RollbackFailed original e))
              | (s'', calls, Ok _) \<Rightarrow> (s'', CallStart (comp_name c) # calls, Err original))
      | (s', Ok _) \<Rightarrow>
          (case start_each (started @ [c]) cs s' of (s'', calls, r) \<Rightarrow> (s'', CallStart (comp_name c) # calls, r)))"

text \<open>\<open>run_until\<close>; what happens until the shutdown signal is a transformation of the state.\<close>

definition run_until :: "'s component list \<Rightarrow> ('s \<Rightarrow> 's) \<Rightarrow> 's \<Rightarrow> 's \<times> call list \<times> (daemon_error, unit) result" where
  "run_until cs until_shutdown s =
     (case start_each [] cs s of
        (s', calls, Err e) \<Rightarrow> (s', calls, Err e)
      | (s', calls, Ok started) \<Rightarrow>
          (case stop_reverse started (until_shutdown s') of (s'', calls', r) \<Rightarrow> (s'', calls @ calls', r)))"

text \<open>The runtime as a component.\<close>

definition core_component :: "(runtime_error \<Rightarrow> string) \<Rightarrow> 'w host component" where
  "core_component show_error =
     \<lparr>comp_name = ''core'',
      comp_start = (\<lambda>s. case start (fst s) of (rt, r) \<Rightarrow> ((rt, snd s), map_err show_error r)),
      comp_stop = (\<lambda>s. ((stop (fst s), snd s), Ok ()))\<rparr>"

section \<open>The virtual integration\<close>

record virtual_switch =
  vs_id :: string
  vs_name :: string
  vs_initial_on :: bool

datatype virtual_error = InvalidSwitch string model_error | VirtualRuntime runtime_error

definition switch_device :: "virtual_switch \<Rightarrow> (virtual_error, device) result" where
  "switch_device c =
     (let invalid = InvalidSwitch (vs_id c) in
      and_then (map_err invalid (device_id_new (''builtin.virtual.'' @ vs_id c))) (\<lambda>i.
      and_then (map_err invalid (capability_id_new ''on'')) (\<lambda>cid.
      and_then (map_err invalid (capability_type_new CAPABILITY_SWITCH_ON)) (\<lambda>ct.
        Ok \<lparr>dev_id = i, dev_name = vs_name c, dev_manufacturer = ''Oikade'', dev_model = ''Virtual Switch'',
            dev_capabilities =
              [\<lparr>cap_id = cid, cap_type = ct, cap_name = ''On'', cap_kind = KBool,
                cap_permissions = \<lparr>perm_read = True, perm_write = True, perm_observe = True\<rparr>,
                cap_initial = VBool (vs_initial_on c)\<rparr>]\<rparr>))))"

definition virtual_new :: "virtual_switch list \<Rightarrow> (virtual_error, device list) result" where
  "virtual_new switches =
     collect (\<lambda>c. and_then (switch_device c) (\<lambda>d.
                  and_then (map_err (InvalidSwitch (vs_id c)) (device_validate d)) (\<lambda>_. Ok d))) switches"

definition virtual_handler :: "'w handler" where
  "virtual_handler cmd w = (w, Ok (cmd_value cmd))"

definition virtual_start :: "device list \<Rightarrow> 'w host \<Rightarrow> 'w host \<times> (runtime_error, unit) result" where
  "virtual_start ds s =
     (case register_all (Some virtual_handler) ds s of
        (s', Err (_, e)) \<Rightarrow> (s', Err e)
      | (s', Ok _) \<Rightarrow> (s', Ok ()))"

definition ignored_on_stop :: "runtime_error \<Rightarrow> bool" where
  "ignored_on_stop e = (case e of NotFound _ \<Rightarrow> True | Stopped \<Rightarrow> True | _ \<Rightarrow> False)"

fun virtual_stop_each :: "device list \<Rightarrow> runtime_error option \<Rightarrow> 'w runtime \<Rightarrow> 'w runtime \<times> runtime_error option" where
  "virtual_stop_each [] first rt = (rt, first)"
| "virtual_stop_each (d # ds) first rt =
     (case unregister (dev_id d) rt of
        (rt', Err e) \<Rightarrow>
          virtual_stop_each ds (if \<not> ignored_on_stop e \<and> Option.is_none first then Some e else first) rt'
      | (rt', Ok _) \<Rightarrow> virtual_stop_each ds first rt')"

definition virtual_stop :: "device list \<Rightarrow> 'w host \<Rightarrow> 'w host \<times> (runtime_error, unit) result" where
  "virtual_stop ds s =
     (case virtual_stop_each (rev ds) None (fst s) of
        (rt, None) \<Rightarrow> ((rt, snd s), Ok ())
      | (rt, Some e) \<Rightarrow> ((rt, snd s), Err e))"

definition virtual_component :: "(runtime_error \<Rightarrow> string) \<Rightarrow> device list \<Rightarrow> 'w host component" where
  "virtual_component show_error ds =
     \<lparr>comp_name = ''builtin.virtual'',
      comp_start = (\<lambda>s. case virtual_start ds s of (s', r) \<Rightarrow> (s', map_err show_error r)),
      comp_stop = (\<lambda>s. case virtual_stop ds s of (s', r) \<Rightarrow> (s', map_err show_error r))\<rparr>"

section \<open>The order of the calls\<close>

abbreviation starts :: "'s component list \<Rightarrow> call list" where
  "starts cs \<equiv> map (CallStart \<circ> comp_name) cs"

abbreviation stops :: "'s component list \<Rightarrow> call list" where
  "stops cs \<equiv> map (CallStop \<circ> comp_name) (rev cs)"

lemma stop_each_calls: "fst (snd (stop_each cs first s)) = map (CallStop \<circ> comp_name) cs"
proof (induction cs arbitrary: first s)
  case (Cons c cs)
  then show ?case by (simp add: Let_def split: prod.split) (metis fst_conv snd_conv)
qed simp

lemma stop_reverse_calls: "fst (snd (stop_reverse cs s)) = stops cs"
  using stop_each_calls [of "rev cs" None s] by (auto simp: stop_reverse_def rev_map split: prod.splits option.splits)

lemma start_each_calls:
  assumes "start_each started cs s = (s', calls, r)"
  shows "case r of
      Ok all \<Rightarrow> all = started @ cs \<and> calls = starts cs
    | Err _ \<Rightarrow> \<exists>k < length cs. calls = starts (take (Suc k) cs) @ stops (started @ take k cs)"
  using assms
proof (induction cs arbitrary: started s s' calls r)
  case (Cons c cs)
  obtain s1 r1 where st: "comp_start c s = (s1, r1)" by fastforce
  show ?case
  proof (cases r1)
    case (Inl m)
    obtain s2 calls2 r2 where sr: "stop_reverse started s1 = (s2, calls2, r2)" by (metis prod_cases3)
    have "calls2 = stops started" using stop_reverse_calls [of started s1] by (simp add: sr)
    then show ?thesis using Cons.prems Inl st sr by (cases r2) (auto intro!: exI [of _ 0])
  next
    case (Inr u)
    obtain s2 calls2 r2 where rec: "start_each (started @ [c]) cs s1 = (s2, calls2, r2)" by (metis prod_cases3)
    have r: "r = r2" "calls = CallStart (comp_name c) # calls2" using Cons.prems Inr st rec by auto
    show ?thesis
    proof (cases r2)
      case (Inl e)
      then obtain k where "k < length cs" "calls2 = starts (take (Suc k) cs) @ stops ((started @ [c]) @ take k cs)"
        using Cons.IH [OF rec] by auto
      then show ?thesis using r Inl by (auto intro!: exI [of _ "Suc k"])
    next
      case (Inr all)
      then show ?thesis using r Cons.IH [OF rec] by simp
    qed
  qed
qed auto


section \<open>The virtual switches\<close>

lemma virtual_stop_each_spec:
  assumes "rt_started rt" and "first = None"
  shows "snd (virtual_stop_each ds first rt) = None
    \<and> fst (virtual_stop_each ds first rt) = unregister_all (map dev_id ds) rt"
  using assms
proof (induction ds arbitrary: rt)
  case (Cons d ds)
  obtain rt' r where u: "unregister (dev_id d) rt = (rt', r)" by fastforce
  have started: "rt_started rt'" using unregister_fields(1) [of "dev_id d" rt] Cons.prems(1) by (simp add: u)
  have "r = Err e \<Longrightarrow> ignored_on_stop e" for e
    using u Cons.prems(1) by (auto simp: unregister_def lookup_device_def ensure_started_def ignored_on_stop_def
        device_not_found_def and_then_eq_Err split: sum.splits if_splits)
  then show ?case
    using Cons.IH [OF started Cons.prems(2)] Cons.prems(2) by (cases r) (auto simp: u unregister_all_def)
qed (simp add: unregister_all_def)

lemma virtual_stop_spec:
  assumes "rt_started (fst s)"
  shows "virtual_stop ds s = ((unregister_all (map dev_id (rev ds)) (fst s), snd s), Ok ())"
  using virtual_stop_each_spec [OF assms refl, of "rev ds"]
  by (auto simp: virtual_stop_def rev_map split: prod.splits option.splits)

text \<open>Starting the virtual integration registers every configured switch or none, and stopping
  it leaves the devices of the runtime as they were before.\<close>

theorem virtual_lifecycle:
  assumes "rt_ok (fst s)" and "virtual_start ds s = (s1, r)"
  shows "case r of
      Err _ \<Rightarrow> rt_devices (fst s1) = rt_devices (fst s)
    | Ok _ \<Rightarrow> list_all (registered_as (fst s1)) ds
        \<and> snd (virtual_stop ds s1) = Ok () \<and> rt_devices (fst (fst (virtual_stop ds s1))) = rt_devices (fst s)"
proof (cases "register_all (Some virtual_handler) ds s")
  case (Pair t q)
  show ?thesis
  proof (cases q)
    case (Inl e)
    then show ?thesis
      using assms(2) Pair register_all_refused(2) [OF assms(1), of "Some virtual_handler" ds t e]
      by (cases e) (auto simp: virtual_start_def)
  next
    case (Inr ds')
    then have r: "r = Ok ()" "s1 = t" using assms(2) Pair by (simp_all add: virtual_start_def)
    note eff = register_all_done [OF assms(1) Pair [unfolded Inr]]
    have ok1: "rt_ok (fst t)" using register_all_ok [OF assms(1), of "Some virtual_handler" ds] Pair by simp
    show ?thesis
    proof (cases "ds = []")
      case True
      then show ?thesis
        using Pair Inr r by (simp add: register_all_def virtual_stop_def)
    next
      case False
      have started: "rt_started (fst t)"
        using eff(7) [of "hd ds"] False rt_okD(6) [OF ok1] by (cases "rt_started (fst t)") (auto simp: registered_as_def)
      have "rt_devices (unregister_all (map dev_id (rev ds)) (fst t)) = rt_devices (fst s)"
      proof (rule bt.get_ext)
        show "ordered (rt_devices (unregister_all (map dev_id (rev ds)) (fst t)))"
          by (rule rt_okD(1) [OF rt_ok_unregister_all [OF ok1]])
        show "ordered (rt_devices (fst s))" by (rule rt_okD(1) [OF assms(1)])
        have "map_of (rt_devices (fst s)) k = None" if "k \<in> dev_id ` set ds" for k
          using eff(5) that by (auto simp: map_of_None_keys)
        then show "map_of (rt_devices (unregister_all (map dev_id (rev ds)) (fst t))) k = map_of (rt_devices (fst s)) k" for k
          using eff(6) [of k] by (auto simp: unregister_all_devices [OF started])
      qed
      then show ?thesis using r eff(7) by (simp add: virtual_stop_spec [OF started] list_all_iff)
    qed
  qed
qed

definition sample_switches :: "device list" where
  "sample_switches =
     (case virtual_new [\<lparr>vs_id = ''desk'', vs_name = ''Desk switch'', vs_initial_on = True\<rparr>,
                        \<lparr>vs_id = ''hall'', vs_name = ''Hall switch'', vs_initial_on = False\<rparr>] of
        Ok ds \<Rightarrow> ds | Err _ \<Rightarrow> [])"

definition started_host :: "unit host" where
  "started_host = (fst (start (runtime_new None)), ())"

theorem virtual_lifecycle_witness:
  "map dev_id sample_switches = [''builtin.virtual.desk'', ''builtin.virtual.hall'']
   \<and> snd (virtual_stop sample_switches (fst (virtual_start sample_switches started_host))) = Ok ()
   \<and> rt_devices (fst (fst (virtual_stop sample_switches (fst (virtual_start sample_switches started_host))))) = []"
proof -
  obtain s1 r where run: "virtual_start sample_switches started_host = (s1, r)" by (metis prod.exhaust)
  have ok: "rt_ok (fst started_host)" by (simp add: started_host_def rt_ok_start rt_ok_new)
  have "is_ok (snd (virtual_start sample_switches started_host))" by code_simp
  then have "is_ok r" by (simp only: run snd_conv)
  moreover have "map dev_id sample_switches = [''builtin.virtual.desk'', ''builtin.virtual.hall'']" by code_simp
  moreover have "rt_devices (fst started_host) = []" by (simp add: started_host_def start_def runtime_new_def)
  ultimately show ?thesis using virtual_lifecycle [OF ok run] by (cases r) (simp_all add: run)
qed

end
