(* ===== verification/Config.thy ===== *)
theory Config
  imports Yaml Core_Model Daemon
begin

text \<open>
  The configuration file, \<open>crates/oikade-config/src/lib.rs\<close>. The structures that \<open>serde\<close> derives
  its decoder for are records; the derived decoder from a JSON value is a parameter. A path
  is the string it is written as.
\<close>

section \<open>Paths\<close>

text \<open>
  \<open>std::path\<close> on Unix: \<open>is_absolute\<close>, \<open>components\<close>, \<open>parent\<close>, \<open>join\<close> and \<open>starts_with\<close>. Repeated
  separators and interior dots are not components, and a path is known up to them.
\<close>

definition is_absolute :: "string \<Rightarrow> bool" where
  "is_absolute p \<longleftrightarrow> (case p of c # _ \<Rightarrow> c = CHR ''/'' | [] \<Rightarrow> False)"

fun split_slash :: "string \<Rightarrow> string \<Rightarrow> string list" where
  "split_slash acc [] = [acc]"
| "split_slash acc (c # cs) = (if c = CHR ''/'' then acc # split_slash [] cs else split_slash (acc @ [c]) cs)"

datatype path_component = RootDir | CurDir | ParentDir | Normal string

definition path_components :: "string \<Rightarrow> path_component list" where
  "path_components p =
     (let parts = split_slash [] p;
          kind = (\<lambda>s. if s = ''..'' then ParentDir else Normal s);
          named = map kind (filter (\<lambda>s. s \<noteq> [] \<and> s \<noteq> ''.'') parts)
      in if is_absolute p then RootDir # named
         else if hd parts = ''.'' then CurDir # named else named)"

fun component_text :: "path_component \<Rightarrow> string" where
  "component_text RootDir = []"
| "component_text CurDir = ''.''"
| "component_text ParentDir = ''..''"
| "component_text (Normal s) = s"

fun join_slash :: "string list \<Rightarrow> string" where
  "join_slash [] = []"
| "join_slash [s] = s"
| "join_slash (s # ss) = s @ ''/'' @ join_slash ss"

definition path_text :: "path_component list \<Rightarrow> string" where
  "path_text cs = (if cs = [RootDir] then ''/'' else join_slash (map component_text cs))"

definition path_parent :: "string \<Rightarrow> string option" where
  "path_parent p =
     (let cs = path_components p
      in if cs = [] \<or> cs = [RootDir] then None else Some (path_text (butlast cs)))"

definition path_join :: "string \<Rightarrow> string \<Rightarrow> string" where
  "path_join base p =
     (if is_absolute p \<or> base = [] then p
      else if last base = CHR ''/'' then base @ p
      else base @ ''/'' @ p)"

definition path_starts_with :: "string \<Rightarrow> string \<Rightarrow> bool" where
  "path_starts_with p base \<longleftrightarrow> starts_with (path_components base) (path_components p)"

section \<open>The configuration\<close>

definition CURRENT_VERSION :: nat where "CURRENT_VERSION = 1"
definition MAX_CONFIG_SIZE :: nat where "MAX_CONFIG_SIZE = 1048576"

record runtime_config =
  rc_log_level :: string
  rc_state_dir :: string
  rc_admin_socket :: string

record plugin_config =
  pc_id :: string
  pc_artifact :: string
  pc_config :: "(string, json) btree"

record matter_config =
  mc_enabled :: bool
  mc_executable :: string
  mc_log_level :: string
  mc_setup_passcode :: string
  mc_discriminator :: "nat option"

record config =
  cf_version :: nat
  cf_runtime :: runtime_config
  cf_switches :: "virtual_switch list"
  cf_plugins :: "plugin_config list"
  cf_matter :: matter_config

definition default_config :: config where
  "default_config =
     \<lparr>cf_version = CURRENT_VERSION,
      cf_runtime = \<lparr>rc_log_level = ''info'', rc_state_dir = [], rc_admin_socket = []\<rparr>,
      cf_switches = [], cf_plugins = [],
      cf_matter = \<lparr>mc_enabled = False, mc_executable = [], mc_log_level = ''info'',
                   mc_setup_passcode = [], mc_discriminator = None\<rparr>\<rparr>"

datatype config_error =
    ConfigIo string
  | ConfigYaml config_problem
  | ConfigTooLarge
  | ConfigEmpty
  | ConfigNotUtf8
  | PasscodeNotString
  | ConfigDecode string
  | VersionUnsupported nat
  | LogLevelInvalid string
  | PathPadded string
  | SwitchIdInvalid nat model_error
  | SwitchNameInvalid nat
  | SwitchDuplicate nat string
  | PluginIdInvalid nat model_error
  | PluginArtifactEmpty nat
  | PluginDuplicate nat string
  | PasscodeRequired
  | DiscriminatorRequired
  | DiscriminatorRange
  | PasscodeDigits
  | PasscodeRange
  | PasscodeProhibited

definition normalized_log_level :: "string \<Rightarrow> string \<Rightarrow> string list \<Rightarrow> (config_error, string) result" where
  "normalized_log_level v path accepted =
     (let w = map to_ascii_lowercase (trim v)
      in if w \<in> set accepted then Ok w else Err (LogLevelInvalid path))"

definition validate_unpadded_path :: "string \<Rightarrow> string \<Rightarrow> (config_error, unit) result" where
  "validate_unpadded_path path name = reject (path \<noteq> trim path) (PathPadded name)"

definition prohibited_passcodes :: "nat list" where
  "prohibited_passcodes =
     [11111111, 22222222, 33333333, 44444444, 55555555, 66666666, 77777777, 88888888, 12345678, 87654321]"

definition validate_commissioning :: "string \<Rightarrow> nat \<Rightarrow> (config_error, unit) result" where
  "validate_commissioning passcode discriminator =
     (if length passcode \<noteq> 8 \<or> \<not> list_all is_ascii_digit passcode then Err PasscodeDigits
      else let v = from_digits passcode in
        if v = 0 \<or> v > 99999998 then Err PasscodeRange
        else if v \<in> set prohibited_passcodes then Err PasscodeProhibited
        else reject (discriminator > 4095) DiscriminatorRange)"

fun validate_switches :: "nat \<Rightarrow> string set \<Rightarrow> virtual_switch list \<Rightarrow> (config_error, unit) result" where
  "validate_switches i seen [] = Ok ()"
| "validate_switches i seen (s # ss) =
     and_then (map_err (SwitchIdInvalid i) (validate_identifier (vs_id s))) (\<lambda>_.
       if trim (vs_name s) = [] \<or> vs_name s \<noteq> trim (vs_name s) then Err (SwitchNameInvalid i)
       else if vs_id s \<in> seen then Err (SwitchDuplicate i (vs_id s))
       else validate_switches (Suc i) (insert (vs_id s) seen) ss)"

fun validate_plugins :: "nat \<Rightarrow> string set \<Rightarrow> plugin_config list \<Rightarrow> (config_error, unit) result" where
  "validate_plugins i seen [] = Ok ()"
| "validate_plugins i seen (p # ps) =
     and_then (map_err (PluginIdInvalid i) (validate_identifier (pc_id p))) (\<lambda>_.
       if pc_artifact p = [] then Err (PluginArtifactEmpty i)
       else and_then (validate_unpadded_path (pc_artifact p) ''plugins.artifact'') (\<lambda>_.
         if pc_id p \<in> seen then Err (PluginDuplicate i (pc_id p))
         else validate_plugins (Suc i) (insert (pc_id p) seen) ps))"

definition runtime_levels :: "string list" where
  "runtime_levels = [''debug'', ''info'', ''warn'', ''error'']"

definition matter_levels :: "string list" where
  "matter_levels = [''none'', ''error'', ''info'', ''debug'']"

definition validate_matter :: "matter_config \<Rightarrow> (config_error, matter_config) result" where
  "validate_matter m =
     and_then (validate_unpadded_path (mc_executable m) ''adapters.matter.executable'') (\<lambda>_.
     and_then (normalized_log_level (mc_log_level m) ''adapters.matter.log_level'' matter_levels) (\<lambda>level.
       if mc_enabled m \<and> mc_setup_passcode m = [] then Err PasscodeRequired
       else if mc_enabled m \<and> mc_discriminator m = None then Err DiscriminatorRequired
       else and_then
         (if mc_setup_passcode m \<noteq> []
          then validate_commissioning (mc_setup_passcode m) (case mc_discriminator m of None \<Rightarrow> 0 | Some d \<Rightarrow> d)
          else reject (case mc_discriminator m of None \<Rightarrow> False | Some d \<Rightarrow> d > 4095) DiscriminatorRange) (\<lambda>_.
         Ok (m\<lparr>mc_log_level := level\<rparr>))))"

definition config_validate :: "config \<Rightarrow> (config_error, config) result" where
  "config_validate c =
     and_then (reject (cf_version c \<noteq> CURRENT_VERSION) (VersionUnsupported (cf_version c))) (\<lambda>_.
     and_then (normalized_log_level (rc_log_level (cf_runtime c)) ''runtime.log_level'' runtime_levels) (\<lambda>level.
     and_then (validate_unpadded_path (rc_state_dir (cf_runtime c)) ''runtime.state_dir'') (\<lambda>_.
     and_then (validate_unpadded_path (rc_admin_socket (cf_runtime c)) ''runtime.admin_socket'') (\<lambda>_.
     and_then (validate_switches 0 {} (cf_switches c)) (\<lambda>_.
     and_then (validate_plugins 0 {} (cf_plugins c)) (\<lambda>_.
     and_then (validate_matter (cf_matter c)) (\<lambda>m.
       Ok (c\<lparr>cf_runtime := (cf_runtime c)\<lparr>rc_log_level := level\<rparr>, cf_matter := m\<rparr>))))))))"

section \<open>Parsing and loading\<close>

fun pointer :: "string list \<Rightarrow> json \<Rightarrow> json option" where
  "pointer [] j = Some j"
| "pointer (k # ks) (JObject fs) = (case map_of fs k of None \<Rightarrow> None | Some j \<Rightarrow> pointer ks j)"
| "pointer (k # ks) _ = None"

record config_lib =
  cl_scan :: "string \<Rightarrow> (string, events) result"
  cl_core_tag :: "tag \<Rightarrow> bool"
  cl_decode :: "json \<Rightarrow> (string, config) result"

definition parse_yaml_document :: "config_lib \<Rightarrow> string \<Rightarrow> (config_error, json) result" where
  "parse_yaml_document cl input =
     (if length input > MAX_CONFIG_SIZE then Err ConfigTooLarge
      else if input = [] then Err ConfigEmpty
      else if \<not> utf8_valid input then Err ConfigNotUtf8
      else and_then (map_err ConfigYaml (yaml_parse (cl_core_tag cl) (cl_scan cl input))) (\<lambda>n. Ok (into_json n)))"

definition config_parse :: "config_lib \<Rightarrow> string \<Rightarrow> (config_error, config) result" where
  "config_parse cl input =
     and_then (parse_yaml_document cl input) (\<lambda>doc.
       if (case pointer [''adapters'', ''matter'', ''commissioning'', ''setup_passcode''] doc of
             None \<Rightarrow> False | Some (JString _) \<Rightarrow> False | Some _ \<Rightarrow> True)
       then Err PasscodeNotString
       else and_then (map_err ConfigDecode (cl_decode cl doc)) config_validate)"

definition config_load :: "config_lib \<Rightarrow> (string \<Rightarrow> (string, string) result) \<Rightarrow> string \<Rightarrow> (config_error, config) result" where
  "config_load cl read_file path =
     and_then (map_err ConfigIo (read_file path)) (\<lambda>encoded.
     and_then (config_parse cl encoded) (\<lambda>c.
       let base = (case path_parent path of None \<Rightarrow> ''.'' | Some b \<Rightarrow> b);
           plugins = map (\<lambda>p. if is_absolute (pc_artifact p) then p
                              else p\<lparr>pc_artifact := path_join base (pc_artifact p)\<rparr>) (cf_plugins c);
           exe = mc_executable (cf_matter c);
           matter = (if \<not> is_absolute exe \<and> exe \<noteq> [] then (cf_matter c)\<lparr>mc_executable := path_join base exe\<rparr>
                     else cf_matter c)
       in Ok (c\<lparr>cf_plugins := plugins, cf_matter := matter\<rparr>)))"

section \<open>What validation guarantees\<close>

definition matter_ok :: "matter_config \<Rightarrow> bool" where
  "matter_ok m \<longleftrightarrow> mc_log_level m \<in> set matter_levels
     \<and> (case mc_discriminator m of None \<Rightarrow> \<not> mc_enabled m | Some d \<Rightarrow> d \<le> 4095)
     \<and> (mc_setup_passcode m = [] \<and> \<not> mc_enabled m
        \<or> length (mc_setup_passcode m) = 8 \<and> list_all is_ascii_digit (mc_setup_passcode m)
          \<and> 0 < from_digits (mc_setup_passcode m) \<and> from_digits (mc_setup_passcode m) \<le> 99999998
          \<and> from_digits (mc_setup_passcode m) \<notin> set prohibited_passcodes)"

definition config_ok :: "config \<Rightarrow> bool" where
  "config_ok c \<longleftrightarrow> cf_version c = 1 \<and> rc_log_level (cf_runtime c) \<in> set runtime_levels
     \<and> distinct (map vs_id (cf_switches c)) \<and> distinct (map pc_id (cf_plugins c))
     \<and> (\<forall>s \<in> set (cf_switches c). valid_identifier (vs_id s) \<and> trim (vs_name s) = vs_name s \<and> vs_name s \<noteq> [])
     \<and> (\<forall>p \<in> set (cf_plugins c). valid_identifier (pc_id p) \<and> pc_artifact p \<noteq> [])
     \<and> matter_ok (cf_matter c)"

lemma validate_switches_ok:
  "validate_switches i seen ss = Ok () \<longleftrightarrow> distinct (map vs_id ss) \<and> vs_id ` set ss \<inter> seen = {}
     \<and> (\<forall>s \<in> set ss. valid_identifier (vs_id s) \<and> trim (vs_name s) = vs_name s \<and> vs_name s \<noteq> [])"
  by (induction i seen ss rule: validate_switches.induct)
     (auto simp: and_then_eq_Ok validate_identifier_ok)

lemma validate_plugins_ok:
  "validate_plugins i seen ps = Ok () \<longleftrightarrow> distinct (map pc_id ps) \<and> pc_id ` set ps \<inter> seen = {}
     \<and> (\<forall>p \<in> set ps. valid_identifier (pc_id p) \<and> pc_artifact p \<noteq> [] \<and> pc_artifact p = trim (pc_artifact p))"
  by (induction i seen ps rule: validate_plugins.induct)
     (auto simp: and_then_eq_Ok validate_identifier_ok validate_unpadded_path_def)

lemma normalized_Ok:
  "normalized_log_level v p xs = Ok w \<longleftrightarrow> w = map to_ascii_lowercase (trim v) \<and> w \<in> set xs"
  by (auto simp: normalized_log_level_def Let_def)

lemma level_fixed: "w \<in> set runtime_levels \<union> set matter_levels \<Longrightarrow> map to_ascii_lowercase (trim w) = w"
proof -
  have "list_all (\<lambda>w. map to_ascii_lowercase (trim w) = w) (runtime_levels @ matter_levels)" by code_simp
  then show "w \<in> set runtime_levels \<union> set matter_levels \<Longrightarrow> ?thesis" by (simp add: list_all_iff)
qed

lemma validate_commissioning_ok:
  "validate_commissioning p d = Ok () \<longleftrightarrow> length p = 8 \<and> list_all is_ascii_digit p
     \<and> 0 < from_digits p \<and> from_digits p \<le> 99999998 \<and> from_digits p \<notin> set prohibited_passcodes \<and> d \<le> 4095"
  by (auto simp: validate_commissioning_def Let_def)

lemma validate_matter_ok:
  assumes "validate_matter m = Ok m'"
  shows "matter_ok m'" and "validate_matter m' = Ok m'"
proof -
  obtain level where level: "level \<in> set matter_levels" and m': "m' = m\<lparr>mc_log_level := level\<rparr>"
    using assms by (auto simp: validate_matter_def and_then_eq_Ok normalized_Ok split: if_splits)
  then show "matter_ok m'"
    using assms by (auto simp: validate_matter_def matter_ok_def and_then_eq_Ok validate_commissioning_ok
        split: if_splits option.splits)
  have "normalized_log_level level ''adapters.matter.log_level'' matter_levels = Ok level"
    using level level_fixed [of level] by (auto simp: normalized_Ok)
  then show "validate_matter m' = Ok m'"
    using assms by (auto simp: m' validate_matter_def and_then_eq_Ok split: if_splits)
qed

text \<open>C40: A configuration that validation accepts has unique, valid identifiers, accepted log levels
  and a commissioning passcode and discriminator that Matter allows, complete when the
  adapter is enabled; and validating it again changes nothing.\<close>

theorem config_validate_sound:
  assumes "config_validate c = Ok c'"
  shows "config_ok c' \<and> config_validate c' = Ok c'"
proof -
  obtain level m where level: "level \<in> set runtime_levels" and m: "validate_matter (cf_matter c) = Ok m"
    and c': "c' = c\<lparr>cf_runtime := (cf_runtime c)\<lparr>rc_log_level := level\<rparr>, cf_matter := m\<rparr>"
    and sw: "validate_switches 0 {} (cf_switches c) = Ok ()" and pl: "validate_plugins 0 {} (cf_plugins c) = Ok ()"
    and rest: "cf_version c = CURRENT_VERSION"
      "validate_unpadded_path (rc_state_dir (cf_runtime c)) ''runtime.state_dir'' = Ok ()"
      "validate_unpadded_path (rc_admin_socket (cf_runtime c)) ''runtime.admin_socket'' = Ok ()"
    using assms by (auto simp: config_validate_def and_then_eq_Ok normalized_Ok)
  have "normalized_log_level level ''runtime.log_level'' runtime_levels = Ok level"
    using level level_fixed [of level] by (auto simp: normalized_Ok)
  then have "config_validate c' = Ok c'"
    using validate_matter_ok(2) [OF m] sw pl rest by (simp add: c' config_validate_def)
  moreover have "config_ok c'"
    using sw pl level rest validate_matter_ok(1) [OF m]
    by (simp add: config_ok_def c' validate_switches_ok validate_plugins_ok CURRENT_VERSION_def)
  ultimately show ?thesis by simp
qed

definition sample_config :: config where
  "sample_config = default_config\<lparr>cf_runtime := \<lparr>rc_log_level = '' DEBUG'', rc_state_dir = ''/s'', rc_admin_socket = []\<rparr>,
     cf_switches := [\<lparr>vs_id = ''desk'', vs_name = ''Desk'', vs_initial_on = False\<rparr>],
     cf_matter := \<lparr>mc_enabled = True, mc_executable = ''m'', mc_log_level = ''info'',
                   mc_setup_passcode = ''20202021'', mc_discriminator = Some 3840\<rparr>\<rparr>"

theorem config_validate_sound_witness:
  "\<exists>c'. config_validate sample_config = Ok c' \<and> rc_log_level (cf_runtime c') = ''debug'' \<and> config_ok c'"
proof -
  have trims: "trim '' DEBUG'' = ''DEBUG''" "trim ''/s'' = ''/s''" "trim [] = []" "trim ''m'' = ''m''"
    "trim ''info'' = ''info''" "trim ''Desk'' = ''Desk''"
    by code_simp+
  have lower: "map to_ascii_lowercase ''DEBUG'' = ''debug''" "map to_ascii_lowercase ''info'' = ''info''"
    by code_simp+
  have "validate_identifier ''desk'' = Ok ()" by code_simp
  then have c': "config_validate sample_config = Ok (sample_config\<lparr>cf_runtime := (cf_runtime sample_config)\<lparr>rc_log_level := ''debug''\<rparr>\<rparr>)"
    using lower by (simp add: config_validate_def sample_config_def default_config_def CURRENT_VERSION_def trims
        normalized_log_level_def validate_unpadded_path_def validate_matter_def runtime_levels_def matter_levels_def
        validate_commissioning_def prohibited_passcodes_def from_digits_def digit_value_def is_ascii_digit_def
        del: list.map)
  then show ?thesis using config_validate_sound [OF c'] by auto
qed

end
