(* ===== verification/Supervisor.thy ===== *)
theory Supervisor
  imports Rust_Text
begin

text \<open>
  The child-process supervisor of \<open>crates/oikade-supervisor\<close>: the restart policy, the
  supervision loop of \<open>process.rs\<close> with its sliding failure window, the termination of a child,
  the sanitised environment and the log reader. Times and durations are nanoseconds. What the
  operating system does in one round of the loop (whether the child launches, becomes ready,
  exits or is cancelled, and when) is an \<open>attempt\<close>; a run of the loop is a list of them.
\<close>

section \<open>Policy\<close>

datatype sup_state = Stopped | Starting | Running | Backoff | Quarantined

fun state_str :: "sup_state \<Rightarrow> string" where
  "state_str Stopped = ''stopped''"
| "state_str Starting = ''starting''"
| "state_str Running = ''running''"
| "state_str Backoff = ''backoff''"
| "state_str Quarantined = ''quarantined''"

record sup_status =
  ss_state :: sup_state
  ss_pid :: "nat option"
  ss_restarts :: nat
  ss_last_error :: "string option"

record restart_policy =
  initial_backoff :: nat
  max_backoff :: nat
  max_restarts :: nat
  restart_window :: nat
  stable_after :: nat
  ready_timeout :: nat
  stop_timeout :: nat

definition nanoseconds :: "nat \<Rightarrow> nat" where
  "nanoseconds ms = ms * 1000000"

definition default_policy :: restart_policy where
  "default_policy = \<lparr>initial_backoff = nanoseconds 250, max_backoff = nanoseconds 30000, max_restarts = 5,
     restart_window = nanoseconds 60000, stable_after = nanoseconds 60000,
     ready_timeout = nanoseconds 10000, stop_timeout = nanoseconds 5000\<rparr>"

datatype supervisor_error =
    MissingName
  | MissingExecutable
  | AlreadyStarted
  | InvalidPolicy string
  | InitialFailure string

definition policy_validate :: "restart_policy \<Rightarrow> (supervisor_error, unit) result" where
  "policy_validate p =
     (if initial_backoff p = 0 then Err (InvalidPolicy ''initial restart backoff must be positive'')
      else if max_backoff p < initial_backoff p
      then Err (InvalidPolicy ''maximum restart backoff must not be less than the initial backoff'')
      else if restart_window p = 0 then Err (InvalidPolicy ''restart window must be positive'')
      else if stable_after p = 0 then Err (InvalidPolicy ''stable duration must be positive'')
      else if ready_timeout p = 0 then Err (InvalidPolicy ''readiness timeout must be positive'')
      else if stop_timeout p = 0 then Err (InvalidPolicy ''stop timeout must be positive'')
      else Ok ())"

text \<open>\<open>Duration::MAX\<close>: \<open>u64::MAX\<close> seconds and 999 999 999 nanoseconds.\<close>

definition DURATION_MAX :: nat where
  "DURATION_MAX = 2 ^ 64 * 1000000000 - 1"

definition checked_mul :: "nat \<Rightarrow> nat \<Rightarrow> nat option" where
  "checked_mul d k = (if d * k \<le> DURATION_MAX then Some (d * k) else None)"

definition restart_backoff :: "restart_policy \<Rightarrow> nat \<Rightarrow> nat" where
  "restart_backoff p failures =
     (let exponent = min (failures - 1) 31
      in min (case checked_mul (initial_backoff p) (2 ^ exponent) of Some d \<Rightarrow> d | None \<Rightarrow> max_backoff p)
             (max_backoff p))"

section \<open>Processes\<close>

datatype exit_result = ExitSuccess | ExitStatus string | WaitFailed string

fun unexpected_exit :: "exit_result \<Rightarrow> string" where
  "unexpected_exit ExitSuccess = ''process exited unexpectedly with success status''"
| "unexpected_exit (ExitStatus s) = ''process exited unexpectedly: '' @ s"
| "unexpected_exit (WaitFailed e) = ''wait for process: '' @ e"

datatype ready_race = ProbeReady | ProbeFailed string | ProbeTimedOut | ChildExited exit_result | CancelledInReadiness

datatype readiness =
    NoProbe "(string, string option) result"
  | Probe ready_race

definition wait_ready :: "nat option \<Rightarrow> readiness \<Rightarrow> (string, unit) result" where
  "wait_ready pid r =
     (case pid of
        None \<Rightarrow> Err ''child process has no PID''
      | Some _ \<Rightarrow>
          (case r of
             NoProbe (Ok None) \<Rightarrow> Ok ()
           | NoProbe (Ok (Some s)) \<Rightarrow> Err (''process exited before readiness: '' @ s)
           | NoProbe (Err e) \<Rightarrow> Err (''inspect child before readiness: '' @ e)
           | Probe ProbeReady \<Rightarrow> Ok ()
           | Probe (ProbeFailed e) \<Rightarrow> Err (''readiness probe: '' @ e)
           | Probe ProbeTimedOut \<Rightarrow> Err ''readiness probe timed out''
           | Probe (ChildExited x) \<Rightarrow> Err (unexpected_exit x)
           | Probe CancelledInReadiness \<Rightarrow> Err ''cancelled during readiness''))"

datatype sup_signal = SIGTERM | SIGKILL

datatype kill_result = Delivered | NoSuchProcess | KillFailed string

definition signal_group :: "nat \<Rightarrow> kill_result \<Rightarrow> (string, unit) result" where
  "signal_group pid k =
     (if pid \<ge> 2 ^ 31 then Err ''EINVAL''
      else case k of Delivered \<Rightarrow> Ok () | NoSuchProcess \<Rightarrow> Ok () | KillFailed e \<Rightarrow> Err e)"

text \<open>What \<open>terminate\<close> observes: the first \<open>try_wait\<close>, the effect of each signal, whether the child
  ends within the grace period, and the last wait.\<close>

record terminating =
  tm_try_wait :: "(string, bool) result"
  tm_sigterm :: kill_result
  tm_in_grace :: bool
  tm_sigkill :: kill_result
  tm_kill :: "(string, unit) result"
  tm_last_wait :: "(string, unit) result"

text \<open>The signals that are sent, and the result.\<close>

definition terminate :: "nat option \<Rightarrow> terminating \<Rightarrow> sup_signal list \<times> (string, unit) result" where
  "terminate pid t =
     (case tm_try_wait t of
        Err e \<Rightarrow> ([], Err e)
      | Ok True \<Rightarrow> ([], Ok ())
      | Ok False \<Rightarrow>
          (case (case pid of None \<Rightarrow> Ok () | Some p \<Rightarrow> signal_group p (tm_sigterm t)) of
             Err e \<Rightarrow> ([SIGTERM], Err e)
           | Ok _ \<Rightarrow>
               let sent = (if pid = None then [] else [SIGTERM]) in
               if tm_in_grace t then (sent, Ok ())
               else (sent @ [SIGKILL],
                 and_then (case pid of None \<Rightarrow> tm_kill t | Some p \<Rightarrow> signal_group p (tm_sigkill t))
                   (\<lambda>_. tm_last_wait t))))"

section \<open>The supervision loop\<close>

datatype running_end =
    ChildEnded exit_result
  | CancelledWhileRunning terminating

record attempt =
  at_cancelled :: bool
  at_launch :: "(string, nat option) result"
  at_readiness :: readiness
  at_started :: nat
  at_ending :: running_end
  at_elapsed_at :: nat
  at_now :: nat
  at_slept :: bool

record sup_loop =
  lp_restarts :: nat
  lp_consecutive :: nat
  lp_failures :: "nat list"
  lp_ready :: "(string, unit) result option"

definition loop_new :: sup_loop where
  "loop_new = \<lparr>lp_restarts = 0, lp_consecutive = 0, lp_failures = [], lp_ready = None\<rparr>"

definition send_initial :: "(string, unit) result \<Rightarrow> sup_loop \<Rightarrow> sup_loop" where
  "send_initial r l = (case lp_ready l of None \<Rightarrow> l\<lparr>lp_ready := Some r\<rparr> | Some _ \<Rightarrow> l)"

definition status_of :: "sup_state \<Rightarrow> nat option \<Rightarrow> nat \<Rightarrow> string option \<Rightarrow> sup_status" where
  "status_of s pid n e = \<lparr>ss_state = s, ss_pid = pid, ss_restarts = n, ss_last_error = e\<rparr>"

text \<open>A launch or readiness failure: the child is terminated, whatever that returns, and the message is
  reported (the source puts the process name before it).\<close>

definition initial_failure :: "string \<Rightarrow> sup_loop \<Rightarrow> sup_status \<times> sup_loop" where
  "initial_failure m l = (status_of Stopped None 0 (Some m), send_initial (Err m) l)"

text \<open>The bookkeeping after an unexpected exit.\<close>

definition note_failure :: "restart_policy \<Rightarrow> attempt \<Rightarrow> sup_loop \<Rightarrow> sup_loop" where
  "note_failure p a l =
     (let l1 = (if at_elapsed_at a - at_started a \<ge> stable_after p
                then l\<lparr>lp_consecutive := 0, lp_failures := []\<rparr> else l)
      in l1\<lparr>lp_consecutive := min (lp_consecutive l1 + 1) (2 ^ 32 - 1),
            lp_failures := dropWhile (\<lambda>f. at_now a - f > restart_window p) (lp_failures l1 @ [at_now a])\<rparr>)"

text \<open>One round: the statuses it reports, the loop state, and whether the loop goes on.\<close>

definition iterate :: "restart_policy \<Rightarrow> attempt \<Rightarrow> sup_loop \<Rightarrow> sup_status list \<times> sup_loop \<times> bool" where
  "iterate p a l =
     (if at_cancelled a
      then ([status_of Stopped None (lp_restarts l) None], send_initial (Err ''cancelled before readiness'') l, False)
      else
        let starting = status_of Starting None (lp_restarts l) None in
        case at_launch a of
          Err m \<Rightarrow> (let (s, l') = initial_failure m l in ([starting, s], l', False))
        | Ok pid \<Rightarrow>
            let launched = status_of Starting pid (lp_restarts l) None in
            (case wait_ready pid (at_readiness a) of
               Err m \<Rightarrow> (let (s, l') = initial_failure m l in ([starting, launched, s], l', False))
             | Ok _ \<Rightarrow>
                 let running = status_of Running pid (lp_restarts l) None; l1 = send_initial (Ok ()) l in
                 (case at_ending a of
                    CancelledWhileRunning t \<Rightarrow>
                      ([starting, launched, running,
                        status_of Stopped None (lp_restarts l)
                          (case snd (terminate pid t) of Err e \<Rightarrow> Some e | Ok _ \<Rightarrow> None)], l1, False)
                  | ChildEnded x \<Rightarrow>
                      let l2 = note_failure p a l1; failure = Some (unexpected_exit x) in
                      if length (lp_failures l2) > max_restarts p
                      then ([starting, launched, running, status_of Quarantined None (lp_restarts l) failure], l2, False)
                      else
                        let backoff = status_of Backoff None (lp_restarts l) failure in
                        if at_slept a
                        then ([starting, launched, running, backoff], l2\<lparr>lp_restarts := lp_restarts l2 + 1\<rparr>, True)
                        else ([starting, launched, running, backoff, status_of Stopped None (lp_restarts l) None], l2, False))))"

text \<open>The loop over a list of attempts; it is still running when the list ends first.\<close>

fun run_loop :: "restart_policy \<Rightarrow> attempt list \<Rightarrow> sup_loop \<Rightarrow> sup_status list \<times> sup_loop \<times> bool" where
  "run_loop p [] l = ([], l, True)"
| "run_loop p (a # as) l =
     (let (ss, l', go) = iterate p a l in
      if go then (let (ss', l'', go') = run_loop p as l' in (ss @ ss', l'', go'))
      else (ss, l', False))"

section \<open>The supervisor\<close>

record sup_shared =
  sh_status :: sup_status
  sh_running :: bool

definition supervisor_new :: "string \<Rightarrow> string \<Rightarrow> restart_policy \<Rightarrow> (supervisor_error, sup_shared) result" where
  "supervisor_new name executable p =
     (if name = [] then Err MissingName
      else if executable = [] then Err MissingExecutable
      else and_then (policy_validate p) (\<lambda>_.
        Ok \<lparr>sh_status = status_of Stopped None 0 None, sh_running = False\<rparr>))"

text \<open>\<open>start\<close> spawns the loop and waits for what it reports through the readiness channel; the list of
  attempts is what has happened by the time it is asked.\<close>

definition supervisor_start ::
  "restart_policy \<Rightarrow> attempt list \<Rightarrow> sup_shared \<Rightarrow> sup_shared \<times> (supervisor_error, unit) result option" where
  "supervisor_start p as sh =
     (if sh_running sh then (sh, Some (Err AlreadyStarted))
      else
        let (ss, l, go) = run_loop p as loop_new;
            sh' = \<lparr>sh_status = (if ss = [] then sh_status sh else last ss), sh_running = go\<rparr>
        in (sh', map_option (map_err InitialFailure) (lp_ready l)))"

section \<open>Environment and logs\<close>

definition environment_key_allowed :: "string \<Rightarrow> bool" where
  "environment_key_allowed k \<longleftrightarrow> utf8_valid k \<and>
     (k \<in> {''PATH'', ''LANG'', ''TZ'', ''TMPDIR'', ''TMP'', ''TEMP'', ''SSL_CERT_FILE'', ''SSL_CERT_DIR''}
      \<or> starts_with ''LC_'' k)"

definition sanitized_environment :: "(string \<times> string) list \<Rightarrow> (string, string) btree" where
  "sanitized_environment source = of_entries (filter (\<lambda>(k, v). environment_key_allowed k) source)"

definition MAX_LOG_LINE :: nat where "MAX_LOG_LINE = 16384"

definition log_line :: "string \<Rightarrow> string \<times> bool" where
  "log_line bytes =
     (rev (dropWhile (\<lambda>c. c = CHR 0x0A \<or> c = CHR 0x0D) (rev (take MAX_LOG_LINE bytes))),
      length bytes > MAX_LOG_LINE)"

text \<open>The log reader on everything a child writes to one stream: for each line, how many bytes
  \<open>read_until\<close> has gathered in the buffer, and what is handed to the sink.\<close>

function log_reader :: "string \<Rightarrow> (nat \<times> string \<times> bool) list" where
  "log_reader s =
     (if s = [] then []
      else
        let n = length (takeWhile (\<lambda>c. c \<noteq> CHR 0x0A) s); k = (if n < length s then n + 1 else n);
            (text, truncated) = log_line (take k s)
        in (k, text, truncated) # log_reader (drop k s))"
  by pat_completeness auto
termination
  by (relation "measure length") (auto simp: length_greater_0_conv [symmetric] simp del: length_greater_0_conv)

declare log_reader.simps [simp del]

section \<open>Backoff\<close>

definition policy_ok :: "restart_policy \<Rightarrow> bool" where
  "policy_ok p \<longleftrightarrow> 0 < initial_backoff p \<and> initial_backoff p \<le> max_backoff p \<and> 0 < restart_window p
     \<and> 0 < stable_after p \<and> 0 < ready_timeout p \<and> 0 < stop_timeout p"

lemma policy_validate_ok: "policy_validate p = Ok () \<longleftrightarrow> policy_ok p"
  by (auto simp: policy_validate_def policy_ok_def)

lemma restart_backoff_cap:
  assumes "max_backoff p \<le> DURATION_MAX"
  shows "restart_backoff p n = min (initial_backoff p * 2 ^ min (n - 1) 31) (max_backoff p)"
  using assms by (auto simp: restart_backoff_def checked_mul_def Let_def min_def)

section \<open>The failure window\<close>

definition window_ok :: "restart_policy \<Rightarrow> sup_loop \<Rightarrow> bool" where
  "window_ok p l \<longleftrightarrow> sorted (lp_failures l) \<and> length (lp_failures l) \<le> max_restarts p
     \<and> (\<forall>f \<in> set (lp_failures l). last (lp_failures l) - f \<le> restart_window p)"

text \<open>The clock does not go back: an attempt ends no earlier than the failures already noted.\<close>

definition clock_ok :: "attempt \<Rightarrow> sup_loop \<Rightarrow> bool" where
  "clock_ok a l \<longleftrightarrow> (\<forall>f \<in> set (lp_failures l). f \<le> at_now a) \<and> at_started a \<le> at_elapsed_at a \<and> at_elapsed_at a \<le> at_now a"

lemma send_initial_failures [simp]:
  "lp_failures (send_initial r l) = lp_failures l" "lp_consecutive (send_initial r l) = lp_consecutive l"
  "lp_restarts (send_initial r l) = lp_restarts l"
  by (simp_all add: send_initial_def split: option.splits)

lemma note_failure_sorted:
  assumes "sorted (lp_failures l)" and "clock_ok a l"
  shows "sorted (lp_failures (note_failure p a l))" and "last (lp_failures (note_failure p a l)) = at_now a"
    and "lp_failures (note_failure p a l) \<noteq> []"
    and "\<forall>f \<in> set (lp_failures (note_failure p a l)). at_now a - f \<le> restart_window p"
proof -
  define fs where "fs = (if at_elapsed_at a - at_started a \<ge> stable_after p then [] else lp_failures l)"
  have nf: "lp_failures (note_failure p a l) = dropWhile (\<lambda>f. at_now a - f > restart_window p) (fs @ [at_now a])"
    by (simp add: note_failure_def fs_def Let_def)
  have sf: "sorted fs" "\<forall>f \<in> set fs. f \<le> at_now a" using assms by (auto simp: fs_def clock_ok_def)
  have split: "dropWhile (\<lambda>f. at_now a - f > restart_window p) (fs @ [at_now a]) =
      dropWhile (\<lambda>f. at_now a - f > restart_window p) fs @ [at_now a]"
    by (induction fs) auto
  have suffix: "\<exists>q. fs = q @ dropWhile (\<lambda>f. at_now a - f > restart_window p) fs"
    by (metis takeWhile_dropWhile_id)
  have sorted_rest: "sorted (dropWhile (\<lambda>f. at_now a - f > restart_window p) fs)"
    using sf(1) suffix by (metis sorted_append)
  have in_fs: "set (dropWhile (\<lambda>f. at_now a - f > restart_window p) fs) \<subseteq> set fs"
    by (rule set_dropWhileD [THEN subsetI])
  show "sorted (lp_failures (note_failure p a l))"
    unfolding nf split using sorted_rest in_fs sf(2) by (auto simp: sorted_append)
  show "last (lp_failures (note_failure p a l)) = at_now a" "lp_failures (note_failure p a l) \<noteq> []"
    by (simp_all add: nf split)
  have "at_now a - f \<le> restart_window p" if "f \<in> set (dropWhile (\<lambda>f. at_now a - f > restart_window p) fs)" for f
  proof (cases "dropWhile (\<lambda>f. at_now a - f > restart_window p) fs")
    case (Cons g gs)
    then have "\<not> at_now a - g > restart_window p" by (metis dropWhile_eq_Cons_conv)
    moreover have "g \<le> f" using that sorted_rest Cons by auto
    ultimately show ?thesis by linarith
  next
    case Nil
    with that show ?thesis by (metis empty_iff list.set(1))
  qed
  then show "\<forall>f \<in> set (lp_failures (note_failure p a l)). at_now a - f \<le> restart_window p"
    by (auto simp: nf split)
qed

lemma iterate_continues:
  assumes "iterate p a l = (ss, l', True)"
  shows "lp_failures l' = lp_failures (note_failure p a (send_initial (Ok ()) l))"
    and "length (lp_failures l') \<le> max_restarts p" and "lp_restarts l' = lp_restarts l + 1"
    and "\<exists>pid e. ss = [status_of Starting None (lp_restarts l) None, status_of Starting pid (lp_restarts l) None,
        status_of Running pid (lp_restarts l) None, status_of Backoff None (lp_restarts l) (Some e)]"
  using assms
  by (auto simp: iterate_def initial_failure_def Let_def note_failure_def
      split: if_splits sum.splits running_end.splits prod.splits)

lemma window_ok_iterate:
  assumes "window_ok p l" and "clock_ok a l" and "iterate p a l = (ss, l', True)"
  shows "window_ok p l'"
proof -
  let ?l = "send_initial (Ok ()) l"
  have s: "sorted (lp_failures ?l)" "clock_ok a ?l" using assms(1,2) by (simp_all add: window_ok_def clock_ok_def)
  note nf = note_failure_sorted [OF s, of p]
  show ?thesis
    using iterate_continues(1,2) [OF assms(3)] nf by (simp add: window_ok_def)
qed

section \<open>Runs of the loop\<close>

text \<open>Along the run, every attempt ends no earlier than the failures noted before it.\<close>

fun clocked :: "restart_policy \<Rightarrow> attempt list \<Rightarrow> sup_loop \<Rightarrow> bool" where
  "clocked p [] l = True"
| "clocked p (a # as) l = (clock_ok a l \<and> (case iterate p a l of (ss, l', go) \<Rightarrow> clocked p as l'))"

fun allowed :: "sup_state \<Rightarrow> sup_state \<Rightarrow> bool" where
  "allowed Starting t = (t \<in> {Starting, Running, Stopped})"
| "allowed Running t = (t \<in> {Stopped, Backoff, Quarantined})"
| "allowed Backoff t = (t \<in> {Starting, Stopped})"
| "allowed _ _ = False"

definition closing :: "sup_state \<Rightarrow> bool" where
  "closing s \<longleftrightarrow> s = Stopped \<or> s = Quarantined"

lemma iterate_path:
  assumes "iterate p a l = (ss, l', go)"
  shows "successively allowed (map ss_state ss)" and "ss \<noteq> []"
    and "ss_state (hd ss) = Starting \<or> (ss_state (hd ss) = Stopped \<and> \<not> go)"
    and "if go then ss_state (last ss) = Backoff else closing (ss_state (last ss))"
  using assms
  by (auto simp: iterate_def initial_failure_def Let_def status_of_def closing_def
      split: if_splits sum.splits running_end.splits prod.splits)

lemma run_loop_path:
  assumes "run_loop p as l = (ss, l', go)"
  shows "successively allowed (map ss_state ss)
    \<and> (ss \<noteq> [] \<longrightarrow> (ss_state (hd ss) = Starting \<or> ss_state (hd ss) = Stopped)
        \<and> (if go then ss_state (last ss) = Backoff else closing (ss_state (last ss))))
    \<and> (go \<longrightarrow> length as = lp_restarts l' - lp_restarts l \<and> lp_restarts l \<le> lp_restarts l')"
  using assms
proof (induction p as l arbitrary: ss l' go rule: run_loop.induct)
  case (2 p a as l)
  obtain ss1 l1 go1 where it: "iterate p a l = (ss1, l1, go1)" by (metis prod_cases3)
  note path = iterate_path [OF it]
  show ?case
  proof (cases go1)
    case False
    with it "2.prems" path show ?thesis by auto
  next
    case True
    obtain ss2 l2 go2 where r: "run_loop p as l1 = (ss2, l2, go2)" by (metis prod_cases3)
    have out: "ss = ss1 @ ss2" "l' = l2" "go = go2" using it True r "2.prems" by auto
    note ih = "2.IH" [OF it [symmetric] refl refl True r]
    have rest: "lp_restarts l1 = lp_restarts l + 1" using iterate_continues(3) [of p a l ss1 l1] it True by simp
    show ?thesis
    proof (cases "ss2 = []")
      case empty: True
      have "as = []"
      proof (cases as)
        case (Cons b bs)
        obtain x y z where "iterate p b l1 = (x, y, z)" by (metis prod_cases3)
        with r empty Cons iterate_path(2) show ?thesis
          by (cases "run_loop p bs y") (fastforce split: if_splits)
      qed
      with r True path rest out empty show ?thesis by auto
    next
      case False
      have "allowed Backoff (ss_state (hd ss2))" using ih False by auto
      then show ?thesis
        using ih path True out False rest
        by (auto simp: successively_append_iff hd_append last_map hd_map)
    qed
  qed
qed simp

definition crowded :: "restart_policy \<Rightarrow> sup_loop \<Rightarrow> bool" where
  "crowded p l \<longleftrightarrow> max_restarts p < length (lp_failures l)
     \<and> (\<forall>f \<in> set (lp_failures l). last (lp_failures l) - f \<le> restart_window p)"

lemma iterate_quarantines:
  assumes "iterate p a l = (ss, l', go)" and "ss_state (last ss) = Quarantined" and "sorted (lp_failures l)" and "clock_ok a l"
  shows "crowded p l'"
proof -
  let ?l = "send_initial (Ok ()) l"
  have "lp_failures l' = lp_failures (note_failure p a ?l)" "max_restarts p < length (lp_failures l')"
    using assms(1,2)
    by (auto simp: iterate_def initial_failure_def Let_def status_of_def
        split: if_splits sum.splits running_end.splits prod.splits)
  moreover have "sorted (lp_failures ?l)" "clock_ok a ?l" using assms(3,4) by (simp_all add: clock_ok_def)
  ultimately show ?thesis
    using note_failure_sorted [of ?l a p] by (simp add: crowded_def)
qed

lemma run_loop_window:
  assumes "run_loop p as l = (ss, l', go)" and "clocked p as l" and "window_ok p l"
  shows "(go \<longrightarrow> window_ok p l') \<and> (ss \<noteq> [] \<longrightarrow> ss_state (last ss) = Quarantined \<longrightarrow> crowded p l')"
  using assms
proof (induction p as l arbitrary: ss l' go rule: run_loop.induct)
  case (2 p a as l)
  obtain ss1 l1 go1 where it: "iterate p a l = (ss1, l1, go1)" by (metis prod_cases3)
  have clock: "clock_ok a l" "clocked p as l1" using "2.prems"(2) it by simp_all
  show ?case
  proof (cases go1)
    case False
    with it "2.prems" iterate_quarantines [OF it _ _ clock(1)] show ?thesis by (auto simp: window_ok_def)
  next
    case True
    obtain ss2 l2 go2 where r: "run_loop p as l1 = (ss2, l2, go2)" by (metis prod_cases3)
    have out: "ss = ss1 @ ss2" "l' = l2" "go = go2" using it True r "2.prems" by auto
    have "window_ok p l1" using window_ok_iterate [OF "2.prems"(3) clock(1)] it True by simp
    note ih = "2.IH" [OF it [symmetric] refl refl True r clock(2) this]
    moreover have "ss_state (last ss1) = Backoff" using iterate_path(4) [OF it] True by simp
    ultimately show ?thesis using out by (auto simp: last_append)
  qed
qed simp

section \<open>Properties\<close>

text \<open>for a policy that \<open>validate\<close> accepts, the delay before a restart lies between the initial and the
  maximum backoff, starts at the initial one, never shrinks as failures accumulate, and doubles
  until it reaches the maximum.\<close>

theorem backoff_bounds:
  assumes "policy_validate p = Ok ()" and "max_backoff p \<le> DURATION_MAX"
  shows "initial_backoff p \<le> restart_backoff p n \<and> restart_backoff p n \<le> max_backoff p
    \<and> restart_backoff p 1 = initial_backoff p
    \<and> (m \<le> n \<longrightarrow> restart_backoff p m \<le> restart_backoff p n)
    \<and> (1 \<le> n \<and> n < 32 \<longrightarrow> restart_backoff p (n + 1) = min (2 * restart_backoff p n) (max_backoff p))"
proof -
  have ok: "policy_ok p" using assms(1) by (simp add: policy_validate_ok)
  note cap = restart_backoff_cap [OF assms(2)]
  have grow: "initial_backoff p * 2 ^ min (m - 1) 31 \<le> initial_backoff p * 2 ^ min (n - 1) 31" if "m \<le> n"
    using that by (intro mult_le_mono2 power_increasing) auto
  have "1 \<le> n \<and> n < 32 \<longrightarrow> (2::nat) ^ min n 31 = 2 * 2 ^ min (n - 1) 31"
    by (cases n) (auto simp: min_def)
  then have "1 \<le> n \<and> n < 32 \<longrightarrow> restart_backoff p (n + 1) = min (2 * restart_backoff p n) (max_backoff p)"
    using ok by (auto simp: cap policy_ok_def min_def)
  moreover have "initial_backoff p \<le> initial_backoff p * 2 ^ min (n - 1) 31" by simp
  moreover have "restart_backoff p m \<le> restart_backoff p n" if "m \<le> n"
    unfolding cap by (rule min.mono [OF grow [OF that] order_refl])
  ultimately show ?thesis
    using ok by (simp add: cap policy_ok_def)
qed

theorem backoff_bounds_witness:
  "restart_backoff default_policy 3 = nanoseconds 1000 \<and> restart_backoff default_policy 3 \<le> nanoseconds 30000"
proof -
  have "policy_validate default_policy = Ok ()" "max_backoff default_policy \<le> DURATION_MAX"
    by (simp_all add: policy_validate_def default_policy_def nanoseconds_def DURATION_MAX_def)
  from backoff_bounds [OF this, of 3] show ?thesis
    by (simp add: restart_backoff_def checked_mul_def default_policy_def nanoseconds_def DURATION_MAX_def)
qed


definition crash :: "nat \<Rightarrow> attempt" where
  "crash t = \<lparr>at_cancelled = False, at_launch = Ok (Some 7), at_readiness = Probe ProbeReady, at_started = t,
     at_ending = ChildEnded (ExitStatus ''1''), at_elapsed_at = t, at_now = t, at_slept = True\<rparr>"

definition strict_policy :: restart_policy where
  "strict_policy = default_policy\<lparr>max_restarts := 1\<rparr>"


text \<open>C39: the statuses that a supervisor reports follow its state machine: a start leads to running or to
  stopped, running to stopped, backoff or quarantine, backoff to a new start or to stopped, and
  nothing follows stopped or quarantined. A loop that ends has reported one of these two last.\<close>

theorem statuses_follow_state_machine:
  assumes "run_loop p as loop_new = (ss, l, go)"
  shows "successively allowed (map ss_state ss)
    \<and> (ss \<noteq> [] \<longrightarrow> (if go then ss_state (last ss) = Backoff else closing (ss_state (last ss))))"
  using run_loop_path [OF assms] by simp

theorem statuses_follow_state_machine_witness:
  "successively allowed (map ss_state (fst (run_loop strict_policy [crash 1, crash 2] loop_new)))"
  using statuses_follow_state_machine
    [of strict_policy "[crash 1, crash 2]" "fst (run_loop strict_policy [crash 1, crash 2] loop_new)"
      "fst (snd (run_loop strict_policy [crash 1, crash 2] loop_new))"
      "snd (snd (run_loop strict_policy [crash 1, crash 2] loop_new))"]
  by simp

text \<open>a process that was running and is being restarted gets no further chance when the restart does not
  launch or does not become ready: supervision ends in \<open>Stopped\<close> at once, without backoff or
  quarantine, and the reported restart count falls back to 0.\<close>

theorem failed_restart_ends_supervision:
  assumes "\<not> at_cancelled a"
    and "at_launch a = Err m \<or> (\<exists>pid. at_launch a = Ok pid \<and> wait_ready pid (at_readiness a) = Err m)"
  shows "\<exists>ss. iterate p a l = (ss @ [status_of Stopped None 0 (Some m)], send_initial (Err m) l, False)"
  using assms by (auto simp: iterate_def initial_failure_def Let_def)

theorem failed_restart_ends_supervision_witness:
  "\<exists>ss. iterate default_policy ((crash 9)\<lparr>at_launch := Err ''text file busy''\<rparr>) (loop_new\<lparr>lp_restarts := 3\<rparr>) =
     (ss @ [status_of Stopped None 0 (Some ''text file busy'')],
      send_initial (Err ''text file busy'') (loop_new\<lparr>lp_restarts := 3\<rparr>), False)"
  using failed_restart_ends_supervision [of "(crash 9)\<lparr>at_launch := Err ''text file busy''\<rparr>" "''text file busy''"]
  by (simp add: crash_def)

text \<open>a child sees no environment variable outside the allowlist, and each allowed one with the value that
  was listed last.\<close>

theorem environment_is_allowlisted:
  "map_of (sanitized_environment source) k =
     (if environment_key_allowed k then map_of (rev source) k else None)"
proof -
  have "map_of (filter (\<lambda>(k, v). environment_key_allowed k) xs) k =
      (if environment_key_allowed k then map_of xs k else None)" for xs :: "(string \<times> string) list"
    by (induction xs) auto
  then show ?thesis
    by (simp add: sanitized_environment_def map_of_of_entries rev_filter)
qed

text \<open>what the log reader hands to the sink is bounded by 16 KiB, but the buffer that gathers a line is
  not: for every size there is child output for which the reader holds a longer line in memory
  before it truncates it.\<close>

theorem log_buffer_unbounded:
  "list_all (\<lambda>(k, text, truncated). length text \<le> MAX_LOG_LINE) (log_reader s)
   \<and> (\<exists>s'. list_ex (\<lambda>(k, text, truncated). n < k) (log_reader s'))"
  unfolding list_all_iff list_ex_iff
proof
  have short: "length x \<le> MAX_LOG_LINE" if "log_line b = (x, t)" for b x t
  proof -
    have "length (dropWhile P (rev (take MAX_LOG_LINE b))) \<le> length (rev (take MAX_LOG_LINE b))" for P
      by (rule length_dropWhile_le)
    with that show ?thesis by (auto simp: log_line_def)
  qed
  show "\<forall>(k, text, truncated) \<in> set (log_reader s). length text \<le> MAX_LOG_LINE"
  proof (induction s rule: log_reader.induct)
    case (1 s)
    then show ?case
      by (subst log_reader.simps) (auto simp: Let_def dest: short split: prod.splits)
  qed
  have "takeWhile (\<lambda>c. c \<noteq> CHR 0x0A) (replicate (Suc n) CHR ''a'') = replicate (Suc n) CHR ''a''"
    by (intro takeWhile_eq_all_conv [THEN iffD2]) simp
  then have "\<exists>(k, text, truncated) \<in> set (log_reader (replicate (Suc n) CHR ''a'')). n < k"
    by (subst log_reader.simps) (simp add: Let_def split_beta del: replicate.simps)
  then show "\<exists>s'. \<exists>(k, text, truncated) \<in> set (log_reader s'). n < k" ..
qed

end
