(* ===== verification/Plugin_Manifest.thy ===== *)
theory Plugin_Manifest
  imports Plugin_Host Config Supervisor "HOL-Library.Multiset"
begin

text \<open>
  The manifest of a plugin artifact, \<open>crates/oikade-plugin-host/src/manifest.rs\<close>, the checks of
  \<open>Instance::new\<close> and the status reports of \<open>instance.rs\<close>. What the file system answers is a
  parameter, as is the decoder that \<open>serde\<close> derives for the manifest.
\<close>

unbundle bit_operations_syntax

section \<open>Manifests\<close>

definition MANIFEST_FILENAME :: string where "MANIFEST_FILENAME = ''oikade-plugin.yaml''"
definition MAX_MANIFEST_SIZE :: nat where "MAX_MANIFEST_SIZE = 65536"

record manifest =
  mf_api_version :: nat
  mf_id :: string
  mf_name :: string
  mf_version :: string
  mf_executable :: string
  mf_args :: "string list"

datatype manifest_invalid =
    ArtifactNotDirectory
  | ManifestYaml config_error
  | ManifestDecode string
  | ApiVersionDiffers nat
  | ManifestIdInvalid model_error
  | FieldPadded string
  | ExecutableRequired
  | ArgumentNul
  | ExecutableEscapes
  | ExecutableNotFile
  | ExecutableNotExecutable
  | ExecutableSymlinkEscapes

datatype manifest_error = EmptyArtifact | ManifestIo string | ManifestTooLarge | InvalidManifest manifest_invalid

record file_metadata =
  fm_is_file :: bool
  fm_mode :: "32 word"
  fm_len :: nat

record file_system =
  fs_canonicalize :: "string \<Rightarrow> (string, string) result"
  fs_is_dir :: "string \<Rightarrow> bool"
  fs_metadata :: "string \<Rightarrow> (string, file_metadata) result"
  fs_read :: "string \<Rightarrow> (string, string) result"

definition validate_manifest :: "manifest \<Rightarrow> (manifest_error, unit) result" where
  "validate_manifest m =
     (if mf_api_version m \<noteq> PROTOCOL_VERSION then Err (InvalidManifest (ApiVersionDiffers (mf_api_version m)))
      else and_then (map_err (\<lambda>e. InvalidManifest (ManifestIdInvalid e)) (validate_identifier (mf_id m))) (\<lambda>_.
      and_then (each (\<lambda>(name, v). reject (v = [] \<or> v \<noteq> trim v) (InvalidManifest (FieldPadded name)))
                  [(''name'', mf_name m), (''version'', mf_version m)]) (\<lambda>_.
      if mf_executable m = [] then Err (InvalidManifest ExecutableRequired)
      else reject (list_ex (\<lambda>a. CHR 0x00 \<in> set a) (mf_args m)) (InvalidManifest ArgumentNul))))"

definition load_manifest ::
  "file_system \<Rightarrow> config_lib \<Rightarrow> (json \<Rightarrow> (string, manifest) result) \<Rightarrow> string
     \<Rightarrow> (manifest_error, manifest \<times> string) result" where
  "load_manifest fs cl decode artifact =
     (if artifact = [] then Err EmptyArtifact
      else and_then (map_err ManifestIo (fs_canonicalize fs artifact)) (\<lambda>dir.
      if \<not> fs_is_dir fs dir then Err (InvalidManifest ArtifactNotDirectory)
      else
        let path = path_join dir MANIFEST_FILENAME in
        and_then (map_err ManifestIo (fs_metadata fs path)) (\<lambda>meta.
        if fm_len meta > MAX_MANIFEST_SIZE then Err ManifestTooLarge
        else and_then (map_err ManifestIo (fs_read fs path)) (\<lambda>encoded.
        and_then (map_err (\<lambda>e. InvalidManifest (ManifestYaml e)) (parse_yaml_document cl encoded)) (\<lambda>doc.
        and_then (map_err (\<lambda>e. InvalidManifest (ManifestDecode e)) (decode doc)) (\<lambda>m.
        and_then (validate_manifest m) (\<lambda>_.
        if is_absolute (mf_executable m)
           \<or> list_ex (\<lambda>c. c = ParentDir \<or> c = RootDir) (path_components (mf_executable m))
        then Err (InvalidManifest ExecutableEscapes)
        else
          let executable = path_join dir (mf_executable m) in
          and_then (map_err ManifestIo (fs_metadata fs executable)) (\<lambda>exe.
          if \<not> fm_is_file exe then Err (InvalidManifest ExecutableNotFile)
          else if fm_mode exe AND 73 = 0 then Err (InvalidManifest ExecutableNotExecutable)
          else and_then (map_err ManifestIo (fs_canonicalize fs executable)) (\<lambda>resolved.
            if \<not> path_starts_with resolved dir then Err (InvalidManifest ExecutableSymlinkEscapes)
            else Ok (m, resolved))))))))))"

section \<open>Instances\<close>

record instance_spec =
  sp_id :: string
  sp_artifact :: string
  sp_command_timeout :: nat
  sp_health_interval :: nat
  sp_health_timeout :: nat
  sp_restart_policy :: restart_policy

datatype instance_error =
    InstanceIdInvalid model_error
  | DurationsNotPositive
  | InstanceManifest manifest_error
  | InstanceSupervisor supervisor_error

definition instance_spec_new :: "string \<Rightarrow> string \<Rightarrow> instance_spec" where
  "instance_spec_new i artifact =
     \<lparr>sp_id = i, sp_artifact = artifact, sp_command_timeout = nanoseconds 5000, sp_health_interval = nanoseconds 10000,
      sp_health_timeout = nanoseconds 3000, sp_restart_policy = default_policy\<rparr>"

text \<open>\<open>Instance::new\<close>: the checks, and the instance before its first session.\<close>

definition instance_new ::
  "file_system \<Rightarrow> config_lib \<Rightarrow> (json \<Rightarrow> (string, manifest) result) \<Rightarrow> instance_spec
     \<Rightarrow> (instance_error, plugin_inner \<times> manifest \<times> string) result" where
  "instance_new fs cl decode spec =
     and_then (map_err InstanceIdInvalid (validate_identifier (sp_id spec))) (\<lambda>_.
       if sp_command_timeout spec = 0 \<or> sp_health_interval spec = 0 \<or> sp_health_timeout spec = 0
       then Err DurationsNotPositive
       else and_then (map_err InstanceManifest (load_manifest fs cl decode (sp_artifact spec))) (\<lambda>(m, exe).
         and_then (map_err InstanceSupervisor (policy_validate (sp_restart_policy spec))) (\<lambda>_.
         Ok (\<lparr>pi_id = sp_id spec, pi_manifest_id = mf_id m, pi_manifest_version = mf_version m,
              pi_prepared = None, pi_active = None\<rparr>, m, exe))))"

section \<open>Status\<close>

record plugin_status =
  pt_instance_id :: string
  pt_plugin_id :: string
  pt_name :: string
  pt_version :: string
  pt_api_version :: nat
  pt_artifact :: string
  pt_state :: sup_state
  pt_pid :: "nat option"
  pt_restarts :: nat
  pt_devices :: nat
  pt_last_error :: "string option"
  pt_integration_healthy :: bool
  pt_health_detail :: string

definition instance_status :: "instance_spec \<Rightarrow> manifest \<Rightarrow> plugin_inner \<Rightarrow> sup_status \<Rightarrow> plugin_status" where
  "instance_status spec m inner process =
     \<lparr>pt_instance_id = sp_id spec, pt_plugin_id = mf_id m, pt_name = mf_name m, pt_version = mf_version m,
      pt_api_version = PROTOCOL_VERSION, pt_artifact = sp_artifact spec, pt_state = ss_state process,
      pt_pid = ss_pid process, pt_restarts = ss_restarts process,
      pt_devices = (case pi_active inner of None \<Rightarrow> 0 | Some a \<Rightarrow> length (av_registered a)),
      pt_last_error = ss_last_error process,
      pt_integration_healthy = (case pi_active inner of None \<Rightarrow> False | Some a \<Rightarrow> av_healthy a),
      pt_health_detail = (case pi_active inner of None \<Rightarrow> [] | Some a \<Rightarrow> av_health_detail a)\<rparr>"

definition plugin_healthy :: "plugin_status \<Rightarrow> bool" where
  "plugin_healthy s \<longleftrightarrow> pt_state s = Running \<and> pt_integration_healthy s"

definition inventory_statuses :: "plugin_status list \<Rightarrow> plugin_status list" where
  "inventory_statuses ss = sort_key pt_instance_id ss"

section \<open>Lemmas\<close>

lemma load_manifest_confined:
  assumes "load_manifest fs cl decode artifact = Ok (m, exe)"
  obtains dir where "fs_canonicalize fs artifact = Ok dir" "fs_is_dir fs dir" "path_starts_with exe dir"
    "validate_manifest m = Ok ()"
  using assms by (auto simp: load_manifest_def and_then_eq_Ok Let_def split: if_splits)

lemma instance_new_idle: "instance_new fs cl decode spec = Ok (inner, m, exe) \<Longrightarrow> instance_ok inner rt \<and> owned inner = []"
  by (auto simp: instance_new_def and_then_eq_Ok instance_ok_def owned_def split: if_splits)

lemma healthy_has_active:
  "plugin_healthy (instance_status spec m inner process) \<Longrightarrow> \<exists>a. pi_active inner = Some a \<and> av_healthy a"
  by (auto simp: plugin_healthy_def instance_status_def split: option.splits)

lemma inventory_sorted: "sorted (map pt_instance_id (inventory_statuses ss))" "mset (inventory_statuses ss) = mset ss"
  by (simp_all add: inventory_statuses_def)

end
