(* ===== verification/Adapter_Session.thy ===== *)
theory Adapter_Session
  imports Rpc_Session
begin

text \<open>
  The daemon's side of an adapter connection, \<open>crates/oikade-adapter-host/src/session.rs\<close>: the
  second client of the request table. Unlike a plugin, an adapter also sends requests:
  each command runs in a task of its own, and at most 128 of them hold a permit. Names of
  the plugin session are prefixed where both crates have the same function.
\<close>

section \<open>State\<close>

definition MAX_INBOUND_CALLS :: nat where "MAX_INBOUND_CALLS = 128"

definition ADAPTER_METHOD_HELLO :: string where "ADAPTER_METHOD_HELLO = ''hello''"
definition ADAPTER_METHOD_COMMAND :: string where "ADAPTER_METHOD_COMMAND = ''command''"

record adapter_hello =
  ah_adapter_id :: string
  ah_adapter_version :: string
  ah_min_api_version :: nat
  ah_max_api_version :: nat
  ah_protocols :: "string list"

datatype adapter_failure =
    AdapterTransportClosed
  | AdapterFrameRejected wire_error
  | UnsupportedNotification
  | HelloBodyRequired
  | HelloUndecodable string
  | UnknownRequest nat
  | TrafficUnsupported
  | AdapterMethodMismatch string string
  | AdapterAbandonedLimit
  | ResponseNotEncoded string
  | AdapterFailedByHost string

type_synonym adapter_frame_ext = "unit adapter_envelope_ext"

record adapter_session = "(adapter_frame_ext, adapter_failure) rpc" +
  as_hello_taken :: bool
  as_hello :: "adapter_hello option"
  as_hello_received :: bool
  as_reading :: bool
  as_spawned :: "adapter_envelope list"
  as_running :: "adapter_envelope list"
  as_refused :: "adapter_envelope list"

definition adapter_session_spawn :: adapter_session where
  "adapter_session_spawn = rpc.extend rpc_new
     \<lparr>as_hello_taken = False, as_hello = None, as_hello_received = False, as_reading = True,
      as_spawned = [], as_running = [], as_refused = []\<rparr>"

section \<open>Operations\<close>

definition adapter_take_hello :: "adapter_session \<Rightarrow> adapter_session \<times> (adapter_failure session_error, unit) result" where
  "adapter_take_hello s =
     (if as_hello_taken s then (s, Err (SessionInvalid HelloConsumed))
      else (s\<lparr>as_hello_taken := True\<rparr>, Ok ()))"

definition adapter_poll_hello :: "bool \<Rightarrow> adapter_session \<Rightarrow> (adapter_failure session_error, adapter_hello) result option" where
  "adapter_poll_hello expired s =
     (case as_hello s of
        Some h \<Rightarrow> Some (Ok h)
      | None \<Rightarrow> if \<not> as_reading s then Some (Err (closed_error s))
                else if expired then Some (Err SessionTimeout) else None)"

definition adapter_frame :: "frame_kind \<Rightarrow> nat \<Rightarrow> string \<Rightarrow> string option \<Rightarrow> protocol_error option \<Rightarrow> adapter_envelope" where
  "adapter_frame k i m body err =
     \<lparr>en_version = PROTOCOL_VERSION, en_id = i, en_method = m, en_body = body, en_error = err, en_kind = k\<rparr>"

text \<open>\<open>call\<close> up to the send: here the entry is made before the request is encoded.\<close>

definition adapter_call_begin ::
  "string \<Rightarrow> (string, string) result \<Rightarrow> adapter_session
     \<Rightarrow> adapter_session \<times> (adapter_failure session_error, adapter_envelope) result" where
  "adapter_call_begin m encoded s =
     (case call_open s of
        (s', Err e) \<Rightarrow> (s', Err e)
      | (s', Ok i) \<Rightarrow>
          (s', and_then (map_err (\<lambda>d. SessionInvalid (BodyNotEncoded d)) encoded) (\<lambda>body.
                 Ok (adapter_frame Request i m (Some body) None))))"

definition adapter_call_poll ::
  "(string \<Rightarrow> (string, 'b) result) \<Rightarrow> string \<Rightarrow> nat \<Rightarrow> bool \<Rightarrow> adapter_session
     \<Rightarrow> adapter_session \<times> (adapter_failure session_error, 'b) result option" where
  "adapter_call_poll decode m i expired s =
     (case take_answer i s of
        (s', Some (Err e)) \<Rightarrow> (s', Some (Err e))
      | (s', Some (Ok e)) \<Rightarrow> (case call_finish AdapterMethodMismatch decode m e s' of (t, r) \<Rightarrow> (t, Some r))
      | (s', None) \<Rightarrow>
          if expired then (abandon AdapterAbandonedLimit i (drop_answer i s'), Some (Err SessionTimeout))
          else (s', None))"

text \<open>\<open>respond\<close>, on the encoded result of the command; \<open>None\<close> while the queue has no room.\<close>

definition respond :: "adapter_envelope \<Rightarrow> (protocol_error, (string, string) result) result \<Rightarrow> adapter_session
     \<Rightarrow> adapter_session option" where
  "respond request result s =
     (case result of
        Ok (Err e) \<Rightarrow> Some (session_fail (ResponseNotEncoded e) s)
      | Ok (Ok body) \<Rightarrow> send_frame (adapter_frame Response (en_id request) (en_method request) (Some body) None) s
      | Err pe \<Rightarrow> send_frame (adapter_frame Response (en_id request) (en_method request) None (Some pe)) s)"

definition busy_error :: protocol_error where
  "busy_error = \<lparr>pe_code = ''busy'', pe_message = ''adapter command concurrency limit reached''\<rparr>"

text \<open>
  The task of \<open>dispatch_command\<close>: it takes a permit or is refused one; then it sends the
  refusal, or the answer of the handler.
\<close>

definition begin_dispatch :: "adapter_envelope \<Rightarrow> adapter_session \<Rightarrow> adapter_session" where
  "begin_dispatch request s =
     (if request \<notin> set (as_spawned s) then s
      else let s' = s\<lparr>as_spawned := remove1 request (as_spawned s)\<rparr>
           in if length (as_running s) < MAX_INBOUND_CALLS then s'\<lparr>as_running := request # as_running s\<rparr>
              else s'\<lparr>as_refused := request # as_refused s\<rparr>)"

definition refuse_dispatch :: "adapter_envelope \<Rightarrow> adapter_session \<Rightarrow> adapter_session" where
  "refuse_dispatch request s =
     (if request \<notin> set (as_refused s) then s
      else case respond request (Err busy_error) s of
        None \<Rightarrow> s
      | Some s' \<Rightarrow> s'\<lparr>as_refused := remove1 request (as_refused s)\<rparr>)"

definition command_result ::
  "(string \<Rightarrow> (string, 'c) result) \<Rightarrow> ('c \<Rightarrow> (protocol_error, 'r) result) \<Rightarrow> adapter_envelope \<Rightarrow> (protocol_error, 'r) result" where
  "command_result decode handle request =
     (case en_body request of
        None \<Rightarrow> Err \<lparr>pe_code = ''invalid_request'', pe_message = ''adapter command body is required''\<rparr>
      | Some body \<Rightarrow>
          (case decode body of
             Ok c \<Rightarrow> handle c
           | Err e \<Rightarrow> Err \<lparr>pe_code = ''invalid_request'', pe_message = e\<rparr>))"

definition finish_dispatch ::
  "adapter_envelope \<Rightarrow> (protocol_error, (string, string) result) result \<Rightarrow> adapter_session \<Rightarrow> adapter_session" where
  "finish_dispatch request result s =
     (if request \<notin> set (as_running s) then s
      else case respond request result s of
        None \<Rightarrow> s
      | Some s' \<Rightarrow> s'\<lparr>as_running := remove1 request (as_running s)\<rparr>)"

text \<open>One turn of \<open>read_loop\<close>: the effect of a frame, or the reason to fail.\<close>

definition adapter_handle ::
  "(string \<Rightarrow> (string, adapter_hello) result) \<Rightarrow> adapter_envelope \<Rightarrow> adapter_session
     \<Rightarrow> adapter_session \<times> (adapter_failure, unit) result" where
  "adapter_handle dh e s =
     (case en_kind e of
        Notification \<Rightarrow>
          if en_method e \<noteq> ADAPTER_METHOD_HELLO \<or> as_hello_received s then (s, Err UnsupportedNotification)
          else (case and_then (ok_or HelloBodyRequired (en_body e)) (\<lambda>b. map_err HelloUndecodable (dh b)) of
                  Err f \<Rightarrow> (s, Err f)
                | Ok h \<Rightarrow> (s\<lparr>as_hello_received := True, as_hello := Some h\<rparr>, Ok ()))
      | Response \<Rightarrow>
          if as_hello_received s
          then (case deliver e s of
                  (s', True) \<Rightarrow> (s', Ok ())
                | (s', False) \<Rightarrow> (s', Err (UnknownRequest (en_id e))))
          else (s, Err TrafficUnsupported)
      | Request \<Rightarrow>
          if as_hello_received s \<and> en_method e = ADAPTER_METHOD_COMMAND
          then (s\<lparr>as_spawned := as_spawned s @ [e]\<rparr>, Ok ())
          else (s, Err TrafficUnsupported))"

definition adapter_stop_reading :: "adapter_failure \<Rightarrow> adapter_session \<Rightarrow> adapter_session" where
  "adapter_stop_reading f s = (session_fail f s)\<lparr>as_reading := False\<rparr>"

definition adapter_read_turn ::
  "(string \<Rightarrow> (string, adapter_hello) result) \<Rightarrow> (wire_error, adapter_envelope option) result \<Rightarrow> adapter_session \<Rightarrow> adapter_session" where
  "adapter_read_turn dh incoming s =
     (if \<not> as_reading s then s
      else case incoming of
        Err w \<Rightarrow> adapter_stop_reading (AdapterFrameRejected w) s
      | Ok None \<Rightarrow> adapter_stop_reading AdapterTransportClosed s
      | Ok (Some e) \<Rightarrow>
          (case adapter_handle dh e s of
             (s', Ok _) \<Rightarrow> s'
           | (s', Err f) \<Rightarrow> adapter_stop_reading f s'))"

section \<open>Interleavings\<close>

datatype adapter_event =
    AdapterSetPid nat
  | AdapterTakeHello
  | AdapterBeginCall string "(string, string) result"
  | AdapterSend adapter_envelope
  | AdapterPoll string nat bool
  | AdapterRead "(wire_error, adapter_envelope option) result"
  | AdapterWrite "wire_error option"
  | AdapterBegin adapter_envelope
  | AdapterRefuse adapter_envelope
  | AdapterFinish adapter_envelope "(protocol_error, (string, string) result) result"
  | AdapterHostFails string

fun adapter_exec :: "(string \<Rightarrow> (string, adapter_hello) result) \<Rightarrow> adapter_event \<Rightarrow> adapter_session \<Rightarrow> adapter_session" where
  "adapter_exec dh (AdapterSetPid p) s = set_pid p s"
| "adapter_exec dh AdapterTakeHello s = fst (adapter_take_hello s)"
| "adapter_exec dh (AdapterBeginCall m encoded) s = fst (adapter_call_begin m encoded s)"
| "adapter_exec dh (AdapterSend e) s = (case call_send e s of None \<Rightarrow> s | Some (s', _) \<Rightarrow> s')"
| "adapter_exec dh (AdapterPoll m i expired) s = fst (adapter_call_poll (\<lambda>b. Ok b) m i expired s)"
| "adapter_exec dh (AdapterRead incoming) s = adapter_read_turn dh incoming s"
| "adapter_exec dh (AdapterWrite failed) s =
     (case write_turn (map_option AdapterFrameRejected failed) s of None \<Rightarrow> s | Some (s', _) \<Rightarrow> s')"
| "adapter_exec dh (AdapterBegin request) s = begin_dispatch request s"
| "adapter_exec dh (AdapterRefuse request) s = refuse_dispatch request s"
| "adapter_exec dh (AdapterFinish request result) s = finish_dispatch request result s"
| "adapter_exec dh (AdapterHostFails m) s = session_fail (AdapterFailedByHost m) s"

definition adapter_run :: "(string \<Rightarrow> (string, adapter_hello) result) \<Rightarrow> adapter_event list \<Rightarrow> adapter_session \<Rightarrow> adapter_session" where
  "adapter_run dh evs s = fold (adapter_exec dh) evs s"

section \<open>The session is a client of the request table\<close>

definition respond_ops ::
  "adapter_envelope \<Rightarrow> (protocol_error, (string, string) result) result \<Rightarrow> (adapter_frame_ext, adapter_failure) rpc_op list" where
  "respond_ops request result =
     (case result of
        Ok (Err e) \<Rightarrow> [OpFail (ResponseNotEncoded e)]
      | Ok (Ok body) \<Rightarrow> [OpFrame (adapter_frame Response (en_id request) (en_method request) (Some body) None)]
      | Err pe \<Rightarrow> [OpFrame (adapter_frame Response (en_id request) (en_method request) None (Some pe))])"

definition adapter_poll_ops :: "string \<Rightarrow> nat \<Rightarrow> bool \<Rightarrow> adapter_session \<Rightarrow> (adapter_frame_ext, adapter_failure) rpc_op list" where
  "adapter_poll_ops m i expired s = OpTake i #
     (case snd (take_answer i s) of
        None \<Rightarrow> if expired then [OpDrop i, OpAbandon AdapterAbandonedLimit i] else []
      | Some (Err _) \<Rightarrow> []
      | Some (Ok e) \<Rightarrow> if en_method e \<noteq> m then [OpFail (AdapterMethodMismatch (en_method e) m)] else [])"

definition delivers :: "adapter_envelope \<Rightarrow> adapter_session \<Rightarrow> bool" where
  "delivers e s \<longleftrightarrow> en_kind e = Response \<and> as_hello_received s"

fun adapter_read_ops ::
  "(string \<Rightarrow> (string, adapter_hello) result) \<Rightarrow> (wire_error, adapter_envelope option) result \<Rightarrow> adapter_session
     \<Rightarrow> (adapter_frame_ext, adapter_failure) rpc_op list" where
  "adapter_read_ops dh (Err w) s = [OpFail (AdapterFrameRejected w)]"
| "adapter_read_ops dh (Ok None) s = [OpFail AdapterTransportClosed]"
| "adapter_read_ops dh (Ok (Some e)) s =
     (if delivers e s then [OpDeliver e] else [])
     @ (case snd (adapter_handle dh e s) of Ok _ \<Rightarrow> [] | Err f \<Rightarrow> [OpFail f])"

fun adapter_ops :: "(string \<Rightarrow> (string, adapter_hello) result) \<Rightarrow> adapter_event \<Rightarrow> adapter_session
     \<Rightarrow> (adapter_frame_ext, adapter_failure) rpc_op list" where
  "adapter_ops dh (AdapterSetPid p) s = [OpSetPid p]"
| "adapter_ops dh AdapterTakeHello s = []"
| "adapter_ops dh (AdapterBeginCall m encoded) s = [OpOpen]"
| "adapter_ops dh (AdapterSend e) s = [OpSend e]"
| "adapter_ops dh (AdapterPoll m i expired) s = adapter_poll_ops m i expired s"
| "adapter_ops dh (AdapterRead incoming) s = (if as_reading s then adapter_read_ops dh incoming s else [])"
| "adapter_ops dh (AdapterWrite failed) s = [OpWrite (map_option AdapterFrameRejected failed)]"
| "adapter_ops dh (AdapterBegin request) s = []"
| "adapter_ops dh (AdapterRefuse request) s =
     (if request \<in> set (as_refused s) then respond_ops request (Err busy_error) else [])"
| "adapter_ops dh (AdapterFinish request result) s =
     (if request \<in> set (as_running s) then respond_ops request result else [])"
| "adapter_ops dh (AdapterHostFails m) s = [OpFail (AdapterFailedByHost m)]"

fun responses_read :: "adapter_event \<Rightarrow> adapter_envelope set" where
  "responses_read (AdapterRead (Ok (Some e))) = {e}"
| "responses_read _ = {}"

abbreviation adapter_table :: "adapter_session \<Rightarrow> (adapter_frame_ext, adapter_failure) rpc" where
  "adapter_table \<equiv> rpc.truncate"

lemma adapter_table_fields [simp]:
  "rpc_pending (adapter_table s) = rpc_pending s" "rpc_next_id (adapter_table s) = rpc_next_id s"
  "rpc_answers (adapter_table s) = rpc_answers s" "rpc_failure (adapter_table s) = rpc_failure s"
  "rpc_killed (adapter_table s) = rpc_killed s" "rpc_writer_open (adapter_table s) = rpc_writer_open s"
  "rpc_outbound (adapter_table s) = rpc_outbound s" "rpc_ignored (adapter_table s) = rpc_ignored s"
  by (simp_all add: rpc.truncate_def)

lemma adapter_table_rest [simp]:
  "adapter_table (s\<lparr>as_hello_taken := a\<rparr>) = adapter_table s" "adapter_table (s\<lparr>as_hello := b\<rparr>) = adapter_table s"
  "adapter_table (s\<lparr>as_hello_received := c\<rparr>) = adapter_table s" "adapter_table (s\<lparr>as_reading := d\<rparr>) = adapter_table s"
  "adapter_table (s\<lparr>as_spawned := f\<rparr>) = adapter_table s" "adapter_table (s\<lparr>as_running := g\<rparr>) = adapter_table s"
  "adapter_table (s\<lparr>as_refused := h\<rparr>) = adapter_table s"
  by (simp_all add: rpc.truncate_def)

lemma adapter_rpc_ok_table: "rpc_ok (adapter_table s) = rpc_ok s"
  by (simp add: rpc_ok_def rpc_bounded_def rpc_ids_def rpc_answered_def rpc_killed_once_def)

lemma table_respond:
  "adapter_table (case respond request result s of None \<Rightarrow> s | Some s' \<Rightarrow> s')
     = fold rpc_exec (respond_ops request result) (adapter_table s)"
  using truncate_exec [of "OpFrame (adapter_frame Response (en_id request) (en_method request) body err)" s for body err]
  by (auto simp: respond_def respond_ops_def truncate_op split: sum.split)

lemma table_refuse_dispatch:
  "adapter_table (refuse_dispatch request s)
     = fold rpc_exec (adapter_ops dh (AdapterRefuse request) s) (adapter_table s)"
  using table_respond [of s request "Err busy_error"] by (auto simp: refuse_dispatch_def split: option.splits)

lemma table_finish_dispatch:
  "adapter_table (finish_dispatch request result s)
     = fold rpc_exec (adapter_ops dh (AdapterFinish request result) s) (adapter_table s)"
  using table_respond [of s request result] by (auto simp: finish_dispatch_def split: option.splits)

lemma table_adapter_poll:
  "adapter_table (fst (adapter_call_poll decode m i expired s)) = fold rpc_exec (adapter_poll_ops m i expired s) (adapter_table s)"
proof -
  obtain t r where t: "take_answer i s = (t, r)" by (cases "take_answer i s")
  have "fst (take_answer i (adapter_table s)) = adapter_table t" using truncate_op(4) [of i s] by (simp add: t)
  then show ?thesis
    by (auto simp: t adapter_call_poll_def adapter_poll_ops_def call_finish_def truncate_op split: option.split sum.split)
qed

lemma table_adapter_handle:
  "adapter_table (fst (adapter_handle dh e s)) =
     (if delivers e s then fst (deliver e (adapter_table s)) else adapter_table s)"
  using truncate_op(7) [of e s]
  by (auto simp: adapter_handle_def delivers_def split: frame_kind.split sum.split prod.split bool.split)

lemma table_adapter_read:
  "adapter_table (adapter_read_turn dh incoming s)
     = fold rpc_exec (adapter_ops dh (AdapterRead incoming) s) (adapter_table s)"
proof (cases "\<exists>e. incoming = Ok (Some e) \<and> as_reading s")
  case True
  then obtain e where e: "incoming = Ok (Some e)" "as_reading s" by auto
  obtain t r where h: "adapter_handle dh e s = (t, r)" by (cases "adapter_handle dh e s")
  then show ?thesis
    using e table_adapter_handle [of dh e s]
    by (cases r) (auto simp: adapter_read_turn_def adapter_stop_reading_def truncate_op)
next
  case False
  then show ?thesis
    by (auto simp: adapter_read_turn_def adapter_stop_reading_def truncate_op split: sum.split option.split)
qed

lemma adapter_table_exec: "adapter_table (adapter_exec dh ev s) = fold rpc_exec (adapter_ops dh ev s) (adapter_table s)"
proof (cases ev)
  case (AdapterBeginCall m encoded)
  then show ?thesis
    by (auto simp: adapter_call_begin_def truncate_op simp flip: truncate_op split: sum.split prod.split)
next
  case (AdapterSend e)
  then show ?thesis using truncate_exec [of "OpSend e" s] by simp
next
  case (AdapterWrite failed)
  then show ?thesis using truncate_exec [of "OpWrite (map_option AdapterFrameRejected failed)" s] by simp
qed (simp_all add: truncate_op adapter_take_hello_def table_adapter_poll table_adapter_read begin_dispatch_def Let_def
    table_refuse_dispatch table_finish_dispatch del: adapter_ops.simps(6,9,10))

section \<open>The reader\<close>

definition aux :: "adapter_session \<Rightarrow> bool \<times> adapter_hello option \<times> bool \<times> adapter_envelope list \<times> adapter_envelope list \<times> adapter_envelope list" where
  "aux s = (as_reading s, as_hello s, as_hello_received s, as_spawned s, as_running s, as_refused s)"

lemma aux_rpc_exec [simp]: "aux (rpc_exec op s) = aux s"
  by (cases op) (simp_all add: aux_def rpc_defs split: option.split sum.split list.split)

lemmas aux_ops [simp] =
  aux_rpc_exec [of "OpSetPid p" for p, simplified] aux_rpc_exec [of "OpFail f" for f, simplified]
  aux_rpc_exec [of OpOpen, simplified] aux_rpc_exec [of "OpTake i" for i, simplified]
  aux_rpc_exec [of "OpDrop i" for i, simplified] aux_rpc_exec [of "OpAbandon f i" for f i, simplified]
  aux_rpc_exec [of "OpDeliver e" for e, simplified]

lemma aux_respond: "respond request result s = Some s' \<Longrightarrow> aux s' = aux s"
  by (auto simp: respond_def send_frame_def aux_def session_fail_def split: sum.splits if_splits)

lemma aux_results:
  "take_answer i s = (t, r) \<Longrightarrow> aux t = aux s"
  "call_open s = (t, q) \<Longrightarrow> aux t = aux s"
  "deliver e s = (t, d) \<Longrightarrow> aux t = aux s"
  by (metis aux_ops(4) fst_conv, metis aux_ops(3) fst_conv, metis aux_ops(7) fst_conv)

lemma aux_poll [simp]: "aux (fst (adapter_call_poll decode m i expired s)) = aux s"
  by (auto simp: adapter_call_poll_def call_finish_def dest: aux_results split: option.split sum.split prod.split)

lemma aux_call [simp]: "aux (fst (adapter_call_begin m encoded s)) = aux s"
  by (auto simp: adapter_call_begin_def dest: aux_results split: sum.split prod.split)

lemma aux_write [simp]: "aux (case write_turn f s of None \<Rightarrow> s | Some (s', _) \<Rightarrow> s') = aux s"
  using aux_rpc_exec [of "OpWrite f" s] by simp

lemma aux_send [simp]: "aux (case call_send e s of None \<Rightarrow> s | Some (s', _) \<Rightarrow> s') = aux s"
  using aux_rpc_exec [of "OpSend e" s] by simp

lemma handle_cases:
  obtains (failed) f t where "adapter_handle dh e s = (t, Err f)" "aux t = aux s"
  | (hello) h where "adapter_handle dh e s = (s\<lparr>as_hello_received := True, as_hello := Some h\<rparr>, Ok ())" "\<not> as_hello_received s"
  | (response) t where "adapter_handle dh e s = (t, Ok ())" "aux t = aux s" "as_hello_received s"
  | (command) "adapter_handle dh e s = (s\<lparr>as_spawned := as_spawned s @ [e]\<rparr>, Ok ())" "as_hello_received s"
      "en_kind e = Request" "en_method e = ADAPTER_METHOD_COMMAND"
proof (cases "en_kind e")
  case Notification
  let ?body = "and_then (ok_or HelloBodyRequired (en_body e)) (\<lambda>b. map_err HelloUndecodable (dh b))"
  show thesis
  proof (cases "en_method e \<noteq> ADAPTER_METHOD_HELLO \<or> as_hello_received s")
    case True
    then show thesis using Notification by (intro failed [of s UnsupportedNotification]) (simp_all add: adapter_handle_def)
  next
    case new: False
    show thesis
    proof (cases ?body)
      case (Inl f)
      then show thesis using Notification new by (intro failed [of s f]) (simp_all add: adapter_handle_def)
    next
      case (Inr h)
      then show thesis using Notification new by (intro hello [of h]) (simp_all add: adapter_handle_def)
    qed
  qed
next
  case Response
  obtain t r where d: "deliver e s = (t, r)" by (cases "deliver e s")
  consider (early) "\<not> as_hello_received s" | (known) "as_hello_received s" r | (unknown) "as_hello_received s" "\<not> r" by blast
  then show thesis
  proof cases
    case early
    then show thesis using Response by (intro failed [of s TrafficUnsupported]) (simp_all add: adapter_handle_def)
  next
    case known
    then show thesis using Response d aux_results(3) [OF d] by (intro response [of t]) (simp_all add: adapter_handle_def)
  next
    case unknown
    then show thesis using Response d aux_results(3) [OF d]
      by (intro failed [of t "UnknownRequest (en_id e)"]) (simp_all add: adapter_handle_def)
  qed
next
  case Request
  show thesis
  proof (cases "as_hello_received s \<and> en_method e = ADAPTER_METHOD_COMMAND")
    case True
    then show thesis using Request by (intro command) (simp_all add: adapter_handle_def)
  next
    case False
    then show thesis using Request by (intro failed [of s TrafficUnsupported]) (auto simp: adapter_handle_def)
  qed
qed

lemma read_cases:
  assumes "as_reading s"
  obtains (stopped) t where "aux t = aux s" "rpc_failure (adapter_read_turn dh incoming s) \<noteq> None"
      "aux (adapter_read_turn dh incoming s) = aux (t\<lparr>as_reading := False\<rparr>)"
  | (same) "aux (adapter_read_turn dh incoming s) = aux s" "as_hello_received s"
  | (hello) h where "aux (adapter_read_turn dh incoming s) = aux (s\<lparr>as_hello_received := True, as_hello := Some h\<rparr>)"
  | (command) e where "aux (adapter_read_turn dh incoming s) = aux (s\<lparr>as_spawned := as_spawned s @ [e]\<rparr>)"
      "as_hello_received s" "en_kind e = Request" "en_method e = ADAPTER_METHOD_COMMAND"
proof -
  have stop: "rpc_failure (adapter_stop_reading f t) \<noteq> None" "aux (adapter_stop_reading f t) = aux (t\<lparr>as_reading := False\<rparr>)"
    for f t by (auto simp: adapter_stop_reading_def session_fail_def aux_def)
  consider (bad) w where "incoming = Err w" | (eof) "incoming = Ok None" | (frame) e where "incoming = Ok (Some e)"
    by (metis obj_sumE option.exhaust)
  then show thesis
  proof cases
    case bad
    then show thesis using assms stop by (intro stopped [of s]) (simp_all add: adapter_read_turn_def)
  next
    case eof
    then show thesis using assms stop by (intro stopped [of s]) (simp_all add: adapter_read_turn_def)
  next
    case (frame e)
    show thesis
    proof (cases rule: handle_cases [of dh e s])
      case (failed f t)
      then show thesis using frame assms stop [of f t] by (intro stopped [of t]) (simp_all add: adapter_read_turn_def)
    next
      case (hello h)
      then show thesis using frame assms by (intro that(3) [of h]) (simp add: adapter_read_turn_def)
    next
      case (response t)
      then show thesis using frame assms by (intro same) (simp_all add: adapter_read_turn_def)
    next
      case command
      then show thesis using frame assms by (intro that(4) [of e]) (simp_all add: adapter_read_turn_def)
    qed
  qed
qed

lemma aux_fields:
  assumes "aux s = aux t"
  shows "as_reading s = as_reading t" "as_hello s = as_hello t" "as_hello_received s = as_hello_received t"
    "as_spawned s = as_spawned t" "as_running s = as_running t" "as_refused s = as_refused t"
  using assms by (simp_all add: aux_def)

lemma reading_read: "as_reading (adapter_read_turn dh incoming s) \<Longrightarrow> as_reading s"
  by (cases "as_reading s") (simp_all add: adapter_read_turn_def)

lemma dispatch_aux:
  "as_reading (begin_dispatch request s) = as_reading s" "as_reading (refuse_dispatch request s) = as_reading s"
  "as_reading (finish_dispatch request result s) = as_reading s" "as_reading (fst (adapter_take_hello s)) = as_reading s"
  by (auto simp: begin_dispatch_def Let_def refuse_dispatch_def finish_dispatch_def adapter_take_hello_def
      dest!: aux_respond aux_fields(1) split: option.split)

lemma adapter_reading_exec: "\<nexists>incoming. ev = AdapterRead incoming \<Longrightarrow> as_reading (adapter_exec dh ev s) = as_reading s"
  by (cases ev) (simp_all add: dispatch_aux aux_fields(1) [OF aux_poll] aux_fields(1) [OF aux_call]
      aux_fields(1) [OF aux_write] aux_fields(1) [OF aux_send] aux_fields(1) [OF aux_ops(1)] aux_fields(1) [OF aux_ops(2)])

lemma adapter_stops_failed:
  assumes "as_reading s" and "\<not> as_reading (adapter_exec dh ev s)"
  shows "rpc_failure (adapter_exec dh ev s) \<noteq> None"
proof -
  from assms adapter_reading_exec [of ev dh s] obtain incoming where ev: "ev = AdapterRead incoming" by blast
  from assms(1) show ?thesis
  proof (cases rule: read_cases [of s dh incoming])
    case stopped
    then show ?thesis by (simp add: ev)
  next
    case same
    then show ?thesis using assms ev by (simp add: aux_def)
  next
    case (hello h)
    then show ?thesis using assms ev by (simp add: aux_def)
  next
    case (command e)
    then show ?thesis using assms ev by (simp add: aux_def)
  qed
qed

lemma adapter_read_ops_deliver: "OpDeliver e \<in> set (adapter_read_ops dh incoming s) \<Longrightarrow> incoming = Ok (Some e)"
  by (cases "(dh, incoming, s)" rule: adapter_read_ops.cases) (auto split: if_splits sum.splits)

lemma adapter_deliver_only_read:
  assumes "OpDeliver e \<in> set (adapter_ops dh ev s)"
  shows "as_reading s" and "e \<in> responses_read ev"
  using assms
  by (cases ev; simp add: adapter_poll_ops_def respond_ops_def split: if_splits option.splits sum.splits;
      auto dest: adapter_read_ops_deliver)+

interpretation adapter_rpc: rpc_reader "adapter_exec dh" adapter_table "adapter_ops dh" responses_read "\<lambda>s. \<not> as_reading s" for dh
proof unfold_locales
  show "adapter_table (adapter_exec dh ev s) = fold rpc_exec (adapter_ops dh ev s) (adapter_table s)" for ev s
    by (rule adapter_table_exec)
  show "OpDeliver e \<in> set (adapter_ops dh ev s) \<Longrightarrow> e \<in> responses_read ev" for e ev s
    by (rule adapter_deliver_only_read)
  show "\<not> as_reading s \<Longrightarrow> \<not> as_reading (adapter_exec dh ev s)" for s ev
    using adapter_reading_exec [of ev dh s] reading_read [of dh _ s] by (cases "\<exists>i. ev = AdapterRead i") auto
  show "\<not> as_reading s \<Longrightarrow> OpDeliver e \<notin> set (adapter_ops dh ev s)" for s e ev
    using adapter_deliver_only_read(1) by blast
  show "\<not> \<not> as_reading s \<Longrightarrow> \<not> as_reading (adapter_exec dh ev s) \<Longrightarrow> rpc_failure (adapter_table (adapter_exec dh ev s)) \<noteq> None"
    for s ev using adapter_stops_failed [of s dh ev] by simp
qed

section \<open>Properties\<close>

text \<open>
  What the session knows of the commands of its adapter: no more than 128 run, each of
  them is a \<open>command\<close> request, and none is accepted before the hello of the adapter.
\<close>

definition is_command :: "adapter_envelope \<Rightarrow> bool" where
  "is_command e \<longleftrightarrow> en_kind e = Request \<and> en_method e = ADAPTER_METHOD_COMMAND"

definition commands_ok :: "adapter_session \<Rightarrow> bool" where
  "commands_ok s \<longleftrightarrow> length (as_running s) \<le> MAX_INBOUND_CALLS
     \<and> list_all is_command (as_spawned s @ as_running s @ as_refused s)
     \<and> (as_spawned s @ as_running s @ as_refused s \<noteq> [] \<or> as_hello s \<noteq> None \<longrightarrow> as_hello_received s)"

definition adapter_session_ok :: "adapter_session \<Rightarrow> bool" where
  "adapter_session_ok s \<longleftrightarrow> rpc_ok s \<and> commands_ok s \<and> (as_reading s \<or> rpc_failure s \<noteq> None)"

lemma commands_aux: "aux s = aux t \<Longrightarrow> commands_ok s = commands_ok t"
  by (simp add: commands_ok_def aux_def)

lemma commands_read: "commands_ok s \<Longrightarrow> commands_ok (adapter_read_turn dh incoming s)"
proof (cases "as_reading s")
  case True
  assume ok: "commands_ok s"
  from True show ?thesis
  proof (cases rule: read_cases [of s dh incoming])
    case (stopped t)
    then show ?thesis using ok by (simp add: commands_ok_def aux_def)
  next
    case same
    then show ?thesis using ok commands_aux [OF same(1)] by simp
  next
    case (hello h)
    then show ?thesis using ok by (simp add: commands_ok_def aux_def)
  next
    case (command e)
    then show ?thesis using ok by (simp add: commands_ok_def aux_def is_command_def)
  qed
qed (simp add: adapter_read_turn_def)

lemma list_all_remove1: "list_all P xs \<Longrightarrow> list_all P (remove1 x xs)"
  by (induction xs) auto

lemma commands_dispatch:
  assumes "commands_ok s"
  shows "commands_ok (begin_dispatch request s)" and "commands_ok (refuse_dispatch request s)"
    and "commands_ok (finish_dispatch request result s)"
proof -
  have "is_command request" if "request \<in> set (as_spawned s)"
    using assms that by (auto simp: commands_ok_def list_all_iff)
  then show "commands_ok (begin_dispatch request s)"
    using assms by (auto simp: begin_dispatch_def Let_def commands_ok_def list_all_remove1)
  show "commands_ok (refuse_dispatch request s)"
    using assms by (auto simp: refuse_dispatch_def commands_ok_def list_all_remove1 aux_def dest!: aux_respond split: option.split)
  show "commands_ok (finish_dispatch request result s)"
    using assms by (auto simp: finish_dispatch_def commands_ok_def list_all_remove1 aux_def length_remove1
        dest!: aux_respond split: option.split)
qed

lemma commands_exec: "commands_ok s \<Longrightarrow> commands_ok (adapter_exec dh ev s)"
  by (cases ev)
     (simp_all add: commands_dispatch commands_read commands_aux [OF aux_poll] commands_aux [OF aux_call]
       commands_aux [OF aux_write] commands_aux [OF aux_send] commands_aux [OF aux_ops(1)] commands_aux [OF aux_ops(2)],
      simp add: commands_ok_def adapter_take_hello_def)

lemma commands_run: "commands_ok s \<Longrightarrow> commands_ok (fold (adapter_exec dh) evs s)"
  by (induction evs arbitrary: s) (simp_all add: commands_exec)

lemma rpc_ok_spawn: "rpc_ok adapter_session_spawn"
  by (simp add: adapter_session_spawn_def rpc.defs rpc_new_def rpc_ok_def rpc_bounded_def rpc_ids_def
      rpc_answered_def rpc_killed_once_def)

text \<open>C15: However its calls, its reader, its writer and the tasks of its commands interleave,
  an adapter session keeps the bounds of its request table (1024 pending, 2048 ignored, 128
  outbound frames), files every response under the identifier of its request, runs at most
  128 commands at a time, accepts none before the hello of the adapter, and stops reading
  only after it has recorded a failure.
\<close>

theorem adapter_session_invariant: "adapter_session_ok (adapter_run dh evs adapter_session_spawn)"
proof -
  have "rpc_ok (adapter_run dh evs adapter_session_spawn)"
    using adapter_rpc.run_ok [of adapter_session_spawn dh evs]
    by (simp add: adapter_run_def adapter_rpc_ok_table rpc_ok_spawn)
  moreover have "commands_ok (adapter_run dh evs adapter_session_spawn)"
    unfolding adapter_run_def by (rule commands_run) (simp add: adapter_session_spawn_def commands_ok_def rpc.defs)
  moreover have "as_reading (adapter_run dh evs adapter_session_spawn) \<or> rpc_failure (adapter_run dh evs adapter_session_spawn) \<noteq> None"
    using adapter_rpc.run_stopped_failed [of adapter_session_spawn dh evs]
    by (auto simp: adapter_run_def adapter_session_spawn_def rpc.defs)
  ultimately show ?thesis by (simp add: adapter_session_ok_def)
qed

end
