(* ===== verification/Adapter_Projection.thy ===== *)
theory Adapter_Projection
  imports Runtime_Runs Wire_Values Frame_Codec
begin

text \<open>
  What an adapter sees of the runtime, \<open>crates/oikade-adapter-host/src/projection.rs\<close>: the
  snapshot that a synchronisation sends, the keys under which its capabilities are known, the
  event that reports one change, and the handler that executes a command of the adapter. The
  types are those of \<open>crates/oikade-adapter-api/src/v1.rs\<close>.
\<close>

section \<open>Messages\<close>

record adapter_capability =
  ac_id :: string
  ac_type :: string
  ac_name :: string
  ac_kind :: string
  ac_permissions :: permissions

record adapter_device =
  ad_id :: string
  ad_name :: string
  ad_manufacturer :: string
  ad_model :: string
  ad_capabilities :: "adapter_capability list"

record capability_state =
  cs_capability_id :: string
  cs_value :: wire_value

record adapter_device_state =
  ads_device :: adapter_device
  ads_values :: "capability_state list"

record sync_message =
  sy_generation :: nat
  sy_revision :: nat
  sy_devices :: "adapter_device_state list"

record projection =
  pr_device_id :: string
  pr_capability_id :: string

record event_message =
  em_device_id :: string
  em_capability_id :: string
  em_value :: wire_value
  em_revision :: nat
  em_occurred_at :: string

record command_message =
  cm_device_id :: string
  cm_capability_id :: string
  cm_value :: wire_value

type_synonym projection_keys = "(string, string set) btree"

section \<open>Snapshots and keys\<close>

datatype projection_error =
    CoreStopped
  | MissingState device_id capability_id
  | UnknownDevice nat string
  | UnknownCapability nat string string
  | DuplicateCapability nat string string

definition capability_to_api :: "capability \<Rightarrow> adapter_capability" where
  "capability_to_api c = \<lparr>ac_id = cap_id c, ac_type = cap_type c, ac_name = cap_name c,
     ac_kind = kind_str (cap_kind c), ac_permissions = cap_permissions c\<rparr>"

definition device_to_api :: "device \<Rightarrow> adapter_device" where
  "device_to_api d = \<lparr>ad_id = dev_id d, ad_name = dev_name d, ad_manufacturer = dev_manufacturer d,
     ad_model = dev_model d, ad_capabilities = map capability_to_api (dev_capabilities d)\<rparr>"

definition capability_value :: "device_state \<Rightarrow> capability \<Rightarrow> (projection_error, capability_state) result" where
  "capability_value s c =
     and_then (ok_or (MissingState (dev_id (ds_device s)) (cap_id c)) (map_of (ds_values s) (cap_id c))) (\<lambda>v.
       Ok \<lparr>cs_capability_id = cap_id c, cs_value = adapter_value_to_api v\<rparr>)"

definition device_state_to_api :: "device_state \<Rightarrow> (projection_error, adapter_device_state) result" where
  "device_state_to_api s =
     and_then (collect (capability_value s) (dev_capabilities (ds_device s))) (\<lambda>vs.
       Ok \<lparr>ads_device = device_to_api (ds_device s), ads_values = vs\<rparr>)"

definition sync_request :: "snapshot \<Rightarrow> nat \<Rightarrow> (projection_error, sync_message) result" where
  "sync_request snap generation =
     (if \<not> snap_started snap then Err CoreStopped
      else and_then (collect device_state_to_api (snap_devices snap)) (\<lambda>ds.
        Ok \<lparr>sy_generation = generation, sy_revision = snap_revision snap, sy_devices = ds\<rparr>))"

definition projection_keys :: "adapter_device_state list \<Rightarrow> projection_keys" where
  "projection_keys ds = of_entries (map (\<lambda>s. (ad_id (ads_device s), ac_id ` set (ad_capabilities (ads_device s)))) ds)"

fun accept_projections ::
  "projection_keys \<Rightarrow> nat \<Rightarrow> projection list \<Rightarrow> projection_keys \<Rightarrow> (projection_error, projection_keys) result" where
  "accept_projections available n [] accepted = Ok accepted"
| "accept_projections available n (p # ps) accepted =
     (case map_of available (pr_device_id p) of
        None \<Rightarrow> Err (UnknownDevice n (pr_device_id p))
      | Some cs \<Rightarrow>
          if pr_capability_id p \<notin> cs then Err (UnknownCapability n (pr_device_id p) (pr_capability_id p))
          else let old = (case map_of accepted (pr_device_id p) of None \<Rightarrow> {} | Some ks \<Rightarrow> ks)
               in if pr_capability_id p \<in> old
                  then Err (DuplicateCapability n (pr_device_id p) (pr_capability_id p))
                  else accept_projections available (n + 1) ps
                         (put (pr_device_id p) (insert (pr_capability_id p) old) accepted))"

definition accepted_projection_keys ::
  "projection list option \<Rightarrow> projection_keys \<Rightarrow> (projection_error, projection_keys) result" where
  "accepted_projection_keys projections available =
     (case projections of None \<Rightarrow> Ok available | Some ps \<Rightarrow> accept_projections available 0 ps [])"

definition has_key :: "projection_keys \<Rightarrow> string \<Rightarrow> string \<Rightarrow> bool" where
  "has_key ks d c \<longleftrightarrow> (case map_of ks d of None \<Rightarrow> False | Some cs \<Rightarrow> c \<in> cs)"

definition contains :: "projection_keys \<Rightarrow> event \<Rightarrow> bool" where
  "contains ks e = has_key ks (ev_device e) (ev_capability e)"

text \<open>The formatting of a time belongs to the \<open>time\<close> crate; it may fail.\<close>

definition event_request :: "(system_time \<Rightarrow> string option) \<Rightarrow> event \<Rightarrow> event_message" where
  "event_request rfc3339 e = \<lparr>em_device_id = ev_device e, em_capability_id = ev_capability e,
     em_value = adapter_value_to_api (ev_value e), em_revision = ev_revision e,
     em_occurred_at = (case rfc3339 (ev_occurred_at e) of None \<Rightarrow> ''1970-01-01T00:00:00Z'' | Some t \<Rightarrow> t)\<rparr>"

section \<open>Commands\<close>

datatype command_error =
    ValueMessage value_error
  | IdentifierMessage model_error
  | RuntimeMessage runtime_error

fun error_code :: "runtime_error \<Rightarrow> string" where
  "error_code (NotFound _) = ''not_found''"
| "error_code (NotWritable _) = ''not_writable''"
| "error_code (InvalidValue _) = ''invalid_value''"
| "error_code Stopped = ''unavailable''"
| "error_code _ = ''command_failed''"

text \<open>
  \<open>RuntimeCommandHandler::handle\<close>; the message of an error is its \<open>to_string()\<close>, rendered by
  \<open>render\<close>.
\<close>

definition handle_command ::
  "(command_error \<Rightarrow> string) \<Rightarrow> system_time \<Rightarrow> command_message \<Rightarrow> 'w runtime \<Rightarrow> 'w
     \<Rightarrow> 'w runtime \<times> 'w \<times> (protocol_error, wire_value) result" where
  "handle_command render now m rt w =
     (case and_then (map_err (\<lambda>e. \<lparr>pe_code = ''invalid_value'', pe_message = render (ValueMessage e)\<rparr>)
                      (adapter_value_from_api (cm_value m))) (\<lambda>v.
           and_then (map_err (\<lambda>e. \<lparr>pe_code = ''not_found'', pe_message = render (IdentifierMessage e)\<rparr>)
                      (device_id_new (cm_device_id m))) (\<lambda>d.
           and_then (map_err (\<lambda>e. \<lparr>pe_code = ''not_found'', pe_message = render (IdentifierMessage e)\<rparr>)
                      (capability_id_new (cm_capability_id m))) (\<lambda>c.
             Ok \<lparr>cmd_device = d, cmd_capability = c, cmd_value = v\<rparr>))) of
        Err e \<Rightarrow> (rt, w, Err e)
      | Ok cmd \<Rightarrow>
          (case write_value now cmd rt w of
             (rt', w', Err e) \<Rightarrow> (rt', w', Err \<lparr>pe_code = error_code e, pe_message = render (RuntimeMessage e)\<rparr>)
           | (rt', w', Ok v) \<Rightarrow> (rt', w', Ok (adapter_value_to_api v))))"

section \<open>What a synchronisation says\<close>

text \<open>The value that a synchronisation message carries for a capability.\<close>

definition sync_value :: "sync_message \<Rightarrow> string \<Rightarrow> string \<Rightarrow> wire_value option" where
  "sync_value m d c =
     (case find (\<lambda>s. ad_id (ads_device s) = d) (sy_devices m) of
        None \<Rightarrow> None
      | Some s \<Rightarrow> map_option cs_value (find (\<lambda>v. cs_capability_id v = c) (ads_values s)))"

lemma collect_map: "(\<And>x. x \<in> set xs \<Longrightarrow> f x = Ok (g x)) \<Longrightarrow> collect f xs = Ok (map g xs)"
  by (induction xs) auto

lemma collect_comp: "collect f (map g xs) = collect (f \<circ> g) xs"
  by (induction xs) auto

lemma find_mapped: "find P (map f xs) = map_option f (find (P \<circ> f) xs)"
  by (induction xs) auto

lemma find_by_map_of:
  assumes "\<And>e. e \<in> set es \<Longrightarrow> key (f e) = fst e"
  shows "find (\<lambda>x. key x = k) (map f es) = map_option (\<lambda>v. f (k, v)) (map_of es k)"
  using assms by (induction es) auto

definition object :: "'w runtime \<Rightarrow> nat \<Rightarrow> 'w registered_device" where
  "object rt a = the (map_of (rt_heap rt) a)"

definition api_state :: "'w registered_device \<Rightarrow> adapter_device_state" where
  "api_state g = \<lparr>ads_device = device_to_api (reg_definition g),
     ads_values = map (\<lambda>c. \<lparr>cs_capability_id = cap_id c,
       cs_value = adapter_value_to_api (the (map_of (reg_current g) (cap_id c)))\<rparr>) (dev_capabilities (reg_definition g))\<rparr>"

lemma object_ok:
  assumes "rt_ok rt" and "(d, a) \<in> set (rt_devices rt)"
  shows "map_of (rt_heap rt) a = Some (object rt a)" and "reg_ok d (object rt a)"
proof -
  have "map_of (rt_devices rt) d = Some a"
    using rt_okD(1) [OF assms(1)] assms(2) by (simp add: map_of_eq_Some_iff_mem)
  then obtain g where "map_of (rt_heap rt) a = Some g" "reg_ok d g" using rt_okD(3) [OF assms(1)] by blast
  then show "map_of (rt_heap rt) a = Some (object rt a)" "reg_ok d (object rt a)" by (simp_all add: object_def)
qed

lemma snapshot_devices:
  assumes "rt_ok rt"
  shows "snap_devices (take_snapshot rt)
    = map (\<lambda>(d, a). \<lparr>ds_device = reg_definition (object rt a), ds_values = reg_current (object rt a)\<rparr>) (rt_devices rt)"
proof -
  have "concat (map (\<lambda>(d, a). case map_of (rt_heap rt) a of None \<Rightarrow> [] | Some g \<Rightarrow> [f g]) ds)
      = map (\<lambda>(d, a). f (object rt a)) ds" if "set ds \<subseteq> set (rt_devices rt)" for ds and f :: "'a registered_device \<Rightarrow> device_state"
    using that object_ok(1) [OF assms] by (induction ds) auto
  then show ?thesis by (simp add: take_snapshot_def)
qed

lemma reg_ok_has_value:
  assumes "reg_ok d g" and "c \<in> set (dev_capabilities (reg_definition g))"
  shows "map_of (reg_current g) (cap_id c) = Some (the (map_of (reg_current g) (cap_id c)))"
proof -
  have "capability_by_id (reg_definition g) (cap_id c) = Some c"
    using assms by (intro capability_by_id_cap) (simp_all add: reg_ok_def)
  then have "map_of (reg_current g) (cap_id c) \<noteq> None" using assms(1) by (simp add: reg_ok_def)
  then show ?thesis by simp
qed

lemma device_state_to_api_ok:
  assumes "reg_ok d g"
  shows "device_state_to_api \<lparr>ds_device = reg_definition g, ds_values = reg_current g\<rparr> = Ok (api_state g)"
proof -
  let ?state = "\<lambda>c. \<lparr>cs_capability_id = cap_id c, cs_value = adapter_value_to_api (the (map_of (reg_current g) (cap_id c)))\<rparr>"
  have "capability_value \<lparr>ds_device = reg_definition g, ds_values = reg_current g\<rparr> c = Ok (?state c)"
    if "c \<in> set (dev_capabilities (reg_definition g))" for c
    using reg_ok_has_value [OF assms that] unfolding capability_value_def by (metis and_then_simps(2) device_state.select_convs ok_or_simps(2))
  then have "collect (capability_value \<lparr>ds_device = reg_definition g, ds_values = reg_current g\<rparr>) (dev_capabilities (reg_definition g))
      = Ok (map ?state (dev_capabilities (reg_definition g)))" by (rule collect_map)
  then show ?thesis by (simp add: device_state_to_api_def api_state_def)
qed

text \<open>A started runtime can always be synchronised, and the message lists every device in order.\<close>

lemma sync_request_ok:
  assumes "rt_ok rt" and "rt_started rt"
  shows "sync_request (take_snapshot rt) n =
    Ok \<lparr>sy_generation = n, sy_revision = rt_revision rt, sy_devices = map (\<lambda>(d, a). api_state (object rt a)) (rt_devices rt)\<rparr>"
proof -
  have "collect device_state_to_api (snap_devices (take_snapshot rt)) = Ok (map (\<lambda>(d, a). api_state (object rt a)) (rt_devices rt))"
    unfolding snapshot_devices [OF assms(1)] collect_comp
    by (rule collect_map) (auto simp: device_state_to_api_ok [OF object_ok(2) [OF assms(1)]])
  then show ?thesis using assms by (simp add: sync_request_def) (simp add: take_snapshot_def)
qed

lemma api_state_id: "rt_ok rt \<Longrightarrow> (d, a) \<in> set (rt_devices rt) \<Longrightarrow> ad_id (ads_device (api_state (object rt a))) = d"
  using object_ok(2) [of rt d a] by (auto simp: api_state_def device_to_api_def reg_ok_def)

lemma api_state_value:
  assumes "reg_ok d g"
  shows "map_option cs_value (find (\<lambda>v. cs_capability_id v = c) (ads_values (api_state g)))
       = map_option adapter_value_to_api (map_of (reg_current g) c)"
proof -
  have "find (\<lambda>v. cs_capability_id v = c) (ads_values (api_state g))
      = map_option (\<lambda>x. \<lparr>cs_capability_id = cap_id x, cs_value = adapter_value_to_api (the (map_of (reg_current g) (cap_id x)))\<rparr>)
          (capability_by_id (reg_definition g) c)"
    by (simp add: capability_by_id_def api_state_def find_mapped o_def)
  moreover have "map_of (reg_current g) c = None \<longleftrightarrow> capability_by_id (reg_definition g) c = None"
    using assms by (simp add: reg_ok_def)
  moreover have "cap_id x = c" if "capability_by_id (reg_definition g) c = Some x" for x
    using capability_by_id_mem [OF that] by simp
  ultimately show ?thesis
    by (cases "map_of (reg_current g) c"; cases "capability_by_id (reg_definition g) c") auto
qed

lemma sync_request_values:
  assumes "rt_ok rt" and "sync_request (take_snapshot rt) n = Ok m"
  shows "sync_value m d c = map_option adapter_value_to_api (current_value rt d c)" and "sy_revision m = rt_revision rt"
    and "sy_generation m = n" and "length (sy_devices m) = length (rt_devices rt)"
proof -
  have started: "rt_started rt" using assms(2) by (auto simp: sync_request_def take_snapshot_def split: if_splits)
  have m: "m = \<lparr>sy_generation = n, sy_revision = rt_revision rt, sy_devices = map (\<lambda>(d, a). api_state (object rt a)) (rt_devices rt)\<rparr>"
    using sync_request_ok [OF assms(1) started] assms(2) by simp
  then show "sy_revision m = rt_revision rt" "sy_generation m = n" "length (sy_devices m) = length (rt_devices rt)" by simp_all
  have found: "find (\<lambda>s. ad_id (ads_device s) = d) (sy_devices m) = map_option (\<lambda>a. api_state (object rt a)) (map_of (rt_devices rt) d)"
    unfolding m sync_message.simps
    by (subst find_by_map_of [where key = "\<lambda>s. ad_id (ads_device s)"]) (auto simp: api_state_id [OF assms(1)])
  show "sync_value m d c = map_option adapter_value_to_api (current_value rt d c)"
  proof (cases "map_of (rt_devices rt) d")
    case None
    then show ?thesis by (simp add: sync_value_def current_value_def found)
  next
    case (Some a)
    then have "(d, a) \<in> set (rt_devices rt)" by (rule map_of_SomeD)
    then show ?thesis
      using Some object_ok [OF assms(1)] api_state_value [of d "object rt a" c] by (simp add: sync_value_def current_value_def found)
  qed
qed

lemma map_of_rev_distinct: "distinct (map fst es) \<Longrightarrow> map_of (rev es) = map_of es"
  by (subst map_of_inject_set) (simp_all flip: rev_map)

lemma capability_by_id_None: "capability_by_id d c = None \<longleftrightarrow> c \<notin> cap_id ` set (dev_capabilities d)"
  unfolding capability_by_id_def find_None_iff by blast

lemma api_capability_ids:
  "ac_id ` set (ad_capabilities (ads_device (api_state g))) = cap_id ` set (dev_capabilities (reg_definition g))"
  by (simp add: api_state_def device_to_api_def capability_to_api_def image_image)

lemma has_key_projection:
  assumes "rt_ok rt" and "sync_request (take_snapshot rt) n = Ok m"
  shows "has_key (projection_keys (sy_devices m)) d c \<longleftrightarrow> current_value rt d c \<noteq> None"
proof -
  have started: "rt_started rt" using assms(2) by (auto simp: sync_request_def take_snapshot_def split: if_splits)
  have m: "sy_devices m = map (\<lambda>(d, a). api_state (object rt a)) (rt_devices rt)"
    using sync_request_ok [OF assms(1) started] assms(2) by auto
  let ?keys = "\<lambda>a. cap_id ` set (dev_capabilities (reg_definition (object rt a)))"
  have "map (\<lambda>s. (ad_id (ads_device s), ac_id ` set (ad_capabilities (ads_device s)))) (sy_devices m)
      = map (\<lambda>(d, a). (d, ?keys a)) (rt_devices rt)"
    using api_state_id [OF assms(1)] by (simp only: m map_map) (rule map_cong, simp_all add: case_prod_beta api_capability_ids)
  moreover have "distinct (map fst (map (\<lambda>(d, a). (d, ?keys a)) (rt_devices rt)))"
    using ordered_distinct [OF rt_okD(1) [OF assms(1)]] by (simp add: o_def case_prod_beta)
  ultimately have keys: "map_of (projection_keys (sy_devices m)) d = map_option ?keys (map_of (rt_devices rt) d)"
    by (simp only: projection_keys_def map_of_of_entries map_of_rev_distinct map_of_map_snd)
  show ?thesis
  proof (cases "map_of (rt_devices rt) d")
    case None
    then show ?thesis by (simp add: has_key_def keys current_value_def)
  next
    case (Some a)
    note g = object_ok [OF assms(1) map_of_SomeD [OF Some]]
    then have "map_of (reg_current (object rt a)) c = None \<longleftrightarrow> capability_by_id (reg_definition (object rt a)) c = None"
      by (simp add: reg_ok_def)
    then show ?thesis
      using Some g(1) by (simp add: has_key_def keys current_value_def capability_by_id_None)
  qed
qed

lemma accept_projections_sound:
  assumes "accept_projections available n ps accepted = Ok ks" and "\<And>d c. has_key accepted d c \<Longrightarrow> has_key available d c"
    and "has_key ks d c"
  shows "has_key available d c"
  using assms
proof (induction available n ps accepted rule: accept_projections.induct)
  case (2 available n p ps accepted)
  then obtain cs where cs: "map_of available (pr_device_id p) = Some cs" "pr_capability_id p \<in> cs"
    by (auto split: option.splits if_splits)
  let ?old = "case map_of accepted (pr_device_id p) of None \<Rightarrow> {} | Some ks \<Rightarrow> ks"
  let ?next = "put (pr_device_id p) (insert (pr_capability_id p) ?old) accepted"
  have rest: "accept_projections available (n + 1) ps ?next = Ok ks" and fresh: "pr_capability_id p \<notin> ?old"
    using 2(2) cs by (auto simp: Let_def split: if_splits)
  have "has_key available d' c'" if "has_key ?next d' c'" for d' c'
    using that cs 2(3) [of d' c'] by (auto simp: has_key_def split: if_splits option.splits)
  then show ?case using 2(1) [OF cs(1)] cs(2) fresh rest 2(4) by simp
qed simp

lemma accepted_keys_sound:
  "accepted_projection_keys ps available = Ok ks \<Longrightarrow> has_key ks d c \<Longrightarrow> has_key available d c"
  by (auto simp: accepted_projection_keys_def has_key_def [of "[]"] split: option.splits dest: accept_projections_sound)

end
