(* ===== verification/Adapter_Instance.thy ===== *)
theory Adapter_Instance
  imports Adapter_Session Adapter_Projection Supervisor "HOL-Library.Product_Lexorder" "HOL-Library.Multiset"
begin

text \<open>
  One adapter process as the daemon manages it, \<open>crates/oikade-adapter-host/src/instance.rs\<close> and
  \<open>instance/worker.rs\<close>: the checks of a specification and of everything that an adapter
  reports, the state of a run, its synchronisation and health check, the decisions of the
  monitor, and the administrative operations. A call to the adapter is an argument: the
  answer that \<open>Session::call\<close> returned for it. Durations are nanoseconds.
\<close>

section \<open>Specifications\<close>

definition MINIMUM_COMMISSIONING_WINDOW_SECONDS :: nat where "MINIMUM_COMMISSIONING_WINDOW_SECONDS = 180"
definition MAXIMUM_COMMISSIONING_WINDOW_SECONDS :: nat where "MAXIMUM_COMMISSIONING_WINDOW_SECONDS = 900"
definition TRANSPORT_FD_ENVIRONMENT :: string where "TRANSPORT_FD_ENVIRONMENT = ''OIKADE_ADAPTER_RPC_FD''"
definition STATE_DIRECTORY_ENVIRONMENT :: string where "STATE_DIRECTORY_ENVIRONMENT = ''OIKADE_ADAPTER_STATE_DIR''"
definition MAX_DIAGNOSTICS :: nat where "MAX_DIAGNOSTICS = 256"
definition MAX_DIAGNOSTIC_MESSAGE :: nat where "MAX_DIAGNOSTIC_MESSAGE = 1024"
definition MAX_RESOURCES :: nat where "MAX_RESOURCES = 256"
definition MAX_RESOURCE_ATTRIBUTES :: nat where "MAX_RESOURCE_ATTRIBUTES = 32"

record adapter_spec =
  sa_id :: string
  sa_adapter_id :: string
  sa_adapter_version :: "string option"
  sa_protocol :: string
  sa_executable :: string
  sa_state_dir :: string
  sa_environment :: "(string, string) btree"
  sa_request_timeout :: nat
  sa_health_interval :: nat
  sa_health_timeout :: nat
  sa_event_buffer :: nat
  sa_restart_policy :: restart_policy

definition adapter_spec_new :: "string \<Rightarrow> string \<Rightarrow> string \<Rightarrow> string \<Rightarrow> string \<Rightarrow> adapter_spec" where
  "adapter_spec_new i adapter_id protocol executable state_dir =
     \<lparr>sa_id = i, sa_adapter_id = adapter_id, sa_adapter_version = None, sa_protocol = protocol,
      sa_executable = executable, sa_state_dir = state_dir, sa_environment = [],
      sa_request_timeout = nanoseconds 5000, sa_health_interval = nanoseconds 10000, sa_health_timeout = nanoseconds 3000,
      sa_event_buffer = 1024, sa_restart_policy = default_policy\<rparr>"

datatype adapter_error =
    InvalidInstance string model_error
  | AdapterVersionInvalid
  | AdapterDurationsNotPositive
  | EventBufferOutOfRange
  | ExecutableIo string
  | ExecutableNotRegular
  | StateDirectory string
  | EnvironmentReserved string
  | EnvironmentInvalid
  | AdapterSupervisor supervisor_error
  | HelloIdDiffers
  | HelloVersionDiffers
  | HelloUnsupported
  | AdapterNotReady string
  | SessionNotPrepared
  | TooManyDiagnostics
  | InvalidDiagnostic
  | TooManyResources
  | InvalidResource
  | WrongAcknowledgement
  | ProjectionRejected projection_error
  | DurationOutOfRange
  | DurationNotWhole
  | AdapterNotRunning
  | InvalidCommissioningData
  | InvalidCommissioningStatus
  | ResourceNotTrimmed
  | UnsupportedProtocolError
  | AdapterProtocol string string
  | SessionFailure "adapter_failure session_error"
  | SubscriptionFailure runtime_error
  | StopBeforeReset string
  | ResetFailed string
  | ResetAndRestartFailed string string
  | RestartAfterReset string

definition valid_environment_key :: "string \<Rightarrow> bool" where
  "valid_environment_key k \<longleftrightarrow> utf8_valid k \<and> k \<noteq> []
     \<and> list_all (\<lambda>(i, b). b = CHR ''_'' \<or> is_ascii_alphabetic b \<or> (i > 0 \<and> is_ascii_digit b)) (enumerate 0 k)"

definition padded :: "string \<Rightarrow> bool" where
  "padded s \<longleftrightarrow> s \<noteq> trim s"

text \<open>
  The checks of \<open>Instance::new\<close>, with the executable and the state directory resolved by the
  file system: \<open>executable\<close> is the outcome of \<open>validate_executable\<close> and \<open>state_dir\<close> that of
  \<open>ensure_state_directory\<close>. The result is the environment that the process receives.
\<close>

definition validate_executable ::
  "(string \<Rightarrow> (string, string) result) \<Rightarrow> (string \<Rightarrow> (string, bool \<times> bool) result) \<Rightarrow> string \<Rightarrow> (adapter_error, string) result" where
  "validate_executable canonicalize metadata path =
     and_then (map_err ExecutableIo (canonicalize path)) (\<lambda>p.
     and_then (map_err ExecutableIo (metadata p)) (\<lambda>(is_file, executable).
       if \<not> is_file \<or> \<not> executable then Err ExecutableNotRegular else Ok p))"

definition adapter_instance_new ::
  "(string \<Rightarrow> (string, string) result) \<Rightarrow> (string \<Rightarrow> (string, bool \<times> bool) result)
     \<Rightarrow> (string \<Rightarrow> string \<Rightarrow> (string, string) result) \<Rightarrow> adapter_spec
     \<Rightarrow> (adapter_error, adapter_spec \<times> (string, string) btree) result" where
  "adapter_instance_new canonicalize metadata ensure_dir spec =
     and_then (each (\<lambda>(name, v). map_err (InvalidInstance name) (validate_identifier v))
        [(''instance ID'', sa_id spec), (''adapter ID'', sa_adapter_id spec), (''protocol'', sa_protocol spec)]) (\<lambda>_.
     and_then (reject (case sa_adapter_version spec of None \<Rightarrow> False | Some v \<Rightarrow> v = [] \<or> padded v) AdapterVersionInvalid) (\<lambda>_.
     and_then (reject (sa_request_timeout spec = 0 \<or> sa_health_interval spec = 0 \<or> sa_health_timeout spec = 0)
        AdapterDurationsNotPositive) (\<lambda>_.
     and_then (reject (\<not> valid_buffer (sa_event_buffer spec)) EventBufferOutOfRange) (\<lambda>_.
     and_then (validate_executable canonicalize metadata (sa_executable spec)) (\<lambda>executable.
     and_then (map_err StateDirectory (ensure_dir (sa_state_dir spec) (sa_id spec))) (\<lambda>state_dir.
     and_then (each (\<lambda>k. reject (map_of (sa_environment spec) k \<noteq> None) (EnvironmentReserved k))
        [TRANSPORT_FD_ENVIRONMENT, STATE_DIRECTORY_ENVIRONMENT]) (\<lambda>_.
     and_then (each (\<lambda>(k, v). reject (\<not> valid_environment_key k \<or> CHR 0x00 \<in> set v) EnvironmentInvalid)
        (sa_environment spec)) (\<lambda>_.
     and_then (map_err AdapterSupervisor (policy_validate (sa_restart_policy spec))) (\<lambda>_.
       Ok (spec\<lparr>sa_executable := executable, sa_state_dir := state_dir\<rparr>,
           put TRANSPORT_FD_ENVIRONMENT ''3'' (put STATE_DIRECTORY_ENVIRONMENT state_dir (sa_environment spec))))))))))))"

section \<open>What an adapter reports\<close>

definition validate_hello :: "adapter_spec \<Rightarrow> adapter_hello \<Rightarrow> (adapter_error, unit) result" where
  "validate_hello spec h =
     (if ah_adapter_id h \<noteq> sa_adapter_id spec then Err HelloIdDiffers
      else if ah_adapter_version h = [] \<or>
        (case sa_adapter_version spec of None \<Rightarrow> False | Some v \<Rightarrow> v \<noteq> ah_adapter_version h) then Err HelloVersionDiffers
      else if ah_min_api_version h > PROTOCOL_VERSION \<or> ah_max_api_version h < PROTOCOL_VERSION
        \<or> sa_protocol spec \<notin> set (ah_protocols h) then Err HelloUnsupported
      else Ok ())"

record diagnostic =
  dg_severity :: string
  dg_code :: string
  dg_device_id :: string
  dg_capability_id :: string
  dg_message :: string

record resource =
  re_type :: string
  re_id :: string
  re_name :: string
  re_attributes :: "(string, string) btree"

definition diagnostic_ok :: "diagnostic \<Rightarrow> bool" where
  "diagnostic_ok d \<longleftrightarrow> dg_severity d \<in> {''info'', ''warning'', ''error''} \<and> is_ok (validate_identifier (dg_code d))
     \<and> (dg_device_id d = [] \<or> is_ok (validate_identifier (dg_device_id d)))
     \<and> (dg_capability_id d = [] \<or> is_ok (validate_identifier (dg_capability_id d)))
     \<and> dg_message d \<noteq> [] \<and> \<not> padded (dg_message d) \<and> length (dg_message d) \<le> MAX_DIAGNOSTIC_MESSAGE"

definition validate_diagnostics :: "diagnostic list \<Rightarrow> (adapter_error, diagnostic list) result" where
  "validate_diagnostics ds =
     (if length ds > MAX_DIAGNOSTICS then Err TooManyDiagnostics
      else if list_ex (\<lambda>d. \<not> diagnostic_ok d) ds then Err InvalidDiagnostic
      else Ok ds)"

definition resource_key :: "resource \<Rightarrow> string \<times> string" where
  "resource_key r = (re_type r, re_id r)"

definition resource_ok :: "resource \<Rightarrow> bool" where
  "resource_ok r \<longleftrightarrow> re_type r \<noteq> [] \<and> \<not> padded (re_type r) \<and> re_id r \<noteq> [] \<and> \<not> padded (re_id r) \<and> \<not> padded (re_name r)
     \<and> length (re_attributes r) \<le> MAX_RESOURCE_ATTRIBUTES
     \<and> list_all (\<lambda>(k, v). k \<noteq> [] \<and> \<not> padded k \<and> \<not> padded v) (re_attributes r)"

fun check_resources :: "(string \<times> string) set \<Rightarrow> resource list \<Rightarrow> (adapter_error, unit) result" where
  "check_resources seen [] = Ok ()"
| "check_resources seen (r # rs) =
     (if \<not> resource_ok r \<or> resource_key r \<in> seen then Err InvalidResource
      else check_resources (insert (resource_key r) seen) rs)"

definition validate_resources :: "resource list \<Rightarrow> (adapter_error, resource list) result" where
  "validate_resources rs =
     (if length rs > MAX_RESOURCES then Err TooManyResources
      else and_then (check_resources {} rs) (\<lambda>_. Ok (sort_key resource_key rs)))"

record window_response =
  wr_duration_seconds :: nat
  wr_remaining_seconds :: "nat option"
  wr_manual_code :: string
  wr_qr_code :: string

record info_response =
  ir_open :: bool
  ir_duration_seconds :: "nat option"
  ir_remaining_seconds :: "nat option"
  ir_manual_code :: "string option"
  ir_qr_code :: "string option"

definition valid_pairing_payload :: "string \<Rightarrow> string \<Rightarrow> bool" where
  "valid_pairing_payload manual qr \<longleftrightarrow> length manual \<in> {11, 21} \<and> list_all is_ascii_digit manual
     \<and> starts_with ''MT:'' qr \<and> 4 \<le> length qr \<and> length qr \<le> 512 \<and> \<not> padded qr"

definition valid_timing :: "nat \<Rightarrow> nat \<Rightarrow> bool" where
  "valid_timing duration remaining \<longleftrightarrow>
     MINIMUM_COMMISSIONING_WINDOW_SECONDS \<le> duration \<and> duration \<le> MAXIMUM_COMMISSIONING_WINDOW_SECONDS
     \<and> 1 \<le> remaining \<and> remaining \<le> duration"

definition validate_commissioning_response :: "window_response \<Rightarrow> (adapter_error, unit) result" where
  "validate_commissioning_response r =
     reject (\<not> (MINIMUM_COMMISSIONING_WINDOW_SECONDS \<le> wr_duration_seconds r
                  \<and> wr_duration_seconds r \<le> MAXIMUM_COMMISSIONING_WINDOW_SECONDS)
         \<or> \<not> (case wr_remaining_seconds r of None \<Rightarrow> False | Some n \<Rightarrow> 1 \<le> n \<and> n \<le> wr_duration_seconds r)
         \<or> \<not> valid_pairing_payload (wr_manual_code r) (wr_qr_code r)) InvalidCommissioningData"

definition validate_commissioning_info_response :: "info_response \<Rightarrow> (adapter_error, unit) result" where
  "validate_commissioning_info_response r =
     (let timing_valid = (case (ir_duration_seconds r, ir_remaining_seconds r) of
            (Some duration, Some remaining) \<Rightarrow> valid_timing duration remaining
          | (None, None) \<Rightarrow> True | _ \<Rightarrow> False);
          payload_valid = (case (ir_manual_code r, ir_qr_code r) of
            (Some manual, Some qr) \<Rightarrow> valid_pairing_payload manual qr
          | (None, None) \<Rightarrow> True | _ \<Rightarrow> False);
          has_timing = (ir_duration_seconds r \<noteq> None \<or> ir_remaining_seconds r \<noteq> None);
          has_payload = (ir_manual_code r \<noteq> None \<or> ir_qr_code r \<noteq> None);
          closed_has_details = (\<not> ir_open r \<and> (ir_duration_seconds r \<noteq> None \<or> ir_remaining_seconds r \<noteq> None
            \<or> ir_manual_code r \<noteq> None \<or> ir_qr_code r \<noteq> None))
      in reject (\<not> timing_valid \<or> \<not> payload_valid \<or> has_timing \<noteq> has_payload \<or> closed_has_details) InvalidCommissioningStatus)"

definition public_protocol_error :: "string \<Rightarrow> (string \<times> string) option" where
  "public_protocol_error c =
     (if c = ''window_conflict'' then Some (''window_conflict'', ''a commissioning window is already active'')
      else if c = ''window_closing'' then Some (''window_closing'', ''the previous commissioning window is still closing'')
      else None)"

fun map_session_error :: "adapter_failure session_error \<Rightarrow> adapter_error" where
  "map_session_error (SessionProtocol k _) =
     (case public_protocol_error k of
        Some (c, m) \<Rightarrow> AdapterProtocol c m
      | None \<Rightarrow> UnsupportedProtocolError)"
| "map_session_error other = SessionFailure other"

section \<open>Runs\<close>

record sync_reply =
  sr_generation :: nat
  sr_devices :: nat
  sr_projections :: "projection list option"
  sr_diagnostics :: "diagnostic list"

record health_reply =
  hr_healthy :: bool
  hr_detail :: string
  hr_resources :: "resource list"

record run_state =
  rs_generation :: nat
  rs_snapshot_revision :: nat
  rs_known :: projection_keys
  rs_snapshot :: projection_keys
  rs_diagnostics :: "diagnostic list"
  rs_resources :: "resource list"
  rs_healthy :: bool
  rs_health_detail :: string

definition run_state_new :: run_state where
  "run_state_new = \<lparr>rs_generation = 0, rs_snapshot_revision = 0, rs_known = [], rs_snapshot = [], rs_diagnostics = [],
     rs_resources = [], rs_healthy = False, rs_health_detail = []\<rparr>"

text \<open>\<open>synchronize\<close>: the request, and what becomes of the answer to it.\<close>

definition sync_begin :: "snapshot \<Rightarrow> run_state \<Rightarrow> (adapter_error, sync_message) result" where
  "sync_begin snap st = map_err ProjectionRejected (sync_request snap (rs_generation st + 1))"

definition sync_finish ::
  "sync_message \<Rightarrow> (adapter_failure session_error, sync_reply) result \<Rightarrow> run_state \<Rightarrow> (adapter_error, run_state) result" where
  "sync_finish m reply st =
     and_then (map_err SessionFailure reply) (\<lambda>r.
       if sr_generation r \<noteq> sy_generation m \<or> sr_devices r \<noteq> length (sy_devices m) then Err WrongAcknowledgement
       else and_then (validate_diagnostics (sr_diagnostics r)) (\<lambda>diagnostics.
         let snapshot = projection_keys (sy_devices m) in
         and_then (map_err ProjectionRejected (accepted_projection_keys (sr_projections r) snapshot)) (\<lambda>known.
           Ok (st\<lparr>rs_generation := sy_generation m, rs_snapshot_revision := sy_revision m, rs_known := known,
                   rs_snapshot := snapshot, rs_diagnostics := diagnostics\<rparr>))))"

definition refresh_health ::
  "(adapter_failure session_error, health_reply) result \<Rightarrow> run_state \<Rightarrow> (adapter_error, run_state) result" where
  "refresh_health reply st =
     and_then (map_err SessionFailure reply) (\<lambda>h.
     and_then (validate_resources (hr_resources h)) (\<lambda>rs.
       Ok (st\<lparr>rs_healthy := hr_healthy h, rs_health_detail := hr_detail h, rs_resources := rs\<rparr>)))"

text \<open>The decision of \<open>monitor\<close> for a state event and for a topology event.\<close>

datatype event_action = IgnoreEvent | Resynchronize | ForwardEvent

definition state_event_action :: "event \<Rightarrow> run_state \<Rightarrow> event_action" where
  "state_event_action e st =
     (if ev_revision e \<le> rs_snapshot_revision st then IgnoreEvent
      else if \<not> contains (rs_snapshot st) e then Resynchronize
      else if contains (rs_known st) e then ForwardEvent
      else IgnoreEvent)"

definition topology_event_action :: "topology_event \<Rightarrow> run_state \<Rightarrow> event_action" where
  "topology_event_action t st = (if top_revision t > rs_snapshot_revision st then Resynchronize else IgnoreEvent)"

section \<open>Instances\<close>

text \<open>
  \<open>Inner\<close>: sessions and runs live at addresses, a run at the address of its session, so that
  \<open>Arc::ptr_eq\<close> is equality of addresses.
\<close>

record adapter_inner =
  ai_spec :: adapter_spec
  ai_sessions :: "(nat, adapter_session) btree"
  ai_runs :: "(nat, run_state) btree"
  ai_next_address :: nat
  ai_prepared :: "nat option"
  ai_active :: "nat option"
  ai_reported_version :: "string option"

definition adapter_inner_new :: "adapter_spec \<Rightarrow> adapter_inner" where
  "adapter_inner_new spec = \<lparr>ai_spec = spec, ai_sessions = [], ai_runs = [], ai_next_address = 0,
     ai_prepared = None, ai_active = None, ai_reported_version = None\<rparr>"

text \<open>The \<open>prepare\<close> hook of the supervisor: a session for the process about to start.\<close>

definition prepare_session :: "adapter_inner \<Rightarrow> adapter_inner" where
  "prepare_session inner =
     inner\<lparr>ai_sessions := put (ai_next_address inner) adapter_session_spawn (ai_sessions inner),
           ai_prepared := Some (ai_next_address inner), ai_next_address := ai_next_address inner + 1\<rparr>"

definition fail_session :: "string \<Rightarrow> nat \<Rightarrow> adapter_inner \<Rightarrow> adapter_inner" where
  "fail_session reason a inner =
     (case map_of (ai_sessions inner) a of
        None \<Rightarrow> inner
      | Some s \<Rightarrow> inner\<lparr>ai_sessions := put a (session_fail (AdapterFailedByHost reason) s) (ai_sessions inner)\<rparr>)"

definition take_prepared_session :: "nat \<Rightarrow> adapter_inner \<Rightarrow> adapter_inner \<times> (adapter_error, nat) result" where
  "take_prepared_session pid inner =
     (case ai_prepared inner of
        None \<Rightarrow> (inner, Err SessionNotPrepared)
      | Some a \<Rightarrow>
          (inner\<lparr>ai_prepared := None,
                 ai_sessions := (case map_of (ai_sessions inner) a of None \<Rightarrow> ai_sessions inner
                                   | Some s \<Rightarrow> put a (set_pid pid s) (ai_sessions inner))\<rparr>, Ok a))"

text \<open>
  \<open>wait_ready\<close> after the hello: the version is recorded, the adapter initialised, and the
  run created once the runtime is subscribed to.
\<close>

definition accept_hello :: "adapter_hello \<Rightarrow> adapter_inner \<Rightarrow> adapter_inner \<times> (adapter_error, unit) result" where
  "accept_hello h inner =
     (case validate_hello (ai_spec inner) h of
        Err e \<Rightarrow> (inner, Err e)
      | Ok _ \<Rightarrow> (inner\<lparr>ai_reported_version := Some (ah_adapter_version h)\<rparr>, Ok ()))"

definition accept_initialize :: "bool \<Rightarrow> string \<Rightarrow> (adapter_error, unit) result" where
  "accept_initialize ready detail = reject (\<not> ready) (AdapterNotReady detail)"

definition create_run :: "nat \<Rightarrow> adapter_inner \<Rightarrow> 'w runtime \<Rightarrow> adapter_inner \<times> 'w runtime \<times> (adapter_error, nat \<times> nat) result" where
  "create_run a inner rt =
     (case subscribe (sa_event_buffer (ai_spec inner)) rt of
        (rt1, Err e) \<Rightarrow> (inner, rt1, Err (SubscriptionFailure e))
      | (rt1, Ok i) \<Rightarrow>
          (case subscribe_topology (sa_event_buffer (ai_spec inner)) rt1 of
             (rt2, Err e) \<Rightarrow> (inner, rt2\<lparr>rt_events := hub_drop i (rt_events rt2)\<rparr>, Err (SubscriptionFailure e))
           | (rt2, Ok j) \<Rightarrow> (inner\<lparr>ai_runs := put a run_state_new (ai_runs inner)\<rparr>, rt2, Ok (i, j))))"

definition adapter_activate :: "nat \<Rightarrow> adapter_inner \<Rightarrow> adapter_inner" where
  "adapter_activate a inner =
     (let inner' = inner\<lparr>ai_active := Some a\<rparr>
      in case ai_active inner of
           None \<Rightarrow> inner'
         | Some previous \<Rightarrow> fail_session ''adapter session replaced'' previous inner')"

definition adapter_deactivate :: "nat option \<Rightarrow> adapter_inner \<Rightarrow> adapter_inner" where
  "adapter_deactivate expected inner =
     (if (case expected of None \<Rightarrow> False | Some a \<Rightarrow> ai_active inner \<noteq> Some a) then inner
      else case ai_active inner of
        None \<Rightarrow> inner
      | Some a \<Rightarrow> fail_session ''adapter session deactivated'' a (inner\<lparr>ai_active := None\<rparr>))"

section \<open>Administrative operations\<close>

definition running :: "adapter_inner \<Rightarrow> (adapter_error, nat) result" where
  "running inner = ok_or AdapterNotRunning (ai_active inner)"

text \<open>\<open>open_commissioning_window\<close>: the request that is sent, then the check of the answer.\<close>

definition open_window_begin :: "nat \<Rightarrow> adapter_inner \<Rightarrow> (adapter_error, nat \<times> nat) result" where
  "open_window_begin duration inner =
     (let seconds = duration div 10 ^ 9 in
      if seconds \<ge> 2 ^ 16 then Err DurationOutOfRange
      else if duration mod 10 ^ 9 \<noteq> 0
        \<or> \<not> (MINIMUM_COMMISSIONING_WINDOW_SECONDS \<le> seconds \<and> seconds \<le> MAXIMUM_COMMISSIONING_WINDOW_SECONDS)
      then Err DurationNotWhole
      else and_then (running inner) (\<lambda>a. Ok (a, seconds)))"

definition open_window_finish ::
  "(adapter_failure session_error, window_response) result \<Rightarrow> (adapter_error, window_response) result" where
  "open_window_finish reply =
     and_then (map_err map_session_error reply) (\<lambda>r.
     and_then (validate_commissioning_response r) (\<lambda>_. Ok r))"

definition commissioning_info_finish ::
  "(adapter_failure session_error, info_response) result \<Rightarrow> (adapter_error, info_response) result" where
  "commissioning_info_finish reply =
     and_then (map_err map_session_error reply) (\<lambda>r.
     and_then (validate_commissioning_info_response r) (\<lambda>_. Ok r))"

definition remove_resource_begin :: "string \<Rightarrow> string \<Rightarrow> adapter_inner \<Rightarrow> (adapter_error, nat) result" where
  "remove_resource_begin t i inner =
     (if t = [] \<or> padded t \<or> i = [] \<or> padded i then Err ResourceNotTrimmed else running inner)"

definition remove_resource_finish ::
  "nat \<Rightarrow> (adapter_failure session_error, resource list) result \<Rightarrow> adapter_inner
     \<Rightarrow> adapter_inner \<times> (adapter_error, resource list) result" where
  "remove_resource_finish a reply inner =
     (case and_then (map_err map_session_error reply) validate_resources of
        Err e \<Rightarrow> (inner, Err e)
      | Ok rs \<Rightarrow>
          (inner\<lparr>ai_runs := (case map_of (ai_runs inner) a of None \<Rightarrow> ai_runs inner
                               | Some st \<Rightarrow> put a (st\<lparr>rs_resources := rs\<rparr>) (ai_runs inner))\<rparr>, Ok rs))"

text \<open>\<open>reset_state\<close>, over the operations that stop and start the instance and replace its directory.\<close>

definition reset_state ::
  "('s \<Rightarrow> 's \<times> (string, unit) result) \<Rightarrow> ('s \<Rightarrow> 's \<times> (string, unit) result) \<Rightarrow> ('s \<Rightarrow> 's \<times> (string, unit) result)
     \<Rightarrow> ('s \<Rightarrow> bool) \<Rightarrow> 's \<Rightarrow> 's \<times> (adapter_error, unit) result" where
  "reset_state stop_op reset_op start_op active s =
     (if \<not> active s then (s, Err AdapterNotRunning)
      else case stop_op s of
        (s1, Err e) \<Rightarrow> (s1, Err (StopBeforeReset e))
      | (s1, Ok _) \<Rightarrow>
          (case reset_op s1 of
             (s2, Err e) \<Rightarrow>
               (case start_op s2 of
                  (s3, Ok _) \<Rightarrow> (s3, Err (ResetFailed e))
                | (s3, Err restart) \<Rightarrow> (s3, Err (ResetAndRestartFailed e restart)))
           | (s2, Ok _) \<Rightarrow>
               (case start_op s2 of
                  (s3, Ok _) \<Rightarrow> (s3, Ok ())
                | (s3, Err e) \<Rightarrow> (s3, Err (RestartAfterReset e)))))"

section \<open>Status\<close>

record adapter_status =
  at_instance_id :: string
  at_adapter_id :: string
  at_adapter_version :: string
  at_protocol :: string
  at_process :: sup_status
  at_healthy :: bool
  at_health_detail :: string
  at_generation :: nat
  at_snapshot_revision :: nat
  at_devices :: nat
  at_diagnostics :: "diagnostic list"
  at_resources :: "resource list"

definition reported_version :: "adapter_inner \<Rightarrow> string" where
  "reported_version inner =
     (case ai_reported_version inner of
        Some v \<Rightarrow> v
      | None \<Rightarrow> (case sa_adapter_version (ai_spec inner) of Some v \<Rightarrow> v | None \<Rightarrow> []))"

definition adapter_status :: "adapter_inner \<Rightarrow> sup_status \<Rightarrow> adapter_status" where
  "adapter_status inner process =
     (let st = (case Option.bind (ai_active inner) (map_of (ai_runs inner)) of None \<Rightarrow> run_state_new | Some r \<Rightarrow> r)
      in \<lparr>at_instance_id = sa_id (ai_spec inner), at_adapter_id = sa_adapter_id (ai_spec inner),
          at_adapter_version = reported_version inner, at_protocol = sa_protocol (ai_spec inner), at_process = process,
          at_healthy = rs_healthy st, at_health_detail = rs_health_detail st, at_generation = rs_generation st,
          at_snapshot_revision = rs_snapshot_revision st, at_devices = length (rs_known st),
          at_diagnostics = rs_diagnostics st, at_resources = rs_resources st\<rparr>)"

definition adapter_is_healthy :: "adapter_status \<Rightarrow> bool" where
  "adapter_is_healthy s \<longleftrightarrow> ss_state (at_process s) = Running \<and> at_healthy s"

definition adapter_statuses :: "adapter_status list \<Rightarrow> adapter_status list" where
  "adapter_statuses ss = sort_key at_instance_id ss"

section \<open>Lemmas\<close>

lemma check_resources_ok:
  "check_resources seen rs = Ok () \<longleftrightarrow> list_all resource_ok rs \<and> distinct (map resource_key rs) \<and> resource_key ` set rs \<inter> seen = {}"
  by (induction rs arbitrary: seen) auto

text \<open>Accepted resources are well-formed, unique, ordered, and the ones that were reported.\<close>

lemma validate_resources_ok:
  assumes "validate_resources rs = Ok rs'"
  shows "mset rs' = mset rs" and "sorted (map resource_key rs')" and "distinct (map resource_key rs')"
    and "list_all resource_ok rs'" and "length rs' \<le> MAX_RESOURCES"
proof -
  have rs': "rs' = sort_key resource_key rs" and ok: "check_resources {} rs = Ok ()" and len: "length rs \<le> MAX_RESOURCES"
    using assms by (auto simp: validate_resources_def and_then_eq_Ok split: if_splits)
  show "mset rs' = mset rs" "sorted (map resource_key rs')" "length rs' \<le> MAX_RESOURCES" using len by (simp_all add: rs')
  show "list_all resource_ok rs'" using ok by (simp add: rs' check_resources_ok list_all_iff)
  have "distinct (map resource_key rs)" using ok by (simp add: check_resources_ok)
  then show "distinct (map resource_key rs')"
    by (metis rs' mset_map mset_sort mset_eq_imp_distinct_iff)
qed

text \<open>A run that is no longer the active one cannot deactivate its successor.\<close>

lemma stale_deactivate: "ai_active inner \<noteq> Some a \<Longrightarrow> adapter_deactivate (Some a) inner = inner"
  by (simp add: adapter_deactivate_def)

lemma fail_session_fields:
  "ai_active (fail_session m a inner) = ai_active inner" "ai_runs (fail_session m a inner) = ai_runs inner"
  "map_of (ai_sessions inner) a = Some s \<Longrightarrow> \<exists>s'. map_of (ai_sessions (fail_session m a inner)) a = Some s' \<and> rpc_failure s' \<noteq> None"
  by (auto simp: fail_session_def session_fail_def split: option.splits)

lemma activate_replaces:
  assumes "ai_active inner = Some b" and "map_of (ai_sessions inner) b = Some s"
  shows "ai_active (adapter_activate a inner) = Some a"
    and "\<exists>s'. map_of (ai_sessions (adapter_activate a inner)) b = Some s' \<and> rpc_failure s' \<noteq> None"
  using assms fail_session_fields(1,3) [where a = b and inner = "inner\<lparr>ai_active := Some a\<rparr>"] by (simp_all add: adapter_activate_def)

lemma deactivate_active:
  assumes "ai_active inner = Some a" and "map_of (ai_sessions inner) a = Some s" and "expected \<in> {None, Some a}"
  shows "ai_active (adapter_deactivate expected inner) = None"
    and "\<exists>s'. map_of (ai_sessions (adapter_deactivate expected inner)) a = Some s' \<and> rpc_failure s' \<noteq> None"
  using assms fail_session_fields(1,3) [where a = a and inner = "inner\<lparr>ai_active := None\<rparr>"]
  by (auto simp: adapter_deactivate_def split: option.splits)

text \<open>The messages of an adapter's own errors never reach the administrator.\<close>

lemma map_session_error_public:
  "map_session_error e = AdapterProtocol c m \<Longrightarrow> c \<in> {''window_conflict'', ''window_closing''} \<and> public_protocol_error c = Some (c, m)"
  by (cases e) (auto simp: public_protocol_error_def split: if_splits option.splits prod.splits)

text \<open>A window is opened for three to fifteen minutes, and only of a running adapter.\<close>

lemma open_window_begin_ok:
  assumes "open_window_begin duration inner = Ok (a, seconds)"
  shows "duration = seconds * 10 ^ 9" "180 \<le> seconds" "seconds \<le> 900" "ai_active inner = Some a"
proof -
  have "seconds = duration div 10 ^ 9 \<and> duration mod 10 ^ 9 = 0 \<and> 180 \<le> seconds \<and> seconds \<le> 900 \<and> ai_active inner = Some a"
    using assms by (auto simp: open_window_begin_def running_def Let_def and_then_eq_Ok
        MINIMUM_COMMISSIONING_WINDOW_SECONDS_def MAXIMUM_COMMISSIONING_WINDOW_SECONDS_def split: if_splits)
  then show "duration = seconds * 10 ^ 9" "180 \<le> seconds" "seconds \<le> 900" "ai_active inner = Some a" by auto
qed

end
