(* ===== verification/Adapter_Mirror.thy ===== *)
theory Adapter_Mirror
  imports Adapter_Instance
begin

text \<open>
  The monitor of \<open>instance/worker.rs\<close> and the runtime together: what an adapter has been told
  follows the runtime. The system below interleaves any operations of the other users of
  the runtime with the steps of one monitor, which is suspended at every \<open>await\<close>; the answers
  of the adapter are arbitrary.
\<close>

section \<open>The system\<close>

text \<open>
  Where the monitor is suspended: before it takes a snapshot, in one of its calls, or in
  \<open>select!\<close>. The same phases describe \<open>wait_ready\<close>, which synchronises and checks the health
  once before the monitor starts.
\<close>

datatype phase = NeedsSync | Syncing sync_message | Checking | Waiting | Forwarding event | Finished

record 'w mirror =
  mi_runtime :: "'w runtime"
  mi_world :: 'w
  mi_run :: run_state
  mi_phase :: phase
  mi_ready :: bool
  mi_told :: "string \<Rightarrow> string \<Rightarrow> wire_value option"

datatype 'w mirror_event =
    RuntimeStep "'w operation"
  | TakeSnapshot
  | SyncAnswer "(adapter_failure session_error, sync_reply) result"
  | HealthTick
  | HealthAnswer "(adapter_failure session_error, health_reply) result"
  | StateEvent
  | EventAnswer "(adapter_failure session_error, unit) result"
  | TopologyEvent
  | SessionFails

text \<open>
  The subscription handles belong to the monitor: the operations of the others do not name them.
\<close>

fun foreign_op :: "nat \<Rightarrow> nat \<Rightarrow> 'w operation \<Rightarrow> bool" where
  "foreign_op i j (Recv k) = (k \<noteq> i)"
| "foreign_op i j (Cancel k) = (k \<noteq> i)"
| "foreign_op i j (DropHandle k) = (k \<noteq> i)"
| "foreign_op i j (DropTask k) = (k \<noteq> i)"
| "foreign_op i j (RecvTopology k) = (k \<noteq> j)"
| "foreign_op i j (CancelTopology k) = (k \<noteq> j)"
| "foreign_op i j (DropTopologyHandle k) = (k \<noteq> j)"
| "foreign_op i j (DropTopologyTask k) = (k \<noteq> j)"
| "foreign_op i j _ = True"

text \<open>The end of the monitor cancels both subscriptions; a failed \<open>wait_ready\<close> drops them.\<close>

definition end_monitor :: "nat \<Rightarrow> nat \<Rightarrow> 'w mirror \<Rightarrow> 'w mirror" where
  "end_monitor i j s =
     (let rt = mi_runtime s in
      s\<lparr>mi_phase := Finished,
        mi_runtime := (if mi_ready s
          then rt\<lparr>rt_events := hub_cancel i (rt_events rt), rt_topology := hub_cancel j (rt_topology rt)\<rparr>
          else rt\<lparr>rt_events := hub_drop i (rt_events rt), rt_topology := hub_drop j (rt_topology rt)\<rparr>)\<rparr>)"

definition act :: "event_action \<Rightarrow> phase \<Rightarrow> 'w mirror \<Rightarrow> 'w mirror" where
  "act a forward s =
     (case a of
        IgnoreEvent \<Rightarrow> s
      | Resynchronize \<Rightarrow> s\<lparr>mi_phase := NeedsSync\<rparr>
      | ForwardEvent \<Rightarrow> s\<lparr>mi_phase := forward\<rparr>)"

definition take_state_event :: "nat \<Rightarrow> nat \<Rightarrow> 'w mirror \<Rightarrow> 'w mirror" where
  "take_state_event i j s =
     (let rt = mi_runtime s; s' = s\<lparr>mi_runtime := rt\<lparr>rt_events := fst (hub_recv i (rt_events rt))\<rparr>\<rparr>
      in case snd (hub_recv i (rt_events rt)) of
           Pending \<Rightarrow> s
         | Ended \<Rightarrow> end_monitor i j s
         | Received e \<Rightarrow> act (state_event_action e (mi_run s)) (Forwarding e) s')"

definition take_topology_event :: "nat \<Rightarrow> nat \<Rightarrow> 'w mirror \<Rightarrow> 'w mirror" where
  "take_topology_event i j s =
     (let rt = mi_runtime s; s' = s\<lparr>mi_runtime := rt\<lparr>rt_topology := fst (hub_recv j (rt_topology rt))\<rparr>\<rparr>
      in case snd (hub_recv j (rt_topology rt)) of
           Pending \<Rightarrow> s
         | Ended \<Rightarrow> end_monitor i j s
         | Received t \<Rightarrow> act (topology_event_action t (mi_run s)) Waiting s')"

text \<open>
  What the adapter knows: an answered synchronisation replaces its picture, an answered
  event updates one entry.
\<close>

definition tell :: "event \<Rightarrow> (string \<Rightarrow> string \<Rightarrow> wire_value option) \<Rightarrow> string \<Rightarrow> string \<Rightarrow> wire_value option" where
  "tell e told d c = (if d = ev_device e \<and> c = ev_capability e then Some (adapter_value_to_api (ev_value e)) else told d c)"

definition take_sync_answer :: "nat \<Rightarrow> nat \<Rightarrow> (adapter_failure session_error, sync_reply) result \<Rightarrow> sync_message \<Rightarrow> 'w mirror \<Rightarrow> 'w mirror" where
  "take_sync_answer i j reply m s =
     (case sync_finish m reply (mi_run s) of
        Err _ \<Rightarrow> end_monitor i j s
      | Ok run' \<Rightarrow> s\<lparr>mi_run := run', mi_told := sync_value m, mi_phase := if mi_ready s then Waiting else Checking\<rparr>)"

fun mirror_exec :: "nat \<Rightarrow> nat \<Rightarrow> 'w mirror_event \<Rightarrow> 'w mirror \<Rightarrow> 'w mirror" where
  "mirror_exec i j (RuntimeStep op) s =
     (if foreign_op i j op
      then (case exec op (mi_runtime s, mi_world s) of (rt, w) \<Rightarrow> s\<lparr>mi_runtime := rt, mi_world := w\<rparr>)
      else s)"
| "mirror_exec i j TakeSnapshot s =
     (if mi_phase s = NeedsSync
      then (case sync_begin (take_snapshot (mi_runtime s)) (mi_run s) of
              Err _ \<Rightarrow> end_monitor i j s
            | Ok m \<Rightarrow> s\<lparr>mi_phase := Syncing m\<rparr>)
      else s)"
| "mirror_exec i j (SyncAnswer reply) s = (case mi_phase s of Syncing m \<Rightarrow> take_sync_answer i j reply m s | _ \<Rightarrow> s)"
| "mirror_exec i j HealthTick s = (if mi_phase s = Waiting then s\<lparr>mi_phase := Checking\<rparr> else s)"
| "mirror_exec i j (HealthAnswer reply) s =
     (if mi_phase s = Checking
      then (case refresh_health reply (mi_run s) of
              Err _ \<Rightarrow> end_monitor i j s
            | Ok run' \<Rightarrow> s\<lparr>mi_run := run', mi_ready := True, mi_phase := Waiting\<rparr>)
      else s)"
| "mirror_exec i j StateEvent s = (if mi_phase s = Waiting then take_state_event i j s else s)"
| "mirror_exec i j (EventAnswer reply) s =
     (case mi_phase s of
        Forwarding e \<Rightarrow>
          (case reply of Err _ \<Rightarrow> end_monitor i j s | Ok _ \<Rightarrow> s\<lparr>mi_told := tell e (mi_told s), mi_phase := Waiting\<rparr>)
      | _ \<Rightarrow> s)"
| "mirror_exec i j TopologyEvent s = (if mi_phase s = Waiting then take_topology_event i j s else s)"
| "mirror_exec i j SessionFails s = (if mi_phase s = Waiting then end_monitor i j s else s)"

definition mirror_start :: "'w runtime \<Rightarrow> 'w \<Rightarrow> 'w mirror" where
  "mirror_start rt w = \<lparr>mi_runtime = rt, mi_world = w, mi_run = run_state_new, mi_phase = NeedsSync,
     mi_ready = False, mi_told = (\<lambda>_ _. None)\<rparr>"

definition mirror_run :: "nat \<Rightarrow> nat \<Rightarrow> 'w mirror_event list \<Rightarrow> 'w mirror \<Rightarrow> 'w mirror" where
  "mirror_run i j evs s = fold (mirror_exec i j) evs s"

section \<open>Queues of attached subscriptions\<close>

definition live_queue :: "nat \<Rightarrow> 'e hub \<Rightarrow> 'e list option" where
  "live_queue i h = map_option ch_queue (map_of (attached h) i)"

lemma live_foreign:
  "i \<noteq> k \<Longrightarrow> live_queue i (fst (hub_recv k h)) = live_queue i h"
  "i \<noteq> k \<Longrightarrow> live_queue i (hub_cancel k h) = live_queue i h"
  "i \<noteq> k \<Longrightarrow> live_queue i (hub_drop k h) = live_queue i h"
  "i \<noteq> k \<Longrightarrow> live_queue i (hub_drop_task k h) = live_queue i h"
  "i \<le> next_subscriber h \<Longrightarrow> live_queue i (fst (hub_subscribe b h)) = live_queue i h"
  by (auto simp: live_queue_def hub_recv_def hub_cancel_def close_receiver_def hub_remove_simps hub_drop_def
      hub_drop_task_def hub_subscribe_def Let_def split: option.splits list.splits)

lemma live_dispatch:
  assumes "hub_ok f n h" and "live_queue i (dispatch e h) = Some q'"
  obtains q where "live_queue i h = Some q" "q' = q @ [e]"
  using assms dispatch_attached [OF hub_okD(1) [OF assms(1)], of e i]
  by (auto simp: live_queue_def after_offer_def split: option.splits if_splits)

lemma live_recv:
  assumes "live_queue i (fst (hub_recv i h)) = Some q" and "snd (hub_recv i h) = Received e"
  shows "live_queue i h = Some (e # q)"
  using assms
  by (cases "map_of (attached h) i")
     (auto simp: live_queue_def hub_recv_def split: option.splits list.splits if_splits)

lemma live_bound: "hub_ok f n h \<Longrightarrow> live_queue i h = Some q \<Longrightarrow> e \<in> set q \<Longrightarrow> f e \<le> n"
  by (auto simp: live_queue_def channel_ok_def dest: hub_okD(3))

section \<open>What the operations of others do\<close>

definition observed :: "'w runtime \<Rightarrow> device_id \<Rightarrow> capability_id \<Rightarrow> bool" where
  "observed rt d c =
     (case Option.bind (map_of (rt_devices rt) d) (map_of (rt_heap rt)) of
        None \<Rightarrow> False
      | Some g \<Rightarrow> (case map_of (reg_capabilities g) c of None \<Rightarrow> False | Some cap \<Rightarrow> perm_observe (cap_permissions cap)))"

definition unchanged :: "nat \<Rightarrow> nat \<Rightarrow> 'w runtime \<Rightarrow> 'w runtime \<Rightarrow> bool" where
  "unchanged i j rt rt' \<longleftrightarrow> current_value rt' = current_value rt \<and> observed rt' = observed rt
     \<and> rt_revision rt' = rt_revision rt \<and> live_queue i (rt_events rt') = live_queue i (rt_events rt)
     \<and> live_queue j (rt_topology rt') = live_queue j (rt_topology rt)
     \<and> next_subscriber (rt_events rt) \<le> next_subscriber (rt_events rt')
     \<and> next_subscriber (rt_topology rt) \<le> next_subscriber (rt_topology rt')"

definition value_changed :: "system_time \<Rightarrow> device_id \<Rightarrow> capability_id \<Rightarrow> scalar \<Rightarrow> 'w runtime \<Rightarrow> 'w runtime \<Rightarrow> bool" where
  "value_changed now d c v rt rt' \<longleftrightarrow>
     (\<forall>d' c'. current_value rt' d' c' = (if d' = d \<and> c' = c then Some v else current_value rt d' c'))
     \<and> observed rt' = observed rt \<and> rt_revision rt' = rt_revision rt + 1 \<and> rt_topology rt' = rt_topology rt
     \<and> rt_events rt' = (if observed rt d c then dispatch (value_event now d c v (rt_revision rt + 1)) (rt_events rt)
                        else rt_events rt)"

definition topology_changed :: "'w runtime \<Rightarrow> 'w runtime \<Rightarrow> bool" where
  "topology_changed rt rt' \<longleftrightarrow> rt_revision rt' = rt_revision rt + 1
     \<and> rt_topology rt' = dispatch \<lparr>top_revision = rt_revision rt + 1\<rparr> (rt_topology rt)
     \<and> rt_events rt' = rt_events rt"

lemma unchanged_refl [simp]: "unchanged i j rt rt"
  by (simp add: unchanged_def)

lemma observed_cong:
  assumes "rt_devices rt' = rt_devices rt" and "\<And>a. map_option reg_capabilities (map_of (rt_heap rt') a) = map_option reg_capabilities (map_of (rt_heap rt) a)"
  shows "observed rt' = observed rt"
proof (intro ext)
  fix d c
  show "observed rt' d c = observed rt d c"
  proof (cases "map_of (rt_devices rt) d")
    case (Some a)
    then show ?thesis using assms(1) assms(2) [of a]
      by (cases "map_of (rt_heap rt) a"; cases "map_of (rt_heap rt') a") (simp_all add: observed_def)
  qed (simp add: observed_def assms)
qed

lemma committed_changes:
  assumes ok: "rt_ok rt" and look: "lookup rt d c = Ok (a, cap)"
    and run: "commit now a d cap v rt w = (rt', w', r)"
  shows "unchanged i j rt rt' \<or> value_changed now d c v rt rt'"
proof -
  obtain g where g: "rt_started rt" "map_of (rt_devices rt) d = Some a" "map_of (rt_heap rt) a = Some g"
      "reg_ok d g" "map_of (reg_capabilities g) c = Some cap"
    using look by (auto simp: lookup_ok [OF ok])
  have id: "cap_id cap = c" using reg_ok_capability(3) g(4,5) by blast
  obtain u where u: "map_of (reg_current g) (cap_id cap) = Some u"
    using reg_ok_current [OF g(4,5)] id by metis
  have obs: "observed rt d c = perm_observe (cap_permissions cap)" using g by (simp add: observed_def)
  from g(1-3) u show ?thesis
  proof (cases rule: commit_cases [where v = v and now = now and w = w])
    case (committed w1)
    then have rt': "rt' = publish_revision now d cap v (commit_values a c v g rt)" using run id by simp
    have "observed rt' = observed rt"
      by (rule observed_cong) (simp_all add: rt' commit_values_def g(3))
    moreover have "current_value rt' d' c' = (if d' = d \<and> c' = c then Some v else current_value rt d' c')" for d' c'
      by (simp add: rt' current_value_commit_values [OF ok g(2,3)])
    moreover have "rt_events rt' = (if observed rt d c then dispatch (value_event now d c v (rt_revision rt + 1)) (rt_events rt)
        else rt_events rt)"
      by (simp add: rt' obs publish_revision_def dispatch_events_def value_event_def id Let_def)
    ultimately show ?thesis by (simp add: value_changed_def) (simp add: rt')
  qed (use run in simp_all)
qed

definition all_closed :: "'w runtime \<Rightarrow> 'w runtime \<Rightarrow> bool" where
  "all_closed rt rt' \<longleftrightarrow> attached (rt_events rt') = [] \<and> next_subscriber (rt_events rt') = next_subscriber (rt_events rt)
     \<and> next_subscriber (rt_topology rt') = next_subscriber (rt_topology rt)"

definition changes :: "nat \<Rightarrow> nat \<Rightarrow> 'w runtime \<Rightarrow> 'w runtime \<Rightarrow> bool" where
  "changes i j rt rt' \<longleftrightarrow> unchanged i j rt rt' \<or> (\<exists>now d c v. value_changed now d c v rt rt')
     \<or> topology_changed rt rt' \<or> all_closed rt rt'"

lemma changes_refl [simp]: "changes i j rt rt"
  by (simp add: changes_def)

lemma write_value_changes:
  assumes "rt_ok rt"
  shows "changes i j rt (fst (write_value now cmd rt w))"
proof -
  obtain rt' w' r where run: "write_value now cmd rt w = (rt', w', r)" by (metis prod_cases3)
  show ?thesis
  proof (cases r)
    case (Inl e)
    then have "rt' = rt"
      using run write_finish_error_keeps by (fastforce simp: write_value_def split: sum.splits prod.splits)
    with run show ?thesis by simp
  next
    case (Inr v)
    with run have "write_value now cmd rt w = (rt', w', Ok v)" by simp
    from write_value_ok [OF assms this] obtain a cap h w1 where
      *: "write_begin cmd rt = Ok (a, cap, h)" "commit now a (cmd_device cmd) cap v rt w1 = (rt', w', Ok ())" by metis
    have "lookup rt (cmd_device cmd) (cmd_capability cmd) = Ok (a, cap)"
      using *(1) by (auto dest: write_begin_ok [OF assms])
    from committed_changes [OF assms this *(2), of i j] show ?thesis using run by (auto simp: changes_def)
  qed
qed

lemma publish_changes:
  assumes "rt_ok rt"
  shows "changes i j rt (fst (publish now d c v rt w))"
proof (cases rule: publish_cases [OF assms, of now d c v w])
  case (2 a cap)
  obtain rt' w' r where "commit now a d cap v rt w = (rt', w', r)" by (metis prod_cases3)
  with committed_changes [OF assms 2(1) this, of i j] 2(3) show ?thesis by (auto simp: changes_def)
qed simp

lemma bump_changes: "rt_revision rt = rt_revision rt0 \<Longrightarrow> rt_topology rt = rt_topology rt0 \<Longrightarrow> rt_events rt = rt_events rt0
    \<Longrightarrow> topology_changed rt0 (bump_topology rt)"
  by (simp add: topology_changed_def bump_topology_def dispatch_topology_def Let_def)

lemma register_insert_changes: "topology_changed rt (register_insert d h r rt)"
  unfolding register_insert_def Let_def by (rule bump_changes) simp_all

lemma objects_unchanged:
  assumes "rt_devices rt' = rt_devices rt" and "rt_heap rt' = rt_heap rt"
  shows "current_value rt' = current_value rt" and "observed rt' = observed rt"
  by (intro ext, simp only: current_value_def assms) (intro ext, simp only: observed_def assms)

lemma hub_next_subscriber:
  "next_subscriber (fst (hub_recv k h)) = next_subscriber h" "next_subscriber (hub_cancel k h) = next_subscriber h"
  "next_subscriber (hub_drop k h) = next_subscriber h" "next_subscriber (hub_drop_task k h) = next_subscriber h"
  "next_subscriber h \<le> next_subscriber (fst (hub_subscribe b h))"
  by (auto simp: hub_recv_def hub_cancel_def close_receiver_def hub_remove_simps hub_drop_def hub_drop_task_def
      hub_subscribe_def Let_def split: option.splits list.splits)

lemma hubs_unchanged:
  "live_queue i h = live_queue i (rt_events rt) \<Longrightarrow> next_subscriber (rt_events rt) \<le> next_subscriber h
     \<Longrightarrow> unchanged i j rt (rt\<lparr>rt_events := h\<rparr>)"
  "live_queue j h' = live_queue j (rt_topology rt) \<Longrightarrow> next_subscriber (rt_topology rt) \<le> next_subscriber h'
     \<Longrightarrow> unchanged i j rt (rt\<lparr>rt_topology := h'\<rparr>)"
  unfolding unchanged_def by (auto intro!: objects_unchanged)

lemma foreign_changes:
  assumes "rt_ok rt" and "foreign_op i j op" and "i \<le> next_subscriber (rt_events rt)" and "j \<le> next_subscriber (rt_topology rt)"
  shows "changes i j rt (fst (exec op (rt, w)))"
proof (cases op)
  case Start
  then show ?thesis unfolding changes_def unchanged_def by (auto simp: start_def intro!: disjI1 objects_unchanged)
next
  case Stop
  then show ?thesis by (simp add: stop_def changes_def all_closed_def close_all_simps)
next
  case (Register d h)
  show ?thesis
    unfolding Register by (cases rule: register_cases [of d h rt w]) (simp_all add: changes_def register_insert_changes)
next
  case (Unregister d)
  have "topology_changed rt (bump_topology (rt\<lparr>rt_devices := del d (rt_devices rt)\<rparr>))" by (rule bump_changes) simp_all
  then show ?thesis by (simp add: Unregister unregister_def changes_def split: sum.split)
next
  case (WriteValue now cmd)
  then show ?thesis by (simp add: write_value_changes assms(1))
next
  case (Publish now d c v)
  then show ?thesis by (simp add: publish_changes assms(1))
next
  case (Subscribe b)
  then show ?thesis
    using hubs_unchanged(1) [OF live_foreign(5) [OF assms(3), of b] hub_next_subscriber(5), where j = j]
    by (auto simp: subscribe_def changes_def split: sum.split prod.split)
next
  case (SubscribeTopology b)
  then show ?thesis
    using hubs_unchanged(2) [OF live_foreign(5) [OF assms(4), of b] hub_next_subscriber(5), where i = i]
    by (auto simp: subscribe_topology_def changes_def split: sum.split prod.split)
qed (use assms(2) in \<open>auto simp: changes_def live_foreign hub_next_subscriber intro!: hubs_unchanged\<close>)

lemma changes_next_subscriber:
  assumes "changes i j rt rt'"
  shows "next_subscriber (rt_events rt) \<le> next_subscriber (rt_events rt')"
    and "next_subscriber (rt_topology rt) \<le> next_subscriber (rt_topology rt')"
  using assms
  by (auto simp: changes_def unchanged_def value_changed_def topology_changed_def all_closed_def dispatch_rest)

section \<open>The picture follows the runtime\<close>

text \<open>The picture after the events that are still queued and newer than the snapshot.\<close>

fun replay :: "nat \<Rightarrow> event list \<Rightarrow> (string \<Rightarrow> string \<Rightarrow> wire_value option) \<Rightarrow> string \<Rightarrow> string \<Rightarrow> wire_value option" where
  "replay r [] told = told"
| "replay r (e # es) told = replay r es (if ev_revision e \<le> r then told else tell e told)"

lemma replay_append: "replay r (es @ fs) told = replay r fs (replay r es told)"
  by (induction r es told rule: replay.induct) simp_all

lemma replay_old: "(\<And>e. e \<in> set es \<Longrightarrow> ev_revision e \<le> r) \<Longrightarrow> replay r es told = told"
  by (induction es) simp_all

lemma replay_cong: "told d c = told' d c \<Longrightarrow> replay r es told d c = replay r es told' d c"
proof (induction es arbitrary: told told')
  case (Cons e es)
  let ?f = "\<lambda>t. if ev_revision e \<le> r then t else tell e t"
  have "?f told d c = ?f told' d c" using Cons.prems by (simp add: tell_def)
  then show ?case using Cons.IH [of "?f told" "?f told'"] by (simp only: replay.simps)
qed simp

definition faithful :: "nat \<Rightarrow> nat \<Rightarrow> 'w runtime \<Rightarrow> nat \<Rightarrow> (string \<Rightarrow> string \<Rightarrow> bool) \<Rightarrow> (string \<Rightarrow> string \<Rightarrow> wire_value option) \<Rightarrow> bool" where
  "faithful i j rt r relevant told \<longleftrightarrow>
     (\<forall>q q'. live_queue i (rt_events rt) = Some q \<longrightarrow> live_queue j (rt_topology rt) = Some q' \<longrightarrow>
        r \<le> rt_revision rt \<and>
        ((\<exists>t \<in> set q'. r < top_revision t) \<or>
         (\<forall>d c. observed rt d c \<longrightarrow> relevant d c \<longrightarrow>
            replay r q told d c = map_option adapter_value_to_api (current_value rt d c))))"

lemma faithfulI:
  assumes "\<And>q q'. live_queue i (rt_events rt) = Some q \<Longrightarrow> live_queue j (rt_topology rt) = Some q' \<Longrightarrow> r \<le> rt_revision rt"
    and "\<And>q q' d c. live_queue i (rt_events rt) = Some q \<Longrightarrow> live_queue j (rt_topology rt) = Some q' \<Longrightarrow>
      list_all (\<lambda>t. top_revision t \<le> r) q' \<Longrightarrow> observed rt d c \<Longrightarrow> relevant d c \<Longrightarrow>
      replay r q told d c = map_option adapter_value_to_api (current_value rt d c)"
  shows "faithful i j rt r relevant told"
  unfolding faithful_def
proof (intro allI impI conjI)
  fix q q'
  assume q: "live_queue i (rt_events rt) = Some q" and q': "live_queue j (rt_topology rt) = Some q'"
  show "r \<le> rt_revision rt" using assms(1) q q' by blast
  show "(\<exists>t \<in> set q'. r < top_revision t) \<or> (\<forall>d c. observed rt d c \<longrightarrow> relevant d c \<longrightarrow>
      replay r q told d c = map_option adapter_value_to_api (current_value rt d c))"
    using assms(2) [OF q q'] by (fastforce simp: list_all_iff not_less)
qed

lemma faithfulD:
  assumes "faithful i j rt r relevant told"
    and "live_queue i (rt_events rt) = Some q" and "live_queue j (rt_topology rt) = Some q'"
  shows "r \<le> rt_revision rt"
    and "list_all (\<lambda>t. top_revision t \<le> r) q' \<Longrightarrow> observed rt d c \<Longrightarrow> relevant d c \<Longrightarrow>
      replay r q told d c = map_option adapter_value_to_api (current_value rt d c)"
  using assms unfolding faithful_def by (blast, fastforce simp: list_all_iff not_less)

lemma faithful_unchanged:
  assumes "unchanged i j rt rt'" and "faithful i j rt r relevant told"
  shows "faithful i j rt' r relevant told"
  using assms by (simp only: faithful_def unchanged_def)

lemma faithful_topology:
  assumes "rt_ok rt" and ch: "topology_changed rt rt'" and "faithful i j rt r relevant told"
  shows "faithful i j rt' r relevant told"
proof (rule faithfulI)
  fix q q'
  assume q: "live_queue i (rt_events rt') = Some q" and q': "live_queue j (rt_topology rt') = Some q'"
  let ?t = "\<lparr>top_revision = rt_revision rt + 1\<rparr>"
  have "live_queue j (dispatch ?t (rt_topology rt)) = Some q'" using q' ch by (simp add: topology_changed_def)
  then obtain p where p: "live_queue j (rt_topology rt) = Some p" "q' = p @ [?t]"
    by (rule live_dispatch [OF rt_okD(5) [OF assms(1)]])
  have "live_queue i (rt_events rt) = Some q" using q ch by (simp add: topology_changed_def)
  from faithfulD(1) [OF assms(3) this p(1)] have r: "r \<le> rt_revision rt" .
  then show "r \<le> rt_revision rt'" using ch by (simp add: topology_changed_def)
  fix d c
  assume "list_all (\<lambda>t. top_revision t \<le> r) q'"
  then show "replay r q told d c = map_option adapter_value_to_api (current_value rt' d c)" using r by (simp add: p(2))
qed

lemma faithful_value:
  assumes "rt_ok rt" and ch: "value_changed now d c v rt rt'" and "faithful i j rt r relevant told"
  shows "faithful i j rt' r relevant told"
proof (rule faithfulI)
  let ?e = "value_event now d c v (rt_revision rt + 1)"
  fix q q'
  assume q: "live_queue i (rt_events rt') = Some q" and q': "live_queue j (rt_topology rt') = Some q'"
  have top: "live_queue j (rt_topology rt) = Some q'" using q' ch by (simp add: value_changed_def)
  obtain p where p: "live_queue i (rt_events rt) = Some p" "q = p @ (if observed rt d c then [?e] else [])"
  proof (cases "observed rt d c")
    case True
    then have "live_queue i (dispatch ?e (rt_events rt)) = Some q" using q ch by (simp add: value_changed_def)
    then show thesis by (rule live_dispatch [OF rt_okD(4) [OF assms(1)]]) (rule that, simp_all add: True)
  next
    case False
    then show thesis using q ch by (intro that [of q]) (simp_all add: value_changed_def)
  qed
  have r: "r \<le> rt_revision rt" by (rule faithfulD(1) [OF assms(3) p(1) top])
  then show "r \<le> rt_revision rt'" using ch by (simp add: value_changed_def)
  fix d' c'
  assume quiet: "list_all (\<lambda>t. top_revision t \<le> r) q'" and obs: "observed rt' d' c'" and rel: "relevant d' c'"
  have obs': "observed rt d' c'" using obs ch by (simp add: value_changed_def)
  have old: "replay r p told d' c' = map_option adapter_value_to_api (current_value rt d' c')"
    by (rule faithfulD(2) [OF assms(3) p(1) top quiet obs' rel])
  have new: "current_value rt' d' c' = (if d' = d \<and> c' = c then Some v else current_value rt d' c')"
    using ch by (simp add: value_changed_def)
  show "replay r q told d' c' = map_option adapter_value_to_api (current_value rt' d' c')"
    using old obs' r by (auto simp: p(2) new replay_append tell_def value_event_def)
qed

lemma faithful_changes:
  assumes "rt_ok rt" and "changes i j rt rt'" and "faithful i j rt r relevant told"
  shows "faithful i j rt' r relevant told"
proof -
  consider "unchanged i j rt rt'" | now d c v where "value_changed now d c v rt rt'" | "topology_changed rt rt'"
    | "all_closed rt rt'" using assms(2) unfolding changes_def by blast
  then show ?thesis
  proof cases
    case 1
    then show ?thesis using assms(3) by (rule faithful_unchanged)
  next
    case 2
    then show ?thesis using assms(3) by (rule faithful_value [OF assms(1)])
  next
    case 3
    then show ?thesis using assms(3) by (rule faithful_topology [OF assms(1)])
  next
    case 4
    then show ?thesis by (simp add: faithful_def live_queue_def all_closed_def)
  qed
qed

lemma faithful_snapshot:
  assumes "rt_ok rt" and "sync_begin (take_snapshot rt) st = Ok m"
  shows "faithful i j rt (sy_revision m) (\<lambda>d c. True) (sync_value m)"
proof -
  have m: "sync_request (take_snapshot rt) (rs_generation st + 1) = Ok m" using assms(2) by (simp add: sync_begin_def)
  have "replay (rt_revision rt) q told = told" if "live_queue i (rt_events rt) = Some q" for q told
    using live_bound [OF rt_okD(4) [OF assms(1)] that] by (intro replay_old) simp
  then show ?thesis using sync_request_values [OF assms(1) m] by (simp add: faithful_def)
qed

section \<open>The invariant of the system\<close>

fun picture_ok :: "nat \<Rightarrow> nat \<Rightarrow> 'w runtime \<Rightarrow> run_state \<Rightarrow> (string \<Rightarrow> string \<Rightarrow> wire_value option) \<Rightarrow> phase \<Rightarrow> bool" where
  "picture_ok i j rt st told (Syncing m) = faithful i j rt (sy_revision m) (\<lambda>d c. True) (sync_value m)"
| "picture_ok i j rt st told (Forwarding e) =
     faithful i j rt (rs_snapshot_revision st) (has_key (rs_known st)) (tell e told)"
| "picture_ok i j rt st told Waiting = faithful i j rt (rs_snapshot_revision st) (has_key (rs_known st)) told"
| "picture_ok i j rt st told Checking = faithful i j rt (rs_snapshot_revision st) (has_key (rs_known st)) told"
| "picture_ok i j rt st told _ = True"

definition mirror_ok :: "nat \<Rightarrow> nat \<Rightarrow> 'w mirror \<Rightarrow> bool" where
  "mirror_ok i j s \<longleftrightarrow> rt_ok (mi_runtime s)
     \<and> i \<le> next_subscriber (rt_events (mi_runtime s)) \<and> j \<le> next_subscriber (rt_topology (mi_runtime s))
     \<and> picture_ok i j (mi_runtime s) (mi_run s) (mi_told s) (mi_phase s)"

lemma picture_changes:
  assumes "rt_ok rt" and "changes i j rt rt'" and "picture_ok i j rt st told ph"
  shows "picture_ok i j rt' st told ph"
  using assms faithful_changes [OF assms(1,2)] by (cases ph) auto

lemma mirror_runtime:
  assumes "mirror_ok i j s" and "foreign_op i j op"
  shows "mirror_ok i j (mirror_exec i j (RuntimeStep op) s)"
proof -
  obtain rt w where e: "exec op (mi_runtime s, mi_world s) = (rt, w)" by fastforce
  have ok: "rt_ok (mi_runtime s)" "rt_ok rt"
    using assms(1) exec_rt_ok [of "(mi_runtime s, mi_world s)" op] by (simp_all add: mirror_ok_def e)
  have ch: "changes i j (mi_runtime s) rt"
    using foreign_changes [OF ok(1) assms(2), of "mi_world s"] assms(1) by (simp add: mirror_ok_def e)
  show ?thesis
    using assms ok picture_changes [OF ok(1) ch] changes_next_subscriber [OF ch] by (auto simp: mirror_ok_def e intro: order_trans)
qed

lemma rt_ok_hubs:
  assumes "rt_ok rt" and "hub_ok ev_revision (rt_revision rt) h" "attached (rt_events rt) = [] \<Longrightarrow> attached h = []"
    and "hub_ok top_revision (rt_revision rt) h'" "attached (rt_topology rt) = [] \<Longrightarrow> attached h' = []"
  shows "rt_ok (rt\<lparr>rt_events := h, rt_topology := h'\<rparr>)"
  using assms by (auto simp: rt_ok_def)

lemma mirror_end: "mirror_ok i j s \<Longrightarrow> mirror_ok i j (end_monitor i j s)"
  by (auto simp: mirror_ok_def end_monitor_def Let_def hub_next_subscriber attached_Nil rt_okD
      intro!: rt_ok_hubs hub_ok_intros)

lemma faithful_take_event:
  assumes "faithful i j rt r relevant told" and "snd (hub_recv i (rt_events rt)) = Received e"
    and told: "\<And>d c. relevant d c \<Longrightarrow> told' d c = (if ev_revision e \<le> r then told else tell e told) d c"
  shows "faithful i j (rt\<lparr>rt_events := fst (hub_recv i (rt_events rt))\<rparr>) r relevant told'" (is "faithful i j ?rt r relevant told'")
proof (rule faithfulI)
  have same: "current_value ?rt = current_value rt" "observed ?rt = observed rt" by (rule objects_unchanged; simp)+
  fix q q'
  assume "live_queue i (rt_events ?rt) = Some q" and "live_queue j (rt_topology ?rt) = Some q'"
  then have live: "live_queue i (rt_events rt) = Some (e # q)" "live_queue j (rt_topology rt) = Some q'"
    using live_recv [OF _ assms(2)] by simp_all
  show "r \<le> rt_revision ?rt" using faithfulD(1) [OF assms(1) live] by simp
  fix d c
  assume "list_all (\<lambda>t. top_revision t \<le> r) q'" "observed ?rt d c" "relevant d c"
  then have "replay r (e # q) told d c = map_option adapter_value_to_api (current_value rt d c)"
    using faithfulD(2) [OF assms(1) live] same by simp
  then show "replay r q told' d c = map_option adapter_value_to_api (current_value ?rt d c)"
    using replay_cong [of told' d c "if ev_revision e \<le> r then told else tell e told" r q] told [OF \<open>relevant d c\<close>] same
    by simp
qed

lemma faithful_take_topology:
  assumes "faithful i j rt r relevant told" and "snd (hub_recv j (rt_topology rt)) = Received t" and "top_revision t \<le> r"
  shows "faithful i j (rt\<lparr>rt_topology := fst (hub_recv j (rt_topology rt))\<rparr>) r relevant told" (is "faithful i j ?rt r relevant told")
proof (rule faithfulI)
  have same: "current_value ?rt = current_value rt" "observed ?rt = observed rt" by (rule objects_unchanged; simp)+
  fix q q'
  assume "live_queue i (rt_events ?rt) = Some q" and "live_queue j (rt_topology ?rt) = Some q'"
  then have live: "live_queue i (rt_events rt) = Some q" "live_queue j (rt_topology rt) = Some (t # q')"
    using live_recv [OF _ assms(2)] by simp_all
  show "r \<le> rt_revision ?rt" using faithfulD(1) [OF assms(1) live] by simp
  fix d c
  assume "list_all (\<lambda>t. top_revision t \<le> r) q'" "observed ?rt d c" "relevant d c"
  then show "replay r q told d c = map_option adapter_value_to_api (current_value ?rt d c)"
    using faithfulD(2) [OF assms(1) live] same assms(3) by simp
qed

lemma mirror_took_event:
  assumes "mirror_ok i j s"
  shows "rt_ok ((mi_runtime s)\<lparr>rt_events := fst (hub_recv i (rt_events (mi_runtime s)))\<rparr>)"
    and "rt_ok ((mi_runtime s)\<lparr>rt_topology := fst (hub_recv j (rt_topology (mi_runtime s)))\<rparr>)"
  using assms exec_rt_ok [of "(mi_runtime s, mi_world s)" "Recv i"] exec_rt_ok [of "(mi_runtime s, mi_world s)" "RecvTopology j"]
  by (simp_all add: mirror_ok_def)

lemma mirror_state_event:
  assumes ok: "mirror_ok i j s" and "mi_phase s = Waiting"
  shows "mirror_ok i j (take_state_event i j s)"
proof (cases "snd (hub_recv i (rt_events (mi_runtime s)))")
  case (Received e)
  let ?r = "rs_snapshot_revision (mi_run s)" and ?rel = "has_key (rs_known (mi_run s))"
  let ?rt = "(mi_runtime s)\<lparr>rt_events := fst (hub_recv i (rt_events (mi_runtime s)))\<rparr>"
  have f: "faithful i j (mi_runtime s) ?r ?rel (mi_told s)" using assms by (simp add: mirror_ok_def)
  have ignored: "faithful i j ?rt ?r ?rel (mi_told s)" if "ev_revision e \<le> ?r \<or> \<not> contains (rs_known (mi_run s)) e"
    by (rule faithful_take_event [OF f Received]) (use that in \<open>auto simp: tell_def contains_def\<close>)
  have forwarded: "faithful i j ?rt ?r ?rel (tell e (mi_told s))" if "\<not> ev_revision e \<le> ?r"
    by (rule faithful_take_event [OF f Received]) (use that in simp)
  show ?thesis
    using ok mirror_took_event(1) [OF ok] ignored forwarded assms(2)
    by (auto simp: take_state_event_def Received Let_def act_def state_event_action_def mirror_ok_def hub_next_subscriber)
next
  case Pending
  then show ?thesis using ok by (simp add: take_state_event_def)
next
  case Ended
  then show ?thesis using mirror_end [OF ok] by (simp add: take_state_event_def)
qed

lemma mirror_topology_event:
  assumes ok: "mirror_ok i j s" and "mi_phase s = Waiting"
  shows "mirror_ok i j (take_topology_event i j s)"
proof (cases "snd (hub_recv j (rt_topology (mi_runtime s)))")
  case (Received t)
  let ?r = "rs_snapshot_revision (mi_run s)" and ?rel = "has_key (rs_known (mi_run s))"
  have f: "faithful i j (mi_runtime s) ?r ?rel (mi_told s)" using assms by (simp add: mirror_ok_def)
  show ?thesis
    using ok mirror_took_event(2) [OF ok] faithful_take_topology [OF f Received] assms(2)
    by (auto simp: take_topology_event_def Received Let_def act_def topology_event_action_def mirror_ok_def hub_next_subscriber)
next
  case Pending
  then show ?thesis using ok by (simp add: take_topology_event_def)
next
  case Ended
  then show ?thesis using mirror_end [OF ok] by (simp add: take_topology_event_def)
qed

lemma sync_finish_ok:
  assumes "sync_finish m reply st = Ok st'"
  shows "rs_snapshot_revision st' = sy_revision m" and "rs_generation st' = sy_generation m"
    and "has_key (rs_known st') d c \<Longrightarrow> has_key (projection_keys (sy_devices m)) d c"
  using assms by (auto simp: sync_finish_def and_then_eq_Ok Let_def intro: accepted_keys_sound split: if_splits)

lemma mirror_sync_answer:
  assumes ok: "mirror_ok i j s" and "mi_phase s = Syncing m"
  shows "mirror_ok i j (take_sync_answer i j reply m s)"
proof (cases "sync_finish m reply (mi_run s)")
  case (Inl e)
  then show ?thesis using mirror_end [OF ok] by (simp add: take_sync_answer_def)
next
  case (Inr st)
  have "faithful i j (mi_runtime s) (sy_revision m) (\<lambda>d c. True) (sync_value m)" using assms by (simp add: mirror_ok_def)
  then have "faithful i j (mi_runtime s) (rs_snapshot_revision st) (has_key (rs_known st)) (sync_value m)"
    unfolding sync_finish_ok(1) [OF Inr] by (intro faithfulI) (blast dest: faithfulD)+
  then show ?thesis using ok by (simp add: take_sync_answer_def Inr mirror_ok_def)
qed

lemma refresh_health_keeps:
  "refresh_health reply st = Ok st' \<Longrightarrow> rs_snapshot_revision st' = rs_snapshot_revision st \<and> rs_known st' = rs_known st"
  by (auto simp: refresh_health_def and_then_eq_Ok)

lemma mirror_exec_ok:
  assumes ok: "mirror_ok i j s"
  shows "mirror_ok i j (mirror_exec i j ev s)"
proof (cases ev)
  case (RuntimeStep op)
  then show ?thesis using mirror_runtime [OF ok] ok by (cases "foreign_op i j op") simp_all
next
  case TakeSnapshot
  show ?thesis
  proof (cases "mi_phase s = NeedsSync")
    case True
    then show ?thesis
      using ok mirror_end [OF ok] faithful_snapshot [of "mi_runtime s" "mi_run s" _ i j]
      by (cases "sync_begin (take_snapshot (mi_runtime s)) (mi_run s)") (simp_all add: TakeSnapshot mirror_ok_def)
  qed (simp add: TakeSnapshot ok)
next
  case (SyncAnswer reply)
  then show ?thesis using ok mirror_sync_answer [OF ok] by (cases "mi_phase s") simp_all
next
  case HealthTick
  then show ?thesis using ok by (cases "mi_phase s = Waiting") (simp_all add: mirror_ok_def)
next
  case (HealthAnswer reply)
  show ?thesis
  proof (cases "mi_phase s = Checking")
    case True
    then show ?thesis
      using ok mirror_end [OF ok] refresh_health_keeps [of reply "mi_run s"]
      by (cases "refresh_health reply (mi_run s)") (simp_all add: HealthAnswer mirror_ok_def)
  qed (simp add: HealthAnswer ok)
next
  case StateEvent
  then show ?thesis using ok mirror_state_event [OF ok] by simp
next
  case (EventAnswer reply)
  show ?thesis
  proof (cases "mi_phase s")
    case (Forwarding e)
    then show ?thesis using ok mirror_end [OF ok] by (cases reply) (simp_all add: EventAnswer mirror_ok_def)
  qed (simp_all add: EventAnswer ok)
next
  case TopologyEvent
  then show ?thesis using ok mirror_topology_event [OF ok] by simp
next
  case SessionFails
  then show ?thesis using ok mirror_end [OF ok] by simp
qed

lemma mirror_run_ok: "mirror_ok i j s \<Longrightarrow> mirror_ok i j (mirror_run i j evs s)"
  unfolding mirror_run_def by (induction evs arbitrary: s) (simp_all add: mirror_exec_ok)

section \<open>Property\<close>

text \<open>The monitor is at rest: it waits for events, and both subscriptions are attached and drained.\<close>

definition at_rest :: "nat \<Rightarrow> nat \<Rightarrow> 'w mirror \<Rightarrow> bool" where
  "at_rest i j s \<longleftrightarrow> mi_phase s = Waiting \<and> live_queue i (rt_events (mi_runtime s)) = Some []
     \<and> live_queue j (rt_topology (mi_runtime s)) = Some []"

lemma mirror_start_ok:
  assumes "rt_ok rt" and "live_queue i (rt_events rt) \<noteq> None" and "live_queue j (rt_topology rt) \<noteq> None"
  shows "mirror_ok i j (mirror_start rt w)"
proof -
  have "i \<le> next_subscriber (rt_events rt)" "j \<le> next_subscriber (rt_topology rt)"
    using assms by (auto simp: live_queue_def dest: hub_okD(6) [OF rt_okD(4)] hub_okD(6) [OF rt_okD(5)])
  then show ?thesis by (simp add: mirror_ok_def mirror_start_def assms(1))
qed

lemma at_rest_told:
  assumes "mirror_ok i j s" and rest: "at_rest i j s"
    and "observed (mi_runtime s) d c" and "has_key (rs_known (mi_run s)) d c"
  shows "mi_told s d c = map_option adapter_value_to_api (current_value (mi_runtime s) d c)"
proof -
  have "faithful i j (mi_runtime s) (rs_snapshot_revision (mi_run s)) (has_key (rs_known (mi_run s))) (mi_told s)"
    using assms(1) rest by (simp add: mirror_ok_def at_rest_def)
  from faithfulD(2) [OF this, of "[]" "[]" d c] rest assms(3,4) show ?thesis by (simp add: at_rest_def)
qed

text \<open>C4: What an adapter has been told is what the runtime holds. However the operations of
  the other users of the runtime interleave with the monitor, and whatever the adapter
  answers, whenever the monitor is at rest with both of its subscriptions attached and drained,
  the value last told for every observable capability that the adapter projects (by the last
  synchronisation or by a later event) is the current value of the runtime.\<close>

theorem adapter_mirrors_runtime:
  assumes "rt_ok rt" and "live_queue i (rt_events rt) \<noteq> None" and "live_queue j (rt_topology rt) \<noteq> None"
    and s: "s = mirror_run i j evs (mirror_start rt w)" and rest: "at_rest i j s"
    and "observed (mi_runtime s) d c" and "has_key (rs_known (mi_run s)) d c"
  shows "mi_told s d c = map_option adapter_value_to_api (current_value (mi_runtime s) d c)"
proof -
  have "mirror_ok i j s" unfolding s by (rule mirror_run_ok [OF mirror_start_ok [OF assms(1-3)]])
  then show ?thesis by (rule at_rest_told) (use assms in simp_all)
qed

definition sample_mirror_runtime :: "unit runtime" where
  "sample_mirror_runtime = fst (run [Start, Subscribe 4, SubscribeTopology 4] (runtime_new None, ()))"

definition sample_mirror :: "unit mirror" where
  "sample_mirror = mirror_run 1 1
     [RuntimeStep (Register sample_device (Some sample_handler)), TakeSnapshot,
      SyncAnswer (Ok \<lparr>sr_generation = 1, sr_devices = 1, sr_projections = None, sr_diagnostics = []\<rparr>),
      HealthAnswer (Ok \<lparr>hr_healthy = True, hr_detail = [], hr_resources = []\<rparr>),
      RuntimeStep (WriteValue 0 sample_command), TopologyEvent, StateEvent, EventAnswer (Ok ())]
     (mirror_start sample_mirror_runtime ())"

theorem adapter_mirrors_runtime_witness:
  "at_rest 1 1 sample_mirror \<and> mi_told sample_mirror ''virtual.switch'' ''on'' = Some (adapter_value_to_api (VBool True))"
proof -
  have ok: "rt_ok sample_mirror_runtime" unfolding sample_mirror_runtime_def by (intro run_rt_ok) (simp add: rt_ok_new)
  have live: "live_queue 1 (rt_events sample_mirror_runtime) \<noteq> None" "live_queue 1 (rt_topology sample_mirror_runtime) \<noteq> None"
    by code_simp+
  have rest: "at_rest 1 1 sample_mirror" by code_simp
  have obs: "observed (mi_runtime sample_mirror) ''virtual.switch'' ''on''" by code_simp
  have known: "has_key (rs_known (mi_run sample_mirror)) ''virtual.switch'' ''on''" by code_simp
  have "current_value (mi_runtime sample_mirror) ''virtual.switch'' ''on'' = Some (VBool True)" by code_simp
  with rest adapter_mirrors_runtime [OF ok live sample_mirror_def rest obs known] show ?thesis by simp
qed

end
