(* ===== verification/Matter_Projection.thy ===== *)
theory Matter_Projection
  imports Adapter_Instance
begin

text \<open>
  The projection of the Matter adapter, \<open>apps/oikade-matter-adapter/src/projection.rs\<close>: which
  capabilities of a synchronised device become Matter endpoints, the endpoint numbers that
  they keep, and the diagnostics about the others. Endpoint numbers are 16-bit: \<open>checked_add\<close>
  fails at 65535. The JSON library is a parameter (\<open>encode\<close>, \<open>decode\<close>); the conversion between
  percentages and Matter levels needs floating-point arithmetic and is not modelled.
\<close>

unbundle bit_operations_syntax

section \<open>Types\<close>

definition MAX_DYNAMIC_ENDPOINTS :: nat where "MAX_DYNAMIC_ENDPOINTS = 16"
definition FIRST_DYNAMIC_ENDPOINT :: nat where "FIRST_DYNAMIC_ENDPOINT = 3"
definition U16_MAX :: nat where "U16_MAX = 65535"

datatype profile = OnOffLight | DimmableLight | OutletProfile | TemperatureProfile | HumidityProfile | ContactProfile | OccupancyProfile

datatype canonical_value = CanonicalBool bool | CanonicalNumber f64

fun canonical_to_wire :: "canonical_value \<Rightarrow> wire_value" where
  "canonical_to_wire (CanonicalBool b) =
     \<lparr>wv_kind = ''bool'', wv_bool = Some b, wv_integer = None, wv_number = None, wv_string = None\<rparr>"
| "canonical_to_wire (CanonicalNumber n) =
     \<lparr>wv_kind = ''number'', wv_bool = None, wv_integer = None, wv_number = Some n, wv_string = None\<rparr>"

record matter_projection =
  mp_endpoint :: nat
  mp_device_id :: string
  mp_primary :: string
  mp_level_id :: "string option"
  mp_name :: string
  mp_unique_id :: string
  mp_profile :: profile
  mp_on :: "bool option"
  mp_level :: "f64 option"
  mp_sensor :: "f64 option"
  mp_binary :: "bool option"

definition capability_for_cluster :: "bool \<Rightarrow> matter_projection \<Rightarrow> string" where
  "capability_for_cluster level p =
     (if level then (case mp_level_id p of Some i \<Rightarrow> i | None \<Rightarrow> mp_primary p) else mp_primary p)"

record matter_diagnostic =
  md_severity :: string
  md_code :: string
  md_message :: string
  md_device_id :: "string option"
  md_capability_id :: "string option"

datatype sync_error = Capacity nat | Persistence string

section \<open>Endpoint numbers\<close>

record endpoint_mappings =
  em_version :: nat
  em_next :: nat
  em_mappings :: "(string, nat) btree"

definition default_mappings :: endpoint_mappings where
  "default_mappings = \<lparr>em_version = 1, em_next = FIRST_DYNAMIC_ENDPOINT, em_mappings = []\<rparr>"

fun retain_unique :: "nat set \<Rightarrow> (string, nat) btree \<Rightarrow> (string, nat) btree" where
  "retain_unique seen [] = []"
| "retain_unique seen ((k, e) # m) =
     (if e \<ge> FIRST_DYNAMIC_ENDPOINT \<and> e \<notin> seen then (k, e) # retain_unique (insert e seen) m else retain_unique seen m)"

definition mappings_load :: "('f \<Rightarrow> endpoint_mappings option) \<Rightarrow> 'f option \<Rightarrow> endpoint_mappings" where
  "mappings_load decode file =
     (case file of
        None \<Rightarrow> default_mappings
      | Some bytes \<Rightarrow>
          (case decode bytes of
             None \<Rightarrow> default_mappings
           | Some m \<Rightarrow>
               if em_version m \<noteq> 1 then default_mappings
               else m\<lparr>em_mappings := retain_unique {} (em_mappings m), em_next := max (em_next m) FIRST_DYNAMIC_ENDPOINT\<rparr>))"

text \<open>The loop of \<open>allocate\<close>: the first unused number from a candidate on.\<close>

function next_free :: "nat set \<Rightarrow> nat \<Rightarrow> nat option" where
  "next_free used c =
     (if c \<notin> used then Some c else if c \<ge> U16_MAX then None else next_free used (c + 1))"
  by pat_completeness auto
termination
  by (relation "measure (\<lambda>(_, c). U16_MAX - c)") (auto simp: U16_MAX_def)

declare next_free.simps [simp del]

definition exhausted :: string where
  "exhausted = ''Matter endpoint IDs exhausted''"

definition allocate :: "string \<Rightarrow> endpoint_mappings \<Rightarrow> (string, nat \<times> endpoint_mappings) result" where
  "allocate key m =
     (case map_of (em_mappings m) key of
        Some e \<Rightarrow> Ok (e, m)
      | None \<Rightarrow>
          (case next_free (snd ` set (em_mappings m)) (max (em_next m) FIRST_DYNAMIC_ENDPOINT) of
             None \<Rightarrow> Err exhausted
           | Some c \<Rightarrow>
               if c \<ge> U16_MAX then Err exhausted
               else Ok (c, m\<lparr>em_next := c + 1, em_mappings := put key c (em_mappings m)\<rparr>)))"

section \<open>Names and identifiers\<close>

definition char_boundary :: "string \<Rightarrow> nat \<Rightarrow> bool" where
  "char_boundary s n \<longleftrightarrow> n = 0 \<or> n = length s \<or> (n < length s \<and> \<not> cont (s ! n))"

fun boundary_before :: "string \<Rightarrow> nat \<Rightarrow> nat" where
  "boundary_before s 0 = 0"
| "boundary_before s (Suc n) = (if char_boundary s (Suc n) then Suc n else boundary_before s n)"

definition truncate_utf8 :: "string \<Rightarrow> nat \<Rightarrow> string" where
  "truncate_utf8 s n = (if length s \<le> n then s else take (boundary_before s n) s)"

definition hex_digit :: "nat \<Rightarrow> char" where
  "hex_digit n = (if n < 10 then char_of (48 + n) else char_of (87 + n))"

definition hex16 :: "64 word \<Rightarrow> string" where
  "hex16 w = map (\<lambda>i. hex_digit (unat (drop_bit (4 * i) w AND 0xF))) (rev [0..<16])"

definition fnv1a :: "string \<Rightarrow> 64 word" where
  "fnv1a s = fold (\<lambda>c h. (h XOR word_of_nat (of_char c)) * 0x100000001B3) s 0xCBF29CE484222325"

definition unique_id :: "string \<Rightarrow> string \<Rightarrow> string" where
  "unique_id d c = ''oikade-'' @ hex16 (fnv1a (slash d c))"

section \<open>Projecting a capability\<close>

definition wire_bool :: "wire_value \<Rightarrow> bool option" where
  "wire_bool v = (if wv_kind v = ''bool'' then wv_bool v else None)"

definition wire_number :: "wire_value \<Rightarrow> f64 option" where
  "wire_number v = (if wv_kind v = ''number'' then wv_number v else None)"

definition number_in :: "f64 \<Rightarrow> f64 \<Rightarrow> wire_value \<Rightarrow> f64 option" where
  "number_in lo hi v =
     (case wire_number v of None \<Rightarrow> None | Some n \<Rightarrow> if is_finite n \<and> in_range lo hi n then Some n else None)"

definition MIN_TEMPERATURE :: f64 where "MIN_TEMPERATURE = F64 0xC071126666666666"
definition MAX_TEMPERATURE :: f64 where "MAX_TEMPERATURE = F64 0x40747A8F5C28F5C3"

definition some_text :: "string \<Rightarrow> string option" where
  "some_text s = (if s = [] then None else Some s)"

definition mk_diagnostic :: "string \<Rightarrow> string \<Rightarrow> string \<Rightarrow> string \<Rightarrow> string \<Rightarrow> matter_diagnostic" where
  "mk_diagnostic severity k message d c =
     \<lparr>md_severity = severity, md_code = k, md_message = message, md_device_id = some_text d, md_capability_id = some_text c\<rparr>"

record shape =
  sh_profile :: profile
  sh_on :: "bool option"
  sh_level :: "f64 option"
  sh_sensor :: "f64 option"
  sh_binary :: "bool option"
  sh_level_id :: "string option"

definition on_off_shape :: "profile \<Rightarrow> bool \<Rightarrow> shape" where
  "on_off_shape p b = \<lparr>sh_profile = p, sh_on = Some b, sh_level = None, sh_sensor = None, sh_binary = None, sh_level_id = None\<rparr>"

definition number_shape :: "profile \<Rightarrow> f64 \<Rightarrow> shape" where
  "number_shape p n = \<lparr>sh_profile = p, sh_on = None, sh_level = None, sh_sensor = Some n, sh_binary = None, sh_level_id = None\<rparr>"

definition binary_shape :: "profile \<Rightarrow> bool \<Rightarrow> shape" where
  "binary_shape p b = \<lparr>sh_profile = p, sh_on = None, sh_level = None, sh_sensor = None, sh_binary = Some b, sh_level_id = None\<rparr>"

type_synonym value_table = "string \<Rightarrow> wire_value option"

text \<open>The branch of a light that may be composed with a level.\<close>

definition full_permissions :: "adapter_capability \<Rightarrow> bool" where
  "full_permissions c \<longleftrightarrow> perm_read (ac_permissions c) \<and> perm_write (ac_permissions c) \<and> perm_observe (ac_permissions c)"

definition light_shape ::
  "string \<Rightarrow> string \<Rightarrow> adapter_capability list \<Rightarrow> value_table \<Rightarrow> bool \<Rightarrow> matter_diagnostic list \<times> shape" where
  "light_shape d c levels vt b =
     (case levels of
        [] \<Rightarrow> ([], on_off_shape OnOffLight b)
      | [l] \<Rightarrow>
          if ac_kind l \<noteq> ''number'' then
            ([mk_diagnostic ''error'' ''invalid_capability_kind'' ''composed light level must be numeric'' d (ac_id l)],
             on_off_shape OnOffLight b)
          else if \<not> full_permissions l then
            ([mk_diagnostic ''warning'' ''unsupported_permissions'' ''light level permissions cannot be represented safely'' d (ac_id l)],
             on_off_shape OnOffLight b)
          else (case Option.bind (vt (ac_id l)) (number_in f64_zero f64_hundred) of
             Some n \<Rightarrow> ([], (on_off_shape DimmableLight b)\<lparr>sh_level := Some n, sh_level_id := Some (ac_id l)\<rparr>)
           | None \<Rightarrow>
               ([mk_diagnostic ''error'' ''invalid_light_level'' ''light level must be a number from 0 through 100'' d (ac_id l)],
                on_off_shape OnOffLight b))
      | _ \<Rightarrow>
          ([mk_diagnostic ''warning'' ''ambiguous_light_level'' ''light on/off has multiple level capabilities'' d c],
           on_off_shape OnOffLight b))"

definition expected_kind :: "string \<Rightarrow> string option" where
  "expected_kind t =
     (if t \<in> {CAPABILITY_SWITCH_ON, CAPABILITY_LIGHT_ON, CAPABILITY_OUTLET_ON, CAPABILITY_CONTACT_OPEN,
              CAPABILITY_OCCUPANCY_DETECTED} then Some ''bool''
      else if t \<in> {CAPABILITY_TEMPERATURE, CAPABILITY_RELATIVE_HUMIDITY} then Some ''number''
      else None)"

definition is_actuator :: "string \<Rightarrow> bool" where
  "is_actuator t \<longleftrightarrow> t \<in> {CAPABILITY_SWITCH_ON, CAPABILITY_LIGHT_ON, CAPABILITY_OUTLET_ON}"

definition representable :: "adapter_capability \<Rightarrow> bool" where
  "representable c \<longleftrightarrow>
     (if is_actuator (ac_type c) then full_permissions c
      else perm_read (ac_permissions c) \<and> \<not> perm_write (ac_permissions c) \<and> perm_observe (ac_permissions c))"

text \<open>The \<open>match\<close> on the type of a capability whose kind, permissions and value were found.\<close>

definition shape_of ::
  "string \<Rightarrow> adapter_capability list \<Rightarrow> value_table \<Rightarrow> adapter_capability \<Rightarrow> wire_value \<Rightarrow> matter_diagnostic list \<times> shape option" where
  "shape_of d levels vt c v =
     (let t = ac_type c; bad = (\<lambda>k message. ([mk_diagnostic ''error'' k message d (ac_id c)], None)) in
      if t = CAPABILITY_SWITCH_ON then
        (case wire_bool v of Some b \<Rightarrow> ([], Some (on_off_shape OnOffLight b))
         | None \<Rightarrow> bad ''invalid_on_off'' ''on/off state must be boolean'')
      else if t = CAPABILITY_LIGHT_ON then
        (case wire_bool v of Some b \<Rightarrow> (case light_shape d (ac_id c) levels vt b of (ds, s) \<Rightarrow> (ds, Some s))
         | None \<Rightarrow> bad ''invalid_on_off'' ''on/off state must be boolean'')
      else if t = CAPABILITY_OUTLET_ON then
        (case wire_bool v of Some b \<Rightarrow> ([], Some (on_off_shape OutletProfile b))
         | None \<Rightarrow> bad ''invalid_on_off'' ''on/off state must be boolean'')
      else if t = CAPABILITY_TEMPERATURE then
        (case number_in MIN_TEMPERATURE MAX_TEMPERATURE v of Some n \<Rightarrow> ([], Some (number_shape TemperatureProfile n))
         | None \<Rightarrow> bad ''invalid_temperature'' (''temperature must be between -273.15 and 327.66 '' @ [CHR 0xC2, CHR 0xB0] @ ''C''))
      else if t = CAPABILITY_RELATIVE_HUMIDITY then
        (case number_in f64_zero f64_hundred v of Some n \<Rightarrow> ([], Some (number_shape HumidityProfile n))
         | None \<Rightarrow> bad ''invalid_relative_humidity'' ''relative humidity must be between 0 and 100 percent'')
      else if t = CAPABILITY_CONTACT_OPEN then
        (case wire_bool v of Some b \<Rightarrow> ([], Some (binary_shape ContactProfile b))
         | None \<Rightarrow> bad ''invalid_sensor_state'' ''contact state must be boolean'')
      else
        (case wire_bool v of
           Some b \<Rightarrow> ([mk_diagnostic ''warning'' ''assumed_occupancy_modality'' ''occupancy is projected as a PIR sensor'' d (ac_id c)],
                      Some (binary_shape OccupancyProfile b))
         | None \<Rightarrow> bad ''invalid_sensor_state'' ''occupancy state must be boolean''))"

definition project_capability ::
  "string \<Rightarrow> adapter_capability list \<Rightarrow> adapter_capability list \<Rightarrow> value_table \<Rightarrow> adapter_capability
     \<Rightarrow> matter_diagnostic list \<times> shape option" where
  "project_capability d lights levels vt c =
     (if ac_type c = CAPABILITY_LIGHT_LEVEL then
        (if lights = [] then
           [mk_diagnostic ''warning'' ''missing_composed_light_on_off'' ''light level requires one light on/off capability'' d (ac_id c)]
         else if length lights > 1 then
           [mk_diagnostic ''warning'' ''ambiguous_composed_light'' ''light level has multiple light on/off capabilities'' d (ac_id c)]
         else [], None)
      else case expected_kind (ac_type c) of
        None \<Rightarrow> ([mk_diagnostic ''info'' ''unsupported_capability'' ''capability has no Matter mapping'' d (ac_id c)], None)
      | Some k \<Rightarrow>
          if ac_kind c \<noteq> k then
            ([mk_diagnostic ''error'' ''invalid_capability_kind'' ''capability kind does not match its Matter mapping'' d (ac_id c)], None)
          else if \<not> representable c then
            ([mk_diagnostic ''warning'' ''unsupported_permissions'' ''capability permissions cannot be represented safely'' d (ac_id c)], None)
          else (case vt (ac_id c) of
             None \<Rightarrow> ([mk_diagnostic ''error'' ''missing_capability_state'' ''capability has no current value'' d (ac_id c)], None)
           | Some v \<Rightarrow> shape_of d levels vt c v))"

section \<open>Building a projection\<close>

record built =
  bu_projections :: "matter_projection list"
  bu_refs :: "projection list"
  bu_diagnostics :: "matter_diagnostic list"

definition no_projection :: built where
  "no_projection = \<lparr>bu_projections = [], bu_refs = [], bu_diagnostics = []\<rparr>"

definition diagnose :: "matter_diagnostic list \<Rightarrow> built \<Rightarrow> built" where
  "diagnose ds b = b\<lparr>bu_diagnostics := bu_diagnostics b @ ds\<rparr>"

definition mk_projection :: "adapter_device \<Rightarrow> string \<Rightarrow> shape \<Rightarrow> nat \<Rightarrow> matter_projection" where
  "mk_projection d c s e =
     \<lparr>mp_endpoint = e, mp_device_id = ad_id d, mp_primary = c, mp_level_id = sh_level_id s,
      mp_name = truncate_utf8 (ad_name d) 32, mp_unique_id = unique_id (ad_id d) c, mp_profile = sh_profile s,
      mp_on = sh_on s, mp_level = sh_level s, mp_sensor = sh_sensor s, mp_binary = sh_binary s\<rparr>"

definition refs_of :: "string \<Rightarrow> string \<Rightarrow> shape \<Rightarrow> projection list" where
  "refs_of d c s = \<lparr>pr_device_id = d, pr_capability_id = c\<rparr> #
     (case sh_level_id s of None \<Rightarrow> [] | Some l \<Rightarrow> [\<lparr>pr_device_id = d, pr_capability_id = l\<rparr>])"

definition add_projection :: "adapter_device \<Rightarrow> string \<Rightarrow> shape \<Rightarrow> nat \<Rightarrow> built \<Rightarrow> built" where
  "add_projection d c s e b =
     b\<lparr>bu_projections := bu_projections b @ [mk_projection d c s e], bu_refs := bu_refs b @ refs_of (ad_id d) c s\<rparr>"

fun build_capabilities ::
  "adapter_device \<Rightarrow> adapter_capability list \<Rightarrow> adapter_capability list \<Rightarrow> value_table \<Rightarrow> adapter_capability list
     \<Rightarrow> endpoint_mappings \<Rightarrow> built \<Rightarrow> (sync_error, endpoint_mappings \<times> built) result" where
  "build_capabilities d lights levels vt [] m b = Ok (m, b)"
| "build_capabilities d lights levels vt (c # cs) m b =
     (case project_capability (ad_id d) lights levels vt c of
        (ds, None) \<Rightarrow> build_capabilities d lights levels vt cs m (diagnose ds b)
      | (ds, Some s) \<Rightarrow>
          and_then (map_err Persistence (allocate (slash (ad_id d) (ac_id c)) m)) (\<lambda>(e, m').
            build_capabilities d lights levels vt cs m' (add_projection d (ac_id c) s e (diagnose ds b))))"

definition value_table :: "adapter_device_state \<Rightarrow> value_table" where
  "value_table s = map_of (rev (map (\<lambda>v. (cs_capability_id v, cs_value v)) (ads_values s)))"

definition of_type :: "string \<Rightarrow> adapter_device \<Rightarrow> adapter_capability list" where
  "of_type t d = filter (\<lambda>c. ac_type c = t) (ad_capabilities d)"

definition build_device ::
  "adapter_device_state \<Rightarrow> endpoint_mappings \<Rightarrow> built \<Rightarrow> (sync_error, endpoint_mappings \<times> built) result" where
  "build_device s m b =
     (let d = ads_device s in
      if ad_id d = [] \<or> ad_name d = [] then
        Ok (m, diagnose [mk_diagnostic ''error'' ''invalid_device'' ''device ID and name are required'' (ad_id d) []] b)
      else if ad_capabilities d = [] then
        Ok (m, diagnose [mk_diagnostic ''info'' ''unsupported_device'' ''device has no capabilities to project'' (ad_id d) []] b)
      else build_capabilities d (of_type CAPABILITY_LIGHT_ON d) (of_type CAPABILITY_LIGHT_LEVEL d) (value_table s)
             (ad_capabilities d) m b)"

fun build_devices ::
  "adapter_device_state list \<Rightarrow> endpoint_mappings \<Rightarrow> built \<Rightarrow> (sync_error, endpoint_mappings \<times> built) result" where
  "build_devices [] m b = Ok (m, b)"
| "build_devices (s # ss) m b = and_then (build_device s m b) (\<lambda>(m', b'). build_devices ss m' b')"

text \<open>
  \<open>ProjectionBuilder\<close> with the file that it owns; \<open>fault\<close> is the error of the write or the
  rename, after which the file still has its old contents.
\<close>

record 'f builder =
  mb_mappings :: endpoint_mappings
  mb_file :: "'f option"

definition builder_new :: "('f \<Rightarrow> endpoint_mappings option) \<Rightarrow> 'f option \<Rightarrow> 'f builder" where
  "builder_new decode file = \<lparr>mb_mappings = mappings_load decode file, mb_file = file\<rparr>"

definition build ::
  "(endpoint_mappings \<Rightarrow> 'f) \<Rightarrow> string option \<Rightarrow> adapter_device_state list \<Rightarrow> 'f builder
     \<Rightarrow> 'f builder \<times> (sync_error, built) result" where
  "build encode fault devices self =
     (case build_devices devices (mb_mappings self) no_projection of
        Err e \<Rightarrow> (self, Err e)
      | Ok (m, b) \<Rightarrow>
          if length (bu_projections b) > MAX_DYNAMIC_ENDPOINTS then (self, Err (Capacity (length (bu_projections b))))
          else (case fault of
             Some e \<Rightarrow> (self, Err (Persistence e))
           | None \<Rightarrow> (self\<lparr>mb_mappings := m, mb_file := Some (encode m)\<rparr>, Ok b)))"

section \<open>Endpoint numbers are unique and permanent\<close>

definition mappings_ok :: "endpoint_mappings \<Rightarrow> bool" where
  "mappings_ok m \<longleftrightarrow> em_version m = 1 \<and> ordered (em_mappings m) \<and> FIRST_DYNAMIC_ENDPOINT \<le> em_next m
     \<and> distinct (map snd (em_mappings m)) \<and> (\<forall>e \<in> snd ` set (em_mappings m). FIRST_DYNAMIC_ENDPOINT \<le> e \<and> e < U16_MAX)"

lemma next_free_sound: "next_free used c = Some e \<Longrightarrow> e \<notin> used \<and> c \<le> e"
  by (induction used c rule: next_free.induct) (auto simp: next_free.simps [of _ _] split: if_splits dest: Suc_leD)

text \<open>The loop fails only when every number from the candidate on is taken.\<close>

lemma next_free_complete: "next_free used c = None \<Longrightarrow> c \<le> x \<Longrightarrow> x \<le> U16_MAX \<Longrightarrow> x \<in> used"
proof (induction used c rule: next_free.induct)
  case (1 used c)
  then show ?case by (subst (asm) (2) next_free.simps) (cases "x = c"; auto split: if_splits)
qed

lemma put_values:
  assumes "k \<notin> keys m"
  shows "snd ` set (put k e m) = insert e (snd ` set m)"
    and "distinct (map snd m) \<Longrightarrow> e \<notin> snd ` set m \<Longrightarrow> distinct (map snd (put k e m))"
proof -
  show vals: "snd ` set (put k e m) = insert e (snd ` set m)" using assms by (induction m) auto
  show "distinct (map snd m) \<Longrightarrow> e \<notin> snd ` set m \<Longrightarrow> distinct (map snd (put k e m))"
    using assms
  proof (induction m)
    case (Cons a m)
    have "snd ` set (put k e m) = insert e (snd ` set m)" using Cons.prems by (induction m) auto
    then show ?case using Cons by auto
  qed simp
qed

lemma allocate_ok:
  assumes "allocate key m = Ok (e, m')" and ok: "mappings_ok m"
  shows "mappings_ok m'" and "map_of (em_mappings m') key = Some e"
    and "map_of (em_mappings m) k = Some x \<Longrightarrow> map_of (em_mappings m') k = Some x"
proof -
  consider (known) "map_of (em_mappings m) key = Some e" "m' = m"
    | (fresh) "map_of (em_mappings m) key = None" "next_free (snd ` set (em_mappings m)) (max (em_next m) FIRST_DYNAMIC_ENDPOINT) = Some e"
        "e < U16_MAX" "m' = m\<lparr>em_next := e + 1, em_mappings := put key e (em_mappings m)\<rparr>"
    using assms(1) by (auto simp: allocate_def split: option.splits if_splits)
  note cases = this
  show "map_of (em_mappings m') key = Some e" by (cases rule: cases) simp_all
  show "map_of (em_mappings m) k = Some x \<Longrightarrow> map_of (em_mappings m') k = Some x" by (cases rule: cases) auto
  show "mappings_ok m'"
  proof (cases rule: cases)
    case known
    then show ?thesis using ok by simp
  next
    case fresh
    from next_free_sound [OF fresh(2)] have new: "e \<notin> snd ` set (em_mappings m)" "FIRST_DYNAMIC_ENDPOINT \<le> e" by auto
    have ord: "ordered (em_mappings m)" using ok by (simp add: mappings_ok_def)
    have "distinct (map snd (put key e (em_mappings m))) \<and> snd ` set (put key e (em_mappings m)) = insert e (snd ` set (em_mappings m))"
      using fresh(1) new(1) ok put_values [of key "em_mappings m" e] by (simp add: mappings_ok_def map_of_None_keys)
    then show ?thesis using ok fresh new ord by (simp add: mappings_ok_def)
  qed
qed

definition extends :: "endpoint_mappings \<Rightarrow> endpoint_mappings \<Rightarrow> bool" where
  "extends m m' \<longleftrightarrow> map_of (em_mappings m) \<subseteq>\<^sub>m map_of (em_mappings m')"

lemma extends_refl [simp]: "extends m m"
  by (simp add: extends_def)

lemma extends_trans: "extends m m' \<Longrightarrow> extends m' m'' \<Longrightarrow> extends m m''"
  unfolding extends_def by (rule map_le_trans)

lemma extendsD: "extends m m' \<Longrightarrow> map_of (em_mappings m) k = Some e \<Longrightarrow> map_of (em_mappings m') k = Some e"
  by (metis domI extends_def map_le_def)

lemma allocate_extends: "allocate key m = Ok (e, m') \<Longrightarrow> mappings_ok m \<Longrightarrow> extends m m'"
  using allocate_ok(3) by (auto simp: extends_def map_le_def)

text \<open>The endpoint of every projection is the number of its capability.\<close>

definition numbered :: "endpoint_mappings \<Rightarrow> built \<Rightarrow> bool" where
  "numbered m b \<longleftrightarrow>
     list_all (\<lambda>p. map_of (em_mappings m) (slash (mp_device_id p) (mp_primary p)) = Some (mp_endpoint p)) (bu_projections b)"

lemma numbered_extends: "numbered m b \<Longrightarrow> extends m m' \<Longrightarrow> numbered m' b"
  by (auto simp: numbered_def list_all_iff dest: extendsD)

lemma numbered_add:
  assumes "numbered m b" and "allocate (slash (ad_id d) c) m = Ok (e, m')" and "mappings_ok m"
  shows "numbered m' (add_projection d c s e (diagnose ds b))"
  using numbered_extends [OF assms(1) allocate_extends [OF assms(2,3)]] allocate_ok(2) [OF assms(2,3)]
  by (simp add: numbered_def add_projection_def diagnose_def mk_projection_def)

definition grows :: "endpoint_mappings \<Rightarrow> endpoint_mappings \<times> built \<Rightarrow> bool" where
  "grows m r \<longleftrightarrow> mappings_ok (fst r) \<and> extends m (fst r) \<and> numbered (fst r) (snd r)"

lemma build_capabilities_grows:
  assumes "build_capabilities d lights levels vt cs m b = Ok r" and "mappings_ok m" and "numbered m b"
  shows "grows m r"
  using assms
proof (induction cs arbitrary: m b)
  case (Cons c cs)
  obtain ds sh where p: "project_capability (ad_id d) lights levels vt c = (ds, sh)" by fastforce
  show ?case
  proof (cases sh)
    case None
    then show ?thesis using Cons p by (auto simp: numbered_def diagnose_def)
  next
    case (Some s)
    then obtain e m' where a: "allocate (slash (ad_id d) (ac_id c)) m = Ok (e, m')"
      and rest: "build_capabilities d lights levels vt cs m' (add_projection d (ac_id c) s e (diagnose ds b)) = Ok r"
      using Cons.prems(1) p by (auto simp: and_then_eq_Ok)
    have "grows m' r"
      by (rule Cons.IH [OF rest allocate_ok(1) [OF a Cons.prems(2)] numbered_add [OF Cons.prems(3) a Cons.prems(2)]])
    then show ?thesis using allocate_extends [OF a Cons.prems(2)] by (auto simp: grows_def intro: extends_trans)
  qed
qed (auto simp: grows_def)

lemma build_device_grows:
  assumes "build_device s m b = Ok r" and "mappings_ok m" and "numbered m b"
  shows "grows m r"
  using assms build_capabilities_grows [OF _ assms(2,3)]
  by (auto simp: build_device_def Let_def grows_def numbered_def diagnose_def split: if_splits)

lemma build_devices_grows:
  assumes "build_devices ss m b = Ok r" and "mappings_ok m" and "numbered m b"
  shows "grows m r"
  using assms
proof (induction ss arbitrary: m b)
  case (Cons s ss)
  then obtain m' b' where d: "build_device s m b = Ok (m', b')" and rest: "build_devices ss m' b' = Ok r"
    by (auto simp: and_then_eq_Ok)
  from build_device_grows [OF d Cons.prems(2,3)] have g: "mappings_ok m'" "extends m m'" "numbered m' b'" by (simp_all add: grows_def)
  from Cons.IH [OF rest g(1,3)] g(2) show ?case by (auto simp: grows_def intro: extends_trans)
qed (auto simp: grows_def)

text \<open>Loading what was saved.\<close>

lemma retain_unique_same:
  "distinct (map snd m) \<Longrightarrow> \<forall>e \<in> snd ` set m. FIRST_DYNAMIC_ENDPOINT \<le> e \<Longrightarrow> snd ` set m \<inter> seen = {} \<Longrightarrow> retain_unique seen m = m"
  by (induction m arbitrary: seen) auto

lemma load_saved: "mappings_ok m \<Longrightarrow> decode f = Some m \<Longrightarrow> mappings_load decode (Some f) = m"
  by (simp add: mappings_load_def mappings_ok_def retain_unique_same max_def)

section \<open>Histories of a bridge\<close>

text \<open>A bridge synchronises any number of times, with or without faults of the disk, and is restarted in between.\<close>

datatype bridge_step = Build "string option" "adapter_device_state list" | Restart

fun bridge_exec :: "(endpoint_mappings \<Rightarrow> 'f) \<Rightarrow> ('f \<Rightarrow> endpoint_mappings option) \<Rightarrow> bridge_step \<Rightarrow> 'f builder \<Rightarrow> 'f builder" where
  "bridge_exec encode decode (Build fault devices) self = fst (build encode fault devices self)"
| "bridge_exec encode decode Restart self = builder_new decode (mb_file self)"

definition bridge_run :: "(endpoint_mappings \<Rightarrow> 'f) \<Rightarrow> ('f \<Rightarrow> endpoint_mappings option) \<Rightarrow> bridge_step list \<Rightarrow> 'f builder \<Rightarrow> 'f builder" where
  "bridge_run encode decode steps self = fold (bridge_exec encode decode) steps self"

definition builder_ok :: "('f \<Rightarrow> endpoint_mappings option) \<Rightarrow> 'f builder \<Rightarrow> bool" where
  "builder_ok decode self \<longleftrightarrow> mappings_ok (mb_mappings self) \<and> mappings_load decode (mb_file self) = mb_mappings self"

lemma default_ok: "mappings_ok default_mappings"
  by (simp add: mappings_ok_def default_mappings_def)

lemma build_ok:
  assumes "build encode fault devices self = (self', r)" and "mappings_ok (mb_mappings self)"
  obtains (failed) e where "r = Err e" "self' = self"
  | (built) m b where "r = Ok b" "grows (mb_mappings self) (m, b)" "self' = self\<lparr>mb_mappings := m, mb_file := Some (encode m)\<rparr>"
      "length (bu_projections b) \<le> MAX_DYNAMIC_ENDPOINTS" "build_devices devices (mb_mappings self) no_projection = Ok (m, b)"
proof (cases "build_devices devices (mb_mappings self) no_projection")
  case (Inl e)
  then show thesis using assms(1) by (intro failed [of e]) (simp_all add: build_def)
next
  case (Inr x)
  obtain m b where x: "x = (m, b)" by fastforce
  have "grows (mb_mappings self) (m, b)"
    using build_devices_grows [of devices "mb_mappings self" no_projection "(m, b)"] Inr x assms(2)
    by (simp add: numbered_def no_projection_def)
  then show thesis
    using assms(1) Inr x failed built [of b m] by (auto simp: build_def split: if_splits option.splits)
qed

lemma bridge_step_ok:
  assumes "\<And>m. decode (encode m) = Some m" and "builder_ok decode self"
  shows "builder_ok decode (bridge_exec encode decode step self)"
    and "extends (mb_mappings self) (mb_mappings (bridge_exec encode decode step self))"
proof -
  have "builder_ok decode (bridge_exec encode decode step self) \<and> extends (mb_mappings self) (mb_mappings (bridge_exec encode decode step self))"
  proof (cases step)
    case (Build fault devices)
    obtain self' r where b: "build encode fault devices self = (self', r)" by fastforce
    have ok: "mappings_ok (mb_mappings self)" using assms(2) by (simp add: builder_ok_def)
    from b ok show ?thesis
    proof (cases rule: build_ok)
      case failed
      then show ?thesis using Build b assms(2) by simp
    next
      case (built m bb)
      then show ?thesis using Build b load_saved [of m decode "encode m"] assms(1) by (simp add: grows_def builder_ok_def)
    qed
  next
    case Restart
    then show ?thesis using assms(2) by (simp add: builder_new_def builder_ok_def)
  qed
  then show "builder_ok decode (bridge_exec encode decode step self)"
    "extends (mb_mappings self) (mb_mappings (bridge_exec encode decode step self))" by auto
qed

lemma bridge_run_ok:
  assumes "\<And>m. decode (encode m) = Some m" and "builder_ok decode self"
  shows "builder_ok decode (bridge_run encode decode steps self) \<and> extends (mb_mappings self) (mb_mappings (bridge_run encode decode steps self))"
  using assms(2) unfolding bridge_run_def
proof (induction steps arbitrary: self)
  case (Cons step steps)
  from bridge_step_ok [OF assms(1) Cons.prems, of step] Cons.IH show ?case by (auto intro: extends_trans)
qed simp

section \<open>The host accepts what the bridge projects\<close>

definition ref :: "projection \<Rightarrow> string \<times> string" where
  "ref p = (pr_device_id p, pr_capability_id p)"

lemma accept_projections_ok:
  assumes "list_all (\<lambda>p. has_key available (pr_device_id p) (pr_capability_id p)) ps"
    and "distinct (map ref ps)" and "list_all (\<lambda>p. \<not> has_key accepted (pr_device_id p) (pr_capability_id p)) ps"
  shows "\<exists>ks. accept_projections available n ps accepted = Ok ks
    \<and> (\<forall>d c. has_key ks d c \<longleftrightarrow> has_key accepted d c \<or> (d, c) \<in> ref ` set ps)"
  using assms
proof (induction available n ps accepted rule: accept_projections.induct)
  case (2 available n p ps accepted)
  let ?d = "pr_device_id p" and ?c = "pr_capability_id p"
  let ?old = "case map_of accepted ?d of None \<Rightarrow> {} | Some ks \<Rightarrow> ks"
  let ?next = "put ?d (insert ?c ?old) accepted"
  obtain cs where cs: "map_of available ?d = Some cs" "?c \<in> cs" using 2(2) by (auto simp: has_key_def split: option.splits)
  have fresh: "?c \<notin> ?old" using 2(4) by (auto simp: has_key_def split: option.splits)
  have key: "has_key ?next d c \<longleftrightarrow> has_key accepted d c \<or> (d, c) = ref p" for d c
    by (auto simp: has_key_def ref_def split: option.splits)
  have later: "list_all (\<lambda>q. \<not> has_key ?next (pr_device_id q) (pr_capability_id q)) ps"
    using 2(3,4) by (auto simp: key list_all_iff image_iff ref_def)
  have "\<exists>ks. accept_projections available (n + 1) ps ?next = Ok ks
      \<and> (\<forall>d c. has_key ks d c \<longleftrightarrow> has_key ?next d c \<or> (d, c) \<in> ref ` set ps)"
    using 2(1) [OF cs(1)] cs(2) fresh 2(2,3) later by simp
  then show ?case using cs fresh by (auto simp: key)
qed simp

text \<open>
  The references of a device as a function of the device alone. A level is claimed by every
  light of its device, so references are unique only for a device that does not combine one
  level with several lights.
\<close>

definition capability_refs :: "adapter_device_state \<Rightarrow> adapter_capability \<Rightarrow> string list" where
  "capability_refs s c =
     (case snd (project_capability (ad_id (ads_device s)) (of_type CAPABILITY_LIGHT_ON (ads_device s))
         (of_type CAPABILITY_LIGHT_LEVEL (ads_device s)) (value_table s) c) of
        None \<Rightarrow> []
      | Some sh \<Rightarrow> ac_id c # (case sh_level_id sh of None \<Rightarrow> [] | Some l \<Rightarrow> [l]))"

definition device_refs :: "adapter_device_state \<Rightarrow> string list" where
  "device_refs s = (if ad_id (ads_device s) = [] \<or> ad_name (ads_device s) = [] then []
     else concat (map (capability_refs s) (ad_capabilities (ads_device s))))"

definition unambiguous :: "adapter_device \<Rightarrow> bool" where
  "unambiguous d \<longleftrightarrow> length (of_type CAPABILITY_LIGHT_LEVEL d) \<noteq> 1 \<or> length (of_type CAPABILITY_LIGHT_ON d) \<le> 1"

definition sync_devices_ok :: "adapter_device_state list \<Rightarrow> bool" where
  "sync_devices_ok ss \<longleftrightarrow> distinct (map (\<lambda>s. ad_id (ads_device s)) ss)
     \<and> list_all (\<lambda>s. distinct (map ac_id (ad_capabilities (ads_device s)))) ss"

lemma light_shape_level:
  "light_shape d c levels vt b = (ds, s) \<Longrightarrow> sh_level_id s = Some l \<Longrightarrow> \<exists>x. levels = [x] \<and> l = ac_id x"
  by (auto simp: light_shape_def on_off_shape_def split: list.splits if_splits option.splits)

lemma shape_level:
  assumes "project_capability d lights levels vt c = (ds, Some s)"
  shows "ac_type c \<noteq> CAPABILITY_LIGHT_LEVEL"
    and "sh_level_id s = Some l \<Longrightarrow> ac_type c = CAPABILITY_LIGHT_ON \<and> (\<exists>x. levels = [x] \<and> l = ac_id x)"
proof -
  show "ac_type c \<noteq> CAPABILITY_LIGHT_LEVEL" using assms by (auto simp: project_capability_def split: if_splits)
  obtain v where v: "shape_of d levels vt c v = (ds, Some s)"
    using assms by (auto simp: project_capability_def split: if_splits option.splits)
  show "sh_level_id s = Some l \<Longrightarrow> ac_type c = CAPABILITY_LIGHT_ON \<and> (\<exists>x. levels = [x] \<and> l = ac_id x)"
    using v
    by (cases "ac_type c = CAPABILITY_LIGHT_ON")
       (auto simp: shape_of_def Let_def on_off_shape_def number_shape_def binary_shape_def
         dest: light_shape_level split: if_splits option.splits prod.splits)
qed

lemma map_pair_refs: "map (Pair d) (ac_id c # (case x of None \<Rightarrow> [] | Some l \<Rightarrow> [l])) = map ref (refs_of d (ac_id c) s)"
  if "x = sh_level_id s"
  using that by (simp add: refs_of_def ref_def split: option.split)

lemma build_capabilities_refs:
  assumes "build_capabilities (ads_device s) (of_type CAPABILITY_LIGHT_ON (ads_device s))
      (of_type CAPABILITY_LIGHT_LEVEL (ads_device s)) (value_table s) cs m b = Ok (m', b')"
  shows "map ref (bu_refs b') = map ref (bu_refs b) @ map (Pair (ad_id (ads_device s))) (concat (map (capability_refs s) cs))"
  using assms
proof (induction cs arbitrary: m b)
  case (Cons c cs)
  let ?p = "project_capability (ad_id (ads_device s)) (of_type CAPABILITY_LIGHT_ON (ads_device s))
      (of_type CAPABILITY_LIGHT_LEVEL (ads_device s)) (value_table s) c"
  obtain ds sh where p: "?p = (ds, sh)" by fastforce
  show ?case
  proof (cases sh)
    case None
    then show ?thesis using Cons.prems p Cons.IH [of m "diagnose ds b"] by (simp add: capability_refs_def diagnose_def)
  next
    case (Some x)
    then obtain e m1 where
      "build_capabilities (ads_device s) (of_type CAPABILITY_LIGHT_ON (ads_device s)) (of_type CAPABILITY_LIGHT_LEVEL (ads_device s))
        (value_table s) cs m1 (add_projection (ads_device s) (ac_id c) x e (diagnose ds b)) = Ok (m', b')"
      using Cons.prems p by (auto simp: and_then_eq_Ok)
    from Cons.IH [OF this] show ?thesis
      using map_pair_refs [of "sh_level_id x" x "ad_id (ads_device s)" c]
      by (simp add: capability_refs_def p Some add_projection_def diagnose_def)
  qed
qed simp

lemma build_devices_refs:
  assumes "build_devices ss m b = Ok (m', b')"
  shows "map ref (bu_refs b') = map ref (bu_refs b) @ concat (map (\<lambda>s. map (Pair (ad_id (ads_device s))) (device_refs s)) ss)"
  using assms
proof (induction ss arbitrary: m b)
  case (Cons s ss)
  then obtain m1 b1 where d: "build_device s m b = Ok (m1, b1)" and rest: "build_devices ss m1 b1 = Ok (m', b')"
    by (auto simp: and_then_eq_Ok)
  have "map ref (bu_refs b1) = map ref (bu_refs b) @ map (Pair (ad_id (ads_device s))) (device_refs s)"
    using d build_capabilities_refs [of s "ad_capabilities (ads_device s)" m b m1 b1]
    by (auto simp: build_device_def device_refs_def Let_def diagnose_def split: if_splits)
  with Cons.IH [OF rest] show ?case by simp
qed simp

lemma capability_refs_in:
  assumes "i \<in> set (capability_refs s c)"
  shows "(i = ac_id c \<and> ac_type c \<noteq> CAPABILITY_LIGHT_LEVEL)
    \<or> (ac_type c = CAPABILITY_LIGHT_ON \<and> (\<exists>x. of_type CAPABILITY_LIGHT_LEVEL (ads_device s) = [x] \<and> i = ac_id x))"
proof -
  obtain ds sh where p: "project_capability (ad_id (ads_device s)) (of_type CAPABILITY_LIGHT_ON (ads_device s))
      (of_type CAPABILITY_LIGHT_LEVEL (ads_device s)) (value_table s) c = (ds, Some sh)" "i = ac_id c \<or> sh_level_id sh = Some i"
    using assms by (auto simp: capability_refs_def split: option.splits) (metis prod.collapse)+
  show ?thesis using shape_level [OF p(1)] p(2) by blast
qed

lemma of_type_single: "of_type t d = [x] \<Longrightarrow> x \<in> set (ad_capabilities d) \<and> ac_type x = t"
proof -
  assume "of_type t d = [x]"
  then have "x \<in> set (of_type t d)" by simp
  then show ?thesis by (simp add: of_type_def)
qed

lemma light_level_distinct:
  assumes "distinct (map ac_id (ad_capabilities d))" and "of_type CAPABILITY_LIGHT_LEVEL d = [x]"
    and "c \<in> set (ad_capabilities d)" and "ac_type c \<noteq> CAPABILITY_LIGHT_LEVEL"
  shows "ac_id x \<noteq> ac_id c"
  using of_type_single [OF assms(2)] assms(1,3,4) by (auto simp: distinct_map dest: inj_onD)

lemma capability_refs_distinct:
  assumes "distinct (map ac_id (ad_capabilities (ads_device s)))" and "c \<in> set (ad_capabilities (ads_device s))"
  shows "distinct (capability_refs s c)"
proof -
  obtain ds sh where p: "project_capability (ad_id (ads_device s)) (of_type CAPABILITY_LIGHT_ON (ads_device s))
      (of_type CAPABILITY_LIGHT_LEVEL (ads_device s)) (value_table s) c = (ds, sh)" by fastforce
  show ?thesis
  proof (cases "\<exists>x l. sh = Some x \<and> sh_level_id x = Some l")
    case True
    then obtain x l where "sh = Some x" "sh_level_id x = Some l" by blast
    then show ?thesis using shape_level [OF p [unfolded \<open>sh = Some x\<close>]] light_level_distinct [OF assms(1) _ assms(2)]
      by (fastforce simp: capability_refs_def p)
  next
    case False
    then show ?thesis by (auto simp: capability_refs_def p split: option.split)
  qed
qed

lemma device_refs_distinct:
  assumes "distinct (map ac_id (ad_capabilities (ads_device s)))" and "unambiguous (ads_device s)"
  shows "distinct (device_refs s)"
proof -
  let ?d = "ads_device s"
  have "distinct (concat (map (capability_refs s) cs))"
    if "set cs \<subseteq> set (ad_capabilities ?d)" "distinct (map ac_id cs)"
      "length (of_type CAPABILITY_LIGHT_LEVEL ?d) \<noteq> 1 \<or> length (filter (\<lambda>c. ac_type c = CAPABILITY_LIGHT_ON) cs) \<le> 1" for cs
    using that
  proof (induction cs)
    case (Cons c cs)
    have rest: "distinct (concat (map (capability_refs s) cs))" using Cons by (auto split: if_splits)
    have "i \<notin> set (capability_refs s c')" if "i \<in> set (capability_refs s c)" "c' \<in> set cs" for i c'
    proof
      assume i: "i \<in> set (capability_refs s c')"
      have caps: "c \<in> set (ad_capabilities ?d)" "c' \<in> set (ad_capabilities ?d)" "ac_id c \<noteq> ac_id c'"
        using Cons.prems(1,2) that(2) by auto
      note disjoint = light_level_distinct [OF assms(1)]
      have one: "\<not> (ac_type c = CAPABILITY_LIGHT_ON \<and> ac_type c' = CAPABILITY_LIGHT_ON)"
        if "of_type CAPABILITY_LIGHT_LEVEL ?d = [x]" for x
        using Cons.prems(3) that \<open>c' \<in> set cs\<close> by (auto simp: filter_empty_conv)
      show False
        using capability_refs_in [OF that(1)] capability_refs_in [OF i] caps disjoint one by metis
    qed
    then show ?case using rest capability_refs_distinct [OF assms(1)] Cons.prems(1) by auto
  qed simp
  from this [of "ad_capabilities ?d"] assms show ?thesis by (simp add: device_refs_def unambiguous_def of_type_def)
qed

lemma device_refs_known: "i \<in> set (device_refs s) \<Longrightarrow> i \<in> ac_id ` set (ad_capabilities (ads_device s))"
  by (auto simp: device_refs_def split: if_splits dest!: capability_refs_in of_type_single)

lemma all_refs_distinct:
  assumes "sync_devices_ok ss" and "list_all (\<lambda>s. unambiguous (ads_device s)) ss"
  shows "distinct (concat (map (\<lambda>s. map (Pair (ad_id (ads_device s))) (device_refs s)) ss))"
  using assms
proof (induction ss)
  case (Cons s ss)
  have "distinct (device_refs s)" using Cons.prems by (intro device_refs_distinct) (simp_all add: sync_devices_ok_def)
  moreover have "distinct (concat (map (\<lambda>s. map (Pair (ad_id (ads_device s))) (device_refs s)) ss))"
    using Cons by (simp add: sync_devices_ok_def)
  ultimately show ?case using Cons.prems(1) by (auto simp: sync_devices_ok_def distinct_map inj_on_def)
qed simp

lemma has_key_available:
  assumes "sync_devices_ok ss" and "s \<in> set ss" and "i \<in> ac_id ` set (ad_capabilities (ads_device s))"
  shows "has_key (projection_keys ss) (ad_id (ads_device s)) i"
proof -
  let ?es = "map (\<lambda>s. (ad_id (ads_device s), ac_id ` set (ad_capabilities (ads_device s)))) ss"
  have dist: "distinct (map fst ?es)" using assms(1) by (simp add: sync_devices_ok_def o_def)
  have "map_of ?es (ad_id (ads_device s)) = Some (ac_id ` set (ad_capabilities (ads_device s)))"
    using assms(2) dist by (intro map_of_is_SomeI) auto
  then show ?thesis using assms(3) map_of_rev_distinct [OF dist] by (simp add: has_key_def projection_keys_def map_of_of_entries)
qed

lemma sync_request_devices_ok:
  assumes "rt_ok rt" and "sync_request (take_snapshot rt) n = Ok m"
  shows "sync_devices_ok (sy_devices m)"
proof -
  have started: "rt_started rt" using assms(2) by (auto simp: sync_request_def take_snapshot_def split: if_splits)
  have m: "sy_devices m = map (\<lambda>(d, a). api_state (object rt a)) (rt_devices rt)"
    using sync_request_ok [OF assms(1) started] assms(2) by auto
  have ids: "map (\<lambda>s. ad_id (ads_device s)) (sy_devices m) = map fst (rt_devices rt)"
    using api_state_id [OF assms(1)] by (auto simp: m)
  have "distinct (map ac_id (ad_capabilities (ads_device (api_state (object rt a)))))" if "(d, a) \<in> set (rt_devices rt)" for d a
    using object_ok(2) [OF assms(1) that]
    by (simp add: api_state_def device_to_api_def capability_to_api_def o_def reg_ok_def device_ok_def)
  then show ?thesis
    unfolding sync_devices_ok_def ids using ordered_distinct [OF rt_okD(1) [OF assms(1)]] by (auto simp: list_all_iff m)
qed

section \<open>Properties\<close>

lemma endpoint_key:
  assumes "mappings_ok m" and "map_of (em_mappings m) k = Some e" and "map_of (em_mappings m) k' = Some e"
  shows "k = k'"
proof -
  have "(k, e) \<in> set (em_mappings m)" "(k', e) \<in> set (em_mappings m)" using assms(2,3) by (simp_all add: map_of_SomeD)
  moreover have "inj_on snd (set (em_mappings m))" using assms(1) by (simp add: mappings_ok_def distinct_map)
  ultimately show ?thesis using inj_onD [of snd "set (em_mappings m)" "(k, e)" "(k', e)"] by simp
qed

lemma endpoint_range: "mappings_ok m \<Longrightarrow> map_of (em_mappings m) k = Some e \<Longrightarrow> FIRST_DYNAMIC_ENDPOINT \<le> e \<and> e < U16_MAX"
  by (force simp: mappings_ok_def dest: map_of_SomeD)

text \<open>C8: A Matter endpoint belongs to one capability for ever. Take any two successful
  synchronisations in the life of a bridge, whatever synchronisations (failed ones and disk
  faults included) and restarts came before the first and between the two: two projections
  have the same endpoint if and only if they are of the same capability of the same device.
  Endpoints are at least 3 and below 65535, and a synchronisation projects at most 16.\<close>

theorem endpoints_permanent:
  assumes roundtrip: "\<And>m. decode (encode m) = Some m"
    and s: "s = bridge_run encode decode steps (builder_new decode None)"
    and first: "build encode fault devices s = (s1, Ok b)"
    and between: "s2 = bridge_run encode decode steps' s1"
    and second: "build encode fault' devices' s2 = (s3, Ok b')"
    and p: "p \<in> set (bu_projections b)" and p': "p' \<in> set (bu_projections b')"
  shows "(mp_endpoint p = mp_endpoint p' \<longleftrightarrow> slash (mp_device_id p) (mp_primary p) = slash (mp_device_id p') (mp_primary p'))
    \<and> 3 \<le> mp_endpoint p \<and> mp_endpoint p < 65535 \<and> length (bu_projections b) \<le> 16"
proof -
  have "builder_ok decode (builder_new decode None)"
    using default_ok by (simp add: builder_ok_def builder_new_def mappings_load_def)
  then have ok: "builder_ok decode s" unfolding s using bridge_run_ok [of decode encode, OF roundtrip] by blast
  obtain m where b: "grows (mb_mappings s) (m, b)" "s1 = s\<lparr>mb_mappings := m, mb_file := Some (encode m)\<rparr>"
      "length (bu_projections b) \<le> MAX_DYNAMIC_ENDPOINTS"
    using ok by (cases rule: build_ok [OF first]) (auto simp: builder_ok_def)
  have ok1: "builder_ok decode s1"
    using b load_saved [of m decode "encode m"] roundtrip by (simp add: builder_ok_def grows_def)
  have ok2: "builder_ok decode s2" "extends m (mb_mappings s2)"
    using bridge_run_ok [of decode encode, OF roundtrip ok1, of steps'] b(2) by (simp_all add: between)
  obtain m' where b': "grows (mb_mappings s2) (m', b')"
    using ok2(1) by (cases rule: build_ok [OF second]) (auto simp: builder_ok_def)
  have num: "numbered m' b" "numbered m' b'" "mappings_ok m'" "numbered m b" "mappings_ok m"
    using b(1) b' ok2(2) numbered_extends [of m b m'] by (auto simp: grows_def intro: extends_trans)
  have e: "map_of (em_mappings m') (slash (mp_device_id p) (mp_primary p)) = Some (mp_endpoint p)"
      "map_of (em_mappings m') (slash (mp_device_id p') (mp_primary p')) = Some (mp_endpoint p')"
    using num(1,2) p p' by (auto simp: numbered_def list_all_iff)
  have "mp_endpoint p = mp_endpoint p' \<longleftrightarrow> slash (mp_device_id p) (mp_primary p) = slash (mp_device_id p') (mp_primary p')"
    using e endpoint_key [OF num(3)] by (metis option.inject)
  then show ?thesis
    using endpoint_range [OF num(3) e(1)] b(3)
    by (simp add: FIRST_DYNAMIC_ENDPOINT_def U16_MAX_def MAX_DYNAMIC_ENDPOINTS_def)
qed

definition sample_light :: "string \<Rightarrow> string \<Rightarrow> adapter_capability" where
  "sample_light i t = \<lparr>ac_id = i, ac_type = t, ac_name = i, ac_kind = (if t = CAPABILITY_LIGHT_LEVEL then ''number'' else ''bool''),
     ac_permissions = \<lparr>perm_read = True, perm_write = True, perm_observe = True\<rparr>\<rparr>"

definition sample_light_state :: "adapter_capability list \<Rightarrow> adapter_device_state" where
  "sample_light_state cs = \<lparr>ads_device = \<lparr>ad_id = ''lamp'', ad_name = ''Lamp'', ad_manufacturer = [], ad_model = [], ad_capabilities = cs\<rparr>,
     ads_values = map (\<lambda>c. \<lparr>cs_capability_id = ac_id c, cs_value =
       adapter_value_to_api (if ac_kind c = ''number'' then VNumber f64_zero else VBool True)\<rparr>) cs\<rparr>"

definition sample_outlet :: adapter_device_state where
  "sample_outlet = sample_light_state [sample_light ''on'' CAPABILITY_OUTLET_ON]"

definition sample_bridge :: "endpoint_mappings builder" where
  "sample_bridge = builder_new Some None"

definition built_of :: "'f builder \<times> (sync_error, built) result \<Rightarrow> built" where
  "built_of r = (case snd r of Ok b \<Rightarrow> b | Err _ \<Rightarrow> no_projection)"

definition sample_first :: "endpoint_mappings builder \<times> (sync_error, built) result" where
  "sample_first = build id None [sample_outlet] sample_bridge"

definition sample_second :: "endpoint_mappings builder \<times> (sync_error, built) result" where
  "sample_second = build id None [sample_outlet] (bridge_run id Some [Restart] (fst sample_first))"

lemma built_of_ok: "is_ok (snd r) \<Longrightarrow> r = (fst r, Ok (built_of r))"
  by (cases r; cases "snd r") (simp_all add: built_of_def)

lemma sample_outlet_projects:
  "project_capability ''lamp'' lights levels (value_table sample_outlet) (sample_light ''on'' CAPABILITY_OUTLET_ON)
    = ([], Some (on_off_shape OutletProfile True))"
  by (simp add: project_capability_def sample_light_def sample_outlet_def sample_light_state_def value_table_def
      expected_kind_def representable_def is_actuator_def full_permissions_def shape_of_def wire_bool_def
      adapter_value_to_api_def empty_wire_def CAPABILITY_OUTLET_ON_def CAPABILITY_LIGHT_ON_def CAPABILITY_LIGHT_LEVEL_def
      CAPABILITY_SWITCH_ON_def)

lemma single_build:
  assumes "ad_id (ads_device s) \<noteq> []" and "ad_name (ads_device s) \<noteq> []" and "ad_capabilities (ads_device s) = [c]"
    and "\<And>lights levels. project_capability (ad_id (ads_device s)) lights levels (value_table s) c = ([], Some sh)"
  shows "build_devices [s] m b =
     and_then (map_err Persistence (allocate (slash (ad_id (ads_device s)) (ac_id c)) m)) (\<lambda>(e, m').
       Ok (m', add_projection (ads_device s) (ac_id c) sh e b))"
  using assms
  by (cases "allocate (slash (ad_id (ads_device s)) (ac_id c)) m")
     (auto simp: build_device_def diagnose_def Let_def split: prod.split)

lemma sample_outlet_device:
  "ads_device sample_outlet = \<lparr>ad_id = ''lamp'', ad_name = ''Lamp'', ad_manufacturer = [], ad_model = [],
     ad_capabilities = [sample_light ''on'' CAPABILITY_OUTLET_ON]\<rparr>"
  by (simp add: sample_outlet_def sample_light_state_def)

lemma sample_build:
  "build_devices [sample_outlet] m b =
     and_then (map_err Persistence (allocate (slash ''lamp'' ''on'') m)) (\<lambda>(e, m').
       Ok (m', add_projection (ads_device sample_outlet) ''on'' (on_off_shape OutletProfile True) e b))"
proof -
  have "ac_id (sample_light ''on'' CAPABILITY_OUTLET_ON) = ''on''" by (simp add: sample_light_def)
  then show ?thesis
    using single_build [of sample_outlet "sample_light ''on'' CAPABILITY_OUTLET_ON" "on_off_shape OutletProfile True" m b]
      sample_outlet_projects by (simp only: sample_outlet_device adapter_device.simps) simp
qed

lemma first_free:
  "allocate key default_mappings = Ok (3, \<lparr>em_version = 1, em_next = 4, em_mappings = [(key, 3)]\<rparr>)"
  by (simp add: allocate_def default_mappings_def next_free.simps FIRST_DYNAMIC_ENDPOINT_def U16_MAX_def)

lemma sample_built:
  "sample_first = (\<lparr>mb_mappings = \<lparr>em_version = 1, em_next = 4, em_mappings = [(slash ''lamp'' ''on'', 3)]\<rparr>,
      mb_file = Some \<lparr>em_version = 1, em_next = 4, em_mappings = [(slash ''lamp'' ''on'', 3)]\<rparr>\<rparr>,
      Ok (add_projection (ads_device sample_outlet) ''on'' (on_off_shape OutletProfile True) 3 no_projection))"
  "snd sample_second = Ok (add_projection (ads_device sample_outlet) ''on'' (on_off_shape OutletProfile True) 3 no_projection)"
  by (simp_all add: sample_first_def sample_second_def build_def sample_build sample_bridge_def builder_new_def bridge_run_def
      mappings_load_def default_mappings_def allocate_def next_free.simps FIRST_DYNAMIC_ENDPOINT_def U16_MAX_def
      MAX_DYNAMIC_ENDPOINTS_def add_projection_def no_projection_def del: build_devices.simps)

theorem endpoints_permanent_witness:
  "3 \<le> mp_endpoint (hd (bu_projections (built_of sample_first)))
   \<and> mp_endpoint (hd (bu_projections (built_of sample_first))) = mp_endpoint (hd (bu_projections (built_of sample_second)))"
proof -
  let ?p = "hd (bu_projections (built_of sample_first))" and ?q = "hd (bu_projections (built_of sample_second))"
  have first: "build id None [sample_outlet] sample_bridge = (fst sample_first, Ok (built_of sample_first))"
    using built_of_ok [of sample_first] by (simp add: sample_built(1) flip: sample_first_def)
  have second: "build id None [sample_outlet] (bridge_run id Some [Restart] (fst sample_first)) = (fst sample_second, Ok (built_of sample_second))"
    using built_of_ok [of sample_second] by (simp add: sample_built(2) flip: sample_second_def)
  have p: "?p \<in> set (bu_projections (built_of sample_first))" and q: "?q \<in> set (bu_projections (built_of sample_second))"
    and key: "slash (mp_device_id ?p) (mp_primary ?p) = slash (mp_device_id ?q) (mp_primary ?q)"
    by (simp_all add: built_of_def sample_built add_projection_def no_projection_def mk_projection_def)
  have start: "sample_bridge = bridge_run id Some [] (builder_new Some None)" by (simp add: sample_bridge_def bridge_run_def)
  have rt: "Some (id m) = Some m" for m :: endpoint_mappings by simp
  show ?thesis using endpoints_permanent [of Some id, OF rt start first refl second p q] key by simp
qed

text \<open>C16: What the bridge projects, the host accepts: for a snapshot of the runtime in which no
  device combines one light level with several lights, the references in the answer to a
  synchronisation all name capabilities of the snapshot and none is repeated, so the host
  accepts them, and forwards exactly the events of those capabilities.\<close>

theorem bridge_refs_accepted:
  assumes "rt_ok rt" and "sync_request (take_snapshot rt) n = Ok m"
    and "list_all (\<lambda>s. unambiguous (ads_device s)) (sy_devices m)"
    and "build encode fault (sy_devices m) self = (self', Ok b)"
  shows "case accepted_projection_keys (Some (bu_refs b)) (projection_keys (sy_devices m)) of
    Err _ \<Rightarrow> False | Ok ks \<Rightarrow> (\<forall>d c. has_key ks d c \<longleftrightarrow> (d, c) \<in> ref ` set (bu_refs b))"
proof -
  have ok: "sync_devices_ok (sy_devices m)" by (rule sync_request_devices_ok [OF assms(1,2)])
  obtain m' where "build_devices (sy_devices m) (mb_mappings self) no_projection = Ok (m', b)"
    using assms(4) by (auto simp: build_def split: sum.splits prod.splits if_splits option.splits)
  from build_devices_refs [OF this]
  have refs: "map ref (bu_refs b) = concat (map (\<lambda>s. map (Pair (ad_id (ads_device s))) (device_refs s)) (sy_devices m))"
    by (simp add: no_projection_def)
  have "has_key (projection_keys (sy_devices m)) (pr_device_id p) (pr_capability_id p)" if "p \<in> set (bu_refs b)" for p
  proof -
    have "ref p \<in> set (map ref (bu_refs b))" using that by simp
    then obtain s i where "s \<in> set (sy_devices m)" "i \<in> set (device_refs s)" "ref p = (ad_id (ads_device s), i)"
      unfolding refs by auto
    then show ?thesis using has_key_available [OF ok, of s i] device_refs_known [of i s] by (simp add: ref_def)
  qed
  moreover have "distinct (map ref (bu_refs b))" unfolding refs by (rule all_refs_distinct [OF ok assms(3)])
  ultimately show ?thesis
    using accept_projections_ok [of "projection_keys (sy_devices m)" "bu_refs b" "[]" 0]
    by (auto simp: accepted_projection_keys_def list_all_iff has_key_def [of "[]"])
qed

definition sample_message :: sync_message where
  "sample_message = (case sync_request (take_snapshot sample_runtime) 1 of Ok m \<Rightarrow> m
     | Err _ \<Rightarrow> \<lparr>sy_generation = 0, sy_revision = 0, sy_devices = []\<rparr>)"

definition sample_switch :: adapter_device_state where
  "sample_switch = \<lparr>ads_device = device_to_api sample_device,
     ads_values = [\<lparr>cs_capability_id = ''on'', cs_value = adapter_value_to_api (VBool False)\<rparr>]\<rparr>"

definition sample_sync :: "endpoint_mappings builder \<times> (sync_error, built) result" where
  "sample_sync = build id None (sy_devices sample_message) sample_bridge"

lemma sample_message_ok:
  "sync_request (take_snapshot sample_runtime) 1 = Ok sample_message" "sy_devices sample_message = [sample_switch]"
  by code_simp+

lemma sample_switch_projects:
  "project_capability ''virtual.switch'' lights levels (value_table sample_switch) (capability_to_api sample_capability)
     = ([], Some (on_off_shape OnOffLight False))"
proof -
  have "value_table sample_switch ''on'' = Some (adapter_value_to_api (VBool False))" by (simp add: value_table_def sample_switch_def)
  moreover have "wire_bool (adapter_value_to_api (VBool False)) = Some False"
    by (simp add: wire_bool_def adapter_value_to_api_def empty_wire_def)
  ultimately show ?thesis
    by (simp add: project_capability_def capability_to_api_def sample_capability_def expected_kind_def representable_def
        is_actuator_def full_permissions_def shape_of_def CAPABILITY_LIGHT_LEVEL_def CAPABILITY_SWITCH_ON_def)
qed

lemma sample_sync_ok:
  "snd sample_sync = Ok (add_projection (ads_device sample_switch) ''on'' (on_off_shape OnOffLight False) 3 no_projection)"
proof -
  let ?c = "capability_to_api sample_capability"
  have d: "ad_id (ads_device sample_switch) = ''virtual.switch''" "ad_name (ads_device sample_switch) \<noteq> []"
      "ad_capabilities (ads_device sample_switch) = [?c]" "ac_id ?c = ''on''"
    by (simp_all add: sample_switch_def device_to_api_def capability_to_api_def sample_device_def sample_capability_def)
  have "build_devices [sample_switch] default_mappings no_projection
      = Ok (\<lparr>em_version = 1, em_next = 4, em_mappings = [(slash ''virtual.switch'' ''on'', 3)]\<rparr>,
          add_projection (ads_device sample_switch) ''on'' (on_off_shape OnOffLight False) 3 no_projection)"
    using single_build [of sample_switch ?c "on_off_shape OnOffLight False" default_mappings no_projection] sample_switch_projects
    by (simp only: d) (simp add: first_free)
  then show ?thesis
    by (simp add: sample_sync_def sample_message_ok(2) build_def sample_bridge_def builder_new_def mappings_load_def
        add_projection_def no_projection_def MAX_DYNAMIC_ENDPOINTS_def del: build_devices.simps)
qed

theorem bridge_refs_accepted_witness:
  "bu_refs (built_of sample_sync) = [\<lparr>pr_device_id = ''virtual.switch'', pr_capability_id = ''on''\<rparr>]
   \<and> is_ok (accepted_projection_keys (Some (bu_refs (built_of sample_sync))) (projection_keys (sy_devices sample_message)))"
proof -
  have un: "list_all (\<lambda>s. unambiguous (ads_device s)) (sy_devices sample_message)" by code_simp
  have b: "build id None (sy_devices sample_message) sample_bridge = (fst sample_sync, Ok (built_of sample_sync))"
    using built_of_ok [of sample_sync] by (simp add: sample_sync_ok flip: sample_sync_def)
  have "bu_refs (built_of sample_sync) = [\<lparr>pr_device_id = ''virtual.switch'', pr_capability_id = ''on''\<rparr>]"
    by (simp add: built_of_def sample_sync_ok add_projection_def no_projection_def refs_of_def on_off_shape_def
        sample_switch_def device_to_api_def sample_device_def)
  then show ?thesis
    using bridge_refs_accepted [OF sample_runtime_ok sample_message_ok(1) un b] by (simp add: is_ok_def split: sum.splits)
qed

text \<open>
  A lamp with two lights and one level: the bridge reports the level as ambiguous, yet
  projects both lights with it, and the host refuses the repeated reference.
\<close>

definition double_lamp :: adapter_device_state where
  "double_lamp = sample_light_state [sample_light ''a'' CAPABILITY_LIGHT_ON, sample_light ''b'' CAPABILITY_LIGHT_ON,
     sample_light ''level'' CAPABILITY_LIGHT_LEVEL]"

lemma zero_level: "number_in f64_zero f64_hundred (adapter_value_to_api (VNumber f64_zero)) = Some f64_zero"
proof -
  have "in_range f64_zero f64_hundred f64_zero"
    using f64_hundred_scaled f64_zero_finite f64_hundred_finite
    by (auto simp: in_range_def f64_le_def is_nan_def is_finite_def)
  then show ?thesis by (simp add: number_in_def wire_number_def adapter_value_to_api_def empty_wire_def)
qed

lemma double_lamp_values:
  "value_table double_lamp ''a'' = Some (adapter_value_to_api (VBool True))"
  "value_table double_lamp ''b'' = Some (adapter_value_to_api (VBool True))"
  "value_table double_lamp ''level'' = Some (adapter_value_to_api (VNumber f64_zero))"
  by (simp_all add: value_table_def double_lamp_def sample_light_state_def sample_light_def
      CAPABILITY_LIGHT_ON_def CAPABILITY_LIGHT_LEVEL_def)

lemma double_lamp_projects:
  assumes "c \<in> {''a'', ''b''}"
  shows "project_capability ''lamp'' lights [sample_light ''level'' CAPABILITY_LIGHT_LEVEL] (value_table double_lamp)
      (sample_light c CAPABILITY_LIGHT_ON)
    = ([], Some ((on_off_shape DimmableLight True)\<lparr>sh_level := Some f64_zero, sh_level_id := Some ''level''\<rparr>))"
proof -
  have "wire_bool (adapter_value_to_api (VBool True)) = Some True"
    by (simp add: wire_bool_def adapter_value_to_api_def empty_wire_def)
  then show ?thesis
    using assms zero_level double_lamp_values
    by (auto simp: project_capability_def sample_light_def expected_kind_def representable_def is_actuator_def full_permissions_def
        shape_of_def light_shape_def CAPABILITY_LIGHT_ON_def CAPABILITY_LIGHT_LEVEL_def CAPABILITY_SWITCH_ON_def)
qed

lemma double_lamp_refs: "device_refs double_lamp = [''a'', ''level'', ''b'', ''level'']"
proof -
  have d: "ads_device double_lamp = \<lparr>ad_id = ''lamp'', ad_name = ''Lamp'', ad_manufacturer = [], ad_model = [],
      ad_capabilities = [sample_light ''a'' CAPABILITY_LIGHT_ON, sample_light ''b'' CAPABILITY_LIGHT_ON,
        sample_light ''level'' CAPABILITY_LIGHT_LEVEL]\<rparr>" by (simp add: double_lamp_def sample_light_state_def)
  have l: "of_type CAPABILITY_LIGHT_LEVEL (ads_device double_lamp) = [sample_light ''level'' CAPABILITY_LIGHT_LEVEL]"
    by (simp add: of_type_def d sample_light_def CAPABILITY_LIGHT_ON_def CAPABILITY_LIGHT_LEVEL_def)
  have lvl: "snd (project_capability i lights levels vt (sample_light ''level'' CAPABILITY_LIGHT_LEVEL)) = None" for i lights levels vt
    by (simp add: project_capability_def sample_light_def)
  have ids: "ac_id (sample_light c t) = c" for c t by (simp add: sample_light_def)
  show ?thesis
    unfolding device_refs_def capability_refs_def l
    by (simp add: d double_lamp_projects lvl ids)
qed

theorem double_lamp_refused:
  "accepted_projection_keys (Some (map (\<lambda>c. \<lparr>pr_device_id = ''lamp'', pr_capability_id = c\<rparr>) (device_refs double_lamp)))
     (projection_keys [double_lamp]) = Err (DuplicateCapability 3 ''lamp'' ''level'')"
  unfolding double_lamp_refs by code_simp

end
