(* ===== verification/Matter_Bridge.thy ===== *)
theory Matter_Bridge
  imports Adapter_Mirror Matter_Projection
begin

text \<open>
  The state of the Matter bridge, \<open>apps/oikade-matter-adapter/src/bridge\<close> and the \<open>ProjectionSet\<close> of
  \<open>projection.rs\<close>: the projections behind the Matter endpoints, how a synchronisation and an event
  change them, and what the cluster handlers read and write. The clusters of the \<open>rs_matter\<close>
  library are names here, with the attributes that the handlers announce. At the end the
  bridge is connected to the monitor of the host.
\<close>

section \<open>The set of projections\<close>

text \<open>The \<open>HashMap\<close> from capabilities to endpoints is only looked up, so it is a function.\<close>

record projection_set =
  pj_by_endpoint :: "(nat, matter_projection) btree"
  pj_by_capability :: "string \<times> string \<Rightarrow> nat option"

definition projection_set_empty :: projection_set where
  "projection_set_empty = \<lparr>pj_by_endpoint = [], pj_by_capability = (\<lambda>_. None)\<rparr>"

definition set_endpoint :: "nat \<Rightarrow> projection_set \<Rightarrow> matter_projection option" where
  "set_endpoint e s = map_of (pj_by_endpoint s) e"

definition find_mut :: "string \<Rightarrow> string \<Rightarrow> projection_set \<Rightarrow> matter_projection option" where
  "find_mut d c s = Option.bind (pj_by_capability s (d, c)) (map_of (pj_by_endpoint s))"

definition set_add :: "matter_projection \<Rightarrow> projection_set \<Rightarrow> projection_set" where
  "set_add p s =
     (let e = mp_endpoint p; d = mp_device_id p; by = (pj_by_capability s)((d, mp_primary p) \<mapsto> e)
      in \<lparr>pj_by_endpoint = put e p (pj_by_endpoint s),
          pj_by_capability = (case mp_level_id p of None \<Rightarrow> by | Some l \<Rightarrow> by((d, l) \<mapsto> e))\<rparr>)"

definition set_replace :: "matter_projection list \<Rightarrow> projection_set" where
  "set_replace ps = fold set_add ps projection_set_empty"

text \<open>A projection reached through \<open>endpoint_mut\<close> or \<open>find_mut\<close> is changed in place.\<close>

definition set_modify :: "nat \<Rightarrow> (matter_projection \<Rightarrow> matter_projection) \<Rightarrow> projection_set \<Rightarrow> projection_set" where
  "set_modify e f s =
     (case map_of (pj_by_endpoint s) e of None \<Rightarrow> s | Some p \<Rightarrow> s\<lparr>pj_by_endpoint := put e (f p) (pj_by_endpoint s)\<rparr>)"

definition find_modify :: "string \<Rightarrow> string \<Rightarrow> (matter_projection \<Rightarrow> matter_projection) \<Rightarrow> projection_set \<Rightarrow> projection_set" where
  "find_modify d c f s = (case pj_by_capability s (d, c) of None \<Rightarrow> s | Some e \<Rightarrow> set_modify e f s)"

section \<open>Endpoint metadata\<close>

datatype cluster = DescriptorCluster | BridgedCluster | OnOffCluster | LevelCluster
  | TemperatureCluster | HumidityCluster | ContactCluster | OccupancyCluster

record device_type =
  dt_dtype :: nat
  dt_drev :: nat

record matter_endpoint =
  ep_id :: nat
  ep_types :: "device_type list"
  ep_clusters :: "cluster list"

definition AGGREGATOR_ENDPOINT :: nat where "AGGREGATOR_ENDPOINT = 1"
definition DEV_TYPE_AGGREGATOR :: device_type where "DEV_TYPE_AGGREGATOR = \<lparr>dt_dtype = 0x000E, dt_drev = 2\<rparr>"
definition DEV_TYPE_BRIDGED_NODE :: device_type where "DEV_TYPE_BRIDGED_NODE = \<lparr>dt_dtype = 0x0013, dt_drev = 1\<rparr>"
definition DEV_TYPE_ON_OFF_LIGHT :: device_type where "DEV_TYPE_ON_OFF_LIGHT = \<lparr>dt_dtype = 0x0100, dt_drev = 1\<rparr>"
definition DEV_TYPE_DIMMABLE_LIGHT :: device_type where "DEV_TYPE_DIMMABLE_LIGHT = \<lparr>dt_dtype = 0x0101, dt_drev = 1\<rparr>"
definition DEV_TYPE_OUTLET :: device_type where "DEV_TYPE_OUTLET = \<lparr>dt_dtype = 0x010A, dt_drev = 1\<rparr>"
definition DEV_TYPE_TEMPERATURE :: device_type where "DEV_TYPE_TEMPERATURE = \<lparr>dt_dtype = 0x0302, dt_drev = 1\<rparr>"
definition DEV_TYPE_HUMIDITY :: device_type where "DEV_TYPE_HUMIDITY = \<lparr>dt_dtype = 0x0307, dt_drev = 2\<rparr>"
definition DEV_TYPE_CONTACT :: device_type where "DEV_TYPE_CONTACT = \<lparr>dt_dtype = 0x0015, dt_drev = 2\<rparr>"
definition DEV_TYPE_OCCUPANCY :: device_type where "DEV_TYPE_OCCUPANCY = \<lparr>dt_dtype = 0x0107, dt_drev = 4\<rparr>"

definition AGGREGATOR :: matter_endpoint where
  "AGGREGATOR = \<lparr>ep_id = AGGREGATOR_ENDPOINT, ep_types = [DEV_TYPE_AGGREGATOR], ep_clusters = [DescriptorCluster]\<rparr>"

fun primary_type :: "profile \<Rightarrow> device_type" where
  "primary_type OnOffLight = DEV_TYPE_ON_OFF_LIGHT"
| "primary_type DimmableLight = DEV_TYPE_DIMMABLE_LIGHT"
| "primary_type OutletProfile = DEV_TYPE_OUTLET"
| "primary_type TemperatureProfile = DEV_TYPE_TEMPERATURE"
| "primary_type HumidityProfile = DEV_TYPE_HUMIDITY"
| "primary_type ContactProfile = DEV_TYPE_CONTACT"
| "primary_type OccupancyProfile = DEV_TYPE_OCCUPANCY"

fun profile_clusters :: "profile \<Rightarrow> cluster list" where
  "profile_clusters OnOffLight = [OnOffCluster]"
| "profile_clusters DimmableLight = [OnOffCluster, LevelCluster]"
| "profile_clusters OutletProfile = [OnOffCluster]"
| "profile_clusters TemperatureProfile = [TemperatureCluster]"
| "profile_clusters HumidityProfile = [HumidityCluster]"
| "profile_clusters ContactProfile = [ContactCluster]"
| "profile_clusters OccupancyProfile = [OccupancyCluster]"

definition endpoint_for :: "matter_projection \<Rightarrow> matter_endpoint" where
  "endpoint_for p = \<lparr>ep_id = mp_endpoint p, ep_types = [primary_type (mp_profile p), DEV_TYPE_BRIDGED_NODE],
     ep_clusters = DescriptorCluster # BridgedCluster # profile_clusters (mp_profile p)\<rparr>"

section \<open>The state of the bridge\<close>

text \<open>
  \<open>BridgeState\<close>; the data versions are \<open>AtomicU32\<close> counters, one for each kind of cluster. The root
  endpoint is made by a macro of the library and is a parameter.
\<close>

record bridge =
  br_set :: projection_set
  br_endpoints :: "matter_endpoint list"
  br_dataver :: "cluster \<Rightarrow> nat"

definition bridge_new :: "matter_endpoint \<Rightarrow> bridge" where
  "bridge_new root = \<lparr>br_set = projection_set_empty, br_endpoints = [root, AGGREGATOR], br_dataver = (\<lambda>_. 1)\<rparr>"

definition dataver_changed :: "cluster \<Rightarrow> bridge \<Rightarrow> bridge" where
  "dataver_changed k b = b\<lparr>br_dataver := (br_dataver b)(k := (br_dataver b k + 1) mod 2 ^ 32)\<rparr>"

definition bridge_replace :: "matter_endpoint \<Rightarrow> matter_projection list \<Rightarrow> bridge \<Rightarrow> bridge" where
  "bridge_replace root ps b =
     b\<lparr>br_set := set_replace ps, br_endpoints := sort_key ep_id (root # AGGREGATOR # map endpoint_for ps)\<rparr>"

datatype attribute_name = OnOffAttribute | CurrentLevelAttribute | FirstAttribute

type_synonym attribute_change = "nat \<times> cluster \<times> attribute_name"

datatype event_error = EventNotFound | EventInvalidValue

text \<open>
  The new value of a projection for an event of one of its capabilities, and the attribute to
  announce when the value differs. \<open>Option<f64>\<close> compares numbers, so the two zeros are equal.
\<close>

definition change_when :: "bool \<Rightarrow> nat \<Rightarrow> cluster \<Rightarrow> attribute_name \<Rightarrow> attribute_change option" where
  "change_when changed e k a = (if changed then Some (e, k, a) else None)"

definition same_number :: "f64 option \<Rightarrow> f64 \<Rightarrow> bool" where
  "same_number x n = (case x of None \<Rightarrow> False | Some y \<Rightarrow> f64_eq y n)"

definition project_primary ::
  "wire_value \<Rightarrow> matter_projection \<Rightarrow> (event_error, matter_projection \<times> attribute_change option) result" where
  "project_primary v p =
     (let e = mp_endpoint p in
      if mp_profile p \<in> {OnOffLight, DimmableLight, OutletProfile} then
        (case wire_bool v of None \<Rightarrow> Err EventInvalidValue
         | Some n \<Rightarrow> Ok (p\<lparr>mp_on := Some n\<rparr>, change_when (mp_on p \<noteq> Some n) e OnOffCluster OnOffAttribute))
      else if mp_profile p \<in> {TemperatureProfile, HumidityProfile} then
        (let temperature = (mp_profile p = TemperatureProfile) in
         case (if temperature then number_in MIN_TEMPERATURE MAX_TEMPERATURE v else number_in f64_zero f64_hundred v) of
           None \<Rightarrow> Err EventInvalidValue
         | Some n \<Rightarrow> Ok (p\<lparr>mp_sensor := Some n\<rparr>,
             change_when (\<not> same_number (mp_sensor p) n) e (if temperature then TemperatureCluster else HumidityCluster) FirstAttribute))
      else
        (case wire_bool v of None \<Rightarrow> Err EventInvalidValue
         | Some n \<Rightarrow> Ok (p\<lparr>mp_binary := Some n\<rparr>,
             change_when (mp_binary p \<noteq> Some n) e
               (if mp_profile p = ContactProfile then ContactCluster else OccupancyCluster) FirstAttribute)))"

definition project_event ::
  "string \<Rightarrow> wire_value \<Rightarrow> matter_projection \<Rightarrow> (event_error, matter_projection \<times> attribute_change option) result" where
  "project_event c v p =
     (if c = mp_primary p then project_primary v p
      else if mp_level_id p = Some c then
        (case number_in f64_zero f64_hundred v of None \<Rightarrow> Err EventInvalidValue
         | Some n \<Rightarrow> Ok (p\<lparr>mp_level := Some n\<rparr>,
             change_when (\<not> same_number (mp_level p) n) (mp_endpoint p) LevelCluster CurrentLevelAttribute))
      else Err EventNotFound)"

definition update_event ::
  "string \<Rightarrow> string \<Rightarrow> wire_value \<Rightarrow> bridge \<Rightarrow> bridge \<times> (event_error, attribute_change option) result" where
  "update_event d c v b =
     (case find_mut d c (br_set b) of
        None \<Rightarrow> (b, Err EventNotFound)
      | Some p \<Rightarrow>
          (case project_event c v p of
             Err e \<Rightarrow> (b, Err e)
           | Ok (q, change) \<Rightarrow> (b\<lparr>br_set := find_modify d c (\<lambda>_. q) (br_set b)\<rparr>, Ok change)))"

section \<open>Commands and cluster handlers\<close>

datatype matter_error = EndpointNotFound | MatterFailure | ConstraintError | CommandNotFound

record command_request =
  cr_device_id :: string
  cr_capability_id :: string
  cr_value :: canonical_value

definition bridge_on :: "nat \<Rightarrow> bridge \<Rightarrow> (matter_error, bool) result" where
  "bridge_on e b = ok_or EndpointNotFound (Option.bind (set_endpoint e (br_set b)) mp_on)"

definition bridge_level :: "nat \<Rightarrow> bridge \<Rightarrow> (matter_error, f64) result" where
  "bridge_level e b = ok_or EndpointNotFound (Option.bind (set_endpoint e (br_set b)) mp_level)"

definition apply_on :: "nat \<Rightarrow> bool \<Rightarrow> bridge \<Rightarrow> bridge" where
  "apply_on e v b = b\<lparr>br_set := set_modify e (\<lambda>p. p\<lparr>mp_on := Some v\<rparr>) (br_set b)\<rparr>"

definition apply_level :: "nat \<Rightarrow> f64 \<Rightarrow> bridge \<Rightarrow> bridge" where
  "apply_level e v b = b\<lparr>br_set := set_modify e (\<lambda>p. p\<lparr>mp_level := Some v\<rparr>) (br_set b)\<rparr>"

text \<open>
  \<open>command\<close> up to the send, and what becomes of the answer; \<open>None\<close> is a closed channel and
  \<open>Some (Err ())\<close> the failure that the RPC loop reports.
\<close>

definition command_begin :: "nat \<Rightarrow> bool \<Rightarrow> canonical_value \<Rightarrow> bridge \<Rightarrow> (matter_error, command_request) result" where
  "command_begin e level desired b =
     (case set_endpoint e (br_set b) of
        None \<Rightarrow> Err EndpointNotFound
      | Some p \<Rightarrow> Ok \<lparr>cr_device_id = mp_device_id p, cr_capability_id = capability_for_cluster level p, cr_value = desired\<rparr>)"

definition command_finish :: "bool \<Rightarrow> (unit, wire_value) result option \<Rightarrow> (matter_error, canonical_value) result" where
  "command_finish level answer =
     (case answer of
        Some (Ok v) \<Rightarrow>
          ok_or ConstraintError
            (if level then map_option CanonicalNumber (number_in f64_zero f64_hundred v)
             else map_option CanonicalBool (wire_bool v))
      | _ \<Rightarrow> Err MatterFailure)"

text \<open>
  The handlers \<open>OnOffHandler::set\<close> and \<open>LevelHandler::set\<close> after their command is answered: the bridge
  takes the effective value and the attribute to announce. \<open>unreachable!\<close> stands where
  \<open>command_finish\<close> gives the other kind of value, which it never does.
\<close>

definition on_off_finish ::
  "nat \<Rightarrow> (unit, wire_value) result option \<Rightarrow> bridge \<Rightarrow> bridge \<times> (matter_error, attribute_change option) result" where
  "on_off_finish e answer b =
     (case command_finish False answer of
        Ok (CanonicalBool effective) \<Rightarrow>
          (case bridge_on e b of
             Err x \<Rightarrow> (b, Err x)
           | Ok now \<Rightarrow>
               if now \<noteq> effective then (apply_on e effective b, Ok (Some (e, OnOffCluster, OnOffAttribute)))
               else (b, Ok None))
      | Ok (CanonicalNumber _) \<Rightarrow> (b, Err MatterFailure)
      | Err x \<Rightarrow> (b, Err x))"

definition level_finish ::
  "nat \<Rightarrow> (unit, wire_value) result option \<Rightarrow> bridge \<Rightarrow> bridge \<times> (matter_error, attribute_change option) result" where
  "level_finish e answer b =
     (case command_finish True answer of
        Ok (CanonicalNumber effective) \<Rightarrow>
          (case bridge_level e b of
             Err x \<Rightarrow> (b, Err x)
           | Ok now \<Rightarrow>
               if \<not> f64_eq now effective then (apply_level e effective b, Ok (Some (e, LevelCluster, CurrentLevelAttribute)))
               else (b, Ok None))
      | Ok (CanonicalBool _) \<Rightarrow> (b, Err MatterFailure)
      | Err x \<Rightarrow> (b, Err x))"

definition toggle_desired :: "nat \<Rightarrow> bridge \<Rightarrow> (matter_error, bool) result" where
  "toggle_desired e b = and_then (bridge_on e b) (\<lambda>v. Ok (\<not> v))"

text \<open>Reads of the sensor clusters before the conversion to the unit of Matter, and the label.\<close>

definition measured_value :: "nat \<Rightarrow> bridge \<Rightarrow> (matter_error, f64) result" where
  "measured_value e b = ok_or EndpointNotFound (Option.bind (set_endpoint e (br_set b)) mp_sensor)"

definition state_value :: "nat \<Rightarrow> bridge \<Rightarrow> (matter_error, bool) result" where
  "state_value e b = ok_or EndpointNotFound (Option.bind (set_endpoint e (br_set b)) mp_binary)"

definition node_label :: "nat \<Rightarrow> bridge \<Rightarrow> (matter_error, string) result" where
  "node_label e b = ok_or EndpointNotFound (map_option mp_name (set_endpoint e (br_set b)))"

definition set_node_label :: "nat \<Rightarrow> string \<Rightarrow> bridge \<Rightarrow> bridge \<times> (matter_error, unit) result" where
  "set_node_label e label b =
     (if length label > 32 then (b, Err ConstraintError)
      else case set_endpoint e (br_set b) of
        None \<Rightarrow> (b, Err EndpointNotFound)
      | Some _ \<Rightarrow> (b\<lparr>br_set := set_modify e (\<lambda>p. p\<lparr>mp_name := label\<rparr>) (br_set b)\<rparr>, Ok ()))"

definition bridged_unique_id :: "nat \<Rightarrow> bridge \<Rightarrow> (matter_error, string) result" where
  "bridged_unique_id e b = ok_or EndpointNotFound (map_option mp_unique_id (set_endpoint e (br_set b)))"

section \<open>What the bridge shows\<close>

text \<open>The value that Matter sees for a capability of a projection, and the value of a wire record.\<close>

fun profile_attribute :: "profile \<Rightarrow> matter_projection \<Rightarrow> canonical_value option" where
  "profile_attribute OnOffLight p = map_option CanonicalBool (mp_on p)"
| "profile_attribute DimmableLight p = map_option CanonicalBool (mp_on p)"
| "profile_attribute OutletProfile p = map_option CanonicalBool (mp_on p)"
| "profile_attribute TemperatureProfile p = map_option CanonicalNumber (mp_sensor p)"
| "profile_attribute HumidityProfile p = map_option CanonicalNumber (mp_sensor p)"
| "profile_attribute ContactProfile p = map_option CanonicalBool (mp_binary p)"
| "profile_attribute OccupancyProfile p = map_option CanonicalBool (mp_binary p)"

definition attribute :: "matter_projection \<Rightarrow> string \<Rightarrow> canonical_value option" where
  "attribute p c =
     (if c = mp_primary p then profile_attribute (mp_profile p) p
      else if mp_level_id p = Some c then map_option CanonicalNumber (mp_level p)
      else None)"

definition canonical_of :: "wire_value \<Rightarrow> canonical_value option" where
  "canonical_of v =
     (case wire_bool v of Some b \<Rightarrow> Some (CanonicalBool b) | None \<Rightarrow> map_option CanonicalNumber (wire_number v))"

definition bridge_shows :: "bridge \<Rightarrow> string \<Rightarrow> string \<Rightarrow> canonical_value option" where
  "bridge_shows b d c = Option.bind (find_mut d c (br_set b)) (\<lambda>p. attribute p c)"

lemma canonical_of_bool: "wire_bool v = Some x \<Longrightarrow> canonical_of v = Some (CanonicalBool x)"
  by (simp add: canonical_of_def)

lemma canonical_of_number: "wire_number v = Some n \<Longrightarrow> canonical_of v = Some (CanonicalNumber n)"
  by (auto simp: canonical_of_def wire_number_def wire_bool_def split: if_splits)

lemma number_in_wire: "number_in lo hi v = Some n \<Longrightarrow> wire_number v = Some n"
  by (auto simp: number_in_def split: option.splits if_splits)

lemmas canonical_of_in = canonical_of_number [OF number_in_wire]

text \<open>A projection shows the values from which it was built.\<close>

lemma light_shape_shows:
  assumes "light_shape d c levels vt x = (ds, s)"
  shows "sh_profile s \<in> {OnOffLight, DimmableLight}" and "sh_on s = Some x"
    and "sh_level_id s = Some l \<Longrightarrow> map_option CanonicalNumber (sh_level s) = Option.bind (vt l) canonical_of"
  using assms
  by (auto simp: light_shape_def on_off_shape_def bind_eq_Some_conv dest!: canonical_of_in
      split: list.splits if_splits option.splits)

lemma shape_of_shows:
  assumes "shape_of d levels vt c v = (ds, Some s)"
  shows "profile_attribute (sh_profile s) (mk_projection dev i s e) = canonical_of v"
    and "sh_level_id s = Some l \<Longrightarrow> map_option CanonicalNumber (sh_level s) = Option.bind (vt l) canonical_of"
proof -
  show "profile_attribute (sh_profile s) (mk_projection dev i s e) = canonical_of v"
  proof (cases "ac_type c = CAPABILITY_LIGHT_ON")
    case True
    then obtain x where x: "wire_bool v = Some x" "light_shape d (ac_id c) levels vt x = (ds, s)"
      using assms by (auto simp: shape_of_def Let_def capability_names split: option.splits prod.splits)
    have "mp_on (mk_projection dev i s e) = Some x" by (simp add: mk_projection_def light_shape_shows(2) [OF x(2)])
    then show ?thesis using light_shape_shows(1) [OF x(2)] x(1) by (auto simp: canonical_of_bool)
  next
    case False
    then show ?thesis
      using assms
      by (auto simp: shape_of_def Let_def mk_projection_def on_off_shape_def number_shape_def binary_shape_def
          canonical_of_bool canonical_of_in split: if_splits option.splits)
  qed
next
  assume "sh_level_id s = Some l"
  then show "map_option CanonicalNumber (sh_level s) = Option.bind (vt l) canonical_of"
    using assms light_shape_shows(3) [of d "ac_id c" levels vt]
    by (auto simp: shape_of_def Let_def on_off_shape_def number_shape_def binary_shape_def
        split: if_splits option.splits prod.splits)
qed

lemma project_capability_shows:
  assumes "project_capability d lights levels vt c = (ds, Some s)"
  shows "attribute (mk_projection dev (ac_id c) s e) (ac_id c) = Option.bind (vt (ac_id c)) canonical_of"
    and "sh_level_id s = Some l \<Longrightarrow> l \<noteq> ac_id c
      \<Longrightarrow> attribute (mk_projection dev (ac_id c) s e) l = Option.bind (vt l) canonical_of"
proof -
  obtain v where v: "vt (ac_id c) = Some v" "shape_of d levels vt c v = (ds, Some s)"
    using assms by (auto simp: project_capability_def split: if_splits option.splits)
  show "attribute (mk_projection dev (ac_id c) s e) (ac_id c) = Option.bind (vt (ac_id c)) canonical_of"
  proof -
    have "mp_primary (mk_projection dev (ac_id c) s e) = ac_id c" "mp_profile (mk_projection dev (ac_id c) s e) = sh_profile s"
      by (simp_all add: mk_projection_def)
    then show ?thesis using shape_of_shows(1) [OF v(2), of dev "ac_id c" e] by (simp add: attribute_def v(1))
  qed
  show "sh_level_id s = Some l \<Longrightarrow> l \<noteq> ac_id c
      \<Longrightarrow> attribute (mk_projection dev (ac_id c) s e) l = Option.bind (vt l) canonical_of"
    using shape_of_shows(2) [OF v(2), of l] by (simp add: attribute_def mk_projection_def)
qed

text \<open>The references of a projection, and a list of projections that shows the values of a snapshot.\<close>

definition own_refs :: "matter_projection \<Rightarrow> (string \<times> string) list" where
  "own_refs p = (mp_device_id p, mp_primary p) # (case mp_level_id p of None \<Rightarrow> [] | Some l \<Rightarrow> [(mp_device_id p, l)])"

definition projection_shows :: "adapter_device_state list \<Rightarrow> matter_projection \<Rightarrow> bool" where
  "projection_shows ss p \<longleftrightarrow> (\<exists>s \<in> set ss. ad_id (ads_device s) = mp_device_id p
     \<and> (distinct (own_refs p) \<longrightarrow> (\<forall>(d, c) \<in> set (own_refs p). attribute p c = Option.bind (value_table s c) canonical_of)))"

definition built_shows :: "adapter_device_state list \<Rightarrow> built \<Rightarrow> bool" where
  "built_shows ss b \<longleftrightarrow> list_all (projection_shows ss) (bu_projections b)
     \<and> map ref (bu_refs b) = concat (map own_refs (bu_projections b))"

lemma built_shows_diagnose [simp]: "built_shows ss (diagnose ds b) = built_shows ss b"
  by (simp add: built_shows_def diagnose_def)

lemma built_shows_add:
  assumes "built_shows ss b" and "s \<in> set ss"
    and "project_capability (ad_id (ads_device s)) lights levels (value_table s) c = (ds, Some sh)"
  shows "built_shows ss (add_projection (ads_device s) (ac_id c) sh e b)"
proof -
  let ?p = "mk_projection (ads_device s) (ac_id c) sh e"
  have fields: "mp_device_id ?p = ad_id (ads_device s)" "mp_primary ?p = ac_id c" "mp_level_id ?p = sh_level_id sh"
    by (simp_all add: mk_projection_def)
  have "projection_shows ss ?p"
    unfolding projection_shows_def
    using assms(2) project_capability_shows [OF assms(3), where dev = "ads_device s" and e = e]
    by (intro bexI [of _ s]) (auto simp: own_refs_def fields split: option.splits)
  moreover have "map ref (refs_of (ad_id (ads_device s)) (ac_id c) sh) = own_refs ?p"
    by (simp add: refs_of_def ref_def own_refs_def fields split: option.split)
  ultimately show ?thesis using assms(1) by (simp add: built_shows_def add_projection_def)
qed

lemma build_capabilities_shows:
  assumes "build_capabilities (ads_device s) lights levels (value_table s) cs m b = Ok (m', b')"
    and "built_shows ss b" and "s \<in> set ss"
  shows "built_shows ss b'"
  using assms
proof (induction cs arbitrary: m b)
  case (Cons c cs)
  obtain ds sh where p: "project_capability (ad_id (ads_device s)) lights levels (value_table s) c = (ds, sh)" by fastforce
  then show ?case
    using Cons built_shows_add [OF _ Cons.prems(3), of "diagnose ds b" lights levels c ds]
    by (cases sh) (auto simp: and_then_eq_Ok)
qed simp

lemma build_devices_shows:
  assumes "build_devices rest m b = Ok (m', b')" and "built_shows ss b" and "set rest \<subseteq> set ss"
  shows "built_shows ss b'"
  using assms
proof (induction rest arbitrary: m b)
  case (Cons s rest)
  then obtain m1 b1 where d: "build_device s m b = Ok (m1, b1)" and rest: "build_devices rest m1 b1 = Ok (m', b')"
    by (auto simp: and_then_eq_Ok)
  have "built_shows ss b1"
    using d Cons.prems build_capabilities_shows [of s _ _ _ m b m1 b1 ss]
    by (auto simp: build_device_def Let_def split: if_splits)
  then show ?case using Cons.IH [OF rest] Cons.prems(3) by simp
qed simp

text \<open>Finding a projection after a synchronisation.\<close>

definition located :: "projection_set \<Rightarrow> string \<times> string \<Rightarrow> matter_projection \<Rightarrow> bool" where
  "located s r p \<longleftrightarrow> pj_by_capability s r = Some (mp_endpoint p) \<and> map_of (pj_by_endpoint s) (mp_endpoint p) = Some p"

lemma located_find: "located s (d, c) p \<Longrightarrow> find_mut d c s = Some p"
  by (simp add: located_def find_mut_def)

lemma set_add_located: "r \<in> set (own_refs p) \<Longrightarrow> located (set_add p s) r p"
  by (auto simp: located_def set_add_def own_refs_def Let_def split: option.splits)

lemma set_add_other:
  "located s r q \<Longrightarrow> r \<notin> set (own_refs p) \<Longrightarrow> mp_endpoint q \<noteq> mp_endpoint p \<Longrightarrow> located (set_add p s) r q"
  by (auto simp: located_def set_add_def own_refs_def Let_def split: option.splits)

lemma set_replace_located:
  assumes "distinct (map mp_endpoint ps)" and "distinct (concat (map own_refs ps))" and "p \<in> set ps" and "r \<in> set (own_refs p)"
  shows "located (set_replace ps) r p"
  using assms unfolding set_replace_def
proof (induction ps rule: rev_induct)
  case (snoc q ps)
  show ?case
  proof (cases "p = q")
    case True
    then show ?thesis using snoc.prems by (simp add: set_add_located)
  next
    case False
    then have p: "p \<in> set ps" using snoc.prems(3) by simp
    then have "mp_endpoint p \<noteq> mp_endpoint q" using snoc.prems(1) by (auto simp: image_iff)
    moreover have "r \<notin> set (own_refs q)" using snoc.prems(2,4) p by auto
    ultimately show ?thesis using snoc p by (simp add: set_add_other)
  qed
qed simp

lemma slash_inj:
  assumes "slash d c = slash d' c'" and "CHR ''/'' \<notin> set c" and "CHR ''/'' \<notin> set c'"
  shows "d = d' \<and> c = c'"
proof -
  have eq: "rev c @ CHR ''/'' # rev d = rev c' @ CHR ''/'' # rev d'"
    using arg_cong [OF assms(1), of rev] by (simp add: slash_def)
  have plain: "\<forall>x \<in> set c. x \<noteq> CHR ''/''" "\<forall>x \<in> set c'. x \<noteq> CHR ''/''" using assms(2,3) by auto
  from arg_cong [OF eq, of "takeWhile (\<lambda>x. x \<noteq> CHR ''/'')"] arg_cong [OF eq, of "dropWhile (\<lambda>x. x \<noteq> CHR ''/'')"]
  show ?thesis using plain by (simp add: takeWhile_append dropWhile_append)
qed

lemma own_refs_primary: "(mp_device_id p, mp_primary p) \<in> set (own_refs p)"
  by (simp add: own_refs_def)

lemma distinct_endpoints:
  assumes "mappings_ok m" and "numbered m b" and "distinct (concat (map own_refs (bu_projections b)))"
    and plain: "\<And>p. p \<in> set (bu_projections b) \<Longrightarrow> CHR ''/'' \<notin> set (mp_primary p)"
  shows "distinct (map mp_endpoint (bu_projections b))"
proof -
  let ?ps = "bu_projections b" and ?key = "\<lambda>p. (mp_device_id p, mp_primary p)"
  have "distinct (map ?key ps)" if "distinct (concat (map own_refs ps))" for ps
    using that by (induction ps) (auto simp: own_refs_def split: option.splits)
  then have keys: "distinct (map ?key ?ps)" using assms(3) .
  have number: "map_of (em_mappings m) (slash (mp_device_id p) (mp_primary p)) = Some (mp_endpoint p)" if "p \<in> set ?ps" for p
    using assms(2) that by (simp add: numbered_def list_all_iff)
  have "p = q" if "p \<in> set ?ps" "q \<in> set ?ps" "mp_endpoint p = mp_endpoint q" for p q
  proof -
    have "slash (mp_device_id p) (mp_primary p) = slash (mp_device_id q) (mp_primary q)"
      using number [OF that(2)] unfolding that(3) [symmetric] by (rule endpoint_key [OF assms(1) number [OF that(1)]])
    from slash_inj [OF this plain [OF that(1)] plain [OF that(2)]] have "?key p = ?key q" by simp
    moreover have "inj_on ?key (set ?ps)" using keys by (simp add: distinct_map)
    ultimately show ?thesis using that inj_onD [of ?key "set ?ps" p q] by simp
  qed
  then have "inj_on mp_endpoint (set ?ps)" by (simp add: inj_on_def)
  then show ?thesis using keys by (simp add: distinct_map)
qed

lemma built_located:
  assumes "build encode fault devices self = (self', Ok b)" and "mappings_ok (mb_mappings self)"
    and dist: "distinct (map ref (bu_refs b))"
    and plain: "\<And>p. p \<in> set (bu_refs b) \<Longrightarrow> CHR ''/'' \<notin> set (pr_capability_id p)"
    and "(d, c) \<in> ref ` set (bu_refs b)"
  shows "\<exists>q. located (set_replace (bu_projections b)) (d, c) q \<and> (d, c) \<in> set (own_refs q)
    \<and> (\<exists>s \<in> set devices. ad_id (ads_device s) = d \<and> attribute q c = Option.bind (value_table s c) canonical_of)"
proof -
  from assms(1,2) have "\<exists>m. grows (mb_mappings self) (m, b) \<and> build_devices devices (mb_mappings self) no_projection = Ok (m, b)"
  proof (cases rule: build_ok)
    case (built m b')
    then have "b' = b" by simp
    then show ?thesis using built(2,5) by blast
  qed simp
  then obtain m where m: "grows (mb_mappings self) (m, b)" "build_devices devices (mb_mappings self) no_projection = Ok (m, b)"
    by blast
  have shown: "built_shows devices b"
    using m(2) by (rule build_devices_shows) (simp_all add: built_shows_def no_projection_def)
  then have refs: "map ref (bu_refs b) = concat (map own_refs (bu_projections b))" by (simp add: built_shows_def)
  have in_refs: "(d, c) \<in> ref ` set (bu_refs b) \<longleftrightarrow> (\<exists>q \<in> set (bu_projections b). (d, c) \<in> set (own_refs q))" for d c
    using arg_cong [OF refs, of set] by auto
  have "CHR ''/'' \<notin> set (mp_primary q)" if "q \<in> set (bu_projections b)" for q
  proof -
    have "(mp_device_id q, mp_primary q) \<in> ref ` set (bu_refs b)" unfolding in_refs using that own_refs_primary by blast
    then show ?thesis using plain by (auto simp: ref_def)
  qed
  then have "distinct (map mp_endpoint (bu_projections b))"
    using m(1) dist by (intro distinct_endpoints [of m]) (simp_all add: grows_def refs)
  note located = set_replace_located [OF this dist [unfolded refs]]
  obtain q where q: "q \<in> set (bu_projections b)" "(d, c) \<in> set (own_refs q)" using assms(5) unfolding in_refs by blast
  then have dev: "mp_device_id q = d" by (auto simp: own_refs_def split: option.splits)
  have "distinct (own_refs q)" using q(1) dist unfolding refs by (simp add: distinct_concat_iff)
  then obtain s where "s \<in> set devices" "ad_id (ads_device s) = mp_device_id q" "attribute q c = Option.bind (value_table s c) canonical_of"
    using shown q by (fastforce simp: built_shows_def list_all_iff projection_shows_def)
  then show ?thesis using located [OF q] q(2) dev by blast
qed

text \<open>The effect of an accepted event on what the bridge shows.\<close>

lemma project_primary_cases:
  assumes "project_primary v p = Ok (q, change)"
  obtains (on_off) x where "mp_profile p \<in> {OnOffLight, DimmableLight, OutletProfile}" "wire_bool v = Some x" "q = p\<lparr>mp_on := Some x\<rparr>"
  | (number) n where "mp_profile p \<in> {TemperatureProfile, HumidityProfile}" "wire_number v = Some n" "q = p\<lparr>mp_sensor := Some n\<rparr>"
  | (binary) x where "mp_profile p \<in> {ContactProfile, OccupancyProfile}" "wire_bool v = Some x" "q = p\<lparr>mp_binary := Some x\<rparr>"
proof (cases "mp_profile p \<in> {OnOffLight, DimmableLight, OutletProfile}")
  case True
  then show thesis using assms on_off by (auto simp: project_primary_def Let_def split: option.splits)
next
  case first: False
  show thesis
  proof (cases "mp_profile p \<in> {TemperatureProfile, HumidityProfile}")
    case True
    then show thesis
      using assms first number by (auto simp: project_primary_def Let_def dest: number_in_wire split: option.splits if_splits)
  next
    case False
    moreover have "mp_profile p \<in> {ContactProfile, OccupancyProfile}" using first False by (cases "mp_profile p") simp_all
    ultimately show thesis using assms first binary by (simp add: project_primary_def Let_def split: option.splits)
  qed
qed

lemma project_primary_shows:
  assumes "project_primary v p = Ok (q, change)"
  shows "attribute q (mp_primary p) = canonical_of v" and "mp_primary q = mp_primary p" and "mp_level_id q = mp_level_id p"
    and "mp_level q = mp_level p" and "mp_endpoint q = mp_endpoint p" and "mp_device_id q = mp_device_id p"
proof -
  have "attribute q (mp_primary p) = canonical_of v \<and> mp_primary q = mp_primary p \<and> mp_level_id q = mp_level_id p
      \<and> mp_level q = mp_level p \<and> mp_endpoint q = mp_endpoint p \<and> mp_device_id q = mp_device_id p"
    using assms by (cases rule: project_primary_cases) (auto simp: attribute_def canonical_of_bool canonical_of_number)
  then show "attribute q (mp_primary p) = canonical_of v" "mp_primary q = mp_primary p" "mp_level_id q = mp_level_id p"
    "mp_level q = mp_level p" "mp_endpoint q = mp_endpoint p" "mp_device_id q = mp_device_id p" by simp_all
qed

lemma project_event_shows:
  assumes "project_event c v p = Ok (q, change)"
  shows "mp_endpoint q = mp_endpoint p" and "own_refs q = own_refs p" and "attribute q c = canonical_of v"
    and "c' \<noteq> c \<Longrightarrow> attribute q c' = attribute p c'"
proof -
  have "mp_endpoint q = mp_endpoint p \<and> own_refs q = own_refs p \<and> attribute q c = canonical_of v \<and> (c' \<noteq> c \<longrightarrow> attribute q c' = attribute p c')"
  proof (cases "c = mp_primary p")
    case True
    then have "project_primary v p = Ok (q, change)" using assms by (simp add: project_event_def)
    from project_primary_shows [OF this] True show ?thesis by (simp add: attribute_def own_refs_def split: option.split)
  next
    case False
    then obtain n where q: "mp_level_id p = Some c" "number_in f64_zero f64_hundred v = Some n" "q = p\<lparr>mp_level := Some n\<rparr>"
      using assms by (auto simp: project_event_def split: if_splits option.splits)
    have "profile_attribute (mp_profile p) q = profile_attribute (mp_profile p) p"
      by (cases "mp_profile p") (simp_all add: q(3))
    then show ?thesis using False canonical_of_in [OF q(2)] q(1) by (simp add: attribute_def own_refs_def q(3))
  qed
  then show "mp_endpoint q = mp_endpoint p" "own_refs q = own_refs p" "attribute q c = canonical_of v" "c' \<noteq> c \<Longrightarrow> attribute q c' = attribute p c'" by auto
qed

text \<open>Every reference of a list is found, at a projection that owns it.\<close>

definition locates :: "projection_set \<Rightarrow> (string \<times> string) set \<Rightarrow> bool" where
  "locates s R \<longleftrightarrow> (\<forall>r \<in> R. \<exists>p. located s r p \<and> r \<in> set (own_refs p))"

lemma find_modify_located:
  assumes "located s (d, c) p" and "mp_endpoint q = mp_endpoint p" and "own_refs q = own_refs p"
    and "located s r p'" and "r \<in> set (own_refs p')"
  shows "located (find_modify d c (\<lambda>_. q) s) r (if mp_endpoint p' = mp_endpoint p then q else p')
    \<and> r \<in> set (own_refs (if mp_endpoint p' = mp_endpoint p then q else p'))"
  using assms by (auto simp: located_def find_modify_def set_modify_def)

lemma update_event_shows:
  assumes all: "locates (br_set b) R" and "(d, c) \<in> R" and "update_event d c v b = (b', Ok change)"
  shows "locates (br_set b') R" and "bridge_shows b' d c = canonical_of v"
    and "(d', c') \<in> R \<Longrightarrow> (d', c') \<noteq> (d, c) \<Longrightarrow> bridge_shows b' d' c' = bridge_shows b d' c'"
proof -
  obtain p where p: "located (br_set b) (d, c) p" "(d, c) \<in> set (own_refs p)" using assms(1,2) by (auto simp: locates_def)
  then obtain q where q: "project_event c v p = Ok (q, change)" and b': "b' = b\<lparr>br_set := find_modify d c (\<lambda>_. q) (br_set b)\<rparr>"
    using assms(3) by (auto simp: update_event_def located_find [OF p(1)] split: sum.splits prod.splits)
  note q = project_event_shows [OF q]
  have moved: "\<exists>p''. located (br_set b') r p'' \<and> r \<in> set (own_refs p'') \<and> p'' = (if mp_endpoint p' = mp_endpoint p then q else p')"
    if "located (br_set b) r p'" "r \<in> set (own_refs p')" for r p'
    using find_modify_located [OF p(1) q(1,2) that] by (simp add: b')
  show "locates (br_set b') R" unfolding locates_def
  proof
    fix r assume "r \<in> R"
    then obtain p' where "located (br_set b) r p'" "r \<in> set (own_refs p')" using all by (auto simp: locates_def)
    from moved [OF this] show "\<exists>p. located (br_set b') r p \<and> r \<in> set (own_refs p)" by blast
  qed
  have "located (br_set b') (d, c) q" using moved [OF p] by simp
  then show "bridge_shows b' d c = canonical_of v" by (simp add: bridge_shows_def located_find q(3))
  assume other: "(d', c') \<in> R" "(d', c') \<noteq> (d, c)"
  then obtain p' where p': "located (br_set b) (d', c') p'" "(d', c') \<in> set (own_refs p')" using all by (auto simp: locates_def)
  from moved [OF p'] have now: "located (br_set b') (d', c') (if mp_endpoint p' = mp_endpoint p then q else p')" by blast
  show "bridge_shows b' d' c' = bridge_shows b d' c'"
  proof (cases "mp_endpoint p' = mp_endpoint p")
    case True
    then have "p' = p" using p(1) p'(1) by (simp add: located_def)
    then have "c' \<noteq> c" using p(2) p'(2) other(2) by (auto simp: own_refs_def split: option.splits)
    then show ?thesis using now True q(4) \<open>p' = p\<close> p(1) p'(1) by (simp add: bridge_shows_def located_find)
  next
    case False
    then show ?thesis using now p'(1) by (simp add: bridge_shows_def located_find)
  qed
qed

end
