(* ===== verification/Matter_Rpc.thy ===== *)
theory Matter_Rpc
  imports Matter_Bridge "HOL-Library.Multiset"
begin

text \<open>
  The guest side of the adapter protocol, \<open>apps/oikade-matter-adapter/src/rpc.rs\<close>: the requests of
  the host, and the loop that interleaves them with the commands of Matter controllers. The
  JSON library is a parameter; the outcome of every send, of the disk and of the Matter
  runtime is part of the event that needs it.
\<close>

section \<open>Requests\<close>

definition MAX_PENDING_COMMANDS :: nat where "MAX_PENDING_COMMANDS = 1024"

definition ADAPTER_METHOD_INITIALIZE :: string where "ADAPTER_METHOD_INITIALIZE = ''initialize''"
definition ADAPTER_METHOD_EVENT :: string where "ADAPTER_METHOD_EVENT = ''event''"
definition ADAPTER_METHOD_HEALTH :: string where "ADAPTER_METHOD_HEALTH = ''health''"
definition ADAPTER_METHOD_SYNC :: string where "ADAPTER_METHOD_SYNC = ''sync''"
definition ADAPTER_METHOD_COMMISSIONING_INFO :: string where "ADAPTER_METHOD_COMMISSIONING_INFO = ''commissioning_info''"
definition ADAPTER_METHOD_OPEN_COMMISSIONING_WINDOW :: string where
  "ADAPTER_METHOD_OPEN_COMMISSIONING_WINDOW = ''open_commissioning_window''"
definition ADAPTER_METHOD_REMOVE_RESOURCE :: string where "ADAPTER_METHOD_REMOVE_RESOURCE = ''remove_resource''"
definition ADAPTER_METHOD_SHUTDOWN :: string where "ADAPTER_METHOD_SHUTDOWN = ''shutdown''"

record rpc_failure =
  rf_code :: string
  rf_message :: string

definition rpc_failure_new :: "string \<Rightarrow> string \<Rightarrow> rpc_failure" where
  "rpc_failure_new k m = \<lparr>rf_code = k, rf_message = m\<rparr>"

datatype runtime_request =
    TopologyChanged
  | AttributeChanged attribute_change
  | AskHealth
  | AskOpenCommissioningWindow nat
  | AskCommissioningInfo
  | AskRemoveResource string string

datatype runtime_answer =
    HealthIs health_reply
  | WindowIs window_response
  | InfoIs info_response

datatype matter_reply = ReadyReply | SyncedReply sync_reply | EmptyReply | RuntimeReply runtime_answer

datatype exit_reason = Shutdown | Disconnected

record initialize_message =
  im_api_version :: nat
  im_instance_id :: string

record matter_json =
  mj_initialize :: "string \<Rightarrow> (string, initialize_message) result"
  mj_sync :: "string \<Rightarrow> (string, sync_message) result"
  mj_event :: "string \<Rightarrow> (string, event_message) result"
  mj_any :: "string \<Rightarrow> (string, unit) result"
  mj_open :: "string \<Rightarrow> (string, nat) result"
  mj_info :: "string \<Rightarrow> (string, unit) result"
  mj_remove :: "string \<Rightarrow> (string, string \<times> string) result"
  mj_command_response :: "string \<Rightarrow> (string, wire_value) result"
  mj_reply :: "matter_reply \<Rightarrow> string option"
  mj_command :: "command_message \<Rightarrow> string option"

definition request_body :: "(string \<Rightarrow> (string, 'a) result) \<Rightarrow> string option \<Rightarrow> (rpc_failure, 'a) result" where
  "request_body decode body =
     and_then (ok_or (rpc_failure_new ''invalid_request'' ''request body is required'') body)
       (\<lambda>b. map_err (rpc_failure_new ''invalid_request'') (decode b))"

text \<open>What the loop owns, and the requests it has sent to the Matter runtime.\<close>

record 'f matter_state =
  ms_builder :: "'f builder"
  ms_bridge :: bridge
  ms_requests :: "runtime_request list"

definition unavailable :: rpc_failure where
  "unavailable = rpc_failure_new ''unavailable'' ''Matter runtime is unavailable''"

definition send_runtime :: "bool \<Rightarrow> runtime_request \<Rightarrow> 'f matter_state \<Rightarrow> 'f matter_state \<times> (rpc_failure, unit) result" where
  "send_runtime is_open r st =
     (if is_open then (st\<lparr>ms_requests := ms_requests st @ [r]\<rparr>, Ok ()) else (st, Err unavailable))"

text \<open>
  A diagnostic on the wire: the identifiers that are \<open>None\<close> are left out by \<open>Serialize\<close> and read back
  as empty strings.
\<close>

definition diagnostic_on_wire :: "matter_diagnostic \<Rightarrow> diagnostic" where
  "diagnostic_on_wire d = \<lparr>dg_severity = md_severity d, dg_code = md_code d,
     dg_device_id = (case md_device_id d of None \<Rightarrow> [] | Some i \<Rightarrow> i),
     dg_capability_id = (case md_capability_id d of None \<Rightarrow> [] | Some i \<Rightarrow> i), dg_message = md_message d\<rparr>"

definition sync_failure :: "sync_error \<Rightarrow> rpc_failure" where
  "sync_failure e =
     (case e of
        Capacity n \<Rightarrow> rpc_failure_new ''capacity_exceeded''
          (''Matter projection requires '' @ digits n @ '' endpoints; bridge capacity is '' @ digits MAX_DYNAMIC_ENDPOINTS)
      | Persistence m \<Rightarrow> rpc_failure_new ''projection_failed'' (''persist endpoint projection: '' @ m))"

definition handle_sync ::
  "matter_endpoint \<Rightarrow> (endpoint_mappings \<Rightarrow> 'f) \<Rightarrow> string option \<Rightarrow> bool \<Rightarrow> sync_message \<Rightarrow> 'f matter_state
     \<Rightarrow> 'f matter_state \<times> (rpc_failure, matter_reply) result" where
  "handle_sync root encode fault is_open m st =
     (case build encode fault (sy_devices m) (ms_builder st) of
        (self, Err e) \<Rightarrow> (st\<lparr>ms_builder := self\<rparr>, Err (sync_failure e))
      | (self, Ok b) \<Rightarrow>
          (case send_runtime is_open TopologyChanged
                  (st\<lparr>ms_builder := self, ms_bridge := bridge_replace root (bu_projections b) (ms_bridge st)\<rparr>) of
             (st', Err e) \<Rightarrow> (st', Err e)
           | (st', Ok _) \<Rightarrow>
               (st', Ok (SyncedReply \<lparr>sr_generation = sy_generation m, sr_devices = length (sy_devices m),
                  sr_projections = Some (bu_refs b), sr_diagnostics = map diagnostic_on_wire (bu_diagnostics b)\<rparr>))))"

definition handle_event ::
  "bool \<Rightarrow> event_message \<Rightarrow> 'f matter_state \<Rightarrow> 'f matter_state \<times> (rpc_failure, matter_reply) result" where
  "handle_event is_open e st =
     (if em_device_id e = [] \<or> em_capability_id e = []
      then (st, Err (rpc_failure_new ''invalid_request'' ''device and capability IDs are required''))
      else case update_event (em_device_id e) (em_capability_id e) (em_value e) (ms_bridge st) of
        (b, Ok None) \<Rightarrow> (st\<lparr>ms_bridge := b\<rparr>, Ok EmptyReply)
      | (b, Ok (Some change)) \<Rightarrow>
          (case send_runtime is_open (AttributeChanged change) (st\<lparr>ms_bridge := b\<rparr>) of
             (st', Err x) \<Rightarrow> (st', Err x)
           | (st', Ok _) \<Rightarrow> (st', Ok EmptyReply))
      | (b, Err EventNotFound) \<Rightarrow> (st\<lparr>ms_bridge := b\<rparr>, Err (rpc_failure_new ''not_found'' ''projected capability was not found''))
      | (b, Err EventInvalidValue) \<Rightarrow>
          (st\<lparr>ms_bridge := b\<rparr>, Err (rpc_failure_new ''invalid_value'' ''event value has the wrong kind or range'')))"

text \<open>
  \<open>runtime_round_trip\<close>: the request is sent and the loop waits; \<open>None\<close> is a response channel that the
  runtime closed without an answer.
\<close>

definition runtime_round_trip ::
  "bool \<Rightarrow> (rpc_failure, runtime_answer) result option \<Rightarrow> runtime_request \<Rightarrow> 'f matter_state
     \<Rightarrow> 'f matter_state \<times> (rpc_failure, matter_reply) result" where
  "runtime_round_trip is_open answer r st =
     (case send_runtime is_open r st of
        (st', Err e) \<Rightarrow> (st', Err e)
      | (st', Ok _) \<Rightarrow>
          (st', case answer of None \<Rightarrow> Err unavailable | Some a \<Rightarrow> and_then a (\<lambda>x. Ok (RuntimeReply x))))"

record environment =
  ev_fault :: "string option"
  ev_runtime_open :: bool
  ev_answer :: "(rpc_failure, runtime_answer) result option"
  ev_send_ok :: bool

definition with_body :: "(rpc_failure, 'a) result \<Rightarrow> ('a \<Rightarrow> 's \<times> (rpc_failure, 'b) result) \<Rightarrow> 's \<Rightarrow> 's \<times> (rpc_failure, 'b) result" where
  "with_body r f st = (case r of Err e \<Rightarrow> (st, Err e) | Ok x \<Rightarrow> f x)"

definition handle_request ::
  "matter_endpoint \<Rightarrow> (endpoint_mappings \<Rightarrow> 'f) \<Rightarrow> matter_json \<Rightarrow> environment \<Rightarrow> string \<Rightarrow> string option \<Rightarrow> 'f matter_state
     \<Rightarrow> 'f matter_state \<times> (rpc_failure, matter_reply) result" where
  "handle_request root encode j env m body st =
     (let ask = (\<lambda>r. runtime_round_trip (ev_runtime_open env) (ev_answer env) r st) in
      if m = ADAPTER_METHOD_INITIALIZE then
        with_body (request_body (mj_initialize j) body) (\<lambda>r.
          if im_api_version r \<noteq> PROTOCOL_VERSION \<or> im_instance_id r = []
          then (st, Err (rpc_failure_new ''invalid_request'' ''API version and instance ID are required''))
          else (st, Ok ReadyReply)) st
      else if m = ADAPTER_METHOD_SYNC then
        with_body (request_body (mj_sync j) body) (\<lambda>r. handle_sync root encode (ev_fault env) (ev_runtime_open env) r st) st
      else if m = ADAPTER_METHOD_EVENT then
        with_body (request_body (mj_event j) body) (\<lambda>r. handle_event (ev_runtime_open env) r st) st
      else if m = ADAPTER_METHOD_HEALTH then with_body (request_body (mj_any j) body) (\<lambda>_. ask AskHealth) st
      else if m = ADAPTER_METHOD_OPEN_COMMISSIONING_WINDOW then
        with_body (request_body (mj_open j) body) (\<lambda>n.
          if \<not> (180 \<le> n \<and> n \<le> 900)
          then (st, Err (rpc_failure_new ''invalid_duration'' ''commissioning duration must be between 180 and 900 seconds''))
          else ask (AskOpenCommissioningWindow n)) st
      else if m = ADAPTER_METHOD_COMMISSIONING_INFO then with_body (request_body (mj_info j) body) (\<lambda>_. ask AskCommissioningInfo) st
      else if m = ADAPTER_METHOD_REMOVE_RESOURCE then
        with_body (request_body (mj_remove j) body) (\<lambda>(t, i).
          if t = [] \<or> i = []
          then (st, Err (rpc_failure_new ''invalid_request'' ''resource type and ID are required''))
          else ask (AskRemoveResource t i)) st
      else if m = ADAPTER_METHOD_SHUTDOWN then with_body (request_body (mj_any j) body) (\<lambda>_. (st, Ok EmptyReply)) st
      else (st, Err (rpc_failure_new ''unsupported_method'' ''unsupported host request'')))"

section \<open>The loop\<close>

text \<open>
  A command of a Matter controller is named by a number that stands for its response channel.
  Pending commands are kept by request ID; an ID is 64 bits wide and wraps.
\<close>

record 'f rpc_loop =
  rl_state :: "'f matter_state"
  rl_pending :: "(nat, nat) btree"
  rl_next :: nat
  rl_sent :: "adapter_envelope list"
  rl_answered :: "(nat \<times> (unit, wire_value) result) list"
  rl_exit :: "exit_reason option"

definition wrap_u64 :: "nat \<Rightarrow> nat" where
  "wrap_u64 n = n mod 2 ^ 64"

partial_function (option) next_request_id :: "(nat, nat) btree \<Rightarrow> nat \<Rightarrow> nat option" where
  "next_request_id pending n =
     (if n = 0 \<or> map_of pending n \<noteq> None then next_request_id pending (wrap_u64 (n + 1)) else Some n)"

definition stop_loop :: "exit_reason \<Rightarrow> 'f rpc_loop \<Rightarrow> 'f rpc_loop" where
  "stop_loop r l = l\<lparr>rl_exit := Some r\<rparr>"

definition send_envelope :: "bool \<Rightarrow> adapter_envelope \<Rightarrow> 'f rpc_loop \<Rightarrow> 'f rpc_loop \<times> bool" where
  "send_envelope ok e l = (if ok then (l\<lparr>rl_sent := rl_sent l @ [e]\<rparr>, True) else (l, False))"

definition send_body :: "bool \<Rightarrow> frame_kind \<Rightarrow> nat \<Rightarrow> string \<Rightarrow> string option \<Rightarrow> 'f rpc_loop \<Rightarrow> 'f rpc_loop \<times> bool" where
  "send_body ok k i m encoded l =
     (case encoded of None \<Rightarrow> (l, False) | Some b \<Rightarrow> send_envelope ok (adapter_frame k i m (Some b) None) l)"

definition send_error :: "bool \<Rightarrow> nat \<Rightarrow> string \<Rightarrow> rpc_failure \<Rightarrow> 'f rpc_loop \<Rightarrow> 'f rpc_loop \<times> bool" where
  "send_error ok i m e l =
     send_envelope ok (adapter_frame Response i m None (Some \<lparr>pe_code = rf_code e, pe_message = rf_message e\<rparr>)) l"

definition command_answer :: "matter_json \<Rightarrow> adapter_envelope \<Rightarrow> (unit, wire_value) result" where
  "command_answer j e =
     (if en_error e \<noteq> None then Err ()
      else case en_body e of None \<Rightarrow> Err () | Some b \<Rightarrow> map_err (\<lambda>_. ()) (mj_command_response j b))"

definition take_response :: "matter_json \<Rightarrow> adapter_envelope \<Rightarrow> 'f rpc_loop \<Rightarrow> 'f rpc_loop" where
  "take_response j e l =
     (if en_method e \<noteq> ADAPTER_METHOD_COMMAND then stop_loop Disconnected l
      else case map_of (rl_pending l) (en_id e) of
        None \<Rightarrow> stop_loop Disconnected l
      | Some t \<Rightarrow> l\<lparr>rl_pending := del (en_id e) (rl_pending l),
                     rl_answered := rl_answered l @ [(t, command_answer j e)]\<rparr>)"

definition take_request ::
  "matter_endpoint \<Rightarrow> (endpoint_mappings \<Rightarrow> 'f) \<Rightarrow> matter_json \<Rightarrow> environment \<Rightarrow> adapter_envelope \<Rightarrow> 'f rpc_loop \<Rightarrow> 'f rpc_loop" where
  "take_request root encode j env e l =
     (case handle_request root encode j env (en_method e) (en_body e) (rl_state l) of (st, outcome) \<Rightarrow>
      case (case outcome of
              Ok reply \<Rightarrow> send_body (ev_send_ok env) Response (en_id e) (en_method e) (mj_reply j reply) (l\<lparr>rl_state := st\<rparr>)
            | Err failure \<Rightarrow> send_error (ev_send_ok env) (en_id e) (en_method e) failure (l\<lparr>rl_state := st\<rparr>)) of
        (l', sent) \<Rightarrow>
          if \<not> sent then stop_loop Disconnected l'
          else if en_method e = ADAPTER_METHOD_SHUTDOWN then stop_loop Shutdown l' else l')"

definition take_command :: "matter_json \<Rightarrow> bool \<Rightarrow> nat \<Rightarrow> command_request \<Rightarrow> 'f rpc_loop \<Rightarrow> 'f rpc_loop option" where
  "take_command j ok t c l =
     (if length (rl_pending l) \<ge> MAX_PENDING_COMMANDS then Some (l\<lparr>rl_answered := rl_answered l @ [(t, Err ())]\<rparr>)
      else case next_request_id (rl_pending l) (rl_next l) of
        None \<Rightarrow> None
      | Some i \<Rightarrow>
          let l1 = l\<lparr>rl_next := wrap_u64 (i + 1), rl_pending := put i t (rl_pending l)\<rparr>;
              message = \<lparr>cm_device_id = cr_device_id c, cm_capability_id = cr_capability_id c, cm_value = canonical_to_wire (cr_value c)\<rparr>
          in (case send_body ok Request i ADAPTER_METHOD_COMMAND (mj_command j message) l1 of
                (l2, True) \<Rightarrow> Some l2
              | (l2, False) \<Rightarrow>
                  Some (stop_loop Disconnected
                    (l2\<lparr>rl_pending := del i (rl_pending l2), rl_answered := rl_answered l2 @ [(t, Err ())]\<rparr>))))"

datatype loop_event =
    HostFrame adapter_envelope environment
  | HostClosed
  | MatterCommand nat command_request bool
  | CommandsClosed

text \<open>One turn of the loop; \<open>None\<close> would be a search for a request ID that never ends.\<close>

fun loop_exec ::
  "matter_endpoint \<Rightarrow> (endpoint_mappings \<Rightarrow> 'f) \<Rightarrow> matter_json \<Rightarrow> loop_event \<Rightarrow> 'f rpc_loop \<Rightarrow> 'f rpc_loop option" where
  "loop_exec root encode j (HostFrame e env) l =
     Some (case en_kind e of
             Response \<Rightarrow> take_response j e l
           | Request \<Rightarrow> take_request root encode j env e l
           | Notification \<Rightarrow> stop_loop Disconnected l)"
| "loop_exec root encode j HostClosed l = Some (stop_loop Disconnected l)"
| "loop_exec root encode j (MatterCommand t c ok) l = take_command j ok t c l"
| "loop_exec root encode j CommandsClosed l = Some (stop_loop Disconnected l)"

fun loop_run ::
  "matter_endpoint \<Rightarrow> (endpoint_mappings \<Rightarrow> 'f) \<Rightarrow> matter_json \<Rightarrow> loop_event list \<Rightarrow> 'f rpc_loop \<Rightarrow> 'f rpc_loop option" where
  "loop_run root encode j [] l = Some l"
| "loop_run root encode j (ev # evs) l =
     (if rl_exit l \<noteq> None then Some l
      else Option.bind (loop_exec root encode j ev l) (loop_run root encode j evs))"

text \<open>The start of \<open>run\<close>: the hello is sent before the loop; a failed send ends the run.\<close>

definition loop_start :: "string option \<Rightarrow> bool \<Rightarrow> 'f matter_state \<Rightarrow> 'f rpc_loop" where
  "loop_start hello ok st =
     (case send_body ok Notification 0 ADAPTER_METHOD_HELLO hello
             \<lparr>rl_state = st, rl_pending = [], rl_next = 1, rl_sent = [], rl_answered = [], rl_exit = None\<rparr> of
        (l, True) \<Rightarrow> l
      | (l, False) \<Rightarrow> stop_loop Disconnected l)"

section \<open>Request IDs\<close>

definition free_id :: "(nat, nat) btree \<Rightarrow> nat \<Rightarrow> bool" where
  "free_id pending i \<longleftrightarrow> 0 < i \<and> i < 2 ^ 64 \<and> map_of pending i = None"

lemma next_request_id_step:
  "free_id pending n \<Longrightarrow> next_request_id pending n = Some n"
  "n < 2 ^ 64 \<Longrightarrow> \<not> free_id pending n \<Longrightarrow> next_request_id pending n = next_request_id pending (wrap_u64 (n + 1))"
  by (simp_all add: next_request_id.simps [of pending n] free_id_def)

text \<open>The search ends when it reaches a free ID.\<close>

lemma next_request_id_reaches:
  "n < 2 ^ 64 \<Longrightarrow> free_id pending (wrap_u64 (n + k)) \<Longrightarrow> \<exists>i. next_request_id pending n = Some i \<and> free_id pending i"
proof (induction k arbitrary: n)
  case 0
  then have "free_id pending n" by (simp add: wrap_u64_def)
  then show ?case by (simp add: next_request_id_step)
next
  case (Suc k)
  show ?case
  proof (cases "free_id pending n")
    case True
    then show ?thesis by (simp add: next_request_id_step)
  next
    case False
    have "free_id pending (wrap_u64 (wrap_u64 (n + 1) + k))"
      using Suc.prems(2) by (simp add: wrap_u64_def mod_add_left_eq)
    moreover have "wrap_u64 (n + 1) < 2 ^ 64" by (simp add: wrap_u64_def)
    ultimately show ?thesis using Suc.IH [of "wrap_u64 (n + 1)"] next_request_id_step(2) [OF Suc.prems(1) False] by simp
  qed
qed

lemma next_request_id_total:
  assumes "length pending < MAX_PENDING_COMMANDS" and "n < 2 ^ 64"
  shows "\<exists>i. next_request_id pending n = Some i \<and> free_id pending i"
proof -
  let ?used = "insert 0 (keys pending)"
  have "card ?used \<le> Suc (card (keys pending))" by (rule card_insert_le_m1) simp_all
  also have "card (keys pending) \<le> length pending" unfolding keys_def using card_length [of "map fst pending"] by simp
  finally have "card ?used < 2 ^ 64" using assms(1) by (simp add: MAX_PENDING_COMMANDS_def)
  then have "\<not> {..<2 ^ 64} \<subseteq> ?used" using card_mono [of ?used "{..<2 ^ 64 :: nat}"] by (auto simp: keys_def)
  then obtain i where "i \<in> {..<2 ^ 64}" and used: "i \<notin> ?used" by blast
  then have i: "i < 2 ^ 64" by simp
  have "free_id pending i" using i used by (simp add: free_id_def map_of_None_keys)
  moreover have "wrap_u64 (n + (i + 2 ^ 64 - n)) = i" using assms(2) i by (simp add: wrap_u64_def)
  ultimately show ?thesis using next_request_id_reaches [OF assms(2)] by metis
qed

section \<open>The commands of Matter controllers\<close>

definition command_body :: "matter_json \<Rightarrow> command_request \<Rightarrow> string option" where
  "command_body j c = mj_command j \<lparr>cm_device_id = cr_device_id c, cm_capability_id = cr_capability_id c, cm_value = canonical_to_wire (cr_value c)\<rparr>"

fun tokens :: "loop_event list \<Rightarrow> nat list" where
  "tokens [] = []"
| "tokens (MatterCommand t c ok # evs) = t # tokens evs"
| "tokens (_ # evs) = tokens evs"

lemma tokens_append [simp]: "tokens (evs @ evs') = tokens evs @ tokens evs'"
  by (induction evs rule: tokens.induct) simp_all

text \<open>The request for a command of the history was sent with an ID; a response answered a command.\<close>

definition requested :: "matter_json \<Rightarrow> loop_event list \<Rightarrow> adapter_envelope list \<Rightarrow> nat \<Rightarrow> nat \<Rightarrow> bool" where
  "requested j evs sent i t \<longleftrightarrow> (\<exists>c ok b. MatterCommand t c ok \<in> set evs \<and> command_body j c = Some b
     \<and> adapter_frame Request i ADAPTER_METHOD_COMMAND (Some b) None \<in> set sent)"

definition justified :: "matter_json \<Rightarrow> loop_event list \<Rightarrow> adapter_envelope list \<Rightarrow> nat \<times> (unit, wire_value) result \<Rightarrow> bool" where
  "justified j evs sent a \<longleftrightarrow> (case a of (t, r) \<Rightarrow> r = Err () \<or> (\<exists>e env. requested j evs sent (en_id e) t
     \<and> HostFrame e env \<in> set evs \<and> en_kind e = Response \<and> r = command_answer j e))"

definition loop_ok :: "matter_json \<Rightarrow> loop_event list \<Rightarrow> 'f rpc_loop \<Rightarrow> bool" where
  "loop_ok j evs l \<longleftrightarrow> ordered (rl_pending l) \<and> length (rl_pending l) \<le> MAX_PENDING_COMMANDS
     \<and> (\<forall>i \<in> keys (rl_pending l). 0 < i \<and> i < 2 ^ 64) \<and> rl_next l < 2 ^ 64
     \<and> (\<exists>n. mset (map snd (rl_pending l)) + mset (map fst (rl_answered l)) = mset (tokens (take n evs)) \<and> n \<le> length evs
            \<and> (rl_exit l = None \<longrightarrow> n = length evs))
     \<and> (\<forall>(i, t) \<in> set (rl_pending l). requested j evs (rl_sent l) i t)
     \<and> (\<forall>a \<in> set (rl_answered l). justified j evs (rl_sent l) a)"

lemma requested_mono: "requested j evs sent i t \<Longrightarrow> set evs \<subseteq> set evs' \<Longrightarrow> set sent \<subseteq> set sent' \<Longrightarrow> requested j evs' sent' i t"
  unfolding requested_def by blast

lemma justified_mono: "justified j evs sent a \<Longrightarrow> set evs \<subseteq> set evs' \<Longrightarrow> set sent \<subseteq> set sent' \<Longrightarrow> justified j evs' sent' a"
  unfolding justified_def by (cases a) (auto intro: requested_mono)

lemma loop_okD:
  assumes "loop_ok j evs l"
  shows "ordered (rl_pending l)" and "length (rl_pending l) \<le> MAX_PENDING_COMMANDS"
    and "i \<in> keys (rl_pending l) \<Longrightarrow> 0 < i \<and> i < 2 ^ 64" and "rl_next l < 2 ^ 64"
    and "rl_exit l = None \<Longrightarrow> mset (map snd (rl_pending l)) + mset (map fst (rl_answered l)) = mset (tokens evs)"
    and "(i, t) \<in> set (rl_pending l) \<Longrightarrow> requested j evs (rl_sent l) i t"
    and "a \<in> set (rl_answered l) \<Longrightarrow> justified j evs (rl_sent l) a"
  using assms unfolding loop_ok_def by auto

text \<open>A step that keeps the table of commands and only adds to what was sent.\<close>

lemma loop_ok_keep:
  assumes "loop_ok j evs l" and "rl_exit l = None" and "tokens [ev] = []"
    and "rl_pending l' = rl_pending l" and "rl_next l' = rl_next l" and "rl_answered l' = rl_answered l"
    and "set (rl_sent l) \<subseteq> set (rl_sent l')"
  shows "loop_ok j (evs @ [ev]) l'"
proof -
  have "mset (map snd (rl_pending l)) + mset (map fst (rl_answered l)) = mset (tokens (take (length (evs @ [ev])) (evs @ [ev])))"
    using loop_okD(5) [OF assms(1,2)] assms(3) by simp
  moreover have "requested j (evs @ [ev]) (rl_sent l') i t" if "(i, t) \<in> set (rl_pending l)" for i t
    by (rule requested_mono [OF loop_okD(6) [OF assms(1) that]]) (use assms(7) in auto)
  moreover have "justified j (evs @ [ev]) (rl_sent l') a" if "a \<in> set (rl_answered l)" for a
    by (rule justified_mono [OF loop_okD(7) [OF assms(1) that]]) (use assms(7) in auto)
  ultimately show ?thesis
    using loop_okD(1-4) [OF assms(1)] assms(4-6) by (auto simp: loop_ok_def intro!: exI [of _ "length (evs @ [ev])"])
qed

lemma loop_ok_exited:
  assumes "loop_ok j evs l" and "rl_exit l \<noteq> None"
  shows "loop_ok j (evs @ [ev]) l"
proof -
  obtain n where n: "mset (map snd (rl_pending l)) + mset (map fst (rl_answered l)) = mset (tokens (take n evs))" "n \<le> length evs"
    using assms(1) by (auto simp: loop_ok_def)
  have "requested j (evs @ [ev]) (rl_sent l) i t" if "(i, t) \<in> set (rl_pending l)" for i t
    by (rule requested_mono [OF loop_okD(6) [OF assms(1) that]]) auto
  moreover have "justified j (evs @ [ev]) (rl_sent l) a" if "a \<in> set (rl_answered l)" for a
    by (rule justified_mono [OF loop_okD(7) [OF assms(1) that]]) auto
  ultimately show ?thesis
    using loop_okD(1-4) [OF assms(1)] assms(2) n by (auto simp: loop_ok_def intro!: exI [of _ n])
qed

lemma take_request_keeps:
  "rl_pending (take_request root encode j env e l) = rl_pending l"
  "rl_next (take_request root encode j env e l) = rl_next l"
  "rl_answered (take_request root encode j env e l) = rl_answered l"
  "set (rl_sent l) \<subseteq> set (rl_sent (take_request root encode j env e l))"
  by (auto simp: take_request_def send_body_def send_error_def send_envelope_def stop_loop_def
      split: prod.splits sum.splits option.splits if_splits)

lemma mset_put: "k \<notin> keys m \<Longrightarrow> mset (put k v m) = add_mset (k, v) (mset m)"
  by (induction m) auto

lemma mset_del: "ordered m \<Longrightarrow> map_of m k = Some v \<Longrightarrow> mset m = add_mset (k, v) (mset (del k m))"
proof (induction m)
  case (Cons e m)
  show ?case
  proof (cases "fst e = k")
    case True
    then have "k \<notin> keys m" using Cons.prems(1) by auto
    then have "del k m = m" by simp
    moreover have "del k (e # m) = del k m" using True by (simp add: del_def)
    ultimately show ?thesis using True Cons.prems(2) by (cases e) simp
  next
    case False
    then show ?thesis using Cons by (simp add: del_def)
  qed
qed simp

lemma mset_snd_del: "ordered m \<Longrightarrow> map_of m k = Some v \<Longrightarrow> mset (map snd m) = add_mset v (mset (map snd (del k m)))"
  by (drule (1) mset_del) simp

lemma take_response_ok:
  assumes ok: "loop_ok j evs l" and "rl_exit l = None" and "en_kind e = Response"
  shows "loop_ok j (evs @ [HostFrame e env]) (take_response j e l)"
proof (cases "en_method e \<noteq> ADAPTER_METHOD_COMMAND \<or> map_of (rl_pending l) (en_id e) = None")
  case True
  then have "take_response j e l = stop_loop Disconnected l" by (auto simp: take_response_def)
  then show ?thesis by (simp add: loop_ok_keep [OF ok assms(2)] stop_loop_def)
next
  case False
  then obtain t where t: "map_of (rl_pending l) (en_id e) = Some t" by auto
  let ?p = "rl_pending l" and ?evs = "evs @ [HostFrame e env]" and ?a = "(t, command_answer j e)"
  have l': "take_response j e l = l\<lparr>rl_pending := del (en_id e) ?p, rl_answered := rl_answered l @ [?a]\<rparr>"
    using False t by (simp add: take_response_def)
  have all: "requested j ?evs (rl_sent l) i x" if "(i, x) \<in> set ?p" for i x
    by (rule requested_mono [OF loop_okD(6) [OF ok that]]) auto
  have just: "justified j ?evs (rl_sent l) a" if "a \<in> set (rl_answered l)" for a
    by (rule justified_mono [OF loop_okD(7) [OF ok that]]) auto
  have "requested j ?evs (rl_sent l) (en_id e) t" using all map_of_SomeD [OF t] by simp
  then have new: "justified j ?evs (rl_sent l) ?a" using assms(3) unfolding justified_def by fastforce
  have "mset (map snd (del (en_id e) ?p)) + mset (map fst (rl_answered l @ [?a])) = mset (tokens (take (length ?evs) ?evs))"
    using loop_okD(5) [OF ok assms(2)] mset_snd_del [OF loop_okD(1) [OF ok] t] by simp
  then show ?thesis
    using loop_okD(1-4) [OF ok] length_del_le [of "en_id e" ?p] all just new
    by (auto simp: l' loop_ok_def mem_del intro!: exI [of _ "length ?evs"])
qed

lemma take_command_ok:
  assumes ok: "loop_ok j evs l" and exit: "rl_exit l = None"
  shows "\<exists>l'. take_command j sent t c l = Some l' \<and> loop_ok j (evs @ [MatterCommand t c sent]) l'"
proof -
  let ?p = "rl_pending l" and ?evs = "evs @ [MatterCommand t c sent]"
  have all: "requested j ?evs fs i x" if "(i, x) \<in> set ?p" "set (rl_sent l) \<subseteq> set fs" for i x fs
    by (rule requested_mono [OF loop_okD(6) [OF ok that(1)]]) (use that(2) in auto)
  have just: "justified j ?evs fs a" if "a \<in> set (rl_answered l)" "set (rl_sent l) \<subseteq> set fs" for a fs
    by (rule justified_mono [OF loop_okD(7) [OF ok that(1)]]) (use that(2) in auto)
  have refused: "justified j ?evs fs (t, Err ())" for fs by (simp add: justified_def)
  have count: "mset (map snd ?p) + mset (map fst (rl_answered l)) + {#t#} = mset (tokens (take (length ?evs) ?evs))"
    using loop_okD(5) [OF ok exit] by simp
  show ?thesis
  proof (cases "length ?p \<ge> MAX_PENDING_COMMANDS")
    case True
    have "loop_ok j ?evs (l\<lparr>rl_answered := rl_answered l @ [(t, Err ())]\<rparr>)"
      using loop_okD(1-4) [OF ok] count all just refused by (auto simp: loop_ok_def intro!: exI [of _ "length ?evs"])
    then show ?thesis using True by (simp add: take_command_def)
  next
    case False
    then obtain i where i: "next_request_id ?p (rl_next l) = Some i" "free_id ?p i"
      using next_request_id_total [of ?p "rl_next l"] loop_okD(4) [OF ok] by auto
    then have fresh: "i \<notin> keys ?p" "0 < i" "i < 2 ^ 64" by (simp_all add: free_id_def map_of_None_keys)
    have pending: "mset (map snd (put i t ?p)) = mset (map snd ?p) + {#t#}" by (simp add: mset_put [OF fresh(1)])
    have next_ok: "wrap_u64 (Suc i) < 2 ^ 64" by (simp add: wrap_u64_def)
    have len: "length (put i t ?p) \<le> MAX_PENDING_COMMANDS" using False loop_okD(1) [OF ok] fresh(1) by (simp add: length_put)
    let ?l1 = "l\<lparr>rl_next := wrap_u64 (Suc i), rl_pending := put i t ?p\<rparr>"
    show ?thesis
    proof (cases "sent \<and> command_body j c \<noteq> None")
      case True
      then obtain b where b: "command_body j c = Some b" by auto
      let ?f = "adapter_frame Request i ADAPTER_METHOD_COMMAND (Some b) None"
      let ?l2 = "?l1\<lparr>rl_sent := rl_sent l @ [?f]\<rparr>"
      have sub: "set (rl_sent l) \<subseteq> set (rl_sent l @ [?f])" by auto
      have "requested j ?evs (rl_sent l @ [?f]) i t" unfolding requested_def using b by (intro exI [of _ c] exI [of _ sent]) auto
      then have "loop_ok j ?evs ?l2"
        using loop_okD(1-3) [OF ok] fresh len next_ok count pending all [OF _ sub] just [OF _ sub]
        by (auto simp: loop_ok_def dest!: mem_put intro!: exI [of _ "length ?evs"])
      then show ?thesis using True b i(1) False by (simp add: take_command_def command_body_def send_body_def send_envelope_def Let_def)
    next
      case failed: False
      let ?l2 = "stop_loop Disconnected (?l1\<lparr>rl_pending := ?p, rl_answered := rl_answered l @ [(t, Err ())]\<rparr>)"
      have "loop_ok j ?evs ?l2"
        using loop_okD(1-3) [OF ok] loop_okD(2) [OF ok] next_ok count all just refused
        by (auto simp: loop_ok_def stop_loop_def intro!: exI [of _ "length ?evs"])
      moreover have "del i (put i t ?p) = ?p"
        using loop_okD(1) [OF ok] fresh(1) by (intro ordered_ext) (auto simp: fun_upd_idem map_of_None_keys)
      ultimately show ?thesis
        using failed i(1) False
        by (auto simp: take_command_def command_body_def send_body_def send_envelope_def Let_def split: option.splits)
    qed
  qed
qed

lemma loop_exec_ok:
  assumes "loop_ok j evs l" and "rl_exit l = None"
  shows "\<exists>l'. loop_exec root encode j ev l = Some l' \<and> loop_ok j (evs @ [ev]) l'"
proof (cases ev)
  case (HostFrame e env)
  have stopped: "loop_ok j (evs @ [ev]) (stop_loop Disconnected l)"
    by (rule loop_ok_keep [OF assms]) (simp_all add: HostFrame stop_loop_def)
  show ?thesis
  proof (cases "en_kind e")
    case Request
    have "loop_ok j (evs @ [ev]) (take_request root encode j env e l)"
      by (rule loop_ok_keep [OF assms _ take_request_keeps]) (simp add: HostFrame)
    then show ?thesis using Request by (simp add: HostFrame)
  next
    case Response
    then show ?thesis using take_response_ok [OF assms] by (simp add: HostFrame)
  next
    case Notification
    then show ?thesis using stopped by (simp add: HostFrame)
  qed
next
  case (MatterCommand t c ok)
  then show ?thesis using take_command_ok [OF assms] by simp
qed (use loop_ok_keep [OF assms, of ev "stop_loop Disconnected l"] in \<open>simp_all add: stop_loop_def\<close>)

lemma loop_run_snoc:
  "loop_run root encode j (evs @ [ev]) l =
     Option.bind (loop_run root encode j evs l) (\<lambda>l'. if rl_exit l' \<noteq> None then Some l' else loop_exec root encode j ev l')"
proof (induction evs arbitrary: l)
  case Nil
  then show ?case by (cases "loop_exec root encode j ev l") simp_all
next
  case (Cons e evs)
  then show ?case by (cases "loop_exec root encode j e l") simp_all
qed

section \<open>Properties\<close>

text \<open>C20: The command table of the Matter adapter. After any sequence of host frames, commands of
  controllers, send failures and channel closings the loop has made its turns (the search for a
  request ID always ends), at most 1024 commands are pending under distinct non-zero 64-bit
  IDs, every command that was taken is pending or answered exactly once, and an answer other
  than a failure is that of a response of the host with the ID of the request sent for that
  command.\<close>

theorem matter_loop_invariant:
  "\<exists>l. loop_run root encode j evs (loop_start hello ok st) = Some l \<and> loop_ok j evs l"
proof (induction evs rule: rev_induct)
  case Nil
  then show ?case
    by (auto simp: loop_start_def send_body_def send_envelope_def stop_loop_def loop_ok_def split: option.splits)
next
  case (snoc ev evs)
  then obtain l where l: "loop_run root encode j evs (loop_start hello ok st) = Some l" "loop_ok j evs l" by blast
  then show ?case using loop_ok_exited [OF l(2)] loop_exec_ok [OF l(2)] by (cases "rl_exit l") (simp_all add: loop_run_snoc)
qed

end
