(* ===== verification/Matter_Home.thy ===== *)
theory Matter_Home
  imports Matter_Rpc
begin

text \<open>
  The daemon and the Matter adapter together: the monitor of an adapter instance with the runtime
  that it follows, and the adapter that answers its synchronisations and events. A message
  reaches the other side as the record it was serialised from; every call of the monitor may also fail
  without reaching the adapter, or after it did.
\<close>

section \<open>The composed system\<close>

record ('w, 'f) home =
  ho_mirror :: "'w mirror"
  ho_matter :: "'f matter_state"

datatype 'w home_event =
    HostStep "'w mirror_event"
  | DeliverSync "string option" bool
  | DeliverEvent bool

text \<open>Steps of the host that do not need the adapter: its calls may fail, but are not answered.\<close>

fun unanswered :: "'w mirror_event \<Rightarrow> bool" where
  "unanswered (SyncAnswer (Ok _)) = False"
| "unanswered (EventAnswer (Ok _)) = False"
| "unanswered _ = True"

definition sync_answer :: "(rpc_failure, matter_reply) result \<Rightarrow> (adapter_failure session_error, sync_reply) result" where
  "sync_answer r =
     (case r of
        Ok (SyncedReply x) \<Rightarrow> Ok x
      | Ok _ \<Rightarrow> Err (SessionProtocol [] [])
      | Err e \<Rightarrow> Err (SessionProtocol (rf_code e) (rf_message e)))"

definition event_answer :: "(rpc_failure, matter_reply) result \<Rightarrow> (adapter_failure session_error, unit) result" where
  "event_answer r = (case r of Ok _ \<Rightarrow> Ok () | Err e \<Rightarrow> Err (SessionProtocol (rf_code e) (rf_message e)))"

fun home_exec ::
  "nat \<Rightarrow> nat \<Rightarrow> matter_endpoint \<Rightarrow> (endpoint_mappings \<Rightarrow> 'f) \<Rightarrow> (system_time \<Rightarrow> string option)
     \<Rightarrow> 'w home_event \<Rightarrow> ('w, 'f) home \<Rightarrow> ('w, 'f) home" where
  "home_exec i j root encode rfc3339 (HostStep ev) h =
     (if unanswered ev then h\<lparr>ho_mirror := mirror_exec i j ev (ho_mirror h)\<rparr> else h)"
| "home_exec i j root encode rfc3339 (DeliverSync fault is_open) h =
     (case mi_phase (ho_mirror h) of
        Syncing m \<Rightarrow>
          (case handle_sync root encode fault is_open m (ho_matter h) of
             (st, r) \<Rightarrow> h\<lparr>ho_matter := st, ho_mirror := mirror_exec i j (SyncAnswer (sync_answer r)) (ho_mirror h)\<rparr>)
      | _ \<Rightarrow> h)"
| "home_exec i j root encode rfc3339 (DeliverEvent is_open) h =
     (case mi_phase (ho_mirror h) of
        Forwarding e \<Rightarrow>
          (case handle_event is_open (event_request rfc3339 e) (ho_matter h) of
             (st, r) \<Rightarrow> h\<lparr>ho_matter := st, ho_mirror := mirror_exec i j (EventAnswer (event_answer r)) (ho_mirror h)\<rparr>)
      | _ \<Rightarrow> h)"

definition home_run ::
  "nat \<Rightarrow> nat \<Rightarrow> matter_endpoint \<Rightarrow> (endpoint_mappings \<Rightarrow> 'f) \<Rightarrow> (system_time \<Rightarrow> string option)
     \<Rightarrow> 'w home_event list \<Rightarrow> ('w, 'f) home \<Rightarrow> ('w, 'f) home" where
  "home_run i j root encode rfc3339 evs h = fold (home_exec i j root encode rfc3339) evs h"

definition home_start :: "'w runtime \<Rightarrow> 'w \<Rightarrow> matter_endpoint \<Rightarrow> ('f \<Rightarrow> endpoint_mappings option) \<Rightarrow> 'f option \<Rightarrow> ('w, 'f) home" where
  "home_start rt w root decode file = \<lparr>ho_mirror = mirror_start rt w,
     ho_matter = \<lparr>ms_builder = builder_new decode file, ms_bridge = bridge_new root, ms_requests = []\<rparr>\<rparr>"

section \<open>What the host accepts\<close>

lemma accept_projections_keys:
  assumes "accept_projections available n ps accepted = Ok ks"
  shows "distinct (map ref ps) \<and> (\<forall>p \<in> set ps. \<not> has_key accepted (pr_device_id p) (pr_capability_id p))
    \<and> (\<forall>d c. has_key ks d c \<longleftrightarrow> has_key accepted d c \<or> (d, c) \<in> ref ` set ps)"
  using assms
proof (induction available n ps accepted rule: accept_projections.induct)
  case (2 available n p ps accepted)
  let ?d = "pr_device_id p" and ?c = "pr_capability_id p"
  let ?old = "case map_of accepted ?d of None \<Rightarrow> {} | Some ks \<Rightarrow> ks"
  let ?next = "put ?d (insert ?c ?old) accepted"
  obtain cs where cs: "map_of available ?d = Some cs" "?c \<in> cs" and fresh: "?c \<notin> ?old"
    and rest: "accept_projections available (n + 1) ps ?next = Ok ks"
    using 2(2) by (auto simp: Let_def split: option.splits if_splits)
  have key: "has_key ?next d c \<longleftrightarrow> has_key accepted d c \<or> (d, c) = ref p" for d c
    by (auto simp: has_key_def ref_def split: option.splits)
  have new: "\<not> has_key accepted ?d ?c" using fresh by (auto simp: has_key_def split: option.splits)
  have IH: "distinct (map ref ps) \<and> (\<forall>q \<in> set ps. \<not> has_key ?next (pr_device_id q) (pr_capability_id q))
      \<and> (\<forall>d c. has_key ks d c \<longleftrightarrow> has_key ?next d c \<or> (d, c) \<in> ref ` set ps)"
    using 2(1) [OF cs(1)] cs(2) fresh rest by simp
  then have "ref p \<notin> ref ` set ps" by (auto simp: key ref_def)
  then show ?case using IH new by (auto simp: key)
qed simp

lemma accepted_keys_exact:
  "accepted_projection_keys (Some ps) available = Ok ks
    \<Longrightarrow> distinct (map ref ps) \<and> (\<forall>d c. has_key ks d c \<longleftrightarrow> (d, c) \<in> ref ` set ps)"
  unfolding accepted_projection_keys_def
  by (auto dest!: accept_projections_keys simp: has_key_def [of "[]"])

section \<open>Messages\<close>

definition message_ok :: "sync_message \<Rightarrow> bool" where
  "message_ok m \<longleftrightarrow> distinct (map (\<lambda>s. ad_id (ads_device s)) (sy_devices m))
     \<and> list_all (\<lambda>s. distinct (map cs_capability_id (ads_values s))) (sy_devices m)"

lemma sync_request_message_ok:
  assumes "rt_ok rt" and "sync_request (take_snapshot rt) n = Ok m"
  shows "message_ok m"
proof -
  have started: "rt_started rt" using assms(2) by (auto simp: sync_request_def take_snapshot_def split: if_splits)
  have m: "sy_devices m = map (\<lambda>(d, a). api_state (object rt a)) (rt_devices rt)"
    using sync_request_ok [OF assms(1) started] assms(2) by auto
  have "distinct (map cs_capability_id (ads_values (api_state (object rt a))))" if "(d, a) \<in> set (rt_devices rt)" for d a
    using object_ok(2) [OF assms(1) that] by (simp add: api_state_def o_def reg_ok_def device_ok_def)
  then show ?thesis
    using sync_request_devices_ok [OF assms] by (auto simp: message_ok_def sync_devices_ok_def list_all_iff m)
qed

lemma map_of_find: "map_of (map (\<lambda>v. (k v, g v)) xs) c = map_option g (find (\<lambda>v. k v = c) xs)"
  by (induction xs) auto

lemma value_table_find: "distinct (map cs_capability_id (ads_values s))
    \<Longrightarrow> value_table s c = map_option cs_value (find (\<lambda>v. cs_capability_id v = c) (ads_values s))"
  unfolding value_table_def
  by (subst map_of_rev_distinct) (simp_all add: o_def map_of_find)

lemma sync_value_table:
  assumes "message_ok m" and "s \<in> set (sy_devices m)"
  shows "sync_value m (ad_id (ads_device s)) c = value_table s c"
proof -
  have "find (\<lambda>x. ad_id (ads_device x) = ad_id (ads_device s)) (sy_devices m) = Some s"
    using assms by (auto simp: message_ok_def find_Some_iff in_set_conv_nth distinct_conv_nth)
  then show ?thesis using assms by (simp add: sync_value_def value_table_find message_ok_def list_all_iff)
qed

section \<open>The invariant\<close>

text \<open>
  As long as the monitor runs, the bridge shows for every capability that the host takes as
  projected the value that the host told it last. Capability identifiers do not contain a slash, so
  different capabilities have different endpoint keys.
\<close>

definition agrees :: "run_state \<Rightarrow> (string \<Rightarrow> string \<Rightarrow> wire_value option) \<Rightarrow> bridge \<Rightarrow> bool" where
  "agrees st told b \<longleftrightarrow>
     (\<forall>d c. has_key (rs_known st) d c \<longrightarrow> CHR ''/'' \<notin> set c) \<longrightarrow>
       locates (br_set b) {(d, c). has_key (rs_known st) d c}
       \<and> (\<forall>d c. has_key (rs_known st) d c \<longrightarrow> bridge_shows b d c = Option.bind (told d c) canonical_of)"

definition home_ok :: "nat \<Rightarrow> nat \<Rightarrow> ('w, 'f) home \<Rightarrow> bool" where
  "home_ok i j h \<longleftrightarrow> mirror_ok i j (ho_mirror h) \<and> mappings_ok (mb_mappings (ms_builder (ho_matter h)))
     \<and> (\<forall>m. mi_phase (ho_mirror h) = Syncing m \<longrightarrow> message_ok m)
     \<and> (\<forall>e. mi_phase (ho_mirror h) = Forwarding e \<longrightarrow> contains (rs_known (mi_run (ho_mirror h))) e)
     \<and> (mi_phase (ho_mirror h) \<noteq> Finished \<longrightarrow>
          agrees (mi_run (ho_mirror h)) (mi_told (ho_mirror h)) (ms_bridge (ho_matter h)))"

lemma end_monitor_phase [simp]: "mi_phase (end_monitor i j s) = Finished"
  by (simp add: end_monitor_def Let_def)

lemma act_keeps [simp]:
  "mi_told (act a f s) = mi_told s" "mi_run (act a f s) = mi_run s"
  "mi_phase (act a f s) = (case a of IgnoreEvent \<Rightarrow> mi_phase s | Resynchronize \<Rightarrow> NeedsSync | ForwardEvent \<Rightarrow> f)"
  by (simp_all add: act_def split: event_action.split)

lemma take_events_keep:
  "mi_phase s = Waiting \<Longrightarrow> mi_phase (take_state_event i j s) \<noteq> Finished
    \<Longrightarrow> mi_told (take_state_event i j s) = mi_told s \<and> mi_run (take_state_event i j s) = mi_run s"
  "mi_phase s = Waiting \<Longrightarrow> mi_phase (take_topology_event i j s) \<noteq> Finished
    \<Longrightarrow> mi_told (take_topology_event i j s) = mi_told s \<and> mi_run (take_topology_event i j s) = mi_run s"
  "mi_phase s = Waiting \<Longrightarrow> mi_phase (take_state_event i j s) \<noteq> Syncing m"
  "mi_phase s = Waiting \<Longrightarrow> mi_phase (take_topology_event i j s) \<noteq> Syncing m"
  "mi_phase s = Waiting \<Longrightarrow> mi_phase (take_state_event i j s) = Forwarding e \<Longrightarrow> contains (rs_known (mi_run s)) e"
  "mi_phase s = Waiting \<Longrightarrow> mi_phase (take_topology_event i j s) \<noteq> Forwarding e"
  by (auto simp: take_state_event_def take_topology_event_def Let_def state_event_action_def
      topology_event_action_def split: received.splits if_splits)

lemma unanswered_keeps:
  assumes "unanswered ev" and "mi_phase (mirror_exec i j ev s) \<noteq> Finished"
  shows "mi_phase s \<noteq> Finished" and "mi_told (mirror_exec i j ev s) = mi_told s"
    and "rs_known (mi_run (mirror_exec i j ev s)) = rs_known (mi_run s)"
    and "mi_phase (mirror_exec i j ev s) = Syncing m
      \<Longrightarrow> mi_phase s = Syncing m \<or> sync_begin (take_snapshot (mi_runtime s)) (mi_run s) = Ok m"
    and "mi_phase (mirror_exec i j ev s) = Forwarding e \<Longrightarrow> mi_phase s = Forwarding e \<or> contains (rs_known (mi_run s)) e"
proof -
  let ?s' = "mirror_exec i j ev s"
  have "mi_phase s \<noteq> Finished \<and> mi_told ?s' = mi_told s \<and> rs_known (mi_run ?s') = rs_known (mi_run s)
      \<and> (mi_phase ?s' = Syncing m \<longrightarrow> mi_phase s = Syncing m \<or> sync_begin (take_snapshot (mi_runtime s)) (mi_run s) = Ok m)
      \<and> (mi_phase ?s' = Forwarding e \<longrightarrow> mi_phase s = Forwarding e \<or> contains (rs_known (mi_run s)) e)"
  proof (cases ev)
    case (RuntimeStep op)
    then show ?thesis using assms by (auto split: if_splits prod.splits)
  next
    case TakeSnapshot
    then show ?thesis using assms by (auto split: if_splits sum.splits)
  next
    case (SyncAnswer reply)
    then obtain x where "reply = Err x" using assms(1) by (cases reply) auto
    then show ?thesis using SyncAnswer assms(2) by (auto simp: take_sync_answer_def sync_finish_def split: phase.splits)
  next
    case (HealthAnswer reply)
    show ?thesis
    proof (cases "mi_phase s = Checking")
      case True
      then show ?thesis
        using HealthAnswer assms(2) refresh_health_keeps [of reply "mi_run s"] by (cases "refresh_health reply (mi_run s)") simp_all
    qed (use HealthAnswer assms(2) in simp)
  next
    case (EventAnswer reply)
    then obtain x where "reply = Err x" using assms(1) by (cases reply) auto
    then show ?thesis using EventAnswer assms(2) by (auto split: phase.splits)
  next
    case StateEvent
    then show ?thesis using assms take_events_keep [of s i j] by (auto split: if_splits)
  next
    case TopologyEvent
    then show ?thesis using assms take_events_keep [of s i j] by (auto split: if_splits)
  qed (use assms in \<open>auto split: if_splits\<close>)
  then show "mi_phase s \<noteq> Finished" "mi_told ?s' = mi_told s" "rs_known (mi_run ?s') = rs_known (mi_run s)"
    "mi_phase ?s' = Syncing m \<Longrightarrow> mi_phase s = Syncing m \<or> sync_begin (take_snapshot (mi_runtime s)) (mi_run s) = Ok m"
    "mi_phase ?s' = Forwarding e \<Longrightarrow> mi_phase s = Forwarding e \<or> contains (rs_known (mi_run s)) e" by auto
qed

lemma agrees_known: "rs_known st' = rs_known st \<Longrightarrow> agrees st' told b = agrees st told b"
  by (simp add: agrees_def)

lemma home_host_step:
  assumes ok: "home_ok i j h" and "unanswered ev"
  shows "home_ok i j (h\<lparr>ho_mirror := mirror_exec i j ev (ho_mirror h)\<rparr>)"
proof -
  let ?s = "ho_mirror h" and ?s' = "mirror_exec i j ev (ho_mirror h)"
  have mok: "mirror_ok i j ?s" using ok by (simp add: home_ok_def)
  have "message_ok m" if "mi_phase ?s' = Syncing m" for m
  proof -
    have "mi_phase ?s = Syncing m \<or> sync_begin (take_snapshot (mi_runtime ?s)) (mi_run ?s) = Ok m"
      using unanswered_keeps(4) [OF assms(2) _ that] that by simp
    then show ?thesis
      using ok mok sync_request_message_ok [of "mi_runtime ?s"] by (auto simp: home_ok_def mirror_ok_def sync_begin_def)
  qed
  moreover have "contains (rs_known (mi_run ?s')) e" if "mi_phase ?s' = Forwarding e" for e
    using unanswered_keeps(3,5) [OF assms(2), of i j ?s] that ok by (auto simp: home_ok_def)
  moreover have "agrees (mi_run ?s') (mi_told ?s') (ms_bridge (ho_matter h))" if "mi_phase ?s' \<noteq> Finished"
    using unanswered_keeps(1-3) [OF assms(2) that] ok agrees_known [of "mi_run ?s'" "mi_run ?s"] by (simp add: home_ok_def)
  ultimately show ?thesis using ok mirror_exec_ok [OF mok] by (simp add: home_ok_def)
qed

lemma home_ended:
  assumes "mirror_ok i j s" and "mi_phase s = Finished" and "mappings_ok (mb_mappings (ms_builder st))"
  shows "home_ok i j (h\<lparr>ho_matter := st, ho_mirror := s\<rparr>)"
  using assms by (simp add: home_ok_def)

lemma built_agrees:
  assumes "build encode fault (sy_devices m) self = (self', Ok b)" and "mappings_ok (mb_mappings self)" and "message_ok m"
    and "accepted_projection_keys (Some (bu_refs b)) available = Ok (rs_known st)"
  shows "agrees st (sync_value m) (bridge_replace root (bu_projections b) br)"
  unfolding agrees_def
proof (intro impI)
  assume plain: "\<forall>d c. has_key (rs_known st) d c \<longrightarrow> CHR ''/'' \<notin> set c"
  from accepted_keys_exact [OF assms(4)]
  have dist: "distinct (map ref (bu_refs b))" and keys: "has_key (rs_known st) d c \<longleftrightarrow> (d, c) \<in> ref ` set (bu_refs b)" for d c by auto
  have no_slash: "CHR ''/'' \<notin> set (pr_capability_id p)" if "p \<in> set (bu_refs b)" for p
    using plain that by (auto simp: keys ref_def image_iff)
  have "bridge_shows (bridge_replace root (bu_projections b) br) d c = Option.bind (sync_value m d c) canonical_of
      \<and> (\<exists>p. located (set_replace (bu_projections b)) (d, c) p \<and> (d, c) \<in> set (own_refs p))" if "has_key (rs_known st) d c" for d c
  proof -
    have "(d, c) \<in> ref ` set (bu_refs b)" using that by (simp add: keys)
    then obtain q s where q: "located (set_replace (bu_projections b)) (d, c) q" "(d, c) \<in> set (own_refs q)"
      and s: "s \<in> set (sy_devices m)" "ad_id (ads_device s) = d" "attribute q c = Option.bind (value_table s c) canonical_of"
      using built_located [OF assms(1,2) dist no_slash, of d c] by blast
    have "sync_value m d c = value_table s c" using sync_value_table [OF assms(3) s(1)] s(2) by simp
    then show ?thesis using q s(3) by (auto simp: bridge_shows_def bridge_replace_def located_find)
  qed
  then show "locates (br_set (bridge_replace root (bu_projections b) br)) {(d, c). has_key (rs_known st) d c}
      \<and> (\<forall>d c. has_key (rs_known st) d c \<longrightarrow>
            bridge_shows (bridge_replace root (bu_projections b) br) d c = Option.bind (sync_value m d c) canonical_of)"
    by (auto simp: locates_def bridge_replace_def)
qed

lemma home_sync:
  assumes ok: "home_ok i j h"
  shows "home_ok i j (home_exec i j root encode rfc (DeliverSync fault is_open) h)"
proof (cases "mi_phase (ho_mirror h)")
  case (Syncing m)
  let ?s = "ho_mirror h" and ?self = "ms_builder (ho_matter h)"
  have mok: "mirror_ok i j ?s" and maps: "mappings_ok (mb_mappings ?self)" and msg: "message_ok m"
    using ok Syncing by (simp_all add: home_ok_def)
  obtain st r where hs: "handle_sync root encode fault is_open m (ho_matter h) = (st, r)" by fastforce
  obtain self' br where b: "build encode fault (sy_devices m) ?self = (self', br)" by fastforce
  from b maps have self': "mappings_ok (mb_mappings self')" by (cases rule: build_ok) (use maps in \<open>simp_all add: grows_def\<close>)
  have st: "ms_builder st = self'" using hs b by (auto simp: handle_sync_def send_runtime_def split: sum.splits if_splits)
  let ?s' = "mirror_exec i j (SyncAnswer (sync_answer r)) ?s"
  have s'_ok: "mirror_ok i j ?s'" by (rule mirror_exec_ok [OF mok])
  show ?thesis
  proof (cases "mi_phase ?s' = Finished")
    case True
    then show ?thesis using home_ended [OF s'_ok True, of st h] self' Syncing hs by (simp add: st)
  next
    case False
    then obtain run where run: "sync_finish m (sync_answer r) (mi_run ?s) = Ok run"
      using Syncing by (cases "sync_finish m (sync_answer r) (mi_run ?s)") (simp_all add: take_sync_answer_def)
    then obtain x where x: "sync_answer r = Ok x" "sync_finish m (Ok x) (mi_run ?s) = Ok run"
      by (cases "sync_answer r") (simp_all add: sync_finish_def)
    then have s': "mi_told ?s' = sync_value m" "mi_run ?s' = run" "mi_phase ?s' \<in> {Waiting, Checking}"
      using Syncing by (simp_all add: take_sync_answer_def)
    obtain bb where bb: "br = Ok bb" "ms_bridge st = bridge_replace root (bu_projections bb) (ms_bridge (ho_matter h))"
        "sr_projections x = Some (bu_refs bb)"
      using hs b x(1) by (auto simp: handle_sync_def send_runtime_def sync_answer_def split: sum.splits if_splits)
    then have "accepted_projection_keys (Some (bu_refs bb)) (projection_keys (sy_devices m)) = Ok (rs_known run)"
      using x(2) by (auto simp: sync_finish_def and_then_eq_Ok Let_def split: if_splits)
    then have "agrees run (sync_value m) (ms_bridge st)"
      unfolding bb(2) using b bb(1) by (intro built_agrees [OF _ maps msg]) simp_all
    then show ?thesis using s'_ok s' self' Syncing hs by (auto simp: home_ok_def st)
  qed
qed (use ok in simp_all)

lemma agrees_event:
  assumes ag: "agrees rs told b" and known: "has_key (rs_known rs) (ev_device e) (ev_capability e)"
    and up: "update_event (ev_device e) (ev_capability e) (adapter_value_to_api (ev_value e)) b = (b', Ok change)"
  shows "agrees rs (tell e told) b'"
  unfolding agrees_def
proof (intro impI)
  let ?R = "{(d, c). has_key (rs_known rs) d c}" and ?d = "ev_device e" and ?c = "ev_capability e"
  assume plain: "\<forall>d c. has_key (rs_known rs) d c \<longrightarrow> CHR ''/'' \<notin> set c"
  have loc: "locates (br_set b) ?R"
    and old: "has_key (rs_known rs) d c \<Longrightarrow> bridge_shows b d c = Option.bind (told d c) canonical_of" for d c
    using ag plain by (simp_all add: agrees_def)
  have here: "(?d, ?c) \<in> ?R" using known by simp
  have "bridge_shows b' d c = Option.bind (tell e told d c) canonical_of" if "has_key (rs_known rs) d c" for d c
  proof (cases "(d, c) = (?d, ?c)")
    case True
    then show ?thesis using update_event_shows(2) [OF loc here up] by (simp add: tell_def)
  next
    case False
    then have "tell e told d c = told d c" by (auto simp: tell_def)
    then show ?thesis using update_event_shows(3) [OF loc here up _ False] old that by simp
  qed
  then show "locates (br_set b') ?R
      \<and> (\<forall>d c. has_key (rs_known rs) d c \<longrightarrow> bridge_shows b' d c = Option.bind (tell e told d c) canonical_of)"
    using update_event_shows(1) [OF loc here up] by blast
qed

lemma home_event:
  assumes ok: "home_ok i j h"
  shows "home_ok i j (home_exec i j root encode rfc (DeliverEvent is_open) h)"
proof (cases "mi_phase (ho_mirror h)")
  case (Forwarding e)
  let ?s = "ho_mirror h" and ?b = "ms_bridge (ho_matter h)"
  let ?d = "ev_device e" and ?c = "ev_capability e" and ?v = "adapter_value_to_api (ev_value e)"
  have mok: "mirror_ok i j ?s" and maps: "mappings_ok (mb_mappings (ms_builder (ho_matter h)))"
    and known: "has_key (rs_known (mi_run ?s)) ?d ?c" and ag: "agrees (mi_run ?s) (mi_told ?s) ?b"
    using ok Forwarding by (simp_all add: home_ok_def contains_def)
  obtain st r where he: "handle_event is_open (event_request rfc e) (ho_matter h) = (st, r)" by fastforce
  have st: "ms_builder st = ms_builder (ho_matter h)"
    using he by (auto simp: handle_event_def send_runtime_def split: if_splits prod.splits sum.splits option.splits event_error.splits)
  let ?s' = "mirror_exec i j (EventAnswer (event_answer r)) ?s"
  have s'_ok: "mirror_ok i j ?s'" by (rule mirror_exec_ok [OF mok])
  show ?thesis
  proof (cases r)
    case (Inl x)
    then have "mi_phase ?s' = Finished" using Forwarding by (simp add: event_answer_def)
    then show ?thesis using home_ended [OF s'_ok _, of st h] maps Forwarding he by (simp add: st)
  next
    case (Inr reply)
    then have s': "mi_told ?s' = tell e (mi_told ?s)" "mi_run ?s' = mi_run ?s" "mi_phase ?s' = Waiting"
      using Forwarding by (simp_all add: event_answer_def)
    obtain change where up: "update_event ?d ?c ?v ?b = (ms_bridge st, Ok change)"
      using he Inr
      by (auto simp: handle_event_def event_request_def send_runtime_def
          split: if_splits prod.splits sum.splits option.splits event_error.splits)
    have "agrees (mi_run ?s) (tell e (mi_told ?s)) (ms_bridge st)" by (rule agrees_event [OF ag known up])
    then show ?thesis using s'_ok s' maps Forwarding he by (simp add: home_ok_def st)
  qed
qed (use ok in simp_all)

lemma home_exec_ok: "home_ok i j h \<Longrightarrow> home_ok i j (home_exec i j root encode rfc ev h)"
  by (cases ev) (simp_all add: home_host_step home_sync home_event del: home_exec.simps(2,3))

lemma home_run_ok: "home_ok i j h \<Longrightarrow> home_ok i j (home_run i j root encode rfc evs h)"
  unfolding home_run_def by (induction evs arbitrary: h) (simp_all add: home_exec_ok)

section \<open>Properties\<close>


lemma home_run_hosts:
  "list_all unanswered evs \<Longrightarrow>
     home_run i j root encode rfc (map HostStep evs @ evs') h
       = home_run i j root encode rfc evs' (h\<lparr>ho_mirror := mirror_run i j evs (ho_mirror h)\<rparr>)"
  by (induction evs arbitrary: h) (simp_all add: home_run_def mirror_run_def)

definition sample_root :: matter_endpoint where
  "sample_root = \<lparr>ep_id = 0, ep_types = [], ep_clusters = [DescriptorCluster]\<rparr>"

definition sample_boot :: "unit mirror_event list" where
  "sample_boot = [RuntimeStep (Register sample_device (Some sample_handler)), TakeSnapshot]"

definition sample_settle :: "unit mirror_event list" where
  "sample_settle = [HealthAnswer (Ok \<lparr>hr_healthy = True, hr_detail = [], hr_resources = []\<rparr>), TopologyEvent]"

definition sample_home :: "(unit, endpoint_mappings) home" where
  "sample_home = home_run 1 1 sample_root id (\<lambda>_. None) (map HostStep sample_boot @ DeliverSync None True # map HostStep sample_settle @ [])
     (home_start sample_mirror_runtime () sample_root Some None)"

definition sample_reply :: sync_reply where
  "sample_reply = \<lparr>sr_generation = 1, sr_devices = 1,
     sr_projections = Some [\<lparr>pr_device_id = ''virtual.switch'', pr_capability_id = ''on''\<rparr>], sr_diagnostics = []\<rparr>"

definition sample_booted :: "unit mirror" where
  "sample_booted = mirror_run 1 1 sample_boot (mirror_start sample_mirror_runtime ())"

definition sample_settled :: "unit mirror" where
  "sample_settled = mirror_run 1 1 sample_settle (mirror_exec 1 1 (SyncAnswer (Ok sample_reply)) sample_booted)"

lemma sample_booted_phase: "\<exists>m. mi_phase sample_booted = Syncing m \<and> sy_devices m = [sample_switch] \<and> sy_generation m = 1"
proof -
  have "(case mi_phase sample_booted of Syncing m \<Rightarrow> sy_devices m = [sample_switch] \<and> sy_generation m = 1 | _ \<Rightarrow> False)" by code_simp
  then show ?thesis by (simp split: phase.splits)
qed

lemma sample_home_mirror: "ho_mirror sample_home = sample_settled"
proof -
  obtain m where m: "mi_phase sample_booted = Syncing m" "sy_devices m = [sample_switch]" "sy_generation m = 1"
    using sample_booted_phase by blast
  have "snd (build id None [sample_switch] (builder_new Some None))
      = Ok (add_projection (ads_device sample_switch) ''on'' (on_off_shape OnOffLight False) 3 no_projection)"
    using sample_sync_ok by (simp add: sample_sync_def sample_message_ok(2) sample_bridge_def)
  then obtain self where b: "build id None [sample_switch] (builder_new Some None)
      = (self, Ok (add_projection (ads_device sample_switch) ''on'' (on_off_shape OnOffLight False) 3 no_projection))"
    by (cases "build id None [sample_switch] (builder_new Some None)") simp
  have "ad_id (ads_device sample_switch) = ''virtual.switch''" by (simp add: sample_switch_def device_to_api_def sample_device_def)
  then obtain st where hs: "handle_sync sample_root id None True m
      \<lparr>ms_builder = builder_new Some None, ms_bridge = bridge_new sample_root, ms_requests = []\<rparr> = (st, Ok (SyncedReply sample_reply))"
    using m(2,3) b
    by (simp add: handle_sync_def send_runtime_def sample_reply_def add_projection_def no_projection_def refs_of_def on_off_shape_def)
  let ?exec = "home_exec 1 1 sample_root id (\<lambda>_. None)" and ?run = "home_run 1 1 sample_root id (\<lambda>_. None)"
  let ?h = "home_start sample_mirror_runtime () sample_root Some None"
  have hosts: "list_all unanswered sample_boot" "list_all unanswered sample_settle" by (simp_all add: sample_boot_def sample_settle_def)
  have booted: "?h\<lparr>ho_mirror := mirror_run 1 1 sample_boot (ho_mirror ?h)\<rparr> = ?h\<lparr>ho_mirror := sample_booted\<rparr>"
    by (simp add: home_start_def sample_booted_def)
  have step: "?exec (DeliverSync None True) (?h\<lparr>ho_mirror := sample_booted\<rparr>)
      = \<lparr>ho_mirror = mirror_exec 1 1 (SyncAnswer (Ok sample_reply)) sample_booted, ho_matter = st\<rparr>"
    using m(1) hs by (simp add: home_start_def sync_answer_def)
  have "sample_home = ?run (map HostStep sample_settle @ []) (?exec (DeliverSync None True) (?h\<lparr>ho_mirror := sample_booted\<rparr>))"
    unfolding sample_home_def home_run_hosts [OF hosts(1)] booted by (simp add: home_run_def del: home_exec.simps)
  then have final: "sample_home = ?run [] (\<lparr>ho_mirror = sample_settled, ho_matter = st\<rparr>)"
    unfolding step home_run_hosts [OF hosts(2)] by (simp add: sample_settled_def)
  show ?thesis unfolding final by (simp add: home_run_def)
qed


section \<open>Where the two sides disagree\<close>

text \<open>
  The answer of a command reaches its handler after later events did: the handler writes the older
  value over the newer one, and the bridge shows it until the next change.
\<close>

definition sample_projection :: matter_projection where
  "sample_projection = \<lparr>mp_endpoint = 3, mp_device_id = ''lamp'', mp_primary = ''on'', mp_level_id = None, mp_name = ''Lamp'',
     mp_unique_id = [], mp_profile = OnOffLight, mp_on = Some False, mp_level = None, mp_sensor = None, mp_binary = None\<rparr>"

definition sample_told :: "bool list \<Rightarrow> bridge" where
  "sample_told vs = fold (\<lambda>v b. fst (update_event ''lamp'' ''on'' (adapter_value_to_api (VBool v)) b)) vs
     (bridge_replace sample_root [sample_projection] (bridge_new sample_root))"

theorem late_answer_overwrites:
  "bridge_shows (sample_told [True, False]) ''lamp'' ''on'' = Some (CanonicalBool False)
   \<and> bridge_shows (fst (on_off_finish 3 (Some (Ok (adapter_value_to_api (VBool True)))) (sample_told [True, False]))) ''lamp'' ''on''
       = Some (CanonicalBool True)"
  by code_simp

text \<open>
  The runtime accepts every finite number for a humidity or temperature; the bridge answers an event
  outside of the Matter range with an error, and the host ends the session.
\<close>

theorem reading_ends_session:
  assumes "mi_phase (ho_mirror h) = Forwarding e" and "find_mut (ev_device e) (ev_capability e) (br_set (ms_bridge (ho_matter h))) = Some p"
    and "mp_primary p = ev_capability e" and "mp_profile p = HumidityProfile" and "ev_value e = VNumber n"
    and "\<not> in_range f64_zero f64_hundred n"
  shows "mi_phase (ho_mirror (home_exec i j root encode rfc (DeliverEvent is_open) h)) = Finished"
proof -
  have "number_in f64_zero f64_hundred (adapter_value_to_api (VNumber n)) = None"
    using assms(6) by (simp add: number_in_def wire_number_def adapter_value_to_api_def empty_wire_def)
  then have "project_event (ev_capability e) (adapter_value_to_api (ev_value e)) p = Err EventInvalidValue"
    using assms(3-5) by (simp add: project_event_def project_primary_def)
  then have "\<exists>st x. handle_event is_open (event_request rfc e) (ho_matter h) = (st, Err x)"
    using assms(2) by (auto simp: handle_event_def event_request_def update_event_def)
  then show ?thesis using assms(1) by (auto simp: event_answer_def)
qed

text \<open>
  The bridge reports one diagnostic for every capability without a Matter mapping, and the host
  accepts 256: a home with more of them is never synchronised.
\<close>

definition unmapped :: "adapter_device_state \<Rightarrow> bool" where
  "unmapped s \<longleftrightarrow> ad_id (ads_device s) \<noteq> [] \<and> ad_name (ads_device s) \<noteq> []
     \<and> (case ad_capabilities (ads_device s) of
           [c] \<Rightarrow> ac_type c \<noteq> CAPABILITY_LIGHT_LEVEL \<and> expected_kind (ac_type c) = None | _ \<Rightarrow> False)"

lemma build_unmapped:
  assumes "list_all unmapped ss"
  shows "\<exists>b'. build_devices ss m b = Ok (m, b') \<and> bu_projections b' = bu_projections b \<and> bu_refs b' = bu_refs b
    \<and> length (bu_diagnostics b') = length (bu_diagnostics b) + length ss"
  using assms
proof (induction ss arbitrary: b)
  case (Cons s ss)
  then obtain c where c: "ad_capabilities (ads_device s) = [c]" "ac_type c \<noteq> CAPABILITY_LIGHT_LEVEL" "expected_kind (ac_type c) = None"
    "ad_id (ads_device s) \<noteq> []" "ad_name (ads_device s) \<noteq> []"
    by (auto simp: unmapped_def split: list.splits)
  then obtain d where "build_device s m b = Ok (m, diagnose [d] b)"
    by (auto simp: build_device_def Let_def project_capability_def)
  then show ?case using Cons.IH [of "diagnose [d] b"] Cons.prems by (auto simp: diagnose_def)
qed simp

theorem crowded_home_refused:
  assumes "list_all unmapped (sy_devices m)" and "length (sy_devices m) > MAX_DIAGNOSTICS"
  shows "sync_finish m (sync_answer (snd (handle_sync root encode None True m st))) rs = Err TooManyDiagnostics"
proof -
  obtain b where b: "build_devices (sy_devices m) (mb_mappings (ms_builder st)) no_projection = Ok (mb_mappings (ms_builder st), b)"
      "bu_projections b = []" "length (bu_diagnostics b) = length (sy_devices m)"
    using build_unmapped [OF assms(1), of "mb_mappings (ms_builder st)" no_projection] by (auto simp: no_projection_def)
  then have "snd (handle_sync root encode None True m st) = Ok (SyncedReply \<lparr>sr_generation = sy_generation m, sr_devices = length (sy_devices m),
      sr_projections = Some (bu_refs b), sr_diagnostics = map diagnostic_on_wire (bu_diagnostics b)\<rparr>)"
    by (simp add: handle_sync_def build_def send_runtime_def)
  then show ?thesis using b(3) assms(2) by (simp add: sync_answer_def sync_finish_def validate_diagnostics_def)
qed

end
