(* ===== verification/Matter_Commissioning.thy ===== *)
theory Matter_Commissioning
  imports Matter_Rpc
begin

text \<open>
  Commissioning windows and the control task of the Matter adapter,
  \<open>apps/oikade-matter-adapter/src/commissioning.rs\<close> and \<open>run_control\<close> of \<open>runtime.rs\<close>. Instants are
  nanoseconds of a monotonic clock. What the \<open>rs_matter\<close> library answers (whether it advertises a
  window, whether it opens one, the pairing codes, the fabrics) is part of the input.
\<close>

section \<open>Commissioning windows\<close>

definition AUTOMATIC_WINDOW_SECONDS :: nat where "AUTOMATIC_WINDOW_SECONDS = 15 * 60"

record tracked_window =
  tw_duration_seconds :: nat
  tw_deadline :: nat

record commissioning =
  co_tracked_window :: "tracked_window option"

definition commissioning_default :: commissioning where
  "commissioning_default = \<lparr>co_tracked_window = None\<rparr>"

record window_status =
  ws_open :: bool
  ws_duration_seconds :: "nat option"
  ws_remaining_seconds :: "nat option"
  ws_owned :: bool

datatype observed_window = WindowClosed | OwnedActive window_status | OwnedExpired | UntrackedOpen

definition active_status :: "nat \<Rightarrow> commissioning \<Rightarrow> window_status option" where
  "active_status now c =
     (case co_tracked_window c of
        None \<Rightarrow> None
      | Some w \<Rightarrow>
          if tw_deadline w \<le> now then None
          else let remaining = tw_deadline w - now;
                   seconds = min (remaining div 10 ^ 9 + (if remaining mod 10 ^ 9 > 0 then 1 else 0)) U16_MAX
               in Some \<lparr>ws_open = True, ws_duration_seconds = Some (tw_duration_seconds w),
                        ws_remaining_seconds = Some seconds, ws_owned = True\<rparr>)"

definition observe :: "bool \<Rightarrow> nat \<Rightarrow> commissioning \<Rightarrow> commissioning \<times> observed_window" where
  "observe sdk_open now c =
     (if co_tracked_window c \<noteq> None then
        (if \<not> sdk_open then (c\<lparr>co_tracked_window := None\<rparr>, WindowClosed)
         else (c, case active_status now c of Some s \<Rightarrow> OwnedActive s | None \<Rightarrow> OwnedExpired))
      else (c, if sdk_open then UntrackedOpen else WindowClosed))"

definition owned_response :: "window_status \<Rightarrow> (rpc_failure, string \<times> string) result \<Rightarrow> (rpc_failure, window_response) result" where
  "owned_response s payload =
     and_then (ok_or (rpc_failure_new ''status_failed'' ''window duration is unavailable'') (ws_duration_seconds s)) (\<lambda>duration.
     and_then (ok_or (rpc_failure_new ''status_failed'' ''window deadline is unavailable'') (ws_remaining_seconds s)) (\<lambda>remaining.
     and_then payload (\<lambda>(manual, qr).
       Ok \<lparr>wr_duration_seconds = duration, wr_remaining_seconds = Some remaining, wr_manual_code = manual, wr_qr_code = qr\<rparr>)))"

definition closing_message :: string where
  "closing_message = ''the previous Oikade commissioning window has expired but rs-matter is still closing it; retry shortly''"

text \<open>The two readings of the clock are \<open>observed_at\<close> and \<open>later\<close>.\<close>

definition open_observed ::
  "bool \<Rightarrow> nat \<Rightarrow> nat \<Rightarrow> (rpc_failure, unit) result \<Rightarrow> nat \<Rightarrow> (rpc_failure, string \<times> string) result \<Rightarrow> commissioning
     \<Rightarrow> commissioning \<times> (rpc_failure, window_response) result" where
  "open_observed sdk_open duration observed_at open_window later payload c =
     (let answer = (\<lambda>c'. (c', and_then (ok_or (rpc_failure_new ''window_closing'' ''commissioning window expired'') (active_status later c'))
                             (\<lambda>s. owned_response s payload)))
      in case observe sdk_open observed_at c of
           (c1, OwnedActive _) \<Rightarrow> answer c1
         | (c1, OwnedExpired) \<Rightarrow> (c1, Err (rpc_failure_new ''window_closing'' closing_message))
         | (c1, UntrackedOpen) \<Rightarrow>
             (c1, Err (rpc_failure_new ''window_conflict'' ''a commissioning window not opened by Oikade is already active''))
         | (c1, WindowClosed) \<Rightarrow>
             (case open_window of
                Err e \<Rightarrow> (c1, Err e)
              | Ok _ \<Rightarrow>
                  answer (c1\<lparr>co_tracked_window := Some \<lparr>tw_duration_seconds = duration, tw_deadline = observed_at + duration * 10 ^ 9\<rparr>\<rparr>)))"

definition info_observed ::
  "bool \<Rightarrow> nat \<Rightarrow> (rpc_failure, string \<times> string) result \<Rightarrow> commissioning \<Rightarrow> commissioning \<times> (rpc_failure, info_response) result" where
  "info_observed sdk_open now payload c =
     (let plain = (\<lambda>open. \<lparr>ir_open = open, ir_duration_seconds = None, ir_remaining_seconds = None, ir_manual_code = None, ir_qr_code = None\<rparr>)
      in case observe sdk_open now c of
           (c1, OwnedActive s) \<Rightarrow>
             (c1, and_then payload (\<lambda>(manual, qr).
                Ok \<lparr>ir_open = True, ir_duration_seconds = ws_duration_seconds s, ir_remaining_seconds = ws_remaining_seconds s,
                    ir_manual_code = Some manual, ir_qr_code = Some qr\<rparr>))
         | (c1, OwnedExpired) \<Rightarrow> (c1, Ok (plain True))
         | (c1, UntrackedOpen) \<Rightarrow> (c1, Ok (plain True))
         | (c1, WindowClosed) \<Rightarrow> (c1, Ok (plain False)))"

definition should_open_automatically :: "nat \<Rightarrow> bool" where
  "should_open_automatically fabric_count = (fabric_count = 0)"

section \<open>The Matter library\<close>

record fabric =
  fa_index :: nat
  fa_vendor_id :: nat
  fa_fabric_id :: nat
  fa_node_id :: nat
  fa_compressed_id :: nat
  fa_label :: string

datatype local_service = Commissionable | OtherService

text \<open>What the library answers to the calls of one request.\<close>

record sdk =
  sdk_services :: "(string, local_service list) result"
  sdk_open_window :: "(string, unit) result"
  sdk_manual_code :: string
  sdk_qr_code :: "(string, string) result"
  sdk_fabrics :: "fabric list"
  sdk_bump :: "(string, unit) result"
  sdk_observed_at :: nat
  sdk_later :: nat

definition window_is_open :: "sdk \<Rightarrow> (rpc_failure, bool) result" where
  "window_is_open k =
     (case sdk_services k of
        Err m \<Rightarrow> Err (rpc_failure_new ''status_failed'' m)
      | Ok services \<Rightarrow> Ok (Commissionable \<in> set services))"

definition pairing_payload :: "sdk \<Rightarrow> (rpc_failure, string \<times> string) result" where
  "pairing_payload k =
     and_then (map_err (rpc_failure_new ''payload_failed'') (sdk_qr_code k)) (\<lambda>qr. Ok (sdk_manual_code k, qr))"

definition commissioning_open :: "sdk \<Rightarrow> nat \<Rightarrow> commissioning \<Rightarrow> commissioning \<times> (rpc_failure, window_response) result" where
  "commissioning_open k duration c =
     (case window_is_open k of
        Err e \<Rightarrow> (c, Err e)
      | Ok sdk_open \<Rightarrow>
          open_observed sdk_open duration (sdk_observed_at k) (map_err (rpc_failure_new ''open_failed'') (sdk_open_window k))
            (sdk_later k) (pairing_payload k) c)"

definition commissioning_info :: "sdk \<Rightarrow> commissioning \<Rightarrow> commissioning \<times> (rpc_failure, info_response) result" where
  "commissioning_info k c =
     (case window_is_open k of
        Err e \<Rightarrow> (c, Err e)
      | Ok sdk_open \<Rightarrow> info_observed sdk_open (sdk_observed_at k) (pairing_payload k) c)"

definition fabric_resource :: "fabric \<Rightarrow> resource" where
  "fabric_resource f = \<lparr>re_type = ''matter.fabric'', re_id = digits (fa_index f), re_name = fa_label f,
     re_attributes = [(''compressed_fabric_id'', digits (fa_compressed_id f)), (''fabric_id'', digits (fa_fabric_id f)),
       (''node_id'', digits (fa_node_id f)), (''vendor_id'', digits (fa_vendor_id f))]\<rparr>"

definition fabric_resources :: "sdk \<Rightarrow> resource list" where
  "fabric_resources k = map fabric_resource (sdk_fabrics k)"

text \<open>\<open>str::parse::<NonZeroU8>\<close>: an optional plus sign and decimal digits.\<close>

definition parse_nonzero_u8 :: "string \<Rightarrow> nat option" where
  "parse_nonzero_u8 s =
     (let ds = (case s of c # cs \<Rightarrow> if c = CHR ''+'' then cs else s | [] \<Rightarrow> s);
          n = from_digits ds
      in if ds \<noteq> [] \<and> list_all is_ascii_digit ds \<and> 0 < n \<and> n < 256 then Some n else None)"

section \<open>The control task\<close>

datatype notification =
    ConfigurationBumped
  | AggregatorChanged
  | AllChanged
  | AttributeNotified attribute_change

record control =
  ct_commissioning :: commissioning
  ct_notified :: "notification list"
  ct_ended :: "string option"

definition remove_resource_failure :: "string \<Rightarrow> string \<Rightarrow> rpc_failure" where
  "remove_resource_failure t i =
     (if t \<noteq> ''matter.fabric'' then rpc_failure_new ''unsupported_resource'' ''only Matter fabric resources can be removed''
      else if parse_nonzero_u8 i = None then rpc_failure_new ''invalid_resource'' ''fabric resource ID is invalid''
      else rpc_failure_new ''remove_failed'' ''rs-matter 0.2.0 cannot safely expire a removed fabric's live sessions'')"

fun control_exec :: "sdk \<Rightarrow> runtime_request \<Rightarrow> control \<Rightarrow> control \<times> (rpc_failure, runtime_answer) result option" where
  "control_exec k TopologyChanged s =
     (case sdk_bump k of
        Err m \<Rightarrow> (s\<lparr>ct_ended := Some m\<rparr>, None)
      | Ok _ \<Rightarrow> (s\<lparr>ct_notified := ct_notified s @ [ConfigurationBumped, AggregatorChanged, AllChanged]\<rparr>, None))"
| "control_exec k (AttributeChanged a) s = (s\<lparr>ct_notified := ct_notified s @ [AttributeNotified a]\<rparr>, None)"
| "control_exec k AskHealth s =
     (s, Some (Ok (HealthIs \<lparr>hr_healthy = True, hr_detail = [], hr_resources = fabric_resources k\<rparr>)))"
| "control_exec k (AskOpenCommissioningWindow n) s =
     (case commissioning_open k n (ct_commissioning s) of
        (c, r) \<Rightarrow> (s\<lparr>ct_commissioning := c\<rparr>, Some (and_then r (\<lambda>x. Ok (WindowIs x)))))"
| "control_exec k AskCommissioningInfo s =
     (case commissioning_info k (ct_commissioning s) of
        (c, r) \<Rightarrow> (s\<lparr>ct_commissioning := c\<rparr>, Some (and_then r (\<lambda>x. Ok (InfoIs x)))))"
| "control_exec k (AskRemoveResource t i) s = (s, Some (Err (remove_resource_failure t i)))"

text \<open>The start of \<open>run_control\<close>: a window is opened when no fabric is known; a failure ends the task.\<close>

definition control_start :: "sdk \<Rightarrow> nat \<Rightarrow> control" where
  "control_start k fabric_count =
     (let s = \<lparr>ct_commissioning = commissioning_default, ct_notified = [], ct_ended = None\<rparr>
      in if should_open_automatically fabric_count then
           (case commissioning_open k AUTOMATIC_WINDOW_SECONDS (ct_commissioning s) of
              (c, Err _) \<Rightarrow> s\<lparr>ct_commissioning := c, ct_ended := Some ''InvalidState''\<rparr>
            | (c, Ok _) \<Rightarrow> s\<lparr>ct_commissioning := c\<rparr>)
         else s)"

fun control_run ::
  "(sdk \<times> runtime_request) list \<Rightarrow> control \<Rightarrow> control \<times> (rpc_failure, runtime_answer) result option list" where
  "control_run [] s = (s, [])"
| "control_run ((k, r) # rest) s =
     (if ct_ended s \<noteq> None then (s, [])
      else case control_exec k r s of (s', a) \<Rightarrow>
           case control_run rest s' of (t, as) \<Rightarrow> (t, a # as))"

section \<open>What the host accepts\<close>

fun answer_ok :: "(rpc_failure, runtime_answer) result option \<Rightarrow> bool" where
  "answer_ok (Some (Ok (WindowIs r))) = is_ok (validate_commissioning_response r)"
| "answer_ok (Some (Ok (InfoIs r))) = is_ok (validate_commissioning_info_response r)"
| "answer_ok (Some (Ok (HealthIs h))) = is_ok (validate_resources (hr_resources h))"
| "answer_ok _ = True"

text \<open>
  What is assumed of the library: its pairing codes are those of Matter, and it keeps at most
  256 fabrics with distinct indices, whose labels have no surrounding white space.
\<close>

definition sdk_ok :: "sdk \<Rightarrow> bool" where
  "sdk_ok k \<longleftrightarrow> (case sdk_qr_code k of Ok qr \<Rightarrow> valid_pairing_payload (sdk_manual_code k) qr | Err _ \<Rightarrow> True)
     \<and> length (sdk_fabrics k) \<le> MAX_RESOURCES \<and> distinct (map fa_index (sdk_fabrics k))
     \<and> list_all (\<lambda>f. \<not> padded (fa_label f)) (sdk_fabrics k)"

fun request_ok :: "runtime_request \<Rightarrow> bool" where
  "request_ok (AskOpenCommissioningWindow n) \<longleftrightarrow>
     MINIMUM_COMMISSIONING_WINDOW_SECONDS \<le> n \<and> n \<le> MAXIMUM_COMMISSIONING_WINDOW_SECONDS"
| "request_ok _ \<longleftrightarrow> True"

fun monotone :: "nat \<Rightarrow> (sdk \<times> runtime_request) list \<Rightarrow> bool" where
  "monotone t [] \<longleftrightarrow> True"
| "monotone t ((k, r) # rest) \<longleftrightarrow> t \<le> sdk_observed_at k \<and> sdk_observed_at k \<le> sdk_later k \<and> monotone (sdk_later k) rest"

definition window_ok :: "nat \<Rightarrow> commissioning \<Rightarrow> bool" where
  "window_ok t c \<longleftrightarrow>
     (case co_tracked_window c of
        None \<Rightarrow> True
      | Some w \<Rightarrow> MINIMUM_COMMISSIONING_WINDOW_SECONDS \<le> tw_duration_seconds w
          \<and> tw_duration_seconds w \<le> MAXIMUM_COMMISSIONING_WINDOW_SECONDS
          \<and> tw_deadline w \<le> t + tw_duration_seconds w * 10 ^ 9)"

lemma window_ok_later: "window_ok t c \<Longrightarrow> t \<le> t' \<Longrightarrow> window_ok t' c"
  by (auto simp: window_ok_def split: option.splits)

lemma window_ok_none [simp]: "window_ok t (c\<lparr>co_tracked_window := None\<rparr>)"
  by (simp add: window_ok_def)

text \<open>The remaining time, rounded up to seconds, is between one second and the whole duration.\<close>

lemma seconds_bound:
  assumes "0 < r" and "r \<le> n * 10 ^ 9"
  shows "0 < r div 10 ^ 9 + (if r mod 10 ^ 9 > 0 then 1 else 0 :: nat)" and "r div 10 ^ 9 + (if r mod 10 ^ 9 > 0 then 1 else 0) \<le> n"
proof -
  let ?q = "r div 10 ^ 9" and ?m = "r mod 10 ^ 9"
  have r: "?q * 10 ^ 9 + ?m = r" by simp
  show "0 < ?q + (if ?m > 0 then 1 else 0)" using r assms(1) by (cases "?m > 0") (auto intro: ccontr)
  show "?q + (if ?m > 0 then 1 else 0) \<le> n"
  proof (cases "?m > 0")
    case True
    then have "?q * 10 ^ 9 < n * 10 ^ 9" using r assms(2) by linarith
    then show ?thesis using True by simp
  next
    case False
    then have "?q * 10 ^ 9 \<le> n * 10 ^ 9" using r assms(2) by linarith
    then show ?thesis using False by simp
  qed
qed

lemma active_status_timing:
  assumes "active_status now c = Some s" and "window_ok now c"
  shows "\<exists>duration remaining. ws_duration_seconds s = Some duration \<and> ws_remaining_seconds s = Some remaining \<and> valid_timing duration remaining"
proof -
  obtain w where w: "co_tracked_window c = Some w" "now < tw_deadline w"
    using assms(1) by (auto simp: active_status_def split: option.splits if_splits)
  let ?r = "tw_deadline w - now" and ?n = "tw_duration_seconds w"
  let ?x = "?r div 10 ^ 9 + (if ?r mod 10 ^ 9 > 0 then 1 else 0 :: nat)"
  have n: "MINIMUM_COMMISSIONING_WINDOW_SECONDS \<le> ?n" "?n \<le> MAXIMUM_COMMISSIONING_WINDOW_SECONDS" "?r \<le> ?n * 10 ^ 9"
    using assms(2) w by (auto simp: window_ok_def)
  have x: "0 < ?x" "?x \<le> ?n" by (rule seconds_bound; use w(2) n(3) in simp)+
  have s: "ws_duration_seconds s = Some ?n" "ws_remaining_seconds s = Some (min ?x U16_MAX)"
    using assms(1) w by (auto simp: active_status_def Let_def)
  have timing: "valid_timing d (min y U16_MAX)" if "MINIMUM_COMMISSIONING_WINDOW_SECONDS \<le> d"
      "d \<le> MAXIMUM_COMMISSIONING_WINDOW_SECONDS" "0 < y" "y \<le> d" for d y
    using that by (simp add: valid_timing_def U16_MAX_def)
  show ?thesis using s timing [OF n(1,2) x] by (intro exI conjI)
qed

lemma observe_ok:
  assumes "observe sdk_open now c = (c', ob)" and "window_ok now c"
  shows "window_ok now c'" and "ob = OwnedActive s \<Longrightarrow> active_status now c' = Some s"
  using assms by (auto simp: observe_def split: if_splits option.splits)

lemma owned_response_ok:
  assumes "active_status now c = Some s" and "window_ok now c" and "owned_response s payload = Ok r"
    and "\<And>m qr. payload = Ok (m, qr) \<Longrightarrow> valid_pairing_payload m qr"
  shows "validate_commissioning_response r = Ok ()"
proof -
  obtain d n where t: "ws_duration_seconds s = Some d" "ws_remaining_seconds s = Some n" "valid_timing d n"
    using active_status_timing [OF assms(1,2)] by blast
  then obtain m qr where "payload = Ok (m, qr)"
      "r = \<lparr>wr_duration_seconds = d, wr_remaining_seconds = Some n, wr_manual_code = m, wr_qr_code = qr\<rparr>"
    using assms(3) by (auto simp: owned_response_def and_then_eq_Ok)
  then show ?thesis using t(3) assms(4) by (simp add: validate_commissioning_response_def valid_timing_def)
qed

lemma open_observed_ok:
  assumes "open_observed sdk_open n t w t' payload c = (c', r)" and "window_ok t c" and "t \<le> t'"
    and "MINIMUM_COMMISSIONING_WINDOW_SECONDS \<le> n" and "n \<le> MAXIMUM_COMMISSIONING_WINDOW_SECONDS"
    and "\<And>m qr. payload = Ok (m, qr) \<Longrightarrow> valid_pairing_payload m qr"
  shows "window_ok t' c'" and "r = Ok x \<Longrightarrow> validate_commissioning_response x = Ok ()"
proof -
  obtain c1 ob where ob: "observe sdk_open t c = (c1, ob)" by fastforce
  have c1: "window_ok t c1" by (rule observe_ok(1) [OF ob assms(2)])
  have "window_ok t' c' \<and> (r = Ok x \<longrightarrow> (\<exists>s. active_status t' c' = Some s \<and> owned_response s payload = Ok x))"
  proof (cases ob)
    case WindowClosed
    have "window_ok t' (c1\<lparr>co_tracked_window := Some \<lparr>tw_duration_seconds = n, tw_deadline = t + n * 10 ^ 9\<rparr>\<rparr>)"
      using assms(3-5) by (simp add: window_ok_def)
    then show ?thesis
      using assms(1) ob WindowClosed window_ok_later [OF c1 assms(3)]
      by (cases w) (auto simp: open_observed_def and_then_eq_Ok ok_or_def split: option.splits)
  next
    case (OwnedActive s)
    then show ?thesis
      using assms(1) ob window_ok_later [OF c1 assms(3)] by (auto simp: open_observed_def and_then_eq_Ok ok_or_def split: option.splits)
  qed (use assms(1) ob window_ok_later [OF c1 assms(3)] in \<open>auto simp: open_observed_def\<close>)
  then show "window_ok t' c'" "r = Ok x \<Longrightarrow> validate_commissioning_response x = Ok ()"
    using owned_response_ok [of t' c' _ payload x, OF _ _ _ assms(6)] by blast+
qed

lemma info_observed_ok:
  assumes "info_observed sdk_open t payload c = (c', r)" and "window_ok t c"
    and "\<And>m qr. payload = Ok (m, qr) \<Longrightarrow> valid_pairing_payload m qr"
  shows "window_ok t c'" and "r = Ok x \<Longrightarrow> validate_commissioning_info_response x = Ok ()"
proof -
  obtain c1 ob where ob: "observe sdk_open t c = (c1, ob)" by fastforce
  have c': "c' = c1" using assms(1) ob by (auto simp: info_observed_def Let_def split: observed_window.splits)
  then show "window_ok t c'" using observe_ok(1) [OF ob assms(2)] by simp
  assume r: "r = Ok x"
  show "validate_commissioning_info_response x = Ok ()"
  proof (cases ob)
    case (OwnedActive s)
    have "active_status t c1 = Some s" by (rule observe_ok(2) [OF ob assms(2) OwnedActive])
    then obtain d n where t: "ws_duration_seconds s = Some d" "ws_remaining_seconds s = Some n" "valid_timing d n"
      using active_status_timing observe_ok(1) [OF ob assms(2)] by blast
    then show ?thesis
      using assms(1,3) ob OwnedActive r
      by (auto simp: info_observed_def and_then_eq_Ok validate_commissioning_info_response_def)
  qed (use assms(1) ob r in \<open>auto simp: info_observed_def validate_commissioning_info_response_def\<close>)
qed

text \<open>The resources of a health answer.\<close>

lemma digits_unpadded: "\<not> padded (digits n)"
proof -
  have all: "is_ascii_digit x" if "x \<in> set (digits n)" for x using that digits_all [of n] by (simp add: list_all_iff)
  have "list_all (\<lambda>w. w \<noteq> [] \<and> \<not> is_ascii_digit (hd w) \<and> \<not> is_ascii_digit (last w)) white_space" by code_simp
  then have ws: "w \<noteq> []" "\<not> is_ascii_digit (hd w)" "\<not> is_ascii_digit (last w)" if "w \<in> set white_space" for w
    using that by (simp_all add: list_all_iff)
  have none: "lead ps t = 0" if "\<And>p. p \<in> set ps \<Longrightarrow> \<not> starts_with p t" for ps t
    using that by (induction ps) auto
  have front: "lead white_space (digits n) = 0"
  proof (rule none, rule notI)
    fix p assume p: "p \<in> set white_space" "starts_with p (digits n)"
    have "hd p \<in> set p" using ws(1) [OF p(1)] by simp
    then have "hd p \<in> set (digits n)" using p(2) by (auto simp: starts_with_iff)
    then show False using all ws(2) [OF p(1)] by blast
  qed
  have at_end: "lead (map rev white_space) (rev (digits n)) = 0"
  proof (rule none, rule notI)
    fix p assume p: "p \<in> set (map rev white_space)" "starts_with p (rev (digits n))"
    then obtain w where w: "w \<in> set white_space" "p = rev w" by auto
    then have "last w \<in> set (digits n)" using p(2) ws(1) [OF w(1)] by (metis UnCI ends_with_def ends_with_iff last_in_set set_append)
    then show False using all ws(3) [OF w(1)] by blast
  qed
  show ?thesis by (simp add: padded_def trim_def trim_start_def trim_end_def trim_lead_unfold front at_end)
qed

lemma fabric_resource_ok: "resource_ok (fabric_resource f) \<longleftrightarrow> \<not> padded (fa_label f)"
proof -
  have "\<not> padded s" if "s \<in> {''matter.fabric'', ''compressed_fabric_id'', ''fabric_id'', ''node_id'', ''vendor_id''}" for s
    using that by (elim insertE emptyE; hypsubst; code_simp)
  moreover have "digits n \<noteq> []" for n using digits.simps [of n] by (cases "n < 10") simp_all
  ultimately show ?thesis by (simp add: resource_ok_def fabric_resource_def digits_unpadded MAX_RESOURCE_ATTRIBUTES_def)
qed

lemma check_fabrics:
  assumes "distinct (map fa_index fs)" and "list_all (\<lambda>f. \<not> padded (fa_label f)) fs"
    and "\<And>f. f \<in> set fs \<Longrightarrow> resource_key (fabric_resource f) \<notin> seen"
  shows "check_resources seen (map fabric_resource fs) = Ok ()"
  using assms
proof (induction fs arbitrary: seen)
  case (Cons f fs)
  have "fa_index g \<noteq> fa_index f" if "g \<in> set fs" for g using that Cons.prems(1) by (force simp: image_iff)
  then have "resource_key (fabric_resource g) \<noteq> resource_key (fabric_resource f)" if "g \<in> set fs" for g
    using that by (simp add: resource_key_def fabric_resource_def digits_inj)
  then show ?case using Cons by (simp add: fabric_resource_ok)
qed simp

lemma fabric_resources_ok: "sdk_ok k \<Longrightarrow> is_ok (validate_resources (fabric_resources k))"
  using check_fabrics [of "sdk_fabrics k" "{}"] by (simp add: sdk_ok_def validate_resources_def fabric_resources_def)

section \<open>Runs of the control task\<close>

lemma payload_ok: "sdk_ok k \<Longrightarrow> pairing_payload k = Ok (m, qr) \<Longrightarrow> valid_pairing_payload m qr"
  by (auto simp: sdk_ok_def pairing_payload_def and_then_eq_Ok)

lemma commissioning_open_ok:
  assumes "commissioning_open k n c = (c', r)" and "sdk_ok k" and "window_ok t c" and "t \<le> sdk_observed_at k" and "sdk_observed_at k \<le> sdk_later k"
    and "MINIMUM_COMMISSIONING_WINDOW_SECONDS \<le> n" and "n \<le> MAXIMUM_COMMISSIONING_WINDOW_SECONDS"
  shows "window_ok (sdk_later k) c'" and "r = Ok x \<Longrightarrow> validate_commissioning_response x = Ok ()"
proof -
  have c: "window_ok (sdk_observed_at k) c" "window_ok (sdk_later k) c"
    using window_ok_later [OF assms(3)] assms(4,5) by simp_all
  have "window_ok (sdk_later k) c' \<and> (r = Ok x \<longrightarrow> validate_commissioning_response x = Ok ())"
  proof (cases "window_is_open k")
    case (Inl e)
    then show ?thesis using assms(1) c by (auto simp: commissioning_open_def)
  next
    case (Inr b)
    then have "open_observed b n (sdk_observed_at k) (map_err (rpc_failure_new ''open_failed'') (sdk_open_window k)) (sdk_later k) (pairing_payload k) c = (c', r)"
      using assms(1) by (simp add: commissioning_open_def)
    from open_observed_ok [OF this c(1) assms(5-7) payload_ok [OF assms(2)]] show ?thesis by blast
  qed
  then show "window_ok (sdk_later k) c'" "r = Ok x \<Longrightarrow> validate_commissioning_response x = Ok ()" by blast+
qed

lemma commissioning_info_ok:
  assumes "commissioning_info k c = (c', r)" and "sdk_ok k" and "window_ok t c" and "t \<le> sdk_observed_at k" and "sdk_observed_at k \<le> sdk_later k"
  shows "window_ok (sdk_later k) c'" and "r = Ok x \<Longrightarrow> validate_commissioning_info_response x = Ok ()"
proof -
  have c: "window_ok (sdk_observed_at k) c" "window_ok (sdk_later k) c"
    using window_ok_later [OF assms(3)] assms(4,5) by simp_all
  have "window_ok (sdk_later k) c' \<and> (r = Ok x \<longrightarrow> validate_commissioning_info_response x = Ok ())"
  proof (cases "window_is_open k")
    case (Inl e)
    then show ?thesis using assms(1) c by (auto simp: commissioning_info_def)
  next
    case (Inr b)
    then have i: "info_observed b (sdk_observed_at k) (pairing_payload k) c = (c', r)" using assms(1) by (simp add: commissioning_info_def)
    from info_observed_ok [OF i c(1) payload_ok [OF assms(2)]] window_ok_later [OF _ assms(5)] show ?thesis by blast
  qed
  then show "window_ok (sdk_later k) c'" "r = Ok x \<Longrightarrow> validate_commissioning_info_response x = Ok ()" by blast+
qed

lemma control_exec_ok:
  assumes "control_exec k r s = (s', a)" and "sdk_ok k" and "request_ok r" and "window_ok t (ct_commissioning s)"
    and "t \<le> sdk_observed_at k" and "sdk_observed_at k \<le> sdk_later k"
  shows "window_ok (sdk_later k) (ct_commissioning s') \<and> answer_ok a"
proof -
  have later: "window_ok (sdk_later k) (ct_commissioning s)" using window_ok_later [OF assms(4)] assms(5,6) by simp
  show ?thesis
  proof (cases r)
    case (AskOpenCommissioningWindow n)
    obtain c x where c: "commissioning_open k n (ct_commissioning s) = (c, x)" by fastforce
    from commissioning_open_ok [OF c assms(2,4-6)] assms(1,3) c show ?thesis
      by (cases x) (auto simp: AskOpenCommissioningWindow)
  next
    case AskCommissioningInfo
    obtain c x where c: "commissioning_info k (ct_commissioning s) = (c, x)" by fastforce
    from commissioning_info_ok [OF c assms(2,4-6)] assms(1) c show ?thesis
      by (cases x) (auto simp: AskCommissioningInfo)
  qed (use assms(1) later fabric_resources_ok [OF assms(2)] in \<open>auto split: sum.splits\<close>)
qed

lemma control_run_ok:
  assumes "control_run rs s = (s', as)" and "list_all (\<lambda>(k, r). sdk_ok k \<and> request_ok r) rs" and "monotone t rs"
    and "window_ok t (ct_commissioning s)"
  shows "list_all answer_ok as"
  using assms
proof (induction rs arbitrary: s t as)
  case (Cons kr rs)
  obtain k r where kr: "kr = (k, r)" by fastforce
  obtain s1 a where a: "control_exec k r s = (s1, a)" by fastforce
  show ?case
  proof (cases "ct_ended s")
    case None
    then obtain as' where as': "control_run rs s1 = (s', as')" "as = a # as'"
      using Cons.prems(1) by (auto simp: kr a split: prod.splits)
    have step: "window_ok (sdk_later k) (ct_commissioning s1) \<and> answer_ok a"
      by (rule control_exec_ok [OF a, of t]) (use Cons.prems kr in simp_all)
    then show ?thesis using Cons.IH [OF as'(1), of "sdk_later k"] Cons.prems as'(2) by (simp add: kr)
  qed (use Cons.prems kr in simp)
qed simp

text \<open>The durations that reach the control task were checked, and a window that is advertised is never extended.\<close>

lemma handle_request_asks:
  assumes "handle_request root encode j env m body st = (st', r)" and "list_all request_ok (ms_requests st)"
  shows "list_all request_ok (ms_requests st')"
proof -
  have send: "list_all request_ok (ms_requests (fst (send_runtime b q t)))" if "request_ok q" "list_all request_ok (ms_requests t)" for b q t
    using that by (simp add: send_runtime_def)
  have sync: "list_all request_ok (ms_requests (fst (handle_sync root encode f b x st)))" for f b x
    using assms(2) by (auto simp: handle_sync_def send_runtime_def split: prod.splits sum.splits)
  have event: "list_all request_ok (ms_requests (fst (handle_event b x st)))" for b x
    using assms(2) by (auto simp: handle_event_def send_runtime_def split: prod.splits sum.splits option.splits event_error.splits)
  have trip: "list_all request_ok (ms_requests (fst (runtime_round_trip b a q st)))" if "request_ok q" for b a q
    using send [OF that assms(2), of b] by (auto simp: runtime_round_trip_def split: prod.splits sum.splits)
  have "list_all request_ok (ms_requests (fst (handle_request root encode j env m body st)))"
    using assms(2) sync event trip
    by (auto simp: handle_request_def with_body_def Let_def MINIMUM_COMMISSIONING_WINDOW_SECONDS_def
        MAXIMUM_COMMISSIONING_WINDOW_SECONDS_def split: sum.splits prod.splits)
  then show ?thesis using assms(1) by simp
qed

lemma window_kept:
  assumes "sdk_services k = Ok services" and "Commissionable \<in> set services" and "co_tracked_window c \<noteq> None"
  shows "fst (commissioning_open k n c) = c" and "fst (commissioning_info k c) = c"
  using assms
  by (auto simp: commissioning_open_def commissioning_info_def window_is_open_def open_observed_def info_observed_def observe_def
      split: option.splits)

section \<open>Properties\<close>


definition sample_sdk :: "local_service list \<Rightarrow> nat \<Rightarrow> sdk" where
  "sample_sdk services now = \<lparr>sdk_services = Ok services, sdk_open_window = Ok (), sdk_manual_code = ''12345678901'',
     sdk_qr_code = Ok ''MT:Y.K90SO527JA0648G00'', sdk_fabrics = [], sdk_bump = Ok (), sdk_observed_at = now, sdk_later = now + 5\<rparr>"

definition sample_requests :: "(sdk \<times> runtime_request) list" where
  "sample_requests = [(sample_sdk [OtherService] 100, AskOpenCommissioningWindow 180), (sample_sdk [Commissionable] 3000000000, AskCommissioningInfo)]"


text \<open>
  A fabric whose label has white space around it makes every health answer unacceptable: the label
  is sent as it is, and the host rejects names that are not trimmed.
\<close>

theorem padded_label_fails_health:
  assumes "f \<in> set (sdk_fabrics k)" and "padded (fa_label f)" and "length (sdk_fabrics k) \<le> MAX_RESOURCES"
    and "control_exec k AskHealth s = (s', Some (Ok (HealthIs h)))"
  shows "refresh_health (Ok h) st = Err InvalidResource"
proof -
  have bad: "\<exists>r \<in> set (fabric_resources k). \<not> resource_ok r" 
    using assms(1,2) by (intro bexI [of _ "fabric_resource f"]) (simp_all add: fabric_resource_ok fabric_resources_def)
  have "check_resources seen rs = Err InvalidResource" if "\<exists>r \<in> set rs. \<not> resource_ok r" for seen rs
    using that by (induction seen rs rule: check_resources.induct) auto
  then have "check_resources {} (fabric_resources k) = Err InvalidResource" using bad by blast
  moreover have "hr_resources h = fabric_resources k" using assms(4) by auto
  ultimately show ?thesis using assms(3) by (simp add: refresh_health_def validate_resources_def fabric_resources_def)
qed

end
