(* ===== verification/Float_Arith.thy ===== *)
theory Float_Arith
  imports Complex_Main Float64
begin

text \<open>
  Arithmetic on \<open>f64\<close> where the program computes with it, and how far a rounded result is from the
  exact one. The operations are executable on bit patterns; the lemmas read a finite pattern as a
  real number.
\<close>

section \<open>Arithmetic\<close>

text \<open>
  The operations of IEEE 754 with rounding to nearest, as Rust specifies them for \<open>f64\<close>: the exact
  result of two finite operands is rounded once.
\<close>

definition f64_nan :: f64 where "f64_nan = f64_of_fields False 2047 (2 ^ 51)"

definition is_infinite :: "f64 \<Rightarrow> bool" where
  "is_infinite x \<longleftrightarrow> f64_exponent x = 0x7FF \<and> f64_mantissa x = 0"

definition f64_neg :: "f64 \<Rightarrow> f64" where
  "f64_neg x = f64_of_fields (\<not> f64_negative x) (f64_exponent x) (f64_mantissa x)"

definition f64_add :: "f64 \<Rightarrow> f64 \<Rightarrow> f64" where
  "f64_add x y =
     (if is_nan x \<or> is_nan y \<or> (is_infinite x \<and> is_infinite y \<and> f64_negative x \<noteq> f64_negative y) then f64_nan
      else if is_infinite x then x
      else if is_infinite y then y
      else let t = scaled x + scaled y
           in if t = 0 then f64_of_fields (f64_negative x \<and> f64_negative y) 0 0
              else nearest_f64 (t < 0) (nat \<bar>t\<bar>) (2 ^ 1074))"

definition f64_sub :: "f64 \<Rightarrow> f64 \<Rightarrow> f64" where
  "f64_sub x y = f64_add x (f64_neg y)"

definition f64_mul :: "f64 \<Rightarrow> f64 \<Rightarrow> f64" where
  "f64_mul x y =
     (let s = (f64_negative x \<noteq> f64_negative y) in
      if is_nan x \<or> is_nan y \<or> (is_infinite x \<and> scaled y = 0) \<or> (scaled x = 0 \<and> is_infinite y) then f64_nan
      else if is_infinite x \<or> is_infinite y then f64_of_fields s 2047 0
      else nearest_f64 s (magnitude x * magnitude y) (2 ^ 1074 * 2 ^ 1074))"

definition f64_div :: "f64 \<Rightarrow> f64 \<Rightarrow> f64" where
  "f64_div x y =
     (let s = (f64_negative x \<noteq> f64_negative y) in
      if is_nan x \<or> is_nan y \<or> (is_infinite x \<and> is_infinite y) \<or> (scaled x = 0 \<and> scaled y = 0) then f64_nan
      else if is_infinite x \<or> scaled y = 0 then f64_of_fields s 2047 0
      else if is_infinite y then f64_of_fields s 0 0
      else nearest_f64 s (magnitude x) (magnitude y))"

text \<open>\<open>f64::from(u8)\<close>, \<open>clamp\<close>, \<open>round\<close> (half away from zero) and the saturating cast to an integer type.\<close>

definition f64_of_nat :: "nat \<Rightarrow> f64" where
  "f64_of_nat k = nearest_f64 False k 1"

definition f64_clamp :: "f64 \<Rightarrow> f64 \<Rightarrow> f64 \<Rightarrow> f64" where
  "f64_clamp lo hi x =
     (if \<not> is_nan x \<and> scaled x < scaled lo then lo else if \<not> is_nan x \<and> scaled hi < scaled x then hi else x)"

definition f64_round :: "f64 \<Rightarrow> f64" where
  "f64_round x =
     (if f64_exponent x = 0x7FF then x
      else nearest_f64 (f64_negative x) ((2 * magnitude x + 2 ^ 1074) div 2 ^ 1075) 1)"

definition f64_cast :: "int \<Rightarrow> int \<Rightarrow> f64 \<Rightarrow> int" where
  "f64_cast lo hi x =
     (if is_nan x then 0
      else let t = int (magnitude x div 2 ^ 1074) in max lo (min hi (if f64_negative x then - t else t)))"

section \<open>Fields\<close>

lemma f64_fields_nat:
  assumes "n < 2 ^ 64"
  shows "f64_negative (F64 (of_nat n)) \<longleftrightarrow> odd (n div 2 ^ 63)"
    and "f64_exponent (F64 (of_nat n)) = n div 2 ^ 52 mod 2048" and "f64_mantissa (F64 (of_nat n)) = n mod 2 ^ 52"
proof -
  have u: "unat (of_nat n :: 64 word) = n" using assms by (simp add: unat_of_nat)
  have e: "(0x7FF :: 64 word) = mask 11" and m: "(0xFFFFFFFFFFFFF :: 64 word) = mask 52" by (simp_all add: mask_eq_exp_minus_1)
  show "f64_exponent (F64 (of_nat n)) = n div 2 ^ 52 mod 2048"
    unfolding f64_exponent_def e take_bit_eq_mask [symmetric] unsigned_take_bit_eq unat_drop_bit_eq f64.sel u
    by (simp add: take_bit_eq_mod drop_bit_eq_div)
  show "f64_mantissa (F64 (of_nat n)) = n mod 2 ^ 52"
    unfolding f64_mantissa_def m take_bit_eq_mask [symmetric] unsigned_take_bit_eq f64.sel u by (simp only: take_bit_eq_mod)
  show "f64_negative (F64 (of_nat n)) \<longleftrightarrow> odd (n div 2 ^ 63)"
    using bit_unsigned_iff [of "of_nat n :: 64 word" 63, where 'a = nat] by (simp add: f64_negative_def u bit_iff_odd)
qed

lemma f64_of_fields_bits:
  assumes "e < 2048" and "m < 2 ^ 52"
  shows "f64_negative (f64_of_fields s e m) = s" and "f64_exponent (f64_of_fields s e m) = e" and "f64_mantissa (f64_of_fields s e m) = m"
proof -
  define t where "t = (if s then 2048 else 0) + e"
  define n where "n = t * 2 ^ 52 + m"
  have f: "f64_of_fields s e m = F64 (of_nat n)" unfolding f64_of_fields_def n_def t_def by (simp add: algebra_simps)
  have low: "n mod 2 ^ 52 = m" and "n div 2 ^ 52 = t" using assms(2) unfolding n_def by simp_all
  then have mid: "n div 2 ^ 52 = (if s then 2048 else 0) + e" by (simp only: t_def)
  have n: "n < 2 ^ 64" using assms by (auto simp: n_def t_def)
  have "n div 2 ^ 63 = n div 2 ^ 52 div 2 ^ 11" by (simp flip: div_mult2_eq)
  then have high: "n div 2 ^ 63 = (if s then 1 else 0)" using assms mid by auto
  show "f64_negative (f64_of_fields s e m) = s" and "f64_exponent (f64_of_fields s e m) = e" and "f64_mantissa (f64_of_fields s e m) = m"
    unfolding f f64_fields_nat [OF n] using low mid high assms by auto
qed

section \<open>The nearest double\<close>

text \<open>The value of a finite double, as a real number.\<close>

definition f64_real :: "f64 \<Rightarrow> real" where
  "f64_real x = real_of_int (scaled x) / 2 ^ 1074"

lemma bit_length_bounds: "0 < n \<Longrightarrow> 2 ^ (bit_length n - 1) \<le> n \<and> n < 2 ^ bit_length n \<and> 0 < bit_length n"
proof (induction n rule: bit_length.induct)
  case (1 n)
  show ?case
  proof (cases "n div 2 = 0")
    case True
    then have "n = 1" using 1(2) by auto
    then show ?thesis by (simp add: bit_length.simps [of "Suc 0"] bit_length.simps [of 0])
  next
    case False
    then have ih: "2 ^ (bit_length (n div 2) - 1) \<le> n div 2" "n div 2 < 2 ^ bit_length (n div 2)" "0 < bit_length (n div 2)"
      using 1 by auto
    have l: "bit_length n = Suc (bit_length (n div 2))" using 1(2) by (simp add: bit_length.simps [of n])
    have "(2::nat) ^ bit_length (n div 2) = 2 * 2 ^ (bit_length (n div 2) - 1)" using ih(3) by (cases "bit_length (n div 2)") auto
    moreover define k where "k = (2::nat) ^ (bit_length (n div 2) - 1)"
    ultimately have "2 ^ bit_length (n div 2) = 2 * k" "k \<le> n div 2" "n div 2 < 2 * k" using ih by simp_all
    then have "2 * k \<le> n" "n < 2 * (2 * k)" by linarith+
    then show ?thesis using \<open>2 ^ bit_length (n div 2) = 2 * k\<close> l by simp
  qed
qed

text \<open>The quotient of a scaled pair is the number divided by a power of two.\<close>

lemma scaled_pair_real:
  assumes "scaled_pair n d e = (a, b)" and "0 < d"
  shows "0 < b" and "real a / real b = real n / real d * 2 powr (- real_of_int e)"
proof -
  have a: "a = n * 2 ^ nat (- e)" and b: "b = d * 2 ^ nat e" using assms(1) by (simp_all add: scaled_pair_def)
  show "0 < b" using assms(2) by (simp add: b)
  have p: "2 powr (- real_of_int e) = 2 ^ nat (- e) / 2 ^ nat e"
    by (cases "0 \<le> e") (simp_all add: powr_minus powr_realpow [symmetric] field_simps)
  show "real a / real b = real n / real d * 2 powr (- real_of_int e)" unfolding p by (simp add: a b field_simps)
qed

definition round_even :: "nat \<Rightarrow> nat \<Rightarrow> nat" where
  "round_even a b = (let q = a div b; r = a mod b in if 2 * r > b \<or> (2 * r = b \<and> odd q) then q + 1 else q)"

lemma round_even_error:
  assumes "0 < b"
  shows "\<bar>real (round_even a b) - real a / real b\<bar> \<le> 1 / 2"
proof -
  define q r where "q = a div b" and "r = a mod b"
  have a: "real a = real q * real b + real r" unfolding q_def r_def by (simp flip: of_nat_mult of_nat_add)
  then have "real a / real b = real q + real r / real b" using assms by (simp add: field_simps)
  moreover have "real r / real b \<le> 1 / 2 \<or> 2 * r > b" using assms by (simp add: field_simps flip: of_nat_mult) linarith
  moreover have "1 / 2 \<le> real r / real b \<or> 2 * r < b" using assms by (simp add: field_simps) linarith
  moreover have "real r / real b < 1" "0 \<le> real r / real b" using assms by (simp_all add: r_def)
  ultimately show ?thesis unfolding round_even_def Let_def q_def [symmetric] r_def [symmetric] by (auto simp: abs_le_iff)
qed

lemma round_even_exact: "0 < b \<Longrightarrow> round_even (k * b) b = k"
  by (simp add: round_even_def)

lemma round_even_le: 
  assumes "0 < b" and "real a / real b < real k" shows "round_even a b \<le> k"
proof -
  have "real (round_even a b) < real k + 1" using round_even_error [OF assms(1), of a] assms(2) by linarith
  then show ?thesis by linarith
qed

lemma round_even_ge: 
  assumes "0 < b" and "real k \<le> real a / real b" shows "k \<le> round_even a b"
proof -
  have "real k < real (round_even a b) + 1" using round_even_error [OF assms(1), of a] assms(2) by linarith
  then show ?thesis by linarith
qed


lemma powr_shift:
  fixes x y e :: real
  shows "y \<le> x * 2 powr (- e) \<longleftrightarrow> y * 2 powr e \<le> x" and "x * 2 powr (- e) < y \<longleftrightarrow> x < y * 2 powr e"
  by (simp_all add: powr_minus_divide pos_le_divide_eq pos_divide_less_eq)

lemma nearest_exponent:
  assumes "0 < n" and "0 < d"
  defines "e0 \<equiv> int (bit_length n) - int (bit_length d) - 53"
  defines "e1 \<equiv> (case scaled_pair n d e0 of (a, b) \<Rightarrow> if a div b \<ge> 2 ^ 53 then e0 + 1 else e0)"
  shows "2 powr (real_of_int e1 + 52) \<le> real n / real d" and "real n / real d < 2 powr (real_of_int e1 + 53)"
proof -
  have pow: "real (2 ^ k) = 2 powr real k" for k by (simp add: powr_realpow)
  note bn = bit_length_bounds [OF assms(1)] and bd = bit_length_bounds [OF assms(2)]
  have n: "2 powr (real (bit_length n) - 1) \<le> real n" "real n < 2 powr real (bit_length n)"
    using bn of_nat_mono [of "2 ^ (bit_length n - 1)" n, where 'a = real] of_nat_less_iff [of n "2 ^ bit_length n", where 'a = real]
    unfolding pow by (auto simp: of_nat_diff)
  have d: "2 powr (real (bit_length d) - 1) \<le> real d" "real d < 2 powr real (bit_length d)"
    using bd of_nat_mono [of "2 ^ (bit_length d - 1)" d, where 'a = real] of_nat_less_iff [of d "2 ^ bit_length d", where 'a = real]
    unfolding pow by (auto simp: of_nat_diff)
  have dpos: "0 < real d" using assms(2) by simp
  have "2 powr (real_of_int e0 + 52) * real d \<le> 2 powr (real_of_int e0 + 52) * 2 powr real (bit_length d)" using d by simp
  also have "\<dots> = 2 powr (real (bit_length n) - 1)" by (simp add: e0_def flip: powr_add)
  finally have low: "2 powr (real_of_int e0 + 52) \<le> real n / real d" using n dpos by (simp add: pos_le_divide_eq)
  have "2 powr real (bit_length n) = 2 powr (real_of_int e0 + 54) * 2 powr (real (bit_length d) - 1)" by (simp add: e0_def flip: powr_add)
  also have "\<dots> \<le> 2 powr (real_of_int e0 + 54) * real d" using d by simp
  finally have high: "real n / real d < 2 powr (real_of_int e0 + 54)" using n dpos by (simp add: pos_divide_less_eq)
  obtain a b where ab: "scaled_pair n d e0 = (a, b)" by fastforce
  note sp = scaled_pair_real [OF ab assms(2)]
  have cmp: "2 ^ 53 \<le> a div b \<longleftrightarrow> 2 powr (real_of_int e0 + 53) \<le> real n / real d"
  proof -
    have "2 ^ 53 \<le> a div b \<longleftrightarrow> 2 ^ 53 * b \<le> a" using sp(1) by (simp add: less_eq_div_iff_mult_less_eq)
    also have "\<dots> \<longleftrightarrow> 2 ^ 53 * real b \<le> real a" using of_nat_le_iff [of "2 ^ 53 * b" a, where 'a = real] by simp
    also have "\<dots> \<longleftrightarrow> 2 ^ 53 \<le> real a / real b" using sp(1) by (simp add: pos_le_divide_eq)
    also have "\<dots> \<longleftrightarrow> 2 ^ 53 * 2 powr real_of_int e0 \<le> real n / real d"
      unfolding sp(2) by (rule powr_shift)
    finally show ?thesis by (simp add: powr_add mult.commute)
  qed
  show "2 powr (real_of_int e1 + 52) \<le> real n / real d" and "real n / real d < 2 powr (real_of_int e1 + 53)"
    using low high cmp by (auto simp: e1_def ab algebra_simps)
qed


lemma f64_real_fields:
  assumes "m < 2 ^ 52" and "k < 2047"
  shows "is_finite (f64_of_fields s k m)"
    and "\<bar>f64_real (f64_of_fields s k m)\<bar> = (if k = 0 then real m else real (2 ^ 52 + m) * 2 ^ (k - 1)) / 2 ^ 1074"
    and "f64_negative (f64_of_fields s k m) = s"
proof -
  note bits = f64_of_fields_bits [of k m s]
  show "is_finite (f64_of_fields s k m)" using assms bits by (simp add: is_finite_def)
  show "f64_negative (f64_of_fields s k m) = s" using assms bits by simp
  have "magnitude (f64_of_fields s k m) = (if k = 0 then m else (2 ^ 52 + m) * 2 ^ (k - 1))" using assms bits by (cases "k = 0") (simp_all add: magnitude_def)
  moreover have "\<bar>scaled x\<bar> = int (magnitude x)" for x by (simp add: scaled_def)
  ultimately have "\<bar>scaled (f64_of_fields s k m)\<bar> = int (if k = 0 then m else (2 ^ 52 + m) * 2 ^ (k - 1))" by (simp only:)
  then show "\<bar>f64_real (f64_of_fields s k m)\<bar> = (if k = 0 then real m else real (2 ^ 52 + m) * 2 ^ (k - 1)) / 2 ^ 1074"
    by (simp add: f64_real_def flip: of_int_abs)
qed

lemma exponent_powr:
  assumes "-1074 \<le> k"
  shows "2 ^ nat (k + 1074) / 2 ^ 1074 = 2 powr real_of_int k"
proof -
  have "(2::real) ^ nat (k + 1074) = 2 powr (real_of_int k + 1074)" using assms powr_realpow [of 2 "nat (k + 1074)"] by simp
  then show ?thesis by (simp add: powr_add)
qed

text \<open>The fields chosen for a rounded significand and an exponent: a subnormal, a normal number, or the next
  power of two when rounding carried into it.\<close>

lemma rounded_fields:
  assumes x: "x = (let (q2, e2) = (if q = 2 ^ 53 then (2 ^ 52, e + 1) else (q, e)) in
        if e2 > 971 then f64_of_fields s 2047 0 else if q2 < 2 ^ 52 then f64_of_fields s 0 q2
        else f64_of_fields s (nat (e2 + 1075)) (q2 - 2 ^ 52))"
    and small: "e < 900" and lower: "-1074 \<le> e" and qle: "q \<le> 2 ^ 53" and qge: "e \<noteq> -1074 \<Longrightarrow> 2 ^ 52 \<le> q"
  shows "is_finite x \<and> f64_negative x = s \<and> \<bar>f64_real x\<bar> = real q * 2 powr real_of_int e"
proof -
  consider (low) "q < 2 ^ 52" "e = -1074" "x = f64_of_fields s 0 q"
    | (mid) "2 ^ 52 \<le> q" "q < 2 ^ 53" "x = f64_of_fields s (nat (e + 1075)) (q - 2 ^ 52)"
    | (top) "q = 2 ^ 53" "x = f64_of_fields s (nat (e + 1076)) 0"
    using x qge qle small by (cases "q = 2 ^ 53"; cases "q < 2 ^ 52") (auto simp: algebra_simps)
  then show ?thesis
  proof cases
    case low
    then show ?thesis using f64_real_fields [of q 0 s] by (simp add: powr_minus_divide)
  next
    case mid
    have "nat (e + 1075) - 1 = nat (e + 1074)" by simp
    then show ?thesis using f64_real_fields [of "q - 2 ^ 52" "nat (e + 1075)" s] mid small lower exponent_powr [of e]
      by (simp only: mid(3)) (auto simp: times_divide_eq_right [symmetric] simp del: times_divide_eq_right)
  next
    case top
    have "nat (e + 1076) - 1 = nat (e + 1 + 1074)" by simp
    then show ?thesis using f64_real_fields [of 0 "nat (e + 1076)" s] top small lower exponent_powr [of "e + 1"]
      by (simp only: top) (auto simp: times_divide_eq_right [symmetric] powr_add simp del: times_divide_eq_right)
  qed
qed

text \<open>
  The rounded quotient is that of the scaled pair, for an exponent that gives 53 significant bits
  or is the smallest.
\<close>

lemma nearest_f64_cases:
  assumes "0 < n" and "0 < d" and "real n / real d \<le> 2 powr 900"
  obtains e a b where "scaled_pair n d e = (a, b)" and "-1074 \<le> e" and "e = -1074 \<or> 2 powr (real_of_int e + 52) \<le> real n / real d"
    and "is_finite (nearest_f64 s n d)" and "f64_negative (nearest_f64 s n d) = s"
    and "\<bar>f64_real (nearest_f64 s n d)\<bar> = real (round_even a b) * 2 powr real_of_int e"
proof -
  define e0 where "e0 = int (bit_length n) - int (bit_length d) - 53"
  define e1 where "e1 = (case scaled_pair n d e0 of (a, b) \<Rightarrow> if a div b \<ge> 2 ^ 53 then e0 + 1 else e0)"
  define e where "e = max e1 (-1074)"
  note ex = nearest_exponent [OF assms(1,2), folded e0_def, folded e1_def]
  obtain a b where ab: "scaled_pair n d e = (a, b)" by fastforce
  note sp = scaled_pair_real [OF ab assms(2)]
  define q where "q = round_even a b"
  have small: "e < 900"
  proof -
    have "2 powr (real_of_int e1 + 52) \<le> 2 powr 900" using ex(1) assms(3) by linarith
    then have "real_of_int e1 + 52 \<le> 900" by (simp only: powr_le_cancel_iff)
    then show ?thesis by (simp add: e_def)
  qed
  have up: "real a / real b < 2 ^ 53"
  proof -
    have "2 powr (real_of_int e1 + 53) \<le> 2 powr (real_of_int e + 53)" by (rule powr_mono) (simp_all add: e_def)
    then have "real n / real d < 2 powr (real_of_int e + 53)" using ex(2) by linarith
    then show ?thesis unfolding sp(2) powr_shift by (simp add: powr_add mult.commute)
  qed
  then have qle: "q \<le> 2 ^ 53" using round_even_le [OF sp(1), of a "2 ^ 53"] by (simp add: q_def)
  have qge: "2 ^ 52 \<le> q" if "e \<noteq> -1074"
  proof -
    have "2 powr (real_of_int e + 52) \<le> real n / real d" using ex(1) that by (simp add: e_def max_def split: if_splits)
    then have "2 ^ 52 \<le> real a / real b" unfolding sp(2) powr_shift by (simp add: powr_add mult.commute)
    then show ?thesis using round_even_ge [OF sp(1), of "2 ^ 52" a] by (simp add: q_def)
  qed
  have lower: "-1074 \<le> e" by (simp add: e_def)
  show thesis
  proof (rule that [OF ab])
    show "-1074 \<le> e" by (simp add: e_def)
    show "e = -1074 \<or> 2 powr (real_of_int e + 52) \<le> real n / real d" using ex(1) by (auto simp: e_def max_def)
    have n0: "(n = 0) = False" using assms(1) by simp
    have q': "(if 2 * (a mod b) > b \<or> (2 * (a mod b) = b \<and> odd (a div b)) then a div b + 1 else a div b) = q"
      by (simp add: q_def round_even_def Let_def)
    have near: "nearest_f64 s n d = (let (q2, e2) = (if q = 2 ^ 53 then (2 ^ 52, e + 1) else (q, e)) in
        if e2 > 971 then f64_of_fields s 2047 0 else if q2 < 2 ^ 52 then f64_of_fields s 0 q2
        else f64_of_fields s (nat (e2 + 1075)) (q2 - 2 ^ 52))"
      using n0 by (simp only: nearest_f64_def Let_def e0_def [symmetric] e1_def [symmetric] e_def [symmetric] ab prod.case q' if_False)
    note rounded_fields [OF near small lower qle qge]
    then show "is_finite (nearest_f64 s n d)" "f64_negative (nearest_f64 s n d) = s"
      "\<bar>f64_real (nearest_f64 s n d)\<bar> = real (round_even a b) * 2 powr real_of_int e" by (simp_all add: q_def)
  qed
qed


lemma nearest_f64_error:
  assumes "0 < d" and "real n / real d \<le> 2 ^ 20"
  shows "is_finite (nearest_f64 s n d)" and "f64_negative (nearest_f64 s n d) = s"
    and "\<bar>\<bar>f64_real (nearest_f64 s n d)\<bar> - real n / real d\<bar> \<le> 1 / 2 ^ 32"
proof -
  have "is_finite (nearest_f64 s n d) \<and> f64_negative (nearest_f64 s n d) = s
      \<and> \<bar>\<bar>f64_real (nearest_f64 s n d)\<bar> - real n / real d\<bar> \<le> 1 / 2 ^ 32"
  proof (cases "n = 0")
    case True
    then show ?thesis using f64_real_fields [of 0 0 s] by (simp add: nearest_f64_def)
  next
    case False
    have "(2::real) ^ 20 \<le> 2 powr 900" using powr_mono [of 20 900 2] by simp
    then have bound: "real n / real d \<le> 2 powr 900" using assms(2) by linarith
    obtain e a b where ab: "scaled_pair n d e = (a, b)" and e: "e = -1074 \<or> 2 powr (real_of_int e + 52) \<le> real n / real d"
      and x: "is_finite (nearest_f64 s n d)" "f64_negative (nearest_f64 s n d) = s"
        "\<bar>f64_real (nearest_f64 s n d)\<bar> = real (round_even a b) * 2 powr real_of_int e"
      using nearest_f64_cases [of n d s, OF _ assms(1) bound] False by blast
    note sp = scaled_pair_real [OF ab assms(1)]
    have "real_of_int e \<le> -32"
    proof (cases "e = -1074")
      case False
      then have "2 powr (real_of_int e + 52) \<le> 2 powr 20" using e assms(2) by (simp add: order_trans)
      then have "real_of_int e + 52 \<le> 20" by (simp only: powr_le_cancel_iff)
      then show ?thesis by simp
    qed simp
    then have "2 powr real_of_int e \<le> 2 powr (-32)" by (simp only: powr_le_cancel_iff)
    then have small: "2 powr real_of_int e \<le> 1 / 2 ^ 32" by (simp add: powr_minus_divide)
    have "real n / real d = real a / real b * 2 powr real_of_int e" unfolding sp(2) by (simp add: mult.assoc flip: powr_add)
    then have "\<bar>f64_real (nearest_f64 s n d)\<bar> - real n / real d = (real (round_even a b) - real a / real b) * 2 powr real_of_int e"
      unfolding x(3) by (simp add: algebra_simps)
    also have "\<bar>\<dots>\<bar> \<le> 1 / 2 * 2 powr real_of_int e" unfolding abs_mult using round_even_error [OF sp(1), of a] by (simp add: mult_right_mono)
    finally show ?thesis using small x by simp
  qed
  then show "is_finite (nearest_f64 s n d)" and "f64_negative (nearest_f64 s n d) = s"
    and "\<bar>\<bar>f64_real (nearest_f64 s n d)\<bar> - real n / real d\<bar> \<le> 1 / 2 ^ 32" by simp_all
qed

text \<open>A quotient that is an integer is not changed.\<close>

lemma nearest_f64_exact:
  assumes "0 < d" and "n = k * d" and "k \<le> 2 ^ 20"
  shows "\<bar>f64_real (nearest_f64 s n d)\<bar> = real k"
proof (cases "k = 0")
  case True
  then show ?thesis using f64_real_fields [of 0 0 s] assms(2) by (simp add: nearest_f64_def)
next
  case False
  have quot: "real n / real d = real k" using assms(1,2) by simp
  have k: "real k \<le> 2 ^ 20" using of_nat_mono [OF assms(3), where 'a = real] by simp
  have "(2::real) ^ 20 \<le> 2 powr 900" using powr_mono [of 20 900 2] by simp
  then have bound: "real n / real d \<le> 2 powr 900" using k unfolding quot by linarith
  have "0 < n" using False assms(1,2) by simp
  then obtain e a b where ab: "scaled_pair n d e = (a, b)" and e: "e = -1074 \<or> 2 powr (real_of_int e + 52) \<le> real n / real d"
    and x: "\<bar>f64_real (nearest_f64 s n d)\<bar> = real (round_even a b) * 2 powr real_of_int e"
    using nearest_f64_cases [of n d s, OF _ assms(1) bound] by blast
  have neg: "e \<le> 0"
  proof (cases "e = -1074")
    case False
    then have "2 powr (real_of_int e + 52) \<le> 2 powr 20" using e k unfolding quot by simp
    then have "real_of_int e + 52 \<le> 20" by (simp only: powr_le_cancel_iff)
    then show ?thesis by simp
  qed simp
  then have "a = k * 2 ^ nat (- e) * d" and "b = d" using ab assms(2) by (auto simp: scaled_pair_def)
  then have "round_even a b = k * 2 ^ nat (- e)" using round_even_exact [OF assms(1), of "k * 2 ^ nat (- e)"] by (simp only:)
  moreover have "(2::real) ^ nat (- e) = 2 powr (- real_of_int e)" using neg powr_realpow [of 2 "nat (- e)"] by simp
  ultimately show ?thesis unfolding x by (simp add: powr_minus_divide)
qed

section \<open>Errors of the operations\<close>

lemma f64_real_signed: "f64_real x = (if f64_negative x then - \<bar>f64_real x\<bar> else \<bar>f64_real x\<bar>)"
  by (simp add: f64_real_def scaled_def)

lemma f64_real_abs: "\<bar>f64_real x\<bar> = real (magnitude x) / 2 ^ 1074"
  by (simp add: f64_real_def scaled_def)

lemma f64_real_scaled: "real_of_int (scaled x) = f64_real x * 2 ^ 1074"
  by (simp add: f64_real_def)

lemma scaled_less_iff: "scaled x < scaled y \<longleftrightarrow> f64_real x < f64_real y"
  by (simp add: f64_real_def divide_less_cancel)

lemma finite_not_infinite [simp]: "is_finite x \<Longrightarrow> \<not> is_infinite x"
  by (simp add: is_finite_def is_infinite_def)

text \<open>The result of an operation on finite numbers whose exact result is \<open>t\<close>.\<close>

definition close_to :: "real \<Rightarrow> f64 \<Rightarrow> bool" where
  "close_to t x \<longleftrightarrow> is_finite x \<and> \<bar>f64_real x - t\<bar> \<le> 1 / 2 ^ 32 \<and> (t \<in> \<int> \<longrightarrow> f64_real x = t)"

lemma signed_close:
  fixes x t c :: real
  assumes "\<bar>\<bar>x\<bar> - \<bar>t\<bar>\<bar> \<le> c" and "x = (if s then - \<bar>x\<bar> else \<bar>x\<bar>)" and "t = 0 \<or> s = (t < 0)"
  shows "\<bar>x - t\<bar> \<le> c"
  using assms by (cases s) (auto simp: abs_if split: if_splits)

lemma nearest_close:
  assumes "0 < d" and "\<bar>t\<bar> = real n / real d" and "\<bar>t\<bar> \<le> 2 ^ 20" and "t = 0 \<or> s = (t < 0)"
  shows "close_to t (nearest_f64 s n d)"
proof -
  let ?x = "nearest_f64 s n d"
  note near = nearest_f64_error [of d n s]
  have sign: "f64_real ?x = (if s then - \<bar>f64_real ?x\<bar> else \<bar>f64_real ?x\<bar>)"
    using f64_real_signed [of ?x] near(2) assms by (simp only: assms)
  have "\<bar>\<bar>f64_real ?x\<bar> - \<bar>t\<bar>\<bar> \<le> 1 / 2 ^ 32" using near(3) assms by simp
  then have "\<bar>f64_real ?x - t\<bar> \<le> 1 / 2 ^ 32" using signed_close sign assms(4) by blast
  moreover have "f64_real ?x = t" if int: "t \<in> \<int>"
  proof -
    obtain z where z: "t = real_of_int z" using int by (auto elim: Ints_cases)
    have "real n = real (nat \<bar>z\<bar> * d)" using assms(1,2) z by (simp add: field_simps)
    then have "n = nat \<bar>z\<bar> * d" by (simp only: of_nat_eq_iff)
    moreover have "nat \<bar>z\<bar> \<le> 2 ^ 20" using assms(3) by (simp add: z nat_le_iff flip: of_int_abs)
    ultimately have "\<bar>\<bar>f64_real ?x\<bar> - \<bar>t\<bar>\<bar> \<le> 0" using nearest_f64_exact [OF assms(1), of n "nat \<bar>z\<bar>" s] z by simp
    then have "\<bar>f64_real ?x - t\<bar> \<le> 0" using signed_close sign assms(4) by blast
    then show ?thesis by simp
  qed
  ultimately show ?thesis using near(1) assms by (simp add: close_to_def)
qed

lemma f64_mul_close:
  assumes "is_finite x" and "is_finite y" and "\<bar>f64_real x * f64_real y\<bar> \<le> 2 ^ 20"
  shows "close_to (f64_real x * f64_real y) (f64_mul x y)"
proof -
  have "\<bar>f64_real x * f64_real y\<bar> = real (magnitude x * magnitude y) / real (2 ^ 1074 * 2 ^ 1074)"
    unfolding abs_mult f64_real_abs by simp
  moreover have "f64_real x * f64_real y = 0 \<or> (f64_negative x \<noteq> f64_negative y) = (f64_real x * f64_real y < 0)"
    using f64_real_signed [of x] f64_real_signed [of y] by (auto simp: mult_less_0_iff split: if_splits)
  ultimately show ?thesis using nearest_close [OF _ _ assms(3)] assms(1,2) by (simp add: f64_mul_def Let_def)
qed

lemma f64_div_close:
  assumes "is_finite x" and "is_finite y" and "f64_real y \<noteq> 0" and "\<bar>f64_real x / f64_real y\<bar> \<le> 2 ^ 20"
  shows "close_to (f64_real x / f64_real y) (f64_div x y)"
proof -
  have "\<bar>f64_real x / f64_real y\<bar> = real (magnitude x) / real (magnitude y)" unfolding abs_divide f64_real_abs by simp
  moreover have "f64_real x / f64_real y = 0 \<or> (f64_negative x \<noteq> f64_negative y) = (f64_real x / f64_real y < 0)"
    using f64_real_signed [of x] f64_real_signed [of y] assms(3) by (auto simp: divide_less_0_iff split: if_splits)
  moreover have "scaled y \<noteq> 0" "0 < magnitude y" using assms(3) by (auto simp: f64_real_def scaled_def split: if_splits)
  ultimately show ?thesis using nearest_close [OF _ _ assms(4)] assms(1,2) by (simp add: f64_div_def Let_def)
qed

lemma f64_add_close:
  assumes "is_finite x" and "is_finite y" and "\<bar>f64_real x + f64_real y\<bar> \<le> 2 ^ 20"
  shows "close_to (f64_real x + f64_real y) (f64_add x y)"
proof -
  define t where "t = scaled x + scaled y"
  have sum: "f64_real x + f64_real y = real_of_int t / 2 ^ 1074" by (simp add: t_def f64_real_def add_divide_distrib)
  show ?thesis
  proof (cases "t = 0")
    case True
    then show ?thesis using f64_real_fields [of 0 0] assms(1,2) sum by (simp add: f64_add_def Let_def close_to_def t_def)
  next
    case False
    have "\<bar>f64_real x + f64_real y\<bar> = real (nat \<bar>t\<bar>) / real (2 ^ 1074)" unfolding sum by simp
    moreover have "(t < 0) = (f64_real x + f64_real y < 0)" unfolding sum by (simp add: divide_less_0_iff)
    ultimately show ?thesis using nearest_close [OF _ _ assms(3)] assms(1,2) False by (simp add: f64_add_def Let_def flip: t_def)
  qed
qed

lemma f64_fields_bound: "f64_exponent x < 2048" "f64_mantissa x < 2 ^ 52"
proof -
  have "unat (bits x) < 2 ^ 64" using unsigned_less [of "bits x", where 'a = nat] by simp
  then show "f64_exponent x < 2048" and "f64_mantissa x < 2 ^ 52" using f64_fields_nat(2,3) [of "unat (bits x)"] by simp_all
qed

lemma f64_neg_real [simp]: "is_finite x \<Longrightarrow> is_finite (f64_neg x)" "is_finite x \<Longrightarrow> f64_real (f64_neg x) = - f64_real x"
proof -
  note bits = f64_of_fields_bits [OF f64_fields_bound(1) [of x] f64_fields_bound(2) [of x], of "\<not> f64_negative x", folded f64_neg_def]
  then have "is_finite (f64_neg x) = is_finite x" and "magnitude (f64_neg x) = magnitude x"
    by (simp_all add: is_finite_def magnitude_def)
  then show "is_finite x \<Longrightarrow> is_finite (f64_neg x)" and "is_finite x \<Longrightarrow> f64_real (f64_neg x) = - f64_real x"
    using bits by (simp_all add: f64_real_def scaled_def)
qed

lemma f64_of_nat_real:
  assumes "k \<le> 2 ^ 20"
  shows "is_finite (f64_of_nat k)" and "f64_real (f64_of_nat k) = real k"
  using nearest_close [of 1 "real k" k False] assms by (simp_all add: f64_of_nat_def close_to_def)

lemma f64_clamp_real:
  assumes "is_finite x" and "is_finite lo" and "is_finite hi"
  shows "is_finite (f64_clamp lo hi x)"
    and "f64_real (f64_clamp lo hi x) = (if f64_real x < f64_real lo then f64_real lo else if f64_real hi < f64_real x then f64_real hi else f64_real x)"
  using assms by (simp_all add: f64_clamp_def scaled_less_iff)

text \<open>Rounding and casting, on real numbers.\<close>

definition round_away :: "real \<Rightarrow> int" where
  "round_away x = (if x < 0 then - \<lfloor>1 / 2 - x\<rfloor> else \<lfloor>x + 1 / 2\<rfloor>)"

lemma f64_round_cast:
  assumes "is_finite x" and "\<bar>f64_real x\<bar> \<le> 2 ^ 19"
  shows "f64_cast lo hi (f64_round x) = max lo (min hi (round_away (f64_real x)))"
proof -
  define r where "r = (2 * magnitude x + 2 ^ 1074) div 2 ^ 1075"
  have r: "int r = \<lfloor>\<bar>f64_real x\<bar> + 1 / 2\<rfloor>"
  proof -
    have "\<bar>f64_real x\<bar> + 1 / 2 = real (2 * magnitude x + 2 ^ 1074) / real (2 ^ 1075)" unfolding f64_real_abs by (simp add: field_simps)
    then show ?thesis unfolding r_def by (simp only: floor_divide_of_nat_eq)
  qed
  then have "real r \<le> \<bar>f64_real x\<bar> + 1 / 2" using of_int_floor_le [of "\<bar>f64_real x\<bar> + 1 / 2"] by (simp flip: r)
  then have small: "r \<le> 2 ^ 20" using assms(2) by simp
  define t where "t = (if f64_negative x then - real r else real r)"
  have "close_to t (nearest_f64 (f64_negative x) r 1)"
    by (rule nearest_close) (use of_nat_mono [OF small, where 'a = real] in \<open>auto simp: t_def\<close>)
  moreover have "t \<in> \<int>" by (simp add: t_def)
  moreover have round: "f64_round x = nearest_f64 (f64_negative x) r 1" using assms(1) by (simp add: f64_round_def is_finite_def r_def)
  ultimately have y: "is_finite (f64_round x)" "f64_real (f64_round x) = t" by (simp_all add: close_to_def)
  have "real (magnitude (f64_round x)) = real r * 2 ^ 1074" using f64_real_abs [of "f64_round x"] y(2) by (simp add: t_def field_simps split: if_splits)
  moreover have "m = r * 2 ^ c" if "real m = real r * 2 ^ c" for m c
    using that by (metis of_nat_eq_iff of_nat_mult of_nat_numeral of_nat_power)
  ultimately have "magnitude (f64_round x) = r * 2 ^ 1074" by blast
  then have cast: "magnitude (f64_round x) div 2 ^ 1074 = r" by (simp only: nonzero_mult_div_cancel_right) simp
  have neg: "f64_negative (f64_round x) = f64_negative x"
    unfolding round by (rule nearest_f64_error(2)) (use of_nat_mono [OF small, where 'a = real] in simp_all)
  have "(if f64_negative x then - int r else int r) = round_away (f64_real x)"
    using r f64_real_signed [of x] by (auto simp: round_away_def algebra_simps split: if_splits)
  then show ?thesis unfolding f64_cast_def Let_def cast using y(1) neg by simp
qed

lemma round_away_near:
  assumes "\<bar>x - real_of_int k\<bar> < 1 / 2"
  shows "round_away x = k"
proof (cases "x < 0")
  case True
  have "\<lfloor>1 / 2 - x\<rfloor> = - k" by (rule floor_unique) (use assms in linarith)+
  then show ?thesis using True by (simp add: round_away_def)
next
  case False
  have "\<lfloor>x + 1 / 2\<rfloor> = k" by (rule floor_unique) (use assms in linarith)+
  then show ?thesis using False by (simp add: round_away_def)
qed

lemma round_away_bounds:
  assumes "real_of_int lo - 1 / 2 < x" and "x < real_of_int hi + 1 / 2"
  shows "lo \<le> round_away x" and "round_away x \<le> hi"
proof -
  have "\<lfloor>1 / 2 - x\<rfloor> \<le> - lo" and "lo \<le> \<lfloor>x + 1 / 2\<rfloor>" and "- hi \<le> \<lfloor>1 / 2 - x\<rfloor>" and "\<lfloor>x + 1 / 2\<rfloor> \<le> hi"
    using assms by (simp_all add: floor_le_iff le_floor_iff)
  then show "lo \<le> round_away x" and "round_away x \<le> hi" unfolding round_away_def by auto
qed

end
