(* ===== verification/Matter_Clusters.thy ===== *)
theory Matter_Clusters
  imports Matter_Bridge Float_Arith
begin

text \<open>
  The handlers of the Matter clusters, \<open>bridge/level.rs\<close>, \<open>bridge/on_off.rs\<close>, \<open>bridge/sensors.rs\<close> and
  \<open>bridge/bridged.rs\<close>, with the conversions between percentages and Matter levels of
  \<open>projection.rs\<close>. A handler that sends a command is suspended until the host answers, so it is a
  machine: what it asks for, and what it does with each answer.
\<close>

section \<open>Levels\<close>

definition matter_level :: "f64 \<Rightarrow> nat" where
  "matter_level percent =
     nat (f64_cast 0 255 (f64_round (f64_add f64_one
       (f64_div (f64_mul (f64_clamp f64_zero f64_hundred percent) (f64_of_nat 253)) f64_hundred))))"

definition canonical_level :: "nat \<Rightarrow> f64" where
  "canonical_level level =
     f64_div (f64_mul (f64_sub (f64_of_nat (max 1 (min 254 level))) f64_one) f64_hundred) (f64_of_nat 253)"

section \<open>The level cluster\<close>

datatype level_attribute =
    RemainingTime | MinLevel | MaxLevel | LevelOptions | OnOffTransitionTime | OnLevel | DefaultMoveRate

text \<open>The attributes with a fixed value; \<open>None\<close> is null. A write to one of them is accepted and ignored.\<close>

fun level_attribute_value :: "level_attribute \<Rightarrow> nat option" where
  "level_attribute_value RemainingTime = Some 0"
| "level_attribute_value MinLevel = Some 1"
| "level_attribute_value MaxLevel = Some 254"
| "level_attribute_value LevelOptions = Some 0"
| "level_attribute_value OnOffTransitionTime = Some 0"
| "level_attribute_value OnLevel = None"
| "level_attribute_value DefaultMoveRate = None"

definition set_level_attribute :: "level_attribute \<Rightarrow> nat option \<Rightarrow> bridge \<Rightarrow> bridge \<times> (matter_error, unit) result" where
  "set_level_attribute a v b = (b, Ok ())"

definition current_level :: "nat \<Rightarrow> bridge \<Rightarrow> (matter_error, nat) result" where
  "current_level e b = and_then (bridge_level e b) (\<lambda>v. Ok (matter_level v))"

datatype level_command =
    MoveToLevel nat
  | MoveLevel bool
  | StepLevel bool nat
  | StopLevel
  | MoveToClosestFrequency

text \<open>The level that a command asks for; \<open>Ok None\<close> is a command that does nothing. Sizes are \<open>u8\<close>.\<close>

definition level_target :: "nat \<Rightarrow> level_command \<Rightarrow> bridge \<Rightarrow> (matter_error, nat option) result" where
  "level_target e m b =
     (case m of
        MoveToLevel n \<Rightarrow> Ok (Some n)
      | MoveLevel up \<Rightarrow> Ok (Some (if up then 254 else 1))
      | StepLevel up step_size \<Rightarrow>
          and_then (bridge_level e b) (\<lambda>v.
            let current = matter_level v
            in Ok (Some (if up then min (min (current + step_size) 255) 254 else max (current - step_size) 1)))
      | StopLevel \<Rightarrow> Ok None
      | MoveToClosestFrequency \<Rightarrow> Err CommandNotFound)"

datatype level_phase =
    AwaitLevel nat nat bool command_request
  | AwaitOnOff nat command_request
  | LevelDone "(matter_error, unit) result"

definition level_set :: "nat \<Rightarrow> nat \<Rightarrow> bool \<Rightarrow> bridge \<Rightarrow> level_phase" where
  "level_set e level with_on_off b =
     (case command_begin e True (CanonicalNumber (canonical_level level)) b of
        Err x \<Rightarrow> LevelDone (Err x)
      | Ok q \<Rightarrow> AwaitLevel e level with_on_off q)"

definition level_handle :: "nat \<Rightarrow> level_command \<Rightarrow> bool \<Rightarrow> bridge \<Rightarrow> level_phase" where
  "level_handle e m with_on_off b =
     (case level_target e m b of
        Err x \<Rightarrow> LevelDone (Err x)
      | Ok None \<Rightarrow> LevelDone (Ok ())
      | Ok (Some n) \<Rightarrow> level_set e n with_on_off b)"

text \<open>The rest of \<open>LevelHandler::set\<close> after an answer, with the attribute that is announced.\<close>

fun level_answered ::
  "(unit, wire_value) result option \<Rightarrow> level_phase \<Rightarrow> bridge \<Rightarrow> bridge \<times> attribute_change option \<times> level_phase" where
  "level_answered answer (AwaitLevel e level with_on_off q) b =
     (case level_finish e answer b of
        (b', Err x) \<Rightarrow> (b', None, LevelDone (Err x))
      | (b', Ok change) \<Rightarrow>
          (b', change,
           if \<not> with_on_off then LevelDone (Ok ())
           else case command_begin e False (CanonicalBool (level > 1)) b' of
                  Err x \<Rightarrow> LevelDone (Err x)
                | Ok q' \<Rightarrow> AwaitOnOff e q'))"
| "level_answered answer (AwaitOnOff e q) b =
     (case on_off_finish e answer b of
        (b', Err x) \<Rightarrow> (b', None, LevelDone (Err x))
      | (b', Ok change) \<Rightarrow> (b', change, LevelDone (Ok ())))"
| "level_answered answer (LevelDone r) b = (b, None, LevelDone r)"

section \<open>The on/off cluster\<close>

datatype on_off_command = TurnOff | TurnOn | Toggle | OffWithEffect | OnWithRecallGlobalScene | OnWithTimedOff

definition on_off_desired :: "nat \<Rightarrow> on_off_command \<Rightarrow> bridge \<Rightarrow> (matter_error, bool) result" where
  "on_off_desired e m b =
     (case m of
        TurnOff \<Rightarrow> Ok False
      | TurnOn \<Rightarrow> Ok True
      | Toggle \<Rightarrow> toggle_desired e b
      | OffWithEffect \<Rightarrow> Ok False
      | OnWithRecallGlobalScene \<Rightarrow> Ok True
      | OnWithTimedOff \<Rightarrow> Ok True)"

definition on_off_handle :: "nat \<Rightarrow> on_off_command \<Rightarrow> bridge \<Rightarrow> (matter_error, command_request) result" where
  "on_off_handle e m b = and_then (on_off_desired e m b) (\<lambda>v. command_begin e False (CanonicalBool v) b)"

section \<open>The sensor clusters\<close>

definition temperature_measured :: "nat \<Rightarrow> bridge \<Rightarrow> (matter_error, int) result" where
  "temperature_measured e b =
     and_then (measured_value e b) (\<lambda>v. Ok (f64_cast (-32768) 32767 (f64_round (f64_mul v f64_hundred))))"

definition temperature_min_measured :: int where "temperature_min_measured = -27315"
definition temperature_max_measured :: int where "temperature_max_measured = 32766"

definition humidity_measured :: "nat \<Rightarrow> bridge \<Rightarrow> (matter_error, int) result" where
  "humidity_measured e b =
     and_then (measured_value e b) (\<lambda>v. Ok (f64_cast 0 65535 (f64_round (f64_mul v f64_hundred))))"

definition humidity_min_measured :: int where "humidity_min_measured = 0"
definition humidity_max_measured :: int where "humidity_max_measured = 10000"

text \<open>The occupancy bitmap has its lowest bit set when the sensor is occupied.\<close>

definition occupancy :: "nat \<Rightarrow> bridge \<Rightarrow> (matter_error, nat) result" where
  "occupancy e b = and_then (state_value e b) (\<lambda>v. Ok (if v then 1 else 0))"

section \<open>Computing levels\<close>

lemma f64_one_real [simp]: "f64_real f64_one = 1"
  by (simp add: f64_real_def f64_one_scaled)

lemma f64_one_finite [simp]: "is_finite f64_one"
  by (simp add: is_finite_def f64_one_def f64_exponent_def)

lemma f64_hundred_real [simp]: "f64_real f64_hundred = 100"
  by (simp add: f64_real_def f64_hundred_scaled)

lemma f64_zero_real [simp]: "f64_real f64_zero = 0"
  by (simp add: f64_real_def)

lemma in_range_real: "is_finite x \<Longrightarrow> is_finite lo \<Longrightarrow> is_finite hi \<Longrightarrow>
    in_range lo hi x \<longleftrightarrow> f64_real lo \<le> f64_real x \<and> f64_real x \<le> f64_real hi"
  by (simp add: in_range_def f64_le_def f64_real_def divide_le_cancel)

lemma close_toD:
  assumes "close_to t x"
  shows "is_finite x" and "\<bar>f64_real x - t\<bar> \<le> 1 / 10000" and "t \<in> \<int> \<Longrightarrow> f64_real x = t"
proof -
  have "\<bar>f64_real x - t\<bar> \<le> 1 / 2 ^ 32" using assms by (simp add: close_to_def)
  then show "\<bar>f64_real x - t\<bar> \<le> 1 / 10000" by (rule order_trans) simp
qed (use assms in \<open>simp_all add: close_to_def\<close>)

text \<open>The level of a percentage is the rounding of a number close to the exact one.\<close>

lemma matter_level_close:
  assumes "is_finite p" and "0 \<le> f64_real p" and "f64_real p \<le> 100"
  obtains y where "\<bar>y - (1 + f64_real p * 253 / 100)\<bar> \<le> 1 / 1000" and "matter_level p = nat (max 0 (min 255 (round_away y)))"
proof -
  have clamp: "f64_clamp f64_zero f64_hundred p = p" using assms
    by (simp add: f64_clamp_def scaled_less_iff del: f64_zero_scaled)
  define m where "m = f64_mul p (f64_of_nat 253)"
  have "close_to (f64_real p * 253) m" using f64_mul_close [of p "f64_of_nat 253"] assms by (simp add: m_def f64_of_nat_real)
  note m = close_toD(1,2) [OF this]
  define d where "d = f64_div m f64_hundred"
  have "\<bar>f64_real m / 100\<bar> \<le> 254" using m(2) assms(2,3) by linarith
  then have "close_to (f64_real m / 100) d" using f64_div_close [of m f64_hundred] m(1) by (simp add: d_def)
  note d = close_toD(1,2) [OF this]
  define a where "a = f64_add f64_one d"
  have "\<bar>1 + f64_real d\<bar> \<le> 256" using d(2) \<open>\<bar>f64_real m / 100\<bar> \<le> 254\<close> by linarith
  then have "close_to (1 + f64_real d) a" using f64_add_close [of f64_one d] d(1) by (simp add: a_def)
  note a = close_toD(1,2) [OF this]
  have "\<bar>f64_real a\<bar> \<le> 257" using a(2) \<open>\<bar>1 + f64_real d\<bar> \<le> 256\<close> by linarith
  then have "matter_level p = nat (max 0 (min 255 (round_away (f64_real a))))"
    unfolding matter_level_def clamp m_def [symmetric] d_def [symmetric] a_def [symmetric]
    using f64_round_cast [of a 0 255] a(1) by simp
  moreover have "\<bar>f64_real a - (1 + f64_real p * 253 / 100)\<bar> \<le> 1 / 1000" using a(2) d(2) m(2) by linarith
  ultimately show thesis using that by blast
qed

lemma matter_level_range:
  assumes "is_finite p" and "0 \<le> f64_real p" and "f64_real p \<le> 100"
  shows "1 \<le> matter_level p" and "matter_level p \<le> 254"
proof -
  obtain y where y: "\<bar>y - (1 + f64_real p * 253 / 100)\<bar> \<le> 1 / 1000" "matter_level p = nat (max 0 (min 255 (round_away y)))"
    using matter_level_close [OF assms] by blast
  have "real_of_int 1 - 1 / 2 < y" "y < real_of_int 254 + 1 / 2" using y(1) assms(2,3) unfolding of_int_1 of_int_numeral by linarith+
  then have "1 \<le> round_away y" "round_away y \<le> 254" using round_away_bounds by blast+
  then show "1 \<le> matter_level p" and "matter_level p \<le> 254" using y(2) by auto
qed

lemma canonical_level_close:
  assumes "m = max 1 (min 254 n)"
  shows "is_finite (canonical_level n)" and "0 \<le> f64_real (canonical_level n)" and "f64_real (canonical_level n) \<le> 100"
    and "\<bar>f64_real (canonical_level n) - (real m - 1) * 100 / 253\<bar> \<le> 1 / 1000"
proof -
  have m: "1 \<le> real m" "real m \<le> 254" using assms by (auto simp: max_def)
  define a where "a = f64_sub (f64_of_nat m) f64_one"
  have "close_to (real m - 1) a"
    using f64_add_close [of "f64_of_nat m" "f64_neg f64_one"] m by (simp add: a_def f64_sub_def f64_of_nat_real abs_le_iff)
  then have a: "is_finite a" "f64_real a = real m - 1" by (simp_all add: close_to_def)
  define h where "h = f64_mul a f64_hundred"
  have "close_to ((real m - 1) * 100) h" using f64_mul_close [of a f64_hundred] a m by (simp add: h_def)
  then have h: "is_finite h" "f64_real h = (real m - 1) * 100" by (simp_all add: close_to_def)
  have c: "canonical_level n = f64_div h (f64_of_nat 253)" by (simp add: canonical_level_def h_def a_def assms)
  have "close_to ((real m - 1) * 100 / 253) (canonical_level n)"
    unfolding c using f64_div_close [of h "f64_of_nat 253"] h m by (simp add: f64_of_nat_real abs_le_iff)
  note c = close_toD [OF this]
  show "is_finite (canonical_level n)" by (rule c(1))
  show near: "\<bar>f64_real (canonical_level n) - (real m - 1) * 100 / 253\<bar> \<le> 1 / 1000" using c(2) by (rule order_trans) simp
  consider "m = 1" | "m = 254" | "2 \<le> real m" "real m \<le> 253" using m by linarith
  then have "0 \<le> f64_real (canonical_level n) \<and> f64_real (canonical_level n) \<le> 100"
  proof cases
    case 3
    define z where "z = (real m - 1) * 100 / 253"
    have "z * 253 = real m * 100 - 100" by (simp add: z_def)
    moreover have "\<bar>f64_real (canonical_level n) - z\<bar> \<le> 1 / 1000" using near by (simp add: z_def)
    ultimately have "0 \<le> f64_real (canonical_level n)" "f64_real (canonical_level n) \<le> 100" using 3 by linarith+
    then show ?thesis by simp
  qed (use c(3) in simp_all)
  then show "0 \<le> f64_real (canonical_level n)" and "f64_real (canonical_level n) \<le> 100" by simp_all
qed

lemma level_of_canonical:
  assumes "m = max 1 (min 254 n)" and "is_finite p" and "f64_real p = f64_real (canonical_level n)"
  shows "matter_level p = m"
proof -
  note c = canonical_level_close [OF assms(1)]
  obtain y where y: "\<bar>y - (1 + f64_real p * 253 / 100)\<bar> \<le> 1 / 1000" "matter_level p = nat (max 0 (min 255 (round_away y)))"
    using matter_level_close [OF assms(2)] c assms(3) by auto
  have "\<bar>y - real_of_int (int m)\<bar> < 1 / 2"
  proof -
    define z where "z = (real m - 1) * 100 / 253"
    have "z * 253 / 100 = real m - 1" by (simp add: z_def)
    moreover have "\<bar>f64_real p - z\<bar> \<le> 1 / 1000" using c(4) by (simp add: assms(3) z_def)
    ultimately show ?thesis using y(1) unfolding of_int_of_nat_eq by linarith
  qed
  then have "round_away y = int m" by (rule round_away_near)
  moreover have "m \<le> 254" using assms(1) by simp
  ultimately show ?thesis using y(2) by simp
qed

section \<open>What the bridge holds\<close>

text \<open>
  A projection has a value for every attribute of its clusters, and its numbers are those that its
  profile admits.
\<close>

definition projection_ok :: "matter_projection \<Rightarrow> bool" where
  "projection_ok p \<longleftrightarrow>
     (mp_profile p \<in> {OnOffLight, DimmableLight, OutletProfile} \<longrightarrow> mp_on p \<noteq> None)
   \<and> (mp_profile p = DimmableLight \<longrightarrow> mp_level p \<noteq> None)
   \<and> (mp_profile p \<in> {TemperatureProfile, HumidityProfile} \<longrightarrow> mp_sensor p \<noteq> None)
   \<and> (mp_profile p \<in> {ContactProfile, OccupancyProfile} \<longrightarrow> mp_binary p \<noteq> None)
   \<and> (\<forall>n. mp_level p = Some n \<longrightarrow> is_finite n \<and> in_range f64_zero f64_hundred n)
   \<and> (\<forall>n. mp_profile p = TemperatureProfile \<and> mp_sensor p = Some n \<longrightarrow> is_finite n \<and> in_range MIN_TEMPERATURE MAX_TEMPERATURE n)
   \<and> (\<forall>n. mp_profile p = HumidityProfile \<and> mp_sensor p = Some n \<longrightarrow> is_finite n \<and> in_range f64_zero f64_hundred n)"

definition set_ok :: "projection_set \<Rightarrow> bool" where
  "set_ok s \<longleftrightarrow> (\<forall>e p. map_of (pj_by_endpoint s) e = Some p \<longrightarrow> projection_ok p)"

lemma number_in_ok: "number_in lo hi v = Some n \<Longrightarrow> is_finite n \<and> in_range lo hi n"
  by (auto simp: number_in_def split: option.splits if_splits)

lemma shape_projection_ok:
  assumes "shape_of d levels vt c v = (ds, Some s)"
  shows "projection_ok (mk_projection dev i s e)"
proof -
  have light: "projection_ok (mk_projection dev i s e)" if "light_shape d (ac_id c) levels vt x = (ds, s)" for x
    using that by (auto simp: light_shape_def on_off_shape_def projection_ok_def mk_projection_def bind_eq_Some_conv
        dest!: number_in_ok split: list.splits if_splits option.splits)
  show ?thesis
    using assms light
    by (auto simp: shape_of_def Let_def projection_ok_def mk_projection_def on_off_shape_def number_shape_def binary_shape_def
        dest!: number_in_ok split: if_splits option.splits prod.splits)
qed

lemma build_capabilities_ok:
  assumes "build_capabilities d lights levels vt cs m b = Ok (m', b')" and "list_all projection_ok (bu_projections b)"
  shows "list_all projection_ok (bu_projections b')"
  using assms
proof (induction cs arbitrary: m b)
  case (Cons c cs)
  obtain ds sh where p: "project_capability (ad_id d) lights levels vt c = (ds, sh)" by fastforce
  have "projection_ok (mk_projection d (ac_id c) s e)" if "sh = Some s" for s e
    using p that shape_projection_ok by (auto simp: project_capability_def split: if_splits option.splits)
  then show ?case
    using Cons p by (cases sh) (auto simp: and_then_eq_Ok add_projection_def diagnose_def)
qed simp

lemma build_devices_ok:
  assumes "build_devices ss m b = Ok (m', b')" and "list_all projection_ok (bu_projections b)"
  shows "list_all projection_ok (bu_projections b')"
  using assms
proof (induction ss arbitrary: m b)
  case (Cons s ss)
  then obtain m1 b1 where d: "build_device s m b = Ok (m1, b1)" and rest: "build_devices ss m1 b1 = Ok (m', b')"
    by (auto simp: and_then_eq_Ok)
  have "list_all projection_ok (bu_projections b1)"
    using d Cons.prems(2) build_capabilities_ok by (auto simp: build_device_def diagnose_def Let_def split: if_splits)
  then show ?case using Cons.IH [OF rest] by simp
qed simp

lemma set_ok_add: "set_ok s \<Longrightarrow> projection_ok p \<Longrightarrow> set_ok (set_add p s)"
  by (auto simp: set_ok_def set_add_def Let_def split: if_splits)

lemma set_ok_replace: "list_all projection_ok ps \<Longrightarrow> set_ok (set_replace ps)"
proof -
  have "set_ok s \<Longrightarrow> list_all projection_ok ps \<Longrightarrow> set_ok (fold set_add ps s)" for s
    by (induction ps arbitrary: s) (simp_all add: set_ok_add)
  then show "list_all projection_ok ps \<Longrightarrow> ?thesis" unfolding set_replace_def
    by (simp add: projection_set_empty_def set_ok_def [of "\<lparr>pj_by_endpoint = [], pj_by_capability = _\<rparr>"])
qed

lemma set_ok_modify:
  assumes "set_ok s" and "\<And>p. map_of (pj_by_endpoint s) e = Some p \<Longrightarrow> projection_ok p \<Longrightarrow> projection_ok (f p)"
  shows "set_ok (set_modify e f s)"
  using assms by (auto simp: set_ok_def set_modify_def split: option.splits if_splits)

lemma project_primary_ok: "project_primary v p = Ok (q, change) \<Longrightarrow> projection_ok p \<Longrightarrow> projection_ok q"
  by (cases "mp_profile p") (auto simp: project_primary_def projection_ok_def Let_def dest!: number_in_ok split: option.splits)

lemma level_projection_ok:
  "projection_ok p \<Longrightarrow> is_finite n \<Longrightarrow> in_range f64_zero f64_hundred n \<Longrightarrow> projection_ok (p\<lparr>mp_level := Some n\<rparr>)"
  by (simp add: projection_ok_def)

lemma on_projection_ok: "projection_ok p \<Longrightarrow> projection_ok (p\<lparr>mp_on := Some v\<rparr>)"
  by (simp add: projection_ok_def)

lemma project_event_ok:
  assumes "project_event c v p = Ok (q, change)" and "projection_ok p"
  shows "projection_ok q"
proof (cases "c = mp_primary p")
  case True
  then show ?thesis using assms project_primary_ok by (simp add: project_event_def)
next
  case False
  then obtain n where "number_in f64_zero f64_hundred v = Some n" "q = p\<lparr>mp_level := Some n\<rparr>"
    using assms(1) by (auto simp: project_event_def split: if_splits option.splits)
  then show ?thesis using number_in_ok level_projection_ok assms(2) by blast
qed

lemma set_ok_update_event:
  assumes "update_event d c v b = (b', r)" and "set_ok (br_set b)"
  shows "set_ok (br_set b')"
proof (cases "find_mut d c (br_set b)")
  case (Some p)
  then obtain e where e: "pj_by_capability (br_set b) (d, c) = Some e" "map_of (pj_by_endpoint (br_set b)) e = Some p"
    by (auto simp: find_mut_def bind_eq_Some_conv)
  show ?thesis
  proof (cases "project_event c v p")
    case (Inr x)
    then obtain q change where q: "project_event c v p = Ok (q, change)" by (cases x) simp
    then have "br_set b' = set_modify e (\<lambda>_. q) (br_set b)" using assms(1) Some e by (auto simp: update_event_def find_modify_def)
    then show ?thesis using set_ok_modify [OF assms(2), of e "\<lambda>_. q"] project_event_ok [OF q] e(2) assms(2)
      by (auto simp: set_ok_def)
  qed (use assms Some in \<open>simp add: update_event_def\<close>)
qed (use assms in \<open>simp add: update_event_def\<close>)

lemma set_ok_on_off_finish:
  assumes "on_off_finish e answer b = (b', r)" and "set_ok (br_set b)"
  shows "set_ok (br_set b')"
proof -
  have "set_ok (br_set (apply_on e v b))" for v
    using assms(2) by (simp add: apply_on_def set_ok_modify on_projection_ok)
  then show ?thesis using assms by (auto simp: on_off_finish_def split: sum.splits canonical_value.splits if_splits)
qed

lemma set_ok_level_finish:
  assumes "level_finish e answer b = (b', r)" and "set_ok (br_set b)"
  shows "set_ok (br_set b')"
proof -
  have "set_ok (br_set (apply_level e v b))" if "command_finish True answer = Ok (CanonicalNumber v)" for v
  proof -
    have "is_finite v \<and> in_range f64_zero f64_hundred v"
      using that number_in_ok by (auto simp: command_finish_def split: option.splits sum.splits)
    then show ?thesis using assms(2) by (simp add: apply_level_def set_ok_modify level_projection_ok)
  qed
  then show ?thesis using assms by (auto simp: level_finish_def split: sum.splits canonical_value.splits if_splits)
qed

section \<open>Reachable bridges\<close>

text \<open>
  The bridges that arise from synchronisations, events, answers to the commands of a controller and
  writes of labels, in any order.
\<close>

inductive bridge_reaches :: "matter_endpoint \<Rightarrow> bridge \<Rightarrow> bool" for node where
  reach_new: "bridge_reaches node (bridge_new node)"
| reach_sync: "bridge_reaches node b \<Longrightarrow> build_devices ss m no_projection = Ok (m', built)
    \<Longrightarrow> bridge_reaches node (bridge_replace node (bu_projections built) b)"
| reach_event: "bridge_reaches node b \<Longrightarrow> update_event d c v b = (b', r) \<Longrightarrow> bridge_reaches node b'"
| reach_on_off: "bridge_reaches node b \<Longrightarrow> on_off_finish e answer b = (b', r) \<Longrightarrow> bridge_reaches node b'"
| reach_level: "bridge_reaches node b \<Longrightarrow> level_answered answer ph b = (b', change, ph') \<Longrightarrow> bridge_reaches node b'"
| reach_label: "bridge_reaches node b \<Longrightarrow> set_node_label e label b = (b', u) \<Longrightarrow> bridge_reaches node b'"
| reach_version: "bridge_reaches node b \<Longrightarrow> bridge_reaches node (dataver_changed k b)"

lemma set_ok_level_answered:
  assumes "level_answered answer ph b = (b', change, ph')" and "set_ok (br_set b)"
  shows "set_ok (br_set b')"
proof (cases ph)
  case (AwaitLevel e level w q)
  obtain b1 r where "level_finish e answer b = (b1, r)" by fastforce
  then show ?thesis using assms AwaitLevel set_ok_level_finish by (auto split: sum.splits)
next
  case (AwaitOnOff e q)
  obtain b1 r where "on_off_finish e answer b = (b1, r)" by fastforce
  then show ?thesis using assms AwaitOnOff set_ok_on_off_finish by (auto split: sum.splits)
qed (use assms in simp)

lemma reachable_ok: "bridge_reaches node b \<Longrightarrow> set_ok (br_set b)"
proof (induction rule: bridge_reaches.induct)
  case reach_new
  show ?case by (simp add: bridge_new_def projection_set_empty_def set_ok_def)
next
  case (reach_sync b ss m m' built)
  then have "list_all projection_ok (bu_projections built)" using build_devices_ok [OF reach_sync(2)] by (simp add: no_projection_def)
  then show ?case by (simp add: bridge_replace_def set_ok_replace)
next
  case (reach_label b e label b' u)
  have "set_ok (set_modify e (\<lambda>p. p\<lparr>mp_name := label\<rparr>) (br_set b))" using reach_label(3) by (rule set_ok_modify) (simp add: projection_ok_def)
  then show ?case using reach_label by (auto simp: set_node_label_def split: if_splits option.splits)
qed (auto simp: dataver_changed_def dest: set_ok_update_event set_ok_on_off_finish set_ok_level_answered)

lemma MIN_TEMPERATURE_real: "is_finite MIN_TEMPERATURE" "- 27315 / 100 - 1 / 1000 \<le> f64_real MIN_TEMPERATURE"
proof -
  have f: "f64_exponent MIN_TEMPERATURE = 1031" "f64_mantissa MIN_TEMPERATURE = 0x1126666666666" "f64_negative MIN_TEMPERATURE"
    by (simp_all add: MIN_TEMPERATURE_def f64_fields bit_numeral_word_iff)
  show "is_finite MIN_TEMPERATURE" by (simp add: is_finite_def f)
  have "f64_real MIN_TEMPERATURE = - (real (2 ^ 52 + 0x1126666666666) * 2 ^ 1030) / 2 ^ 1074"
    by (simp add: f64_real_def scaled_def magnitude_def f)
  then show "- 27315 / 100 - 1 / 1000 \<le> f64_real MIN_TEMPERATURE" by simp
qed

lemma MAX_TEMPERATURE_real: "is_finite MAX_TEMPERATURE" "f64_real MAX_TEMPERATURE \<le> 32766 / 100 + 1 / 1000"
proof -
  have f: "f64_exponent MAX_TEMPERATURE = 1031" "f64_mantissa MAX_TEMPERATURE = 0x47A8F5C28F5C3" "\<not> f64_negative MAX_TEMPERATURE"
    by (simp_all add: MAX_TEMPERATURE_def f64_fields bit_numeral_word_iff)
  show "is_finite MAX_TEMPERATURE" by (simp add: is_finite_def f)
  have "f64_real MAX_TEMPERATURE = (real (2 ^ 52 + 0x47A8F5C28F5C3) * 2 ^ 1030) / 2 ^ 1074"
    by (simp add: f64_real_def scaled_def magnitude_def f)
  then show "f64_real MAX_TEMPERATURE \<le> 32766 / 100 + 1 / 1000" by simp
qed

lemma hundredths_range:
  assumes "is_finite v" and "real_of_int lo / 100 - 1 / 1000 \<le> f64_real v" and "f64_real v \<le> real_of_int hi / 100 + 1 / 1000"
    and "-40000 \<le> lo" and "hi \<le> 40000" and "tlo \<le> lo" and "hi \<le> thi"
  shows "lo \<le> f64_cast tlo thi (f64_round (f64_mul v f64_hundred))" and "f64_cast tlo thi (f64_round (f64_mul v f64_hundred)) \<le> hi"
proof -
  have "-401 \<le> f64_real v" "f64_real v \<le> 401" using assms(2-5) by linarith+
  then have "close_to (f64_real v * 100) (f64_mul v f64_hundred)" using f64_mul_close [of v f64_hundred] assms(1) by (simp add: abs_le_iff)
  note m = close_toD(1,2) [OF this]
  have "\<bar>f64_real (f64_mul v f64_hundred)\<bar> \<le> 50000" using m(2) \<open>-401 \<le> f64_real v\<close> \<open>f64_real v \<le> 401\<close> by linarith
  then have big: "\<bar>f64_real (f64_mul v f64_hundred)\<bar> \<le> 2 ^ 19" by simp
  have "real_of_int lo - 1 / 2 < f64_real (f64_mul v f64_hundred)" "f64_real (f64_mul v f64_hundred) < real_of_int hi + 1 / 2"
    using m(2) assms(2,3) by linarith+
  then have "lo \<le> round_away (f64_real (f64_mul v f64_hundred))" "round_away (f64_real (f64_mul v f64_hundred)) \<le> hi"
    using round_away_bounds by blast+
  then show "lo \<le> f64_cast tlo thi (f64_round (f64_mul v f64_hundred))" and "f64_cast tlo thi (f64_round (f64_mul v f64_hundred)) \<le> hi"
    unfolding f64_round_cast [OF m(1) big] using assms(6,7) by auto
qed

lemma profile_clusters_iff:
  "OnOffCluster \<in> set (profile_clusters k) \<longleftrightarrow> k \<in> {OnOffLight, DimmableLight, OutletProfile}"
  "LevelCluster \<in> set (profile_clusters k) \<longleftrightarrow> k = DimmableLight"
  "TemperatureCluster \<in> set (profile_clusters k) \<longleftrightarrow> k = TemperatureProfile"
  "HumidityCluster \<in> set (profile_clusters k) \<longleftrightarrow> k = HumidityProfile"
  "ContactCluster \<in> set (profile_clusters k) \<longleftrightarrow> k = ContactProfile"
  "OccupancyCluster \<in> set (profile_clusters k) \<longleftrightarrow> k = OccupancyProfile"
  by (cases k; simp)+

lemma percent_real: "is_finite n \<Longrightarrow> in_range f64_zero f64_hundred n \<Longrightarrow> 0 \<le> f64_real n \<and> f64_real n \<le> 100"
  by (simp add: in_range_real)

lemma reads_ok:
  assumes "projection_ok p" and "set_endpoint e (br_set b) = Some p"
  shows "mp_profile p \<in> {OnOffLight, DimmableLight, OutletProfile} \<Longrightarrow> is_ok (bridge_on e b)"
    and "mp_profile p = DimmableLight \<Longrightarrow> \<exists>n. current_level e b = Ok n \<and> 1 \<le> n \<and> n \<le> 254"
    and "mp_profile p = TemperatureProfile \<Longrightarrow> \<exists>t. temperature_measured e b = Ok t \<and> -27315 \<le> t \<and> t \<le> 32766"
    and "mp_profile p = HumidityProfile \<Longrightarrow> \<exists>h. humidity_measured e b = Ok h \<and> 0 \<le> h \<and> h \<le> 10000"
    and "mp_profile p \<in> {ContactProfile, OccupancyProfile} \<Longrightarrow> is_ok (state_value e b)"
proof -
  show "mp_profile p \<in> {OnOffLight, DimmableLight, OutletProfile} \<Longrightarrow> is_ok (bridge_on e b)"
    using assms by (auto simp: projection_ok_def bridge_on_def)
  show "mp_profile p \<in> {ContactProfile, OccupancyProfile} \<Longrightarrow> is_ok (state_value e b)"
    using assms by (auto simp: projection_ok_def state_value_def)
next
  assume "mp_profile p = DimmableLight"
  then obtain n where n: "mp_level p = Some n" "is_finite n" "in_range f64_zero f64_hundred n"
    using assms(1) by (auto simp: projection_ok_def)
  then show "\<exists>n. current_level e b = Ok n \<and> 1 \<le> n \<and> n \<le> 254"
    using matter_level_range [OF n(2)] percent_real [OF n(2,3)] assms(2) by (simp add: current_level_def bridge_level_def)
next
  assume "mp_profile p = TemperatureProfile"
  then obtain n where n: "mp_sensor p = Some n" "is_finite n" "in_range MIN_TEMPERATURE MAX_TEMPERATURE n"
    using assms(1) by (auto simp: projection_ok_def)
  have "f64_real MIN_TEMPERATURE \<le> f64_real n" "f64_real n \<le> f64_real MAX_TEMPERATURE"
    using n(3) in_range_real [OF n(2) MIN_TEMPERATURE_real(1) MAX_TEMPERATURE_real(1)] by simp_all
  then have "real_of_int (-27315) / 100 - 1 / 1000 \<le> f64_real n" "f64_real n \<le> real_of_int 32766 / 100 + 1 / 1000"
    using MIN_TEMPERATURE_real(2) MAX_TEMPERATURE_real(2) by simp_all
  from hundredths_range [OF n(2) this, of "-32768" 32767]
  show "\<exists>t. temperature_measured e b = Ok t \<and> -27315 \<le> t \<and> t \<le> 32766"
    using n(1) assms(2) by (simp add: temperature_measured_def measured_value_def)
next
  assume "mp_profile p = HumidityProfile"
  then obtain n where n: "mp_sensor p = Some n" "is_finite n" "in_range f64_zero f64_hundred n"
    using assms(1) by (auto simp: projection_ok_def)
  have "real_of_int 0 / 100 - 1 / 1000 \<le> f64_real n" "f64_real n \<le> real_of_int 10000 / 100 + 1 / 1000"
    using percent_real [OF n(2,3)] by simp_all
  from hundredths_range [OF n(2) this, of 0 65535]
  show "\<exists>h. humidity_measured e b = Ok h \<and> 0 \<le> h \<and> h \<le> 10000"
    using n(1) assms(2) by (simp add: humidity_measured_def measured_value_def)
qed

section \<open>Properties\<close>

text \<open>C17: Every attribute of the clusters that an endpoint announces can be read, and lies in the
  range that the bridge announces for it: levels from 1 to 254, temperatures from -273.15 to 327.66
  degrees and humidities from 0 to 100 percent in hundredths, over every history of synchronisations,
  events, commands, answers and labels. The conversions are computed in binary64, with their
  rounding.\<close>

theorem matter_reads_in_range:
  assumes "bridge_reaches node b" and "set_endpoint e (br_set b) = Some p"
  shows "(OnOffCluster \<in> set (ep_clusters (endpoint_for p)) \<longrightarrow> is_ok (bridge_on e b))
    \<and> (LevelCluster \<in> set (ep_clusters (endpoint_for p)) \<longrightarrow> (\<exists>n. current_level e b = Ok n
         \<and> the (level_attribute_value MinLevel) \<le> n \<and> n \<le> the (level_attribute_value MaxLevel)))
    \<and> (TemperatureCluster \<in> set (ep_clusters (endpoint_for p)) \<longrightarrow> (\<exists>t. temperature_measured e b = Ok t
         \<and> temperature_min_measured \<le> t \<and> t \<le> temperature_max_measured))
    \<and> (HumidityCluster \<in> set (ep_clusters (endpoint_for p)) \<longrightarrow> (\<exists>h. humidity_measured e b = Ok h
         \<and> humidity_min_measured \<le> h \<and> h \<le> humidity_max_measured))
    \<and> (ContactCluster \<in> set (ep_clusters (endpoint_for p)) \<longrightarrow> is_ok (state_value e b))
    \<and> (OccupancyCluster \<in> set (ep_clusters (endpoint_for p)) \<longrightarrow> is_ok (occupancy e b))"
proof -
  have "projection_ok p" using reachable_ok [OF assms(1)] assms(2) by (auto simp: set_ok_def set_endpoint_def)
  note reads = reads_ok [OF this assms(2)]
  have "ep_clusters (endpoint_for p) = DescriptorCluster # BridgedCluster # profile_clusters (mp_profile p)"
    by (simp add: endpoint_for_def)
  moreover have occ: "is_ok (occupancy e b) = is_ok (state_value e b)" by (cases "state_value e b") (simp_all add: occupancy_def)
  ultimately show ?thesis
    using reads
    by (simp add: profile_clusters_iff temperature_min_measured_def temperature_max_measured_def humidity_min_measured_def
        humidity_max_measured_def occ)
qed

text \<open>A lamp with a level, synchronised into a new bridge.\<close>

definition sample_dimmer :: adapter_device_state where
  "sample_dimmer = sample_light_state [sample_light ''on'' CAPABILITY_LIGHT_ON, sample_light ''level'' CAPABILITY_LIGHT_LEVEL]"

definition sample_node :: matter_endpoint where
  "sample_node = \<lparr>ep_id = 0, ep_types = [], ep_clusters = []\<rparr>"

definition dimmer_projection :: matter_projection where
  "dimmer_projection = mk_projection (ads_device sample_dimmer) ''on''
     ((on_off_shape DimmableLight True)\<lparr>sh_level := Some f64_zero, sh_level_id := Some ''level''\<rparr>) 3"

definition dimmer_bridge :: bridge where
  "dimmer_bridge = bridge_replace sample_node [dimmer_projection] (bridge_new sample_node)"

lemma dimmer_built:
  "\<exists>m' built. build_devices [sample_dimmer] default_mappings no_projection = Ok (m', built) \<and> bu_projections built = [dimmer_projection]"
proof -
  let ?on = "sample_light ''on'' CAPABILITY_LIGHT_ON" and ?level = "sample_light ''level'' CAPABILITY_LIGHT_LEVEL"
  have d: "ad_id (ads_device sample_dimmer) = ''lamp''" "ad_name (ads_device sample_dimmer) = ''Lamp''"
    "ad_capabilities (ads_device sample_dimmer) = [?on, ?level]" by (simp_all add: sample_dimmer_def sample_light_state_def)
  have ids: "ac_id ?on = ''on''" "ac_id ?level = ''level''" by (simp_all add: sample_light_def)
  have vt: "value_table sample_dimmer ''on'' = Some (adapter_value_to_api (VBool True))"
    "value_table sample_dimmer ''level'' = Some (adapter_value_to_api (VNumber f64_zero))"
    by (simp_all add: value_table_def sample_dimmer_def sample_light_state_def sample_light_def CAPABILITY_LIGHT_ON_def CAPABILITY_LIGHT_LEVEL_def)
  have bool: "wire_bool (adapter_value_to_api (VBool True)) = Some True" by (simp add: wire_bool_def adapter_value_to_api_def empty_wire_def)
  have on: "project_capability ''lamp'' [?on] [?level] (value_table sample_dimmer) ?on =
      ([], Some ((on_off_shape DimmableLight True)\<lparr>sh_level := Some f64_zero, sh_level_id := Some ''level''\<rparr>))"
    using zero_level vt bool
    by (auto simp: project_capability_def sample_light_def expected_kind_def representable_def is_actuator_def full_permissions_def
        shape_of_def light_shape_def CAPABILITY_LIGHT_ON_def CAPABILITY_LIGHT_LEVEL_def CAPABILITY_SWITCH_ON_def)
  have level: "project_capability ''lamp'' [?on] [?level] (value_table sample_dimmer) ?level = ([], None)"
    by (simp add: project_capability_def sample_light_def)
  have types: "of_type CAPABILITY_LIGHT_ON (ads_device sample_dimmer) = [?on]" "of_type CAPABILITY_LIGHT_LEVEL (ads_device sample_dimmer) = [?level]"
    by (simp_all add: of_type_def d sample_light_def CAPABILITY_LIGHT_ON_def CAPABILITY_LIGHT_LEVEL_def)
  show ?thesis
    by (simp add: build_device_def Let_def d types on level ids first_free add_projection_def no_projection_def diagnose_def
        dimmer_projection_def)
qed

lemma dimmer_reached: "bridge_reaches sample_node dimmer_bridge"
  using dimmer_built reach_sync [OF reach_new, of "[sample_dimmer]" default_mappings _ _ sample_node] unfolding dimmer_bridge_def by metis

lemma dimmer_endpoint:
  "set_endpoint 3 (br_set dimmer_bridge) = Some dimmer_projection"
  "LevelCluster \<in> set (ep_clusters (endpoint_for dimmer_projection))"
  by (simp_all add: dimmer_bridge_def bridge_replace_def set_replace_def set_add_def projection_set_empty_def set_endpoint_def
      Let_def dimmer_projection_def mk_projection_def on_off_shape_def endpoint_for_def)

theorem matter_reads_in_range_witness:
  "is_ok (bridge_on 3 dimmer_bridge) \<and> (\<exists>n. current_level 3 dimmer_bridge = Ok n \<and> 1 \<le> n \<and> n \<le> 254)"
  using matter_reads_in_range [OF dimmer_reached dimmer_endpoint(1)] dimmer_endpoint(2)
  by (simp add: endpoint_for_def profile_clusters_iff)

text \<open>C18: A level that a controller sets is the level that it reads back. When the host reports the
  percentage that was asked for, the endpoint shows the level of the command, brought into the range
  from 1 to 254, whatever happened to the bridge while the command was under way: converting a level
  to a percentage and back loses nothing, and the percentage is one that the bridge accepts.\<close>

theorem level_read_back:
  assumes "bridge_reaches node b" and "set_endpoint e (br_set b) = Some p"
    and "LevelCluster \<in> set (ep_clusters (endpoint_for p))"
    and "level_handle e (MoveToLevel n) w before = AwaitLevel e' n' w' q"
    and "level_answered (Some (Ok (canonical_to_wire (cr_value q)))) (AwaitLevel e' n' w' q) b = (b', change, ph)"
  shows "current_level e b' = Ok (max 1 (min 254 n))"
proof -
  define v where "v = canonical_level n"
  note c = canonical_level_close [OF refl, of n, folded v_def]
  have q: "e' = e" "cr_value q = CanonicalNumber v"
    using assms(4) by (auto simp: level_handle_def level_target_def level_set_def command_begin_def v_def split: option.splits)
  have "in_range f64_zero f64_hundred v" using in_range_real [OF c(1), of f64_zero f64_hundred] c(2,3) by simp
  then have "number_in f64_zero f64_hundred (canonical_to_wire (CanonicalNumber v)) = Some v"
    using c(1) by (simp add: number_in_def wire_number_def)
  then have finish: "command_finish True (Some (Ok (canonical_to_wire (cr_value q)))) = Ok (CanonicalNumber v)"
    by (simp add: command_finish_def q)
  have "projection_ok p" using reachable_ok [OF assms(1)] assms(2) by (auto simp: set_ok_def set_endpoint_def)
  moreover have "mp_profile p = DimmableLight" using assms(3) by (simp add: endpoint_for_def profile_clusters_iff)
  ultimately obtain old where old: "mp_level p = Some old" "is_finite old" by (auto simp: projection_ok_def)
  then have now: "bridge_level e b = Ok old" using assms(2) by (simp add: bridge_level_def)
  have b': "b' = (if f64_eq old v then b else apply_level e v b)"
    using assms(5) by (auto simp: level_finish_def finish now q(1) split: if_splits)
  show ?thesis
  proof (cases "f64_eq old v")
    case True
    then have "f64_real old = f64_real v" by (simp add: f64_eq_def f64_real_def)
    then show ?thesis using level_of_canonical [OF refl old(2), of n] True now by (simp add: b' v_def current_level_def)
  next
    case False
    have "bridge_level e (apply_level e v b) = Ok v"
      using assms(2) by (simp add: bridge_level_def apply_level_def set_modify_def set_endpoint_def)
    then show ?thesis using level_of_canonical [OF refl c(1), of n] False by (simp add: b' v_def current_level_def)
  qed
qed

theorem level_read_back_witness:
  "\<exists>q b' change ph. level_handle 3 (MoveToLevel 128) True dimmer_bridge = AwaitLevel 3 128 True q
     \<and> level_answered (Some (Ok (canonical_to_wire (cr_value q)))) (AwaitLevel 3 128 True q) dimmer_bridge = (b', change, ph)
     \<and> current_level 3 b' = Ok 128"
proof -
  obtain q where q: "level_handle 3 (MoveToLevel 128) True dimmer_bridge = AwaitLevel 3 128 True q"
    using dimmer_endpoint(1) by (simp add: level_handle_def level_target_def level_set_def command_begin_def)
  obtain b' change ph where a:
    "level_answered (Some (Ok (canonical_to_wire (cr_value q)))) (AwaitLevel 3 128 True q) dimmer_bridge = (b', change, ph)"
    using prod_cases3 by blast
  show ?thesis using level_read_back [OF dimmer_reached dimmer_endpoint q a] q a by auto
qed

end
