(* ===== verification/Admin_Api.thy ===== *)
theory Admin_Api
  imports Plugin_Manifest Adapter_Instance
begin

text \<open>
  The administration API, \<open>crates/oikade-admin/src/wire.rs\<close> and \<open>server.rs\<close>: the records on the
  wire, the handlers of the routes and their errors. The HTTP server is \<open>axum\<close>: the model
  starts from the method, the decoded segments of the path and the decoded body, where \<open>None\<close> is a
  body that the extractor rejected. Formatting of times and the text of an error are parameters.
\<close>

section \<open>Records on the wire\<close>

definition API_VERSION :: string where "API_VERSION = ''v1''"

record admin_status =
  as_api_version :: string
  as_build :: string
  as_healthy :: bool
  as_started_at :: string
  as_uptime_ms :: nat
  as_devices :: nat
  as_subscribers :: nat
  as_plugins :: nat
  as_unhealthy_plugins :: nat
  as_adapters :: nat
  as_unhealthy_adapters :: nat

record admin_plugin =
  pl_instance_id :: string
  pl_plugin_id :: string
  pl_name :: string
  pl_version :: string
  pl_api_version :: nat
  pl_artifact :: string
  pl_state :: string
  pl_healthy :: bool
  pl_pid :: "nat option"
  pl_restarts :: nat
  pl_devices :: nat
  pl_last_error :: "string option"
  pl_health_detail :: string

record admin_adapter =
  aa_instance_id :: string
  aa_adapter_id :: string
  aa_version :: string
  aa_protocol :: string
  aa_state :: string
  aa_healthy :: bool
  aa_pid :: "nat option"
  aa_restarts :: nat
  aa_generation :: nat
  aa_snapshot_revision :: nat
  aa_devices :: nat
  aa_last_error :: "string option"
  aa_health_detail :: string
  aa_diagnostics :: "diagnostic list"
  aa_resources :: "resource list"

record admin_capability =
  cp_id :: string
  cp_type :: string
  cp_name :: string
  cp_kind :: string
  cp_permissions :: permissions
  cp_value :: "wire_value option"

record admin_device =
  dv_id :: string
  dv_name :: string
  dv_manufacturer :: string
  dv_model :: string
  dv_capabilities :: "admin_capability list"

record admin_event =
  ae_device_id :: string
  ae_capability_id :: string
  ae_value :: wire_value
  ae_revision :: nat
  ae_occurred_at :: string

record error_payload =
  er_code :: string
  er_message :: string

record stream_record =
  st_event :: "admin_event option"
  st_error :: "error_payload option"

definition capability_from_state :: "capability \<Rightarrow> scalar option \<Rightarrow> admin_capability" where
  "capability_from_state c v =
     \<lparr>cp_id = cap_id c, cp_type = cap_type c, cp_name = cap_name c, cp_kind = kind_str (cap_kind c),
      cp_permissions = cap_permissions c,
      cp_value = (if perm_read (cap_permissions c) then map_option value_from_core v else None)\<rparr>"

definition device_from_state :: "device_state \<Rightarrow> admin_device" where
  "device_from_state s =
     (let d = ds_device s in
      \<lparr>dv_id = dev_id d, dv_name = dev_name d, dv_manufacturer = dev_manufacturer d, dv_model = dev_model d,
       dv_capabilities = map (\<lambda>c. capability_from_state c (map_of (ds_values s) (cap_id c))) (dev_capabilities d)\<rparr>)"

definition event_from_core :: "(system_time \<Rightarrow> string option) \<Rightarrow> event \<Rightarrow> admin_event" where
  "event_from_core rfc3339 e =
     \<lparr>ae_device_id = ev_device e, ae_capability_id = ev_capability e, ae_value = value_from_core (ev_value e),
      ae_revision = ev_revision e,
      ae_occurred_at = (case rfc3339 (ev_occurred_at e) of None \<Rightarrow> ''1970-01-01T00:00:00Z'' | Some t \<Rightarrow> t)\<rparr>"

section \<open>Failures\<close>

record api_failure =
  af_status :: nat
  af_payload :: error_payload

definition bad_request :: "string \<Rightarrow> string \<Rightarrow> api_failure" where
  "bad_request k m = \<lparr>af_status = 400, af_payload = \<lparr>er_code = k, er_message = m\<rparr>\<rparr>"

definition gateway :: "string \<Rightarrow> string \<Rightarrow> api_failure" where
  "gateway k m = \<lparr>af_status = 502, af_payload = \<lparr>er_code = k, er_message = m\<rparr>\<rparr>"

definition not_found :: api_failure where
  "not_found = \<lparr>af_status = 404, af_payload = \<lparr>er_code = ''not_found'', er_message = ''resource was not found''\<rparr>\<rparr>"

fun core_status :: "runtime_error \<Rightarrow> nat \<times> string" where
  "core_status (NotFound _) = (404, ''not_found'')"
| "core_status (NotReadable _) = (409, ''not_readable'')"
| "core_status (NotWritable _) = (409, ''not_writable'')"
| "core_status (InvalidValue _) = (400, ''invalid_value'')"
| "core_status runtime_error.Stopped = (503, ''runtime_stopped'')"
| "core_status _ = (500, ''internal_error'')"

definition from_core :: "(runtime_error \<Rightarrow> string) \<Rightarrow> runtime_error \<Rightarrow> api_failure" where
  "from_core render e =
     (case core_status e of (s, k) \<Rightarrow> \<lparr>af_status = s, af_payload = \<lparr>er_code = k, er_message = render e\<rparr>\<rparr>)"

text \<open>\<open>InstanceError::protocol_error\<close> and \<open>adapter_failure\<close>.\<close>

fun adapter_protocol_error :: "adapter_error \<Rightarrow> (string \<times> string) option" where
  "adapter_protocol_error (AdapterProtocol k _) = public_protocol_error k"
| "adapter_protocol_error _ = None"

definition adapter_failure_of :: "adapter_error \<Rightarrow> api_failure" where
  "adapter_failure_of e =
     (case adapter_protocol_error e of
        Some (k, m) \<Rightarrow> gateway k m
      | None \<Rightarrow> gateway ''adapter_error'' ''adapter operation failed'')"

definition strict_body :: "'a option \<Rightarrow> (api_failure, 'a) result" where
  "strict_body b =
     ok_or (bad_request ''invalid_request'' ''request body must be one valid JSON object with no unknown fields'') b"

section \<open>The server\<close>

definition MAX_REQUEST_BODY :: nat where "MAX_REQUEST_BODY = 65536"
definition EVENT_BUFFER :: nat where "EVENT_BUFFER = 128"

text \<open>\<open>ServerState\<close>; the start is a wall-clock time and an instant in nanoseconds.\<close>

record 'w server =
  sv_runtime :: "'w runtime"
  sv_world :: 'w
  sv_build :: string
  sv_plugins :: "(instance_spec \<times> manifest \<times> plugin_inner \<times> sup_status) list"
  sv_adapters :: "(adapter_inner \<times> sup_status) list"
  sv_started :: "(system_time \<times> nat) option"

definition plugin_on_wire :: "plugin_status \<Rightarrow> admin_plugin" where
  "plugin_on_wire s =
     \<lparr>pl_instance_id = pt_instance_id s, pl_plugin_id = pt_plugin_id s, pl_name = pt_name s, pl_version = pt_version s,
      pl_api_version = pt_api_version s, pl_artifact = pt_artifact s, pl_state = state_str (pt_state s),
      pl_healthy = plugin_healthy s, pl_pid = pt_pid s, pl_restarts = pt_restarts s, pl_devices = pt_devices s,
      pl_last_error = pt_last_error s, pl_health_detail = pt_health_detail s\<rparr>"

definition plugin_statuses :: "'w server \<Rightarrow> admin_plugin list" where
  "plugin_statuses sv =
     sort_key pl_instance_id (map (\<lambda>(spec, m, inner, process). plugin_on_wire (instance_status spec m inner process)) (sv_plugins sv))"

definition adapter_on_wire :: "adapter_status \<Rightarrow> admin_adapter" where
  "adapter_on_wire s =
     \<lparr>aa_instance_id = at_instance_id s, aa_adapter_id = at_adapter_id s, aa_version = at_adapter_version s,
      aa_protocol = at_protocol s, aa_state = state_str (ss_state (at_process s)), aa_healthy = adapter_is_healthy s,
      aa_pid = ss_pid (at_process s), aa_restarts = ss_restarts (at_process s), aa_generation = at_generation s,
      aa_snapshot_revision = at_snapshot_revision s, aa_devices = at_devices s,
      aa_last_error = ss_last_error (at_process s), aa_health_detail = at_health_detail s,
      aa_diagnostics = at_diagnostics s, aa_resources = at_resources s\<rparr>"

definition server_adapter_statuses :: "'w server \<Rightarrow> admin_adapter list" where
  "server_adapter_statuses sv =
     sort_key aa_instance_id (map (\<lambda>(inner, process). adapter_on_wire (adapter_status inner process)) (sv_adapters sv))"

definition find_adapter :: "'w server \<Rightarrow> string \<Rightarrow> (api_failure, adapter_inner) result" where
  "find_adapter sv i = ok_or not_found (map_option fst (find (\<lambda>(inner, _). sa_id (ai_spec inner) = i) (sv_adapters sv)))"

fun find_in_states :: "string \<Rightarrow> string \<Rightarrow> device_state list \<Rightarrow> (api_failure, admin_capability) result" where
  "find_in_states d c [] = Err not_found"
| "find_in_states d c (s # ss) =
     (if dev_id (ds_device s) \<noteq> d then find_in_states d c ss
      else case find (\<lambda>k. cap_id k = c) (dev_capabilities (ds_device s)) of
        Some k \<Rightarrow> Ok (capability_from_state k (map_of (ds_values s) (cap_id k)))
      | None \<Rightarrow> Err not_found)"

definition find_capability :: "'w runtime \<Rightarrow> string \<Rightarrow> string \<Rightarrow> (api_failure, admin_capability) result" where
  "find_capability rt d c = find_in_states d c (snap_devices (take_snapshot rt))"

section \<open>Handlers\<close>

definition get_status :: "(system_time \<Rightarrow> string option) \<Rightarrow> nat \<Rightarrow> 'w server \<Rightarrow> admin_status" where
  "get_status rfc3339 now sv =
     (let snapshot = take_snapshot (sv_runtime sv); plugins = plugin_statuses sv; adapters = server_adapter_statuses sv;
          unhealthy_plugins = length (filter (\<lambda>p. \<not> pl_healthy p) plugins);
          unhealthy_adapters = length (filter (\<lambda>a. \<not> aa_healthy a) adapters);
          (started_at, uptime) = (case sv_started sv of None \<Rightarrow> (0, 0) | Some (t, i) \<Rightarrow> (t, now - i))
      in \<lparr>as_api_version = API_VERSION, as_build = sv_build sv,
          as_healthy = (snap_started snapshot \<and> unhealthy_plugins = 0 \<and> unhealthy_adapters = 0),
          as_started_at = (case rfc3339 started_at of None \<Rightarrow> ''1970-01-01T00:00:00Z'' | Some t \<Rightarrow> t),
          as_uptime_ms = min (uptime div 10 ^ 6) (2 ^ 64 - 1),
          as_devices = length (snap_devices snapshot), as_subscribers = snap_subscriptions snapshot,
          as_plugins = length plugins, as_unhealthy_plugins = unhealthy_plugins,
          as_adapters = length adapters, as_unhealthy_adapters = unhealthy_adapters\<rparr>)"

definition get_devices :: "'w server \<Rightarrow> admin_device list" where
  "get_devices sv = map device_from_state (snap_devices (take_snapshot (sv_runtime sv)))"

definition get_plugin :: "string \<Rightarrow> 'w server \<Rightarrow> (api_failure, admin_plugin) result" where
  "get_plugin i sv = ok_or not_found (find (\<lambda>p. pl_instance_id p = i) (plugin_statuses sv))"

definition get_adapter :: "string \<Rightarrow> 'w server \<Rightarrow> (api_failure, admin_adapter) result" where
  "get_adapter i sv = ok_or not_found (find (\<lambda>a. aa_instance_id a = i) (server_adapter_statuses sv))"

text \<open>The answers of the adapter process are arguments; a duration is in nanoseconds.\<close>

definition open_commissioning_window ::
  "(adapter_failure session_error, window_response) result \<Rightarrow> string \<Rightarrow> nat option \<Rightarrow> 'w server
     \<Rightarrow> (api_failure, window_response) result" where
  "open_commissioning_window reply i body sv =
     and_then (strict_body body) (\<lambda>seconds.
     and_then (find_adapter sv i) (\<lambda>inner.
     map_err adapter_failure_of
       (and_then (open_window_begin (seconds * 10 ^ 9) inner) (\<lambda>_. open_window_finish reply))))"

definition get_commissioning_info ::
  "(adapter_failure session_error, info_response) result \<Rightarrow> string \<Rightarrow> 'w server \<Rightarrow> (api_failure, info_response) result" where
  "get_commissioning_info reply i sv =
     and_then (find_adapter sv i) (\<lambda>inner.
     map_err adapter_failure_of (and_then (running inner) (\<lambda>_. commissioning_info_finish reply)))"

fun update_adapter :: "string \<Rightarrow> adapter_inner \<Rightarrow> (adapter_inner \<times> sup_status) list \<Rightarrow> (adapter_inner \<times> sup_status) list" where
  "update_adapter i inner [] = []"
| "update_adapter i inner ((old, p) # rest) =
     (if sa_id (ai_spec old) = i then (inner, p) # rest else (old, p) # update_adapter i inner rest)"

definition remove_adapter_resource ::
  "(adapter_failure session_error, resource list) result \<Rightarrow> string \<Rightarrow> string \<Rightarrow> string \<Rightarrow> 'w server
     \<Rightarrow> 'w server \<times> (api_failure, resource list) result" where
  "remove_adapter_resource reply i t r sv =
     (case find_adapter sv i of
        Err e \<Rightarrow> (sv, Err e)
      | Ok inner \<Rightarrow>
          (case remove_resource_begin t r inner of
             Err e \<Rightarrow> (sv, Err (adapter_failure_of e))
           | Ok a \<Rightarrow>
               (case remove_resource_finish a reply inner of
                  (inner', Err e) \<Rightarrow> (sv\<lparr>sv_adapters := update_adapter i inner' (sv_adapters sv)\<rparr>, Err (adapter_failure_of e))
                | (inner', Ok rs) \<Rightarrow> (sv\<lparr>sv_adapters := update_adapter i inner' (sv_adapters sv)\<rparr>, Ok rs))))"

text \<open>The operation of the instance that replaces its directory, \<open>reset_state\<close>, is an argument.\<close>

definition reset_adapter_state ::
  "(adapter_inner \<Rightarrow> adapter_inner \<times> (adapter_error, unit) result) \<Rightarrow> string \<Rightarrow> string option \<Rightarrow> 'w server
     \<Rightarrow> 'w server \<times> (api_failure, string \<times> string) result" where
  "reset_adapter_state reset i body sv =
     (case strict_body body of
        Err e \<Rightarrow> (sv, Err e)
      | Ok confirmation \<Rightarrow>
          if confirmation \<noteq> i
          then (sv, Err (bad_request ''confirmation_required'' ''confirmation must exactly match the adapter instance ID''))
          else case find_adapter sv i of
            Err e \<Rightarrow> (sv, Err e)
          | Ok inner \<Rightarrow>
              (case reset inner of
                 (inner', Err e) \<Rightarrow> (sv\<lparr>sv_adapters := update_adapter i inner' (sv_adapters sv)\<rparr>, Err (adapter_failure_of e))
               | (inner', Ok _) \<Rightarrow> (sv\<lparr>sv_adapters := update_adapter i inner' (sv_adapters sv)\<rparr>, Ok (i, ''running''))))"

text \<open>
  \<open>put_capability\<close>: the value is written and the capability is looked up in a new snapshot. The texts
  of the errors are \<open>render\<close> and \<open>render_value\<close>.
\<close>

definition put_command ::
  "(value_error \<Rightarrow> string) \<Rightarrow> string \<Rightarrow> string \<Rightarrow> wire_value option \<Rightarrow> (api_failure, command) result" where
  "put_command render_value d c body =
     and_then (strict_body body) (\<lambda>x.
     and_then (map_err (\<lambda>e. bad_request ''invalid_value'' (render_value e)) (value_to_core x)) (\<lambda>v.
     and_then (map_err (\<lambda>_. bad_request ''invalid_request'' ''invalid device ID'') (device_id_new d)) (\<lambda>d'.
     and_then (map_err (\<lambda>_. bad_request ''invalid_request'' ''invalid capability ID'') (capability_id_new c)) (\<lambda>c'.
       Ok \<lparr>cmd_device = d', cmd_capability = c', cmd_value = v\<rparr>))))"

definition put_capability ::
  "(runtime_error \<Rightarrow> string) \<Rightarrow> (value_error \<Rightarrow> string) \<Rightarrow> system_time \<Rightarrow> string \<Rightarrow> string \<Rightarrow> wire_value option \<Rightarrow> 'w server
     \<Rightarrow> 'w server \<times> (api_failure, admin_capability) result" where
  "put_capability render render_value now d c body sv =
     (case put_command render_value d c body of
        Err e \<Rightarrow> (sv, Err e)
      | Ok cmd \<Rightarrow>
          (case write_value now cmd (sv_runtime sv) (sv_world sv) of
             (rt, w, Err e) \<Rightarrow> (sv\<lparr>sv_runtime := rt, sv_world := w\<rparr>, Err (from_core render e))
           | (rt, w, Ok _) \<Rightarrow> (sv\<lparr>sv_runtime := rt, sv_world := w\<rparr>, find_capability rt d c)))"

definition get_events :: "(runtime_error \<Rightarrow> string) \<Rightarrow> 'w server \<Rightarrow> 'w server \<times> (api_failure, nat) result" where
  "get_events render sv =
     (case subscribe EVENT_BUFFER (sv_runtime sv) of
        (rt, Err e) \<Rightarrow> (sv\<lparr>sv_runtime := rt\<rparr>, Err (from_core render e))
      | (rt, Ok i) \<Rightarrow> (sv\<lparr>sv_runtime := rt\<rparr>, Ok i))"

text \<open>
  The stream of \<open>get_events\<close> over a run of the runtime, in which \<open>Recv i\<close> is a turn of the stream: a
  record for every event, and after the end of the subscription one for its error, unless the
  runtime was stopped.
\<close>

definition event_record :: "(system_time \<Rightarrow> string option) \<Rightarrow> event \<Rightarrow> stream_record" where
  "event_record rfc3339 e = \<lparr>st_event = Some (event_from_core rfc3339 e), st_error = None\<rparr>"

definition closing_records :: "(runtime_error \<Rightarrow> string) \<Rightarrow> runtime_error option \<Rightarrow> stream_record list" where
  "closing_records render e =
     (case e of
        None \<Rightarrow> []
      | Some x \<Rightarrow> if x = runtime_error.Stopped then []
                   else [\<lparr>st_event = None, st_error = Some \<lparr>er_code = ''stream_closed'', er_message = render x\<rparr>\<rparr>])"

fun event_stream ::
  "(system_time \<Rightarrow> string option) \<Rightarrow> (runtime_error \<Rightarrow> string) \<Rightarrow> nat \<Rightarrow> 'w operation list \<Rightarrow> 'w runtime \<times> 'w
     \<Rightarrow> stream_record list \<times> ('w runtime \<times> 'w)" where
  "event_stream rfc3339 render i [] cfg = ([], cfg)"
| "event_stream rfc3339 render i (op # ops) cfg =
     (case (case op of Recv j \<Rightarrow> if j = i then snd (hub_recv i (rt_events (fst cfg))) else Pending | _ \<Rightarrow> Pending) of
        Received e \<Rightarrow>
          (case event_stream rfc3339 render i ops (exec op cfg) of (rs, cfg') \<Rightarrow> (event_record rfc3339 e # rs, cfg'))
      | Pending \<Rightarrow> event_stream rfc3339 render i ops (exec op cfg)
      | Ended \<Rightarrow> (closing_records render (hub_error i (rt_events (fst cfg))), run ops (exec (Cancel i) cfg)))"

section \<open>Routes\<close>

datatype http_method = GET | PUT | POST | DELETE

datatype route =
    StatusRoute
  | DevicesRoute
  | PluginsRoute
  | PluginRoute string
  | AdaptersRoute
  | AdapterRoute string
  | WindowRoute string
  | OpenWindowRoute string
  | ResetRoute string
  | ResourceRoute string string string
  | CapabilityRoute string string
  | WriteRoute string string
  | EventsRoute

text \<open>
  The table of \<open>router\<close> on the segments of the path. A parameter matches one segment that is not
  empty and is percent-decoded.
\<close>

definition route_of :: "(string \<Rightarrow> string) \<Rightarrow> http_method \<Rightarrow> string list \<Rightarrow> route option" where
  "route_of decode m path =
     (case path of
        [v, a] \<Rightarrow>
          if v \<noteq> ''v1'' \<or> m \<noteq> GET then None
          else if a = ''status'' then Some StatusRoute
          else if a = ''devices'' then Some DevicesRoute
          else if a = ''plugins'' then Some PluginsRoute
          else if a = ''adapters'' then Some AdaptersRoute
          else if a = ''events'' then Some EventsRoute
          else None
      | [v, a, i] \<Rightarrow>
          if v \<noteq> ''v1'' \<or> m \<noteq> GET \<or> i = [] then None
          else if a = ''plugins'' then Some (PluginRoute (decode i))
          else if a = ''adapters'' then Some (AdapterRoute (decode i))
          else None
      | [v, a, i, b] \<Rightarrow>
          if v \<noteq> ''v1'' \<or> a \<noteq> ''adapters'' \<or> i = [] then None
          else if b = ''commissioning-window''
          then (if m = GET then Some (WindowRoute (decode i)) else if m = POST then Some (OpenWindowRoute (decode i)) else None)
          else if b = ''reset'' \<and> m = POST then Some (ResetRoute (decode i))
          else None
      | [v, a, d, b, c] \<Rightarrow>
          if v \<noteq> ''v1'' \<or> a \<noteq> ''devices'' \<or> b \<noteq> ''capabilities'' \<or> d = [] \<or> c = [] then None
          else if m = GET then Some (CapabilityRoute (decode d) (decode c))
          else if m = PUT then Some (WriteRoute (decode d) (decode c))
          else None
      | [v, a, i, b, t, r] \<Rightarrow>
          if v \<noteq> ''v1'' \<or> a \<noteq> ''adapters'' \<or> b \<noteq> ''resources'' \<or> i = [] \<or> t = [] \<or> r = [] \<or> m \<noteq> DELETE then None
          else Some (ResourceRoute (decode i) (decode t) (decode r))
      | _ \<Rightarrow> None)"

section \<open>Lemmas\<close>

lemma find_in_states_find:
  "find_in_states d c ss =
     (case find (\<lambda>s. dev_id (ds_device s) = d) ss of
        None \<Rightarrow> Err not_found
      | Some s \<Rightarrow> (case capability_by_id (ds_device s) c of
          None \<Rightarrow> Err not_found | Some k \<Rightarrow> Ok (capability_from_state k (map_of (ds_values s) c))))"
proof (induction ss)
  case (Cons s ss)
  have "find (\<lambda>k. cap_id k = c) (dev_capabilities (ds_device s)) = capability_by_id (ds_device s) c" by (simp add: capability_by_id_def)
  then show ?case using Cons capability_by_id_mem [of "ds_device s" c] by (auto split: option.splits)
qed simp

text \<open>A look-up by the API finds the registered capability with its current value.\<close>

lemma find_capability_registered:
  assumes "rt_ok rt" and "map_of (rt_devices rt) d = Some a" and "map_of (rt_heap rt) a = Some g"
    and "capability_by_id (reg_definition g) c = Some k"
  shows "find_capability rt d c = Ok (capability_from_state k (current_value rt d c))"
proof -
  let ?state = "\<lambda>(d, a). \<lparr>ds_device = reg_definition (object rt a), ds_values = reg_current (object rt a)\<rparr>"
  have "dev_id (ds_device (?state e)) = fst e" if "e \<in> set (rt_devices rt)" for e
    using object_ok(2) [OF assms(1), of "fst e" "snd e"] that by (cases e) (auto simp: reg_ok_def)
  then have "find (\<lambda>s. dev_id (ds_device s) = d) (snap_devices (take_snapshot rt)) = map_option (\<lambda>v. ?state (d, v)) (map_of (rt_devices rt) d)"
    unfolding snapshot_devices [OF assms(1)] by (rule find_by_map_of)
  then show ?thesis
    using assms(2-4) by (simp add: find_capability_def find_in_states_find object_def current_value_def)
qed

lemma put_command_ok:
  assumes "put_command render_value d c body = Ok cmd"
  shows "cmd_device cmd = d" "cmd_capability cmd = c" "body = Some (value_from_core (cmd_value cmd))"
  using assms admin.to_from
  by (auto simp: put_command_def and_then_eq_Ok map_err_eq_Ok strict_body_def ok_or_eq_Ok id_new_ok)

lemma put_command_error: "put_command render_value d c body = Err f \<Longrightarrow> af_status f = 400"
  by (auto simp: put_command_def and_then_eq_Err map_err_eq_Err strict_body_def ok_or_eq_Err bad_request_def)

lemma core_status_range: "af_status (from_core render e) \<in> {400, 404, 409, 500, 503}"
  by (cases e rule: core_status.cases) (simp_all add: from_core_def)

lemma write_value_keeps: "write_value now cmd rt w = (rt', w', Err e) \<Longrightarrow> rt' = rt"
  by (auto simp: write_value_def Let_def dest: write_finish_error_keeps split: sum.splits prod.splits)

text \<open>What a write leaves in the registry.\<close>

lemma written_capability:
  assumes "rt_ok rt" and "write_value now cmd rt w = (rt', w', Ok v)"
  obtains k u where "find_capability rt' (cmd_device cmd) (cmd_capability cmd) = Ok (capability_from_state k (Some u))"
    and "current_value rt' (cmd_device cmd) (cmd_capability cmd) = Some u" and "value_eq u v" and "cap_id k = cmd_capability cmd"
    and "perm_write (cap_permissions k)" and "admits k (cmd_value cmd)" and "admits k u"
proof -
  from write_value_ok [OF assms] obtain a k h w1 where step: "write_begin cmd rt = Ok (a, k, h)" "h cmd w = (w1, Ok v)" "admits k v"
      "commit now a (cmd_device cmd) k v rt w1 = (rt', w', Ok ())" .
  note began = write_begin_ok [OF assms(1) step(1)]
  obtain g where g: "map_of (rt_devices rt) (cmd_device cmd) = Some a" "map_of (rt_heap rt) a = Some g" "reg_ok (cmd_device cmd) g"
      "map_of (reg_capabilities g) (cmd_capability cmd) = Some k"
    using began(1) by (auto simp: lookup_ok [OF assms(1)])
  note k = reg_ok_capability [OF g(3,4)]
  obtain u0 where eff: "\<forall>d' c'. current_value rt' d' c' =
         (if d' = cmd_device cmd \<and> c' = cmd_capability cmd \<and> \<not> value_eq u0 v then Some v else current_value rt d' c')"
      "current_value rt (cmd_device cmd) (cmd_capability cmd) = Some u0" "rt_devices rt' = rt_devices rt"
    using commit_effect [OF assms(1) began(1) step(4)] by blast
  obtain g' where g': "map_of (rt_heap rt') a = Some g'" "reg_definition g' = reg_definition g"
    using commit_object [OF step(4) g(2)] by blast
  have ok': "rt_ok rt'" using rt_ok_write_value [OF assms(1), of now cmd w] assms(2) by simp
  define u where "u = (if value_eq u0 v then u0 else v)"
  have now: "current_value rt' (cmd_device cmd) (cmd_capability cmd) = Some u" using eff by (simp add: u_def)
  have "find_capability rt' (cmd_device cmd) (cmd_capability cmd) = Ok (capability_from_state k (Some u))"
    using find_capability_registered [OF ok', of "cmd_device cmd" a g' "cmd_capability cmd" k] g g' eff(3) k(1) now by simp
  moreover have "reg_ok (cmd_device cmd) g'" using rt_okD(3) [OF ok', of "cmd_device cmd" a] eff(3) g(1) g'(1) by auto
  then have "admits k u" using now eff(3) g(1) g' k(1) by (auto simp: reg_ok_def current_value_def)
  moreover have "value_eq u v" using step(3) by (simp add: u_def value_eq_refl admits_validate)
  ultimately show thesis using that now k(3) began(2,4) by blast
qed

lemma put_capability_result:
  assumes "rt_ok (sv_runtime sv)" and "put_capability render render_value now d c body sv = (sv', r)"
  shows "case r of
      Ok answer \<Rightarrow> \<exists>k requested u. body = Some (value_from_core requested) \<and> admits k requested \<and> perm_write (cap_permissions k)
        \<and> cap_id k = c \<and> current_value (sv_runtime sv') d c = Some u \<and> admits k u
        \<and> answer = capability_from_state k (Some u) \<and> find_capability (sv_runtime sv') d c = Ok answer
    | Err f \<Rightarrow> sv_runtime sv' = sv_runtime sv \<and> af_status f \<in> {400, 404, 409, 500, 503}"
proof (cases "put_command render_value d c body")
  case (Inl f)
  then show ?thesis using assms(2) put_command_error [OF Inl] by (auto simp: put_capability_def)
next
  case (Inr cmd)
  note cmd = put_command_ok [OF Inr]
  obtain rt w x where run: "write_value now cmd (sv_runtime sv) (sv_world sv) = (rt, w, x)" by (metis prod_cases3)
  show ?thesis
  proof (cases x)
    case (Inl e)
    then show ?thesis
      using assms(2) Inr run write_value_keeps core_status_range [of render e] by (auto simp: put_capability_def)
  next
    case (Inr v)
    obtain k u where k: "find_capability rt d c = Ok (capability_from_state k (Some u))" "current_value rt d c = Some u"
        "cap_id k = c" "perm_write (cap_permissions k)" "admits k (cmd_value cmd)" "admits k u"
      using written_capability [OF assms(1) run [unfolded Inr]] cmd by metis
    moreover have "sv_runtime sv' = rt" "r = Ok (capability_from_state k (Some u))"
      using assms(2) \<open>put_command render_value d c body = Ok cmd\<close> run Inr k(1) by (auto simp: put_capability_def)
    ultimately show ?thesis using cmd(3) by auto
  qed
qed

section \<open>Properties\<close>

text \<open>C22: Setting a capability through the API answers with the capability as it is registered and the
  value that the runtime now holds, which equals what the integration answered; the request carried
  the encoding of a value that the writable capability admits. A request that fails, with any of the
  statuses 400, 404, 409, 500 or 503, leaves the runtime as it was.\<close>

theorem put_capability_effect:
  assumes "rt_ok (sv_runtime sv)" and "put_capability render render_value now d c body sv = (sv', r)"
  shows "case r of
      Ok answer \<Rightarrow> \<exists>k requested u. body = Some (value_from_core requested) \<and> admits k requested \<and> perm_write (cap_permissions k)
        \<and> cap_id k = c \<and> current_value (sv_runtime sv') d c = Some u \<and> admits k u
        \<and> answer = capability_from_state k (Some u) \<and> find_capability (sv_runtime sv') d c = Ok answer
    | Err f \<Rightarrow> sv_runtime sv' = sv_runtime sv \<and> af_status f \<in> {400, 404, 409, 500, 503}"
  by (rule put_capability_result [OF assms])

definition sample_server :: "unit server" where
  "sample_server = \<lparr>sv_runtime = sample_runtime, sv_world = (), sv_build = ''test'', sv_plugins = [], sv_adapters = [], sv_started = None\<rparr>"

definition sample_put :: "unit server \<times> (api_failure, admin_capability) result" where
  "sample_put = put_capability (\<lambda>_. []) (\<lambda>_. []) 0 ''virtual.switch'' ''on'' (Some (value_from_core (VBool True))) sample_server"

theorem put_capability_effect_witness:
  "\<exists>answer u. snd sample_put = Ok answer \<and> cp_id answer = ''on''
     \<and> current_value (sv_runtime (fst sample_put)) ''virtual.switch'' ''on'' = Some u
     \<and> find_capability (sv_runtime (fst sample_put)) ''virtual.switch'' ''on'' = Ok answer"
proof -
  have ids: "device_id_new ''virtual.switch'' = Ok ''virtual.switch''" "capability_id_new ''on'' = Ok ''on''" by code_simp+
  have "value_validate (VBool True) = Ok ()" by code_simp
  then have "value_to_core (value_from_core (VBool True)) = Ok (VBool True)" by (rule admin.from_to)
  then have cmd: "put_command (\<lambda>_. []) ''virtual.switch'' ''on'' (Some (value_from_core (VBool True))) = Ok sample_command"
    by (simp add: put_command_def strict_body_def ids sample_command_def)
  obtain rt w where run: "write_value 0 sample_command sample_runtime () = (rt, w, Ok (VBool True))"
    using sample_write by (metis prod.collapse)
  obtain k u where "find_capability rt ''virtual.switch'' ''on'' = Ok (capability_from_state k (Some u))"
    using written_capability [OF sample_runtime_ok run, unfolded sample_command_def command.simps] by blast
  then obtain answer where out: "sample_put = (fst sample_put, Ok answer)"
    using run by (simp add: sample_put_def put_capability_def cmd sample_server_def)
  have "rt_ok (sv_runtime sample_server)" using sample_runtime_ok by (simp add: sample_server_def)
  from put_capability_effect [OF this out [unfolded sample_put_def]]
  have effect: "case Ok answer :: (api_failure, admin_capability) result of
      Ok answer \<Rightarrow> \<exists>k requested u. Some (value_from_core (VBool True)) = Some (value_from_core requested) \<and> admits k requested
        \<and> perm_write (cap_permissions k) \<and> cap_id k = ''on'' \<and> current_value (sv_runtime (fst sample_put)) ''virtual.switch'' ''on'' = Some u
        \<and> admits k u \<and> answer = capability_from_state k (Some u)
        \<and> find_capability (sv_runtime (fst sample_put)) ''virtual.switch'' ''on'' = Ok answer
    | Err f \<Rightarrow> sv_runtime (fst sample_put) = sv_runtime sample_server \<and> af_status f \<in> {400, 404, 409, 500, 503}"
    unfolding sample_put_def .
  then obtain k u where "answer = capability_from_state k (Some u)" "cap_id k = ''on''"
      "current_value (sv_runtime (fst sample_put)) ''virtual.switch'' ''on'' = Some u"
      "find_capability (sv_runtime (fst sample_put)) ''virtual.switch'' ''on'' = Ok answer" by auto
  moreover have "snd sample_put = Ok answer" using out by (metis snd_conv)
  ultimately show ?thesis by (auto simp: capability_from_state_def)
qed

end
