(* ===== verification/Admin_Client.thy ===== *)
theory Admin_Client
  imports Admin_Api
begin

text \<open>
  The client of the administration API, \<open>crates/oikade-admin/src/client.rs\<close>: the paths of its requests,
  the bounded reading of a response, the errors, and the watcher that cuts the event stream into
  records. The HTTP client is \<open>reqwest\<close>: a response is its status, the announced length and the
  chunks of its body. JSON and the percent-encoding of a segment are parameters.
\<close>

section \<open>Responses\<close>

definition MAX_RESPONSE_BODY :: nat where "MAX_RESPONSE_BODY = 1048576"

datatype client_error =
    RequestFailed string
  | RequestTimedOut
  | ResponseTooLarge
  | DecodeFailed string
  | ApiError nat string string
  | StreamClosed
  | InvalidStreamRecord
  | ReceiverFailed string

datatype chunk = Chunk string | ChunkError string

record response =
  rp_status :: nat
  rp_content_length :: "nat option"
  rp_body :: "chunk list"

definition is_success :: "nat \<Rightarrow> bool" where
  "is_success status \<longleftrightarrow> 200 \<le> status \<and> status < 300"

fun read_chunks :: "string \<Rightarrow> chunk list \<Rightarrow> (client_error, string) result" where
  "read_chunks body [] = Ok body"
| "read_chunks body (ChunkError m # rest) = Err (RequestFailed m)"
| "read_chunks body (Chunk c # rest) =
     (if length body + length c > MAX_RESPONSE_BODY then Err ResponseTooLarge else read_chunks (body @ c) rest)"

definition read_bounded :: "response \<Rightarrow> (client_error, string) result" where
  "read_bounded r =
     (if (case rp_content_length r of None \<Rightarrow> False | Some n \<Rightarrow> n > MAX_RESPONSE_BODY) then Err ResponseTooLarge
      else read_chunks [] (rp_body r))"

text \<open>The text of a status, with its number and its reason, belongs to \<open>StatusCode\<close>.\<close>

definition decode_api_error :: "(nat \<Rightarrow> string) \<Rightarrow> (string \<Rightarrow> (string, error_payload) result) \<Rightarrow> nat \<Rightarrow> string \<Rightarrow> client_error" where
  "decode_api_error show_status decode status body =
     (case decode body of
        Ok p \<Rightarrow> ApiError status (er_code p) (er_message p)
      | Err _ \<Rightarrow> ApiError status ''invalid_error_response'' (''admin API returned HTTP '' @ show_status status @ '' with an invalid error body''))"

text \<open>\<open>unary\<close>; \<open>Err None\<close> is the elapsed timeout.\<close>

definition unary ::
  "(nat \<Rightarrow> string) \<Rightarrow> (string \<Rightarrow> (string, error_payload) result) \<Rightarrow> (string \<Rightarrow> (string, 'a) result) \<Rightarrow> (string option, response) result
     \<Rightarrow> (client_error, 'a) result" where
  "unary show_status decode_error decode outcome =
     (case outcome of
        Err None \<Rightarrow> Err RequestTimedOut
      | Err (Some m) \<Rightarrow> Err (RequestFailed m)
      | Ok r \<Rightarrow>
          and_then (read_bounded r) (\<lambda>body.
            if \<not> is_success (rp_status r) then Err (decode_api_error show_status decode_error (rp_status r) body)
            else map_err DecodeFailed (decode body)))"

section \<open>Paths\<close>

definition capability_path :: "(string \<Rightarrow> string) \<Rightarrow> string \<Rightarrow> string \<Rightarrow> string" where
  "capability_path segment d c = ''/v1/devices/'' @ segment d @ ''/capabilities/'' @ segment c"

text \<open>The method and the path of each call, by the route that it is meant for.\<close>

fun request_line :: "(string \<Rightarrow> string) \<Rightarrow> route \<Rightarrow> http_method \<times> string" where
  "request_line segment StatusRoute = (GET, ''/v1/status'')"
| "request_line segment DevicesRoute = (GET, ''/v1/devices'')"
| "request_line segment PluginsRoute = (GET, ''/v1/plugins'')"
| "request_line segment (PluginRoute i) = (GET, ''/v1/plugins/'' @ segment i)"
| "request_line segment AdaptersRoute = (GET, ''/v1/adapters'')"
| "request_line segment (AdapterRoute i) = (GET, ''/v1/adapters/'' @ segment i)"
| "request_line segment (CapabilityRoute d c) = (GET, capability_path segment d c)"
| "request_line segment (WriteRoute d c) = (PUT, capability_path segment d c)"
| "request_line segment (OpenWindowRoute i) = (POST, ''/v1/adapters/'' @ segment i @ ''/commissioning-window'')"
| "request_line segment (WindowRoute i) = (GET, ''/v1/adapters/'' @ segment i @ ''/commissioning-window'')"
| "request_line segment (ResourceRoute i t r) =
     (DELETE, ''/v1/adapters/'' @ segment i @ ''/resources/'' @ segment t @ ''/'' @ segment r)"
| "request_line segment (ResetRoute i) = (POST, ''/v1/adapters/'' @ segment i @ ''/reset'')"
| "request_line segment EventsRoute = (GET, ''/v1/events'')"

text \<open>What the server makes of a path: the segments between the slashes, as in \<open>Config\<close>.\<close>

definition path_segments :: "string \<Rightarrow> string list" where
  "path_segments path =
     (case path of [] \<Rightarrow> [] | c # cs \<Rightarrow> if c = CHR ''/'' then split_slash [] cs else [])"

fun route_arguments :: "route \<Rightarrow> string list" where
  "route_arguments (PluginRoute i) = [i]"
| "route_arguments (AdapterRoute i) = [i]"
| "route_arguments (WindowRoute i) = [i]"
| "route_arguments (OpenWindowRoute i) = [i]"
| "route_arguments (ResetRoute i) = [i]"
| "route_arguments (ResourceRoute i t r) = [i, t, r]"
| "route_arguments (CapabilityRoute d c) = [d, c]"
| "route_arguments (WriteRoute d c) = [d, c]"
| "route_arguments _ = []"

section \<open>The watcher\<close>

text \<open>The receiver of the events is a closure: \<open>receive e s\<close> is its state after the event and whether it
  accepts it.\<close>

definition receive_record ::
  "nat \<Rightarrow> (admin_event \<Rightarrow> 's \<Rightarrow> 's \<times> (string, unit) result) \<Rightarrow> stream_record \<Rightarrow> 's \<Rightarrow> 's \<times> (client_error, unit) result" where
  "receive_record status receive r s =
     (case st_error r of
        Some e \<Rightarrow> (s, Err (ApiError status (er_code e) (er_message e)))
      | None \<Rightarrow>
          (case st_event r of
             None \<Rightarrow> (s, Err InvalidStreamRecord)
           | Some e \<Rightarrow> (case receive e s of (s', x) \<Rightarrow> (s', map_err ReceiverFailed x))))"

text \<open>The complete lines at the front of the buffer; the rest stays in it.\<close>

fun take_records ::
  "(string \<Rightarrow> (string, stream_record) result) \<Rightarrow> nat \<Rightarrow> (admin_event \<Rightarrow> 's \<Rightarrow> 's \<times> (string, unit) result) \<Rightarrow> string \<Rightarrow> string \<Rightarrow> 's
     \<Rightarrow> 's \<times> (client_error, string) result" where
  "take_records decode status receive line [] s = (s, Ok line)"
| "take_records decode status receive line (b # bs) s =
     (if b \<noteq> newline then take_records decode status receive (line @ [b]) bs s
      else if line = [] then take_records decode status receive [] bs s
      else case decode line of
        Err m \<Rightarrow> (s, Err (DecodeFailed m))
      | Ok r \<Rightarrow>
          (case receive_record status receive r s of
             (s', Err e) \<Rightarrow> (s', Err e)
           | (s', Ok _) \<Rightarrow> take_records decode status receive [] bs s'))"

fun watch_chunks ::
  "(string \<Rightarrow> (string, stream_record) result) \<Rightarrow> nat \<Rightarrow> (admin_event \<Rightarrow> 's \<Rightarrow> 's \<times> (string, unit) result) \<Rightarrow> string \<Rightarrow> chunk list \<Rightarrow> 's
     \<Rightarrow> 's \<times> client_error" where
  "watch_chunks decode status receive buffer [] s =
     (if buffer = [] then (s, StreamClosed)
      else case decode buffer of
        Err m \<Rightarrow> (s, DecodeFailed m)
      | Ok r \<Rightarrow> (case receive_record status receive r s of (s', Err e) \<Rightarrow> (s', e) | (s', Ok _) \<Rightarrow> (s', StreamClosed)))"
| "watch_chunks decode status receive buffer (ChunkError m # rest) s = (s, RequestFailed m)"
| "watch_chunks decode status receive buffer (Chunk c # rest) s =
     (if length (buffer @ c) > MAX_RESPONSE_BODY then (s, ResponseTooLarge)
      else case take_records decode status receive [] (buffer @ c) s of
        (s', Err e) \<Rightarrow> (s', e)
      | (s', Ok left) \<Rightarrow> watch_chunks decode status receive left rest s')"

definition watch ::
  "(nat \<Rightarrow> string) \<Rightarrow> (string \<Rightarrow> (string, error_payload) result) \<Rightarrow> (string \<Rightarrow> (string, stream_record) result)
     \<Rightarrow> (admin_event \<Rightarrow> 's \<Rightarrow> 's \<times> (string, unit) result) \<Rightarrow> (string, response) result \<Rightarrow> 's \<Rightarrow> 's \<times> client_error" where
  "watch show_status decode_error decode receive outcome s =
     (case outcome of
        Err m \<Rightarrow> (s, RequestFailed m)
      | Ok r \<Rightarrow>
          if \<not> is_success (rp_status r)
          then (s, case read_bounded r of Err e \<Rightarrow> e | Ok body \<Rightarrow> decode_api_error show_status decode_error (rp_status r) body)
          else watch_chunks decode (rp_status r) receive [] (rp_body r) s)"

section \<open>What a watcher is given\<close>

text \<open>The body that the server sends for a list of records, one line each.\<close>

definition stream_lines :: "(stream_record \<Rightarrow> string) \<Rightarrow> stream_record list \<Rightarrow> string" where
  "stream_lines encode rs = concat (map (\<lambda>r. encode r @ [newline]) rs)"

text \<open>The effect of a list of records, and of a list of events, on the receiver.\<close>

fun receive_records ::
  "nat \<Rightarrow> (admin_event \<Rightarrow> 's \<Rightarrow> 's \<times> (string, unit) result) \<Rightarrow> stream_record list \<Rightarrow> 's \<Rightarrow> 's \<times> (client_error, unit) result" where
  "receive_records status receive [] s = (s, Ok ())"
| "receive_records status receive (r # rs) s =
     (case receive_record status receive r s of
        (s', Err e) \<Rightarrow> (s', Err e)
      | (s', Ok _) \<Rightarrow> receive_records status receive rs s')"

fun feed_events :: "(admin_event \<Rightarrow> 's \<Rightarrow> 's \<times> (string, unit) result) \<Rightarrow> admin_event list \<Rightarrow> client_error \<Rightarrow> 's \<Rightarrow> 's \<times> client_error" where
  "feed_events receive [] ending s = (s, ending)"
| "feed_events receive (e # es) ending s =
     (case receive e s of (s', Err m) \<Rightarrow> (s', ReceiverFailed m) | (s', Ok _) \<Rightarrow> feed_events receive es ending s')"

text \<open>What is relied on of the JSON of records: it decodes to the record and is one line.\<close>

definition line_codec :: "(string \<Rightarrow> (string, stream_record) result) \<Rightarrow> (stream_record \<Rightarrow> string) \<Rightarrow> stream_record list \<Rightarrow> bool" where
  "line_codec decode encode rs \<longleftrightarrow> (\<forall>r \<in> set rs. decode (encode r) = Ok r \<and> newline \<notin> set (encode r) \<and> encode r \<noteq> [])"

lemma line_codec_simps [simp]:
  "line_codec decode encode (r # rs) \<longleftrightarrow> decode (encode r) = Ok r \<and> newline \<notin> set (encode r) \<and> encode r \<noteq> [] \<and> line_codec decode encode rs"
  "line_codec decode encode (rs @ rs') \<longleftrightarrow> line_codec decode encode rs \<and> line_codec decode encode rs'"
  by (auto simp: line_codec_def)

lemma stream_lines_simps [simp]:
  "stream_lines encode [] = []"
  "stream_lines encode (r # rs) = encode r @ newline # stream_lines encode rs"
  by (simp_all add: stream_lines_def)

lemma take_records_partial:
  "newline \<notin> set left \<Longrightarrow> take_records decode status receive line (left @ bs) s = take_records decode status receive (line @ left) bs s"
  by (induction left arbitrary: line) auto

lemma take_records_lines:
  assumes "line_codec decode encode rs" "newline \<notin> set left"
  shows "take_records decode status receive [] (stream_lines encode rs @ left) s =
           (case receive_records status receive rs s of (s', Err e) \<Rightarrow> (s', Err e) | (s', Ok _) \<Rightarrow> (s', Ok left))"
  using assms(1)
proof (induction rs arbitrary: s)
  case Nil
  then show ?case using take_records_partial [OF assms(2), of decode status receive "[]" "[]"] by simp
next
  case (Cons r rs)
  then show ?case by (simp add: take_records_partial split: prod.split sum.split)
qed

text \<open>Wherever the body is cut, the first part is some whole lines and the beginning of the next.\<close>

lemma stream_lines_cut:
  assumes "p @ q = stream_lines encode rs" and "line_codec decode encode rs"
  obtains rs1 rs2 left where "rs = rs1 @ rs2" "p = stream_lines encode rs1 @ left" "newline \<notin> set left" "left @ q = stream_lines encode rs2"
  using assms
proof (induction rs arbitrary: p thesis)
  case Nil
  then show ?case by simp
next
  case (Cons r rs)
  show ?case
  proof (cases "length p \<le> length (encode r)")
    case True
    then have "p = take (length p) (encode r)" using Cons.prems(2) by (simp add: append_eq_conv_conj)
    then have "newline \<notin> set p" using Cons.prems(3) by (metis in_set_takeD line_codec_simps(1))
    then show ?thesis using Cons.prems(1) [of "[]" "r # rs" p] Cons.prems(2) by simp
  next
    case False
    then have "p = encode r @ drop (length (encode r)) p" "drop (length (encode r)) p @ q = newline # stream_lines encode rs"
      using Cons.prems(2) by (auto simp: append_eq_append_conv_if) (metis append_take_drop_id)
    moreover from False have "drop (length (encode r)) p \<noteq> []" by simp
    ultimately obtain us where us: "p = encode r @ us" "us @ q = newline # stream_lines encode rs" "us \<noteq> []" by metis
    then obtain p' where p': "p = encode r @ newline # p'" "p' @ q = stream_lines encode rs" by (cases us) auto
    show ?thesis
    proof (rule Cons.IH [OF _ p'(2)])
      show "line_codec decode encode rs" using Cons.prems(3) by simp
    next
      fix rs1 rs2 left
      assume "rs = rs1 @ rs2" "p' = stream_lines encode rs1 @ left" "newline \<notin> set left" "left @ q = stream_lines encode rs2"
      then show ?thesis using Cons.prems(1) [of "r # rs1" rs2 left] p'(1) by simp
    qed
  qed
qed

lemma unfinished_line:
  assumes "left @ q = stream_lines encode rs" "newline \<notin> set left" "left \<noteq> []"
  shows "\<exists>r \<in> set rs. length left \<le> length (encode r)"
proof (cases rs)
  case (Cons r rs')
  have "\<not> length (encode r) < length left"
  proof
    assume "length (encode r) < length left"
    then have "left ! length (encode r) = newline"
      using assms(1) Cons by (metis nth_append nth_append_length stream_lines_simps(2))
    then show False using assms(2) \<open>length (encode r) < length left\<close> by (metis nth_mem)
  qed
  then show ?thesis using Cons by auto
qed (use assms in simp)

lemma receive_records_append:
  "receive_records status receive (rs1 @ rs2) s =
     (case receive_records status receive rs1 s of (s', Err e) \<Rightarrow> (s', Err e) | (s', Ok _) \<Rightarrow> receive_records status receive rs2 s')"
  by (induction rs1 arbitrary: s) (auto split: prod.split sum.split)

text \<open>A watcher does not see how the body was cut into chunks.\<close>

lemma watch_chunks_lines:
  assumes "line_codec decode encode rs"
    and "buffer @ concat chunks = stream_lines encode rs" "newline \<notin> set buffer"
    and "\<forall>c \<in> set chunks. length c \<le> MAX_RESPONSE_BODY \<and> (\<forall>r \<in> set rs. length (encode r) + length c \<le> MAX_RESPONSE_BODY)"
  shows "watch_chunks decode status receive buffer (map Chunk chunks) s =
           (case receive_records status receive rs s of (s', Err e) \<Rightarrow> (s', e) | (s', Ok _) \<Rightarrow> (s', StreamClosed))"
  using assms
proof (induction chunks arbitrary: buffer rs s)
  case Nil
  have "buffer = [] \<and> rs = []"
    using Nil.prems(2,3) by (cases rs) auto
  then show ?case by simp
next
  case (Cons c chunks)
  from Cons.prems(2) have "(buffer @ c) @ concat chunks = stream_lines encode rs" by simp
  from stream_lines_cut [OF this Cons.prems(1)] obtain rs1 rs2 left where cut: "rs = rs1 @ rs2"
      "buffer @ c = stream_lines encode rs1 @ left" "newline \<notin> set left" "left @ concat chunks = stream_lines encode rs2" by metis
  have "length (buffer @ c) \<le> MAX_RESPONSE_BODY"
    using unfinished_line [OF Cons.prems(2,3)] Cons.prems(4) by (cases "buffer = []") fastforce+
  moreover have "watch_chunks decode status receive left (map Chunk chunks) s' =
           (case receive_records status receive rs2 s' of (s'', Err e) \<Rightarrow> (s'', e) | (s'', Ok _) \<Rightarrow> (s'', StreamClosed))" for s'
    using Cons.IH [OF _ cut(4,3)] Cons.prems(1,4) cut(1) by simp
  ultimately show ?case
    using take_records_lines [of decode encode rs1 left status receive s] Cons.prems(1) cut(1-3)
    by (auto simp: receive_records_append split: prod.split sum.split)
qed

definition stream_ending :: "(runtime_error \<Rightarrow> string) \<Rightarrow> runtime_error option \<Rightarrow> client_error" where
  "stream_ending render e =
     (case e of
        None \<Rightarrow> StreamClosed
      | Some x \<Rightarrow> if x = runtime_error.Stopped then StreamClosed else ApiError 200 ''stream_closed'' (render x))"

lemma receive_records_feed:
  "(case receive_records 200 receive (map (event_record rfc3339) es @ closing_records render x) s of
      (s', Err e) \<Rightarrow> (s', e) | (s', Ok _) \<Rightarrow> (s', StreamClosed)) =
     feed_events receive (map (event_from_core rfc3339) es) (stream_ending render x) s"
proof (induction es arbitrary: s)
  case Nil
  then show ?case by (auto simp: receive_record_def closing_records_def stream_ending_def split: option.split)
next
  case (Cons e es)
  then show ?case by (cases "receive (event_from_core rfc3339 e) s"; cases "snd (receive (event_from_core rfc3339 e) s)")
    (simp_all add: receive_record_def event_record_def)
qed

text \<open>The records of a stream are the events delivered up to the end of the subscription, and its error.\<close>

definition stream_cut :: "nat \<Rightarrow> 'w operation list \<Rightarrow> 'w runtime \<times> 'w \<Rightarrow> nat \<Rightarrow> runtime_error option \<Rightarrow> bool" where
  "stream_cut i ops cfg n x \<longleftrightarrow>
     (if n < length ops
      then ops ! n = Recv i \<and> snd (hub_recv i (rt_events (fst (run (take n ops) cfg)))) = Ended
        \<and> x = hub_error i (rt_events (fst (run (take n ops) cfg)))
      else x = None)"

lemma stream_cut_step: "stream_cut i ops (exec op cfg) n x \<Longrightarrow> stream_cut i (op # ops) cfg (Suc n) x"
  by (simp add: stream_cut_def)

lemma event_stream_delivered:
  "\<exists>n x. stream_cut i ops cfg n x
     \<and> fst (event_stream rfc3339 render i ops cfg) = map (event_record rfc3339) (delivered i (take n ops) cfg) @ closing_records render x"
proof (induction ops arbitrary: cfg)
  case Nil
  then show ?case by (auto simp: closing_records_def stream_cut_def)
next
  case (Cons op ops)
  let ?turn = "case op of Recv j \<Rightarrow> if j = i then snd (hub_recv i (rt_events (fst cfg))) else Pending | _ \<Rightarrow> Pending"
  let ?stream = "fst (event_stream rfc3339 render i (op # ops) cfg)"
  obtain n x where IH: "stream_cut i ops (exec op cfg) n x" "fst (event_stream rfc3339 render i ops (exec op cfg)) =
      map (event_record rfc3339) (delivered i (take n ops) (exec op cfg)) @ closing_records render x" using Cons by blast
  show ?case
  proof (cases "?turn = Ended")
    case True
    then have "op = Recv i" by (auto split: operation.splits if_splits)
    then have "stream_cut i (op # ops) cfg 0 (hub_error i (rt_events (fst cfg)))" using True by (simp add: stream_cut_def)
    moreover have "?stream = map (event_record rfc3339) (delivered i (take 0 (op # ops)) cfg) @ closing_records render (hub_error i (rt_events (fst cfg)))"
      using True by simp
    ultimately show ?thesis by blast
  next
    case False
    then have "?stream = map (event_record rfc3339) (delivered i (take (Suc n) (op # ops)) cfg) @ closing_records render x"
      using IH(2) by (auto split: operation.splits if_splits prod.split received.splits)
    then show ?thesis using stream_cut_step [OF IH(1)] by blast
  qed
qed

section \<open>Routes\<close>

lemma split_slash_end: "CHR ''/'' \<notin> set a \<Longrightarrow> split_slash acc a = [acc @ a]"
  by (induction a arbitrary: acc) auto

lemma split_slash_step: "CHR ''/'' \<notin> set a \<Longrightarrow> split_slash acc (a @ CHR ''/'' # b) = (acc @ a) # split_slash [] b"
  by (induction a arbitrary: acc) auto


section \<open>The stream of events\<close>

text \<open>C24: A client that watches the events of the runtime gives its receiver exactly the events that the
  runtime delivered to the subscription, in their order and with strictly increasing revisions,
  whatever the chunks in which the body arrives: until the receiver refuses one, or the stream ends,
  at the turn that finds the subscription ended and with the error it ended with, unless the runtime
  was stopped. The JSON of a
  record decodes to it and is one line, and no chunk exceeds the bound of the buffer together with a
  line.\<close>

theorem watch_receives_events:
  assumes "line_codec decode encode (fst (event_stream rfc3339 render i ops (runtime_new st, w)))"
    and "concat chunks = stream_lines encode (fst (event_stream rfc3339 render i ops (runtime_new st, w)))"
    and "\<forall>c \<in> set chunks. length c \<le> MAX_RESPONSE_BODY \<and>
           (\<forall>r \<in> set (fst (event_stream rfc3339 render i ops (runtime_new st, w))). length (encode r) + length c \<le> MAX_RESPONSE_BODY)"
  shows "\<exists>n x. let events = map (event_from_core rfc3339) (delivered i (take n ops) (runtime_new st, w)) in
      stream_cut i ops (runtime_new st, w) n x \<and> sorted_wrt (<) (map ae_revision events)
      \<and> watch show_status decode_error decode receive (Ok \<lparr>rp_status = 200, rp_content_length = None, rp_body = map Chunk chunks\<rparr>) s =
          feed_events receive events (stream_ending render x) s"
proof -
  obtain n x where cut: "stream_cut i ops (runtime_new st, w) n x" and rs: "fst (event_stream rfc3339 render i ops (runtime_new st, w)) =
      map (event_record rfc3339) (delivered i (take n ops) (runtime_new st, w)) @ closing_records render x"
    using event_stream_delivered by blast
  have "sorted_wrt (<) (map ae_revision (map (event_from_core rfc3339) (delivered i (take n ops) (runtime_new st, w))))"
    using delivered_above [of "(runtime_new st, w)" 0 i "take n ops"]
    by (simp add: sorted_wrt_map event_from_core_def rt_ok_new)
      (simp add: queue_of_def hub_channel_def runtime_new_def hub_empty_def)
  moreover have "watch show_status decode_error decode receive (Ok \<lparr>rp_status = 200, rp_content_length = None, rp_body = map Chunk chunks\<rparr>) s =
          feed_events receive (map (event_from_core rfc3339) (delivered i (take n ops) (runtime_new st, w))) (stream_ending render x) s"
    using watch_chunks_lines [of decode encode _ "[]" chunks 200 receive s, OF assms(1) _ _ assms(3)] assms(2)
    by (simp add: watch_def is_success_def rs receive_records_feed)
  ultimately show ?thesis using cut by (auto simp: Let_def)
qed

definition sample_ops :: "unit operation list" where
  "sample_ops = [Start, Subscribe 1, Register sample_device (Some sample_handler), Recv 1, WriteValue 0 sample_command, Recv 1, Stop, Recv 1]"

definition sample_records :: "stream_record list" where
  "sample_records = fst (event_stream (\<lambda>_. None) (\<lambda>_. []) 1 sample_ops (runtime_new None, ()))"

definition sample_watch :: "admin_event list \<times> client_error" where
  "sample_watch = watch (\<lambda>_. []) (\<lambda>_. Err []) (\<lambda>_. Ok (hd sample_records)) (\<lambda>e es. (es @ [e], Ok ()))
     (Ok \<lparr>rp_status = 200, rp_content_length = None, rp_body = map Chunk [''{'', [CHR ''}'', newline]]\<rparr>) []"

lemma feed_all: "feed_events (\<lambda>e es. (es @ [e], Ok ())) es x s = (s @ es, x)"
  by (induction es arbitrary: s) simp_all

theorem watch_receives_events_witness:
  "\<exists>n. fst sample_watch = map (event_from_core (\<lambda>_. None)) (delivered 1 (take n sample_ops) (runtime_new None, ()))
     \<and> sorted_wrt (<) (map ae_revision (fst sample_watch))"
proof -
  have one: "length sample_records = 1" by code_simp
  then obtain r where r: "sample_records = [r]" by (auto simp: length_Suc_conv)
  have "line_codec (\<lambda>_. Ok (hd sample_records)) (\<lambda>_. ''{}'') sample_records" by (simp add: r line_codec_def)
  moreover have "concat [''{'', [CHR ''}'', newline]] = stream_lines (\<lambda>_. ''{}'') sample_records" by (simp add: r)
  moreover have "\<forall>c \<in> set [''{'', [CHR ''}'', newline]]. length c \<le> MAX_RESPONSE_BODY
      \<and> (\<forall>r \<in> set sample_records. length ''{}'' + length c \<le> MAX_RESPONSE_BODY)" by (simp add: MAX_RESPONSE_BODY_def)
  ultimately obtain n x where
      "sorted_wrt (<) (map ae_revision (map (event_from_core (\<lambda>_. None)) (delivered 1 (take n sample_ops) (runtime_new None, ()))))"
      "sample_watch = feed_events (\<lambda>e es. (es @ [e], Ok ())) (map (event_from_core (\<lambda>_. None)) (delivered 1 (take n sample_ops) (runtime_new None, ())))
         (stream_ending (\<lambda>_. []) x) []"
    using watch_receives_events [of "\<lambda>_. Ok (hd sample_records)" "\<lambda>_. ''{}''" "\<lambda>_. None" "\<lambda>_. []" 1 sample_ops None "()"
        "[''{'', [CHR ''}'', newline]]" "\<lambda>_. []" "\<lambda>_. Err []" "\<lambda>e es. (es @ [e], Ok ())" "[]", folded sample_records_def sample_watch_def]
    unfolding Let_def by blast
  then show ?thesis by (metis feed_all append_Nil fst_conv)
qed

text \<open>The percent-encoding of every character that is not a letter or a digit, for the witness.\<close>

definition hex_char :: "nat \<Rightarrow> char" where
  "hex_char n = ''0123456789ABCDEF'' ! n"

definition hex_value :: "char \<Rightarrow> nat" where
  "hex_value c = length (takeWhile (\<lambda>x. x \<noteq> c) ''0123456789ABCDEF'')"

definition sample_plain :: "char \<Rightarrow> bool" where
  "sample_plain c \<longleftrightarrow> (let n = of_char c :: nat in 48 \<le> n \<and> n \<le> 57 \<or> 65 \<le> n \<and> n \<le> 90 \<or> 97 \<le> n \<and> n \<le> 122)"

definition sample_encode :: "char \<Rightarrow> string" where
  "sample_encode c = (if sample_plain c then [c] else [CHR ''%'', hex_char (of_char c div 16), hex_char (of_char c mod 16)])"

definition sample_segment :: "string \<Rightarrow> string" where
  "sample_segment s = concat (map sample_encode s)"

fun sample_decode :: "string \<Rightarrow> string" where
  "sample_decode (c # h # l # cs) =
     (if c = CHR ''%'' then char_of (16 * hex_value h + hex_value l) # sample_decode cs else c # sample_decode (h # l # cs))"
| "sample_decode s = s"

lemma hex_digits: "n < 16 \<Longrightarrow> hex_value (hex_char n) = n \<and> hex_char n \<noteq> CHR ''/''"
proof -
  have "list_all (\<lambda>n. hex_value (hex_char n) = n \<and> hex_char n \<noteq> CHR ''/'') [0..<16]" by code_simp
  then show "n < 16 \<Longrightarrow> hex_value (hex_char n) = n \<and> hex_char n \<noteq> CHR ''/''" by (simp add: list_all_iff)
qed

lemma sample_encode_cases:
  obtains (plain) "sample_encode c = [c]" "c \<noteq> CHR ''%''" "c \<noteq> CHR ''/''"
  | (escaped) h l where "sample_encode c = [CHR ''%'', h, l]" "h \<noteq> CHR ''/''" "l \<noteq> CHR ''/''"
      "char_of (16 * hex_value h + hex_value l) = c"
proof (cases "sample_plain c")
  case True
  then have "c \<noteq> CHR ''%''" "c \<noteq> CHR ''/''" by (auto simp: sample_plain_def Let_def)
  then show thesis using True plain by (simp add: sample_encode_def)
next
  case False
  have "of_char c < (256 :: nat)" using of_char_mod_256 [of c, where ?'a = nat] mod_less_divisor [of 256 "of_char c"] by presburger
  then have "of_char c div 16 < (16 :: nat)" "of_char c mod 16 < (16 :: nat)"
    by (simp_all add: less_mult_imp_div_less)
  then have "hex_char (of_char c div 16) \<noteq> CHR ''/''" "hex_char (of_char c mod 16) \<noteq> CHR ''/''"
      "char_of (16 * hex_value (hex_char (of_char c div 16)) + hex_value (hex_char (of_char c mod 16))) = c"
    by (simp_all only: hex_digits) simp_all
  then show thesis using False escaped by (simp add: sample_encode_def)
qed

lemma sample_decode_plain: "c \<noteq> CHR ''%'' \<Longrightarrow> sample_decode (c # cs) = c # sample_decode cs"
  by (cases cs rule: sample_decode.cases) auto

lemma sample_roundtrip: "sample_decode (sample_segment s) = s"
proof (induction s)
  case (Cons c s)
  then show ?case
    by (cases c rule: sample_encode_cases) (simp_all add: sample_segment_def sample_decode_plain)
qed (simp add: sample_segment_def)

lemma sample_no_slash: "CHR ''/'' \<notin> set (sample_segment s)"
proof (induction s)
  case (Cons c s)
  then show ?case by (cases c rule: sample_encode_cases) (auto simp: sample_segment_def)
qed (simp add: sample_segment_def)

lemma sample_not_empty: "s \<noteq> [] \<Longrightarrow> sample_segment s \<noteq> []"
  by (cases s) (auto simp: sample_segment_def sample_encode_def)


end
