(* ===== verification/Admin_Socket.thy ===== *)
theory Admin_Socket
  imports Admin_Client
begin

text \<open>
  The Unix socket of the administration API, \<open>crates/oikade-admin/src/server/socket.rs\<close>, and the
  construction, start and stop of the server in \<open>server.rs\<close>. What is at the path of the socket, and
  which sockets have a listener, is the state; the errors of the operating system are arguments. The
  path is not the root directory, so it has a parent.
\<close>

section \<open>The file system at the path of the socket\<close>

record socket_identity =
  si_device :: "64 word"
  si_inode :: "64 word"

datatype file_entry = SocketEntry socket_identity | DirectoryEntry | SymlinkEntry | RegularEntry

text \<open>The entry at the path, the entry of its parent, and the sockets that accept connections.\<close>

record socket_path =
  sk_entry :: "file_entry option"
  sk_parent :: "file_entry option"
  sk_listening :: "socket_identity list"

datatype server_error =
    MissingSocket
  | SocketPathTooLong
  | AlreadyStarted
  | ServerIo string
  | ServerTask string

text \<open>The calls that can fail for reasons of their own, and the text of their error.\<close>

datatype os_call = CreateParent | StatParent | StatSocket | ConnectSocket | StatAgain | RemoveSocket | BindSocket | ChmodSocket | StatBound

type_synonym os_faults = "os_call \<Rightarrow> string option"

definition os_try :: "os_faults \<Rightarrow> os_call \<Rightarrow> (server_error, unit) result" where
  "os_try faults c = (case faults c of None \<Rightarrow> Ok () | Some m \<Rightarrow> Err (ServerIo m))"

definition prepare_parent :: "os_faults \<Rightarrow> socket_path \<Rightarrow> socket_path \<times> (server_error, unit) result" where
  "prepare_parent faults s =
     (case os_try faults CreateParent of
        Err e \<Rightarrow> (s, Err e)
      | Ok _ \<Rightarrow>
          let s = (if sk_parent s = None then s\<lparr>sk_parent := Some DirectoryEntry\<rparr> else s)
          in (s, and_then (os_try faults StatParent) (\<lambda>_.
                reject (sk_parent s \<noteq> Some DirectoryEntry) (ServerIo ''admin socket parent must be a real directory''))))"

definition identity_of :: "file_entry option \<Rightarrow> (server_error, socket_identity) result" where
  "identity_of e =
     (case e of
        None \<Rightarrow> Err (ServerIo ''No such file or directory'')
      | Some (SocketEntry i) \<Rightarrow> Ok i
      | Some _ \<Rightarrow> Err (ServerIo ''admin socket path is not a Unix socket''))"

definition socket_identity_at :: "os_faults \<Rightarrow> os_call \<Rightarrow> socket_path \<Rightarrow> (server_error, socket_identity) result" where
  "socket_identity_at faults c s = and_then (os_try faults c) (\<lambda>_. identity_of (sk_entry s))"

text \<open>The attempt to connect: somebody listens, nobody does, it takes too long or it fails otherwise.\<close>

datatype dial = Connected | TimedOut | ConnectionRefused | DialError string

definition dial_outcome :: "bool \<Rightarrow> os_faults \<Rightarrow> socket_identity \<Rightarrow> socket_path \<Rightarrow> dial" where
  "dial_outcome slow faults i s =
     (if slow then TimedOut
      else case faults ConnectSocket of
        Some m \<Rightarrow> DialError m
      | None \<Rightarrow> if i \<in> set (sk_listening s) then Connected else ConnectionRefused)"

text \<open>\<open>remove_stale_socket\<close>; \<open>others\<close> is what other processes do to the path during the attempt to connect.\<close>

definition remove_stale_socket ::
  "bool \<Rightarrow> (socket_path \<Rightarrow> socket_path) \<Rightarrow> os_faults \<Rightarrow> socket_path \<Rightarrow> socket_path \<times> (server_error, unit) result" where
  "remove_stale_socket slow others faults s =
     (case os_try faults StatSocket of
        Err e \<Rightarrow> (s, Err e)
      | Ok _ \<Rightarrow>
          (case sk_entry s of
             None \<Rightarrow> (s, Ok ())
           | Some (SocketEntry expected) \<Rightarrow>
               (case dial_outcome slow faults expected s of
                  Connected \<Rightarrow> (s, Err (ServerIo ''admin socket is already accepting connections''))
                | TimedOut \<Rightarrow> (s, Err (ServerIo ''cannot confirm that admin socket is stale''))
                | DialError m \<Rightarrow> (s, Err (ServerIo m))
                | ConnectionRefused \<Rightarrow>
                    let s = others s in
                    (case socket_identity_at faults StatAgain s of
                       Err e \<Rightarrow> (s, Err e)
                     | Ok i \<Rightarrow>
                         if i \<noteq> expected then (s, Err (ServerIo ''admin socket changed during stale check''))
                         else (case os_try faults RemoveSocket of
                             Err e \<Rightarrow> (s, Err e)
                           | Ok _ \<Rightarrow> (s\<lparr>sk_entry := None\<rparr>, Ok ()))))
           | Some _ \<Rightarrow> (s, Err (ServerIo ''admin socket path exists and is not a Unix socket''))))"

definition remove_socket_if_same :: "os_faults \<Rightarrow> socket_identity \<Rightarrow> socket_path \<Rightarrow> socket_path \<times> (server_error, unit) result" where
  "remove_socket_if_same faults expected s =
     (case os_try faults StatSocket of
        Err e \<Rightarrow> (s, Err e)
      | Ok _ \<Rightarrow>
          (case sk_entry s of
             None \<Rightarrow> (s, Ok ())
           | Some e \<Rightarrow>
               if e \<noteq> SocketEntry expected then (s, Err (ServerIo ''refusing to remove replaced admin socket''))
               else (case os_try faults RemoveSocket of
                   Err e \<Rightarrow> (s, Err e)
                 | Ok _ \<Rightarrow> (s\<lparr>sk_entry := None\<rparr>, Ok ()))))"

section \<open>The server\<close>

definition MAX_SOCKET_PATH_BYTES :: nat where "MAX_SOCKET_PATH_BYTES = 99"

text \<open>\<open>Server::new_with_build\<close>: the path of the socket, made absolute.\<close>

definition server_new :: "(string, string) result \<Rightarrow> string \<Rightarrow> (server_error, string) result" where
  "server_new current_dir path =
     (if path = [] then Err MissingSocket
      else and_then (if is_absolute path then Ok path else and_then (map_err ServerIo current_dir) (\<lambda>d. Ok (path_join d path))) (\<lambda>p.
        if length p > MAX_SOCKET_PATH_BYTES then Err SocketPathTooLong else Ok p))"

text \<open>\<open>running\<close> is the identity of the socket that was bound; \<open>started\<close> the time of the start.\<close>

record api_server =
  sr_running :: "socket_identity option"
  sr_started :: "(system_time \<times> nat) option"

definition bind_socket :: "os_faults \<Rightarrow> socket_identity \<Rightarrow> socket_path \<Rightarrow> socket_path \<times> (server_error, unit) result" where
  "bind_socket faults fresh s =
     (case os_try faults BindSocket of
        Err e \<Rightarrow> (s, Err e)
      | Ok _ \<Rightarrow>
          if sk_entry s \<noteq> None then (s, Err (ServerIo ''Address already in use''))
          else (s\<lparr>sk_entry := Some (SocketEntry fresh), sk_listening := fresh # sk_listening s\<rparr>, Ok ()))"

text \<open>\<open>Server::start\<close>. A listener whose start fails after the binding is dropped and stops listening.\<close>

definition server_start ::
  "bool \<Rightarrow> (socket_path \<Rightarrow> socket_path) \<Rightarrow> os_faults \<Rightarrow> socket_identity \<Rightarrow> system_time \<times> nat \<Rightarrow> api_server \<times> socket_path
     \<Rightarrow> (api_server \<times> socket_path) \<times> (server_error, unit) result" where
  "server_start slow others faults fresh now = (\<lambda>(v, s).
     if sr_running v \<noteq> None then ((v, s), Err AlreadyStarted)
     else case prepare_parent faults s of
       (s, Err e) \<Rightarrow> ((v, s), Err e)
     | (s, Ok _) \<Rightarrow>
         (case remove_stale_socket slow others faults s of
            (s, Err e) \<Rightarrow> ((v, s), Err e)
          | (s, Ok _) \<Rightarrow>
              (case bind_socket faults fresh s of
                 (s, Err e) \<Rightarrow> ((v, s), Err e)
               | (s, Ok _) \<Rightarrow>
                   (case and_then (os_try faults ChmodSocket) (\<lambda>_. socket_identity_at faults StatBound s) of
                      Err e \<Rightarrow> ((v, s\<lparr>sk_listening := filter (\<lambda>i. i \<noteq> fresh) (sk_listening s)\<rparr>), Err e)
                    | Ok i \<Rightarrow> ((v\<lparr>sr_running := Some i, sr_started := Some now\<rparr>, s), Ok ())))))"

text \<open>\<open>Server::stop\<close>; the outcome of the task that serves the requests is an argument.\<close>

definition server_stop ::
  "(string, (string, unit) result) result \<Rightarrow> os_faults \<Rightarrow> api_server \<times> socket_path \<Rightarrow> (api_server \<times> socket_path) \<times> (server_error, unit) result" where
  "server_stop task faults = (\<lambda>(v, s).
     case sr_running v of
       None \<Rightarrow> ((v, s), Ok ())
     | Some i \<Rightarrow>
         let v = v\<lparr>sr_running := None\<rparr>; s = s\<lparr>sk_listening := filter (\<lambda>j. j \<noteq> i) (sk_listening s)\<rparr> in
         (case task of
            Err m \<Rightarrow> ((v, s), Err (ServerTask m))
          | Ok (Err m) \<Rightarrow> ((v, s), Err (ServerIo m))
          | Ok (Ok _) \<Rightarrow>
              (case remove_socket_if_same faults i s of
                 (s, Err e) \<Rightarrow> ((v, s), Err e)
               | (s, Ok _) \<Rightarrow> ((v\<lparr>sr_started := None\<rparr>, s), Ok ()))))"

section \<open>Whose socket it is\<close>

text \<open>Something at the path that must not be removed: a socket that somebody listens on, or no socket.\<close>

definition protected :: "socket_path \<Rightarrow> bool" where
  "protected s \<longleftrightarrow> (case sk_entry s of None \<Rightarrow> False | Some (SocketEntry i) \<Rightarrow> i \<in> set (sk_listening s) | Some _ \<Rightarrow> True)"

definition stale :: "socket_path \<Rightarrow> bool" where
  "stale s \<longleftrightarrow> \<not> protected s \<and> sk_parent s \<in> {None, Some DirectoryEntry}"

lemma prepare_parent_keeps:
  "prepare_parent faults s = (s', r) \<Longrightarrow> sk_entry s' = sk_entry s \<and> sk_listening s' = sk_listening s"
  by (auto simp: prepare_parent_def Let_def split: sum.splits if_splits)

lemma remove_stale_protected:
  "protected s \<Longrightarrow> remove_stale_socket slow others faults s = (s', r) \<Longrightarrow> sk_entry s' = sk_entry s \<and> r \<noteq> Ok ()"
  by (auto simp: remove_stale_socket_def protected_def dial_outcome_def split: sum.splits option.splits file_entry.splits if_splits)

lemma bind_socket_ok:
  "bind_socket faults fresh s = (s', Ok u) \<Longrightarrow> sk_entry s' = Some (SocketEntry fresh) \<and> fresh \<in> set (sk_listening s')"
  by (auto simp: bind_socket_def split: sum.splits if_splits)

lemma start_protected:
  assumes "protected s" and "server_start slow others faults fresh now (v, s) = ((v', s'), r)"
  shows "sk_entry s' = sk_entry s" and "r \<noteq> Ok ()"
proof -
  have "protected s1" if "prepare_parent faults s = (s1, x)" for s1 x
    using prepare_parent_keeps [OF that] assms(1) by (simp add: protected_def split: option.splits file_entry.splits)
  then show "sk_entry s' = sk_entry s" "r \<noteq> Ok ()"
    using assms(2) by (auto simp: server_start_def split: if_splits prod.splits sum.splits
        dest!: prepare_parent_keeps dest: remove_stale_protected)
qed

lemma start_ok:
  assumes "server_start slow others faults fresh now (v, s) = ((v', s'), Ok u)"
  shows "sk_entry s' = Some (SocketEntry fresh)" and "sr_running v' = Some fresh" and "fresh \<in> set (sk_listening s')"
  using assms
  by (auto simp: server_start_def socket_identity_at_def identity_of_def and_then_eq_Ok
      split: if_splits prod.splits sum.splits dest!: bind_socket_ok)

lemma stop_removes_own:
  assumes "sr_running v = Some i" and "server_stop task faults (v, s) = ((v', s'), r)"
  shows "sk_entry s' = sk_entry s \<or> sk_entry s = Some (SocketEntry i) \<and> sk_entry s' = None"
    and "r = Ok () \<Longrightarrow> sk_entry s' = None"
  using assms
  by (auto simp: server_stop_def remove_socket_if_same_def Let_def split: sum.splits option.splits if_splits)

lemma stale_socket_replaced:
  assumes "stale s" and "sr_running v = None"
  shows "snd (server_start False (\<lambda>s. s) (\<lambda>_. None) fresh now (v, s)) = Ok ()"
  using assms
  by (auto simp: server_start_def prepare_parent_def remove_stale_socket_def stale_def protected_def dial_outcome_def os_try_def
      socket_identity_at_def identity_of_def bind_socket_def Let_def split: option.splits file_entry.splits)


definition left_behind :: socket_path where
  "left_behind = \<lparr>sk_entry = Some (SocketEntry \<lparr>si_device = 1, si_inode = 7\<rparr>), sk_parent = Some DirectoryEntry, sk_listening = []\<rparr>"

definition sample_start :: "(api_server \<times> socket_path) \<times> (server_error, unit) result" where
  "sample_start = server_start False (\<lambda>s. s) (\<lambda>_. None) \<lparr>si_device = 1, si_inode = 8\<rparr> (0, 0)
     (\<lparr>sr_running = None, sr_started = None\<rparr>, left_behind)"


end
