(* ===== verification/Command_Line.thy ===== *)
theory Command_Line
  imports Admin_Socket
begin

text \<open>
  The daemon's command line, \<open>apps/oikade/src/main.rs\<close>: the dispatch of the commands, the arguments of
  \<open>run\<close> and \<open>validate\<close>, the configuration that they give and the components that \<open>run\<close> builds from
  it, in the order in which the daemon starts them. The environment of the process is a record: its variables, its directory
  and executable, the file system, and the decoders of \<open>serde\<close>.
\<close>

section \<open>The environment of the process\<close>

record process_env =
  pe_variable :: "string \<Rightarrow> string option"
  pe_macos :: bool
  pe_current_dir :: "(string, string) result"
  pe_current_exe :: "(string, string) result"
  pe_is_file :: "string \<Rightarrow> bool"
  pe_files :: file_system
  pe_is_executable :: "string \<Rightarrow> (string, bool \<times> bool) result"
  pe_ensure_dir :: "string \<Rightarrow> string \<Rightarrow> (string, string) result"
  pe_open_storage :: "string \<Rightarrow> (string, unit) result"
  pe_config_lib :: config_lib
  pe_decode_manifest :: "json \<Rightarrow> (string, manifest) result"

datatype cli_error =
    UnknownCommand string
  | UnknownSubcommand string string
  | RequiresPath string
  | RequiresValue string
  | UnexpectedArgument string string
  | OptionRequired string
  | ConfigFailed config_error
  | HomeNotSet
  | CurrentDirectory string
  | ExecutableUnknown string
  | ExecutableHasNoParent
  | NoAdapterExecutable string string
  | StorageFailed string
  | VirtualFailed virtual_error
  | PluginFailed string instance_error
  | AdapterFailed adapter_error
  | DiscriminatorMissing
  | ServerFailed server_error
  | ClientFailed client_error
  | NoSocketPath
  | WrongOperands string nat nat
  | CapabilityNotReadable
  | CapabilityNotWritable
  | ValueWrongPayload string
  | BooleanText
  | IntegerText string
  | NumberText string
  | TextNotFinite
  | UnsupportedKindText string
  | RuntimeUnhealthy
  | AdapterUnhealthy
  | ConfirmRequired
  | ConfirmDiffers string
  | DurationText string
  | DurationTooLarge
  | DurationNotInRange

definition load_config :: "process_env \<Rightarrow> string \<Rightarrow> (cli_error, config) result" where
  "load_config env path = map_err ConfigFailed (config_load (pe_config_lib env) (fs_read (pe_files env)) path)"

section \<open>Commands\<close>

datatype invocation =
    PrintUsage
  | PrintVersion
  | ValidateConfig "string list"
  | RunDaemon "string list"
  | Administer string "string list"

definition invocation_of :: "string list \<Rightarrow> (cli_error, invocation) result" where
  "invocation_of args =
     (case args of
        [] \<Rightarrow> Ok PrintUsage
      | c # rest \<Rightarrow>
          if c \<in> {''help'', ''-h'', ''--help''} then Ok PrintUsage
          else if c = ''version'' then Ok PrintVersion
          else if c = ''validate'' then Ok (ValidateConfig rest)
          else if c = ''run'' then Ok (RunDaemon rest)
          else if c \<in> {''status'', ''devices'', ''plugins'', ''adapters''} then Ok (Administer c rest)
          else Err (UnknownCommand c))"

text \<open>\<open>build_version\<close> and \<open>build_identity\<close>; the variables are those of the compilation.\<close>

definition build_version :: "string option \<Rightarrow> string \<Rightarrow> string" where
  "build_version override package = (case override of Some v \<Rightarrow> v | None \<Rightarrow> package)"

definition build_identity :: "string \<Rightarrow> string option \<Rightarrow> string option \<Rightarrow> string" where
  "build_identity version revision date =
     (case (revision, date) of
        (Some c, Some d) \<Rightarrow>
          if c \<noteq> [] \<and> d \<noteq> [] then ''oikade '' @ version @ '' (commit '' @ c @ '', built '' @ d @ '')'' else ''oikade '' @ version
      | _ \<Rightarrow> ''oikade '' @ version)"

text \<open>The loop of \<open>validate_command\<close>: \<open>Ok None\<close> when help was asked for.\<close>

fun validate_arguments :: "string option \<Rightarrow> string list \<Rightarrow> (cli_error, string option option) result" where
  "validate_arguments path [] = Ok (Some path)"
| "validate_arguments path (a # rest) =
     (if a = ''--config''
      then (case rest of [] \<Rightarrow> Err (RequiresPath ''validate: --config'') | p # rest' \<Rightarrow> validate_arguments (Some p) rest')
      else if a \<in> {''-h'', ''--help''} then Ok None
      else Err (UnexpectedArgument ''validate'' a))"

definition validate_command :: "process_env \<Rightarrow> string list \<Rightarrow> (cli_error, string) result" where
  "validate_command env args =
     and_then (validate_arguments None args) (\<lambda>parsed.
       case parsed of
         None \<Rightarrow> Ok ''Usage: oikade validate --config <path>''
       | Some path \<Rightarrow>
           and_then (ok_or (OptionRequired ''validate: --config'') path) (\<lambda>path.
           and_then (load_config env path) (\<lambda>_.
             Ok (''Configuration is valid: '' @ path))))"

section \<open>The arguments of run\<close>

record run_options =
  ro_config :: "string option"
  ro_state_dir :: "string option"
  ro_socket :: "string option"
  ro_log_level :: "string option"

definition run_options_default :: run_options where
  "run_options_default = \<lparr>ro_config = None, ro_state_dir = None, ro_socket = None, ro_log_level = None\<rparr>"

fun run_arguments :: "run_options \<Rightarrow> string list \<Rightarrow> (cli_error, run_options option) result" where
  "run_arguments opts [] = Ok (Some opts)"
| "run_arguments opts (a # rest) =
     (if a = ''--config''
      then (case rest of [] \<Rightarrow> Err (RequiresPath ''run: --config'') | p # rest' \<Rightarrow> run_arguments (opts\<lparr>ro_config := Some p\<rparr>) rest')
      else if a = ''--state-dir''
      then (case rest of [] \<Rightarrow> Err (RequiresPath ''run: --state-dir'') | p # rest' \<Rightarrow> run_arguments (opts\<lparr>ro_state_dir := Some p\<rparr>) rest')
      else if a = ''--socket''
      then (case rest of [] \<Rightarrow> Err (RequiresPath ''run: --socket'') | p # rest' \<Rightarrow> run_arguments (opts\<lparr>ro_socket := Some p\<rparr>) rest')
      else if a = ''--log-level''
      then (case rest of [] \<Rightarrow> Err (RequiresValue ''run: --log-level'') | p # rest' \<Rightarrow> run_arguments (opts\<lparr>ro_log_level := Some p\<rparr>) rest')
      else if a \<in> {''-h'', ''--help''} then Ok None
      else Err (UnexpectedArgument ''run'' a))"

definition default_state_directory :: "process_env \<Rightarrow> (cli_error, string) result" where
  "default_state_directory env =
     (if pe_macos env
      then and_then (ok_or HomeNotSet (pe_variable env ''HOME'')) (\<lambda>home.
             Ok (path_join (path_join (path_join home ''Library'') ''Application Support'') ''oikade''))
      else case pe_variable env ''XDG_CONFIG_HOME'' of
        Some c \<Rightarrow> Ok (path_join c ''oikade'')
      | None \<Rightarrow>
          and_then (ok_or HomeNotSet (pe_variable env ''HOME'')) (\<lambda>home.
            Ok (path_join (path_join home ''.config'') ''oikade'')))"

definition load_or_default :: "process_env \<Rightarrow> string option \<Rightarrow> (cli_error, config) result" where
  "load_or_default env path =
     (case path of None \<Rightarrow> Ok default_config | Some p \<Rightarrow> load_config env p)"

text \<open>The configuration of a run: the file, the overrides, the defaults and the validation.\<close>

definition override_with :: "'a option \<Rightarrow> 'a \<Rightarrow> 'a" where
  "override_with x y = (case x of None \<Rightarrow> y | Some v \<Rightarrow> v)"

definition run_config :: "process_env \<Rightarrow> run_options \<Rightarrow> (cli_error, config) result" where
  "run_config env opts =
     and_then (load_or_default env (ro_config opts)) (\<lambda>c.
     let state_dir = override_with (ro_state_dir opts) (rc_state_dir (cf_runtime c));
         socket = override_with (ro_socket opts) (rc_admin_socket (cf_runtime c));
         level = override_with (ro_log_level opts) (rc_log_level (cf_runtime c))
     in and_then (if state_dir = [] then default_state_directory env else Ok state_dir) (\<lambda>dir.
        let socket = (if socket = [] then path_join dir ''oikade.sock'' else socket)
        in map_err ConfigFailed (config_validate
             (c\<lparr>cf_runtime := \<lparr>rc_log_level = level, rc_state_dir = dir, rc_admin_socket = socket\<rparr>\<rparr>))))"

section \<open>The components of a run\<close>

definition MATTER_ADAPTER_ID :: string where "MATTER_ADAPTER_ID = ''oikade.matter''"
definition MATTER_PROTOCOL :: string where "MATTER_PROTOCOL = ''matter''"

definition resolve_matter_executable :: "process_env \<Rightarrow> string \<Rightarrow> (cli_error, string) result" where
  "resolve_matter_executable env configured =
     (if configured \<noteq> [] then Ok configured
      else and_then (map_err ExecutableUnknown (pe_current_exe env)) (\<lambda>host.
      and_then (ok_or ExecutableHasNoParent (path_parent host)) (\<lambda>directory.
        let name = ''oikade-matter-adapter'';
            first = path_join directory name;
            second = path_join (path_join (path_join (path_join directory ''..'') ''libexec'') ''oikade'') name
        in if pe_is_file env first then Ok first
           else if pe_is_file env second then Ok second
           else Err (NoAdapterExecutable first second))))"

text \<open>The arguments and the specification of the Matter adapter.\<close>

definition matter_args :: "matter_config \<Rightarrow> string list" where
  "matter_args m = [''--matter-log-level'', mc_log_level m]"

definition matter_spec :: "string \<Rightarrow> string \<Rightarrow> string \<Rightarrow> matter_config \<Rightarrow> nat \<Rightarrow> adapter_spec" where
  "matter_spec version executable state_dir m discriminator =
     (adapter_spec_new ''matter'' MATTER_ADAPTER_ID MATTER_PROTOCOL executable (path_join (path_join state_dir ''adapters'') ''matter''))
       \<lparr>sa_adapter_version := Some version,
        sa_environment := put ''OIKADE_MATTER_DISCRIMINATOR'' (digits discriminator)
                            (put ''OIKADE_MATTER_SETUP_PASSCODE'' (mc_setup_passcode m) [])\<rparr>"

datatype planned =
    PlanCore
  | PlanVirtual "device list"
  | PlanPlugin plugin_inner manifest string
  | PlanAdapter adapter_spec "(string, string) btree"
  | PlanAdmin string

definition plan_plugin :: "process_env \<Rightarrow> plugin_config \<Rightarrow> (cli_error, planned) result" where
  "plan_plugin env p =
     and_then (map_err (PluginFailed (pc_id p)) (instance_new (pe_files env) (pe_config_lib env) (pe_decode_manifest env) (instance_spec_new (pc_id p) (pc_artifact p)))) (\<lambda>(inner, m, exe).
       Ok (PlanPlugin inner m exe))"

definition plan_matter :: "process_env \<Rightarrow> string \<Rightarrow> string \<Rightarrow> matter_config \<Rightarrow> (cli_error, planned list) result" where
  "plan_matter env version state_dir m =
     (if \<not> mc_enabled m then Ok []
      else and_then (resolve_matter_executable env (mc_executable m)) (\<lambda>executable.
      and_then (ok_or DiscriminatorMissing (mc_discriminator m)) (\<lambda>d.
      and_then (map_err AdapterFailed (adapter_instance_new (fs_canonicalize (pe_files env)) (pe_is_executable env) (pe_ensure_dir env) (matter_spec version executable state_dir m d))) (\<lambda>(spec, environment).
        Ok [PlanAdapter spec environment]))))"

definition run_plan :: "process_env \<Rightarrow> string \<Rightarrow> config \<Rightarrow> (cli_error, planned list) result" where
  "run_plan env version c =
     and_then (map_err StorageFailed (pe_open_storage env (rc_state_dir (cf_runtime c)))) (\<lambda>_.
     and_then (if cf_switches c = [] then Ok []
               else and_then (map_err VirtualFailed (virtual_new (cf_switches c))) (\<lambda>ds. Ok [PlanVirtual ds])) (\<lambda>virtual.
     and_then (collect (plan_plugin env) (cf_plugins c)) (\<lambda>plugins.
     and_then (plan_matter env version (rc_state_dir (cf_runtime c)) (cf_matter c)) (\<lambda>adapters.
     and_then (map_err ServerFailed (server_new (pe_current_dir env) (rc_admin_socket (cf_runtime c)))) (\<lambda>socket.
       Ok (PlanCore # virtual @ plugins @ adapters @ [PlanAdmin socket]))))))"

text \<open>\<open>run_command\<close>, up to the run of the daemon; \<open>Ok None\<close> when help was asked for.\<close>

definition run_command :: "process_env \<Rightarrow> string \<Rightarrow> string list \<Rightarrow> (cli_error, planned list option) result" where
  "run_command env version args =
     and_then (run_arguments run_options_default args) (\<lambda>parsed.
       case parsed of
         None \<Rightarrow> Ok None
       | Some opts \<Rightarrow>
           and_then (run_config env opts) (\<lambda>c. and_then (run_plan env version c) (\<lambda>plan. Ok (Some plan))))"

end
