(* ===== verification/Matter_Process.thy ===== *)
theory Matter_Process
  imports Command_Line
begin

text \<open>
  The process of the Matter adapter, from \<open>apps/oikade-matter-adapter/src\<close>: the options that it reads
  from its environment and arguments (\<open>options.rs\<close>) and its log (\<open>logging.rs\<close>), and the other end of the
  log in the host, \<open>crates/oikade-adapter-host/src/instance/output.rs\<close>. The encoding of a log record is
  JSON, a parameter.
\<close>

section \<open>Options\<close>

datatype matter_log_level = LogNone | LogError | LogInfo | LogDebug

record matter_options =
  mo_rpc_fd :: nat
  mo_state_dir :: string
  mo_passcode :: nat
  mo_discriminator :: nat
  mo_log_level :: matter_log_level

datatype options_error =
    NotLaunchedByHost
  | StateDirRequired
  | StateDirFailed string
  | PasscodeNotDigits
  | PasscodeNotAllowed
  | DiscriminatorNotInRange
  | LogLevelRequired
  | LogLevelUnknown
  | UnsupportedArgument string

text \<open>\<open>str::parse::<RawFd>\<close> for the descriptors from 3 on: a number of 32 bits with its sign.\<close>

definition parse_rpc_fd :: "string \<Rightarrow> nat option" where
  "parse_rpc_fd s =
     (case u64_from_str_radix 10 s of
        None \<Rightarrow> None
      | Some n \<Rightarrow> if 3 \<le> n \<and> n < 2 ^ 31 then Some n else None)"

definition invalid_passcodes :: "nat list" where
  "invalid_passcodes =
     [0, 11111111, 22222222, 33333333, 44444444, 55555555, 66666666, 77777777, 88888888, 99999999, 12345678, 87654321]"

definition parse_passcode :: "string \<Rightarrow> (options_error, nat) result" where
  "parse_passcode s =
     (if length s \<noteq> 8 \<or> \<not> list_all is_ascii_digit s then Err PasscodeNotDigits
      else let p = from_digits s in
        if p > 99999998 \<or> p \<in> set invalid_passcodes then Err PasscodeNotAllowed else Ok p)"

text \<open>\<open>str::parse::<u16>\<close> and the range of a discriminator.\<close>

definition parse_discriminator :: "string \<Rightarrow> (options_error, nat) result" where
  "parse_discriminator s =
     (case u64_from_str_radix 10 s of
        None \<Rightarrow> Err DiscriminatorNotInRange
      | Some n \<Rightarrow> if n \<le> 4095 then Ok n else Err DiscriminatorNotInRange)"

definition parse_log_level :: "string \<Rightarrow> (options_error, matter_log_level) result" where
  "parse_log_level s =
     (if s = ''none'' then Ok LogNone else if s = ''error'' then Ok LogError
      else if s = ''info'' then Ok LogInfo else if s = ''debug'' then Ok LogDebug
      else Err LogLevelUnknown)"

fun parse_arguments :: "matter_log_level \<Rightarrow> string list \<Rightarrow> (options_error, matter_log_level) result" where
  "parse_arguments level [] = Ok level"
| "parse_arguments level (a # rest) =
     (if a = ''--matter-log-level''
      then (case rest of
              [] \<Rightarrow> Err LogLevelRequired
            | v # rest' \<Rightarrow> and_then (parse_log_level v) (\<lambda>l. parse_arguments l rest'))
      else case strip_prefix ''--matter-log-level='' a of
        Some v \<Rightarrow> and_then (parse_log_level v) (\<lambda>l. parse_arguments l rest)
      | None \<Rightarrow> Err (UnsupportedArgument a))"

definition or_else :: "'a option \<Rightarrow> 'a \<Rightarrow> 'a" where
  "or_else x y = (case x of None \<Rightarrow> y | Some v \<Rightarrow> v)"

definition options_parse ::
  "(string \<Rightarrow> (string, unit) result) \<Rightarrow> (string \<Rightarrow> string option) \<Rightarrow> string list \<Rightarrow> (options_error, matter_options) result" where
  "options_parse create_dir_all variable args =
     and_then (ok_or NotLaunchedByHost (Option.bind (variable ''OIKADE_ADAPTER_RPC_FD'') parse_rpc_fd)) (\<lambda>fd.
     and_then (case variable ''OIKADE_ADAPTER_STATE_DIR'' of
                 None \<Rightarrow> Err StateDirRequired | Some d \<Rightarrow> if d = [] then Err StateDirRequired else Ok d) (\<lambda>dir.
     and_then (map_err StateDirFailed (create_dir_all dir)) (\<lambda>_.
     and_then (parse_passcode (or_else (variable ''OIKADE_MATTER_SETUP_PASSCODE'') ''20202021'')) (\<lambda>passcode.
     and_then (parse_discriminator (or_else (variable ''OIKADE_MATTER_DISCRIMINATOR'') ''3840'')) (\<lambda>discriminator.
     and_then (parse_arguments LogInfo args) (\<lambda>level.
       Ok \<lparr>mo_rpc_fd = fd, mo_state_dir = dir, mo_passcode = passcode, mo_discriminator = discriminator, mo_log_level = level\<rparr>))))))"

section \<open>The log of the adapter\<close>

datatype log_level = LevelError | LevelWarn | LevelInfo | LevelDebug | LevelTrace

datatype adapter_log_level = AdapterDebug | AdapterInfo | AdapterWarn | AdapterError

record adapter_log_record =
  lr_version :: nat
  lr_level :: adapter_log_level
  lr_target :: string
  lr_message :: string

definition LOG_RECORD_PREFIX :: string where "LOG_RECORD_PREFIX = ''@oikade-adapter-log ''"
definition LOG_RECORD_VERSION :: nat where "LOG_RECORD_VERSION = 1"

fun level_enabled :: "matter_log_level \<Rightarrow> log_level \<Rightarrow> bool" where
  "level_enabled LogNone l = False"
| "level_enabled LogError l = (l = LevelError)"
| "level_enabled LogInfo l = (l \<in> {LevelError, LevelWarn, LevelInfo})"
| "level_enabled LogDebug l = (l \<noteq> LevelTrace)"

text \<open>\<open>str::contains\<close>.\<close>

fun str_contains :: "string \<Rightarrow> string \<Rightarrow> bool" where
  "str_contains [] pat = (pat = [])"
| "str_contains (c # cs) pat = (starts_with pat (c # cs) \<or> str_contains cs pat)"

definition expected_optional_probe :: "string \<Rightarrow> bool" where
  "expected_optional_probe m \<longleftrightarrow> str_contains m ''AttributeNotFound''
     \<or> (str_contains m ''Error processing attribute read'' \<or> str_contains m ''Error processing attribute write'')
       \<and> (str_contains m ''UnsupportedAttribute'' \<or> str_contains m ''UnsupportedCluster'')"

definition expected_exchange_chatter :: "string \<Rightarrow> bool" where
  "expected_exchange_chatter m \<longleftrightarrow> str_contains m ''No valid session found'' \<or> str_contains m ''No valid exchange found''
     \<or> str_contains m ''MRPStandAloneAck'' \<or> str_contains m ''InvalidSubscription'' \<or> str_contains m ''removed during reporting''
     \<or> str_contains m ''No PASE Commissioning Window to close''"

definition matter_milestone :: "string \<Rightarrow> bool" where
  "matter_milestone m \<longleftrightarrow> str_contains m ''PASE Basic Commissioning Window opened'' \<or> str_contains m ''PASE Commissioning Window closed''
     \<or> str_contains m ''Commissioning complete'' \<or> str_contains m ''Added operational fabric'' \<or> str_contains m ''Added subscription''
     \<or> str_contains m ''Subscription '' \<and> str_contains m '' primed''"

definition should_emit :: "matter_log_level \<Rightarrow> log_level \<Rightarrow> string \<Rightarrow> string \<Rightarrow> bool" where
  "should_emit configured l target m \<longleftrightarrow> level_enabled configured l \<and>
     (configured = LogDebug \<or> starts_with ''oikade_matter_adapter'' target
      \<or> (case l of
           LevelError \<Rightarrow> \<not> expected_optional_probe m
         | LevelWarn \<Rightarrow> \<not> expected_exchange_chatter m
         | LevelInfo \<Rightarrow> matter_milestone m
         | LevelDebug \<Rightarrow> False
         | LevelTrace \<Rightarrow> False))"

fun adapter_level :: "log_level \<Rightarrow> adapter_log_level" where
  "adapter_level LevelError = AdapterError"
| "adapter_level LevelWarn = AdapterWarn"
| "adapter_level LevelInfo = AdapterInfo"
| "adapter_level LevelDebug = AdapterDebug"
| "adapter_level LevelTrace = AdapterDebug"

text \<open>The line that \<open>log\<close> writes, without its newline; \<open>encode\<close> may fail.\<close>

definition encode_record :: "(adapter_log_record \<Rightarrow> string option) \<Rightarrow> adapter_log_level \<Rightarrow> string \<Rightarrow> string \<Rightarrow> string option" where
  "encode_record encode l target m =
     encode \<lparr>lr_version = LOG_RECORD_VERSION, lr_level = l, lr_target = target, lr_message = m\<rparr>"

definition emit_line :: "(adapter_log_record \<Rightarrow> string option) \<Rightarrow> adapter_log_level \<Rightarrow> string \<Rightarrow> string \<Rightarrow> string option" where
  "emit_line encode l target m = map_option (\<lambda>s. LOG_RECORD_PREFIX @ s) (encode_record encode l target m)"

definition logger_line :: "(adapter_log_record \<Rightarrow> string option) \<Rightarrow> matter_log_level \<Rightarrow> log_level \<Rightarrow> string \<Rightarrow> string \<Rightarrow> string option" where
  "logger_line encode configured l target m =
     (if level_enabled configured l \<and> should_emit configured l target m then emit_line encode (adapter_level l) target m else None)"

section \<open>The output of the adapter in the host\<close>

definition parse_structured_log :: "(string \<Rightarrow> (string, adapter_log_record) result) \<Rightarrow> string \<Rightarrow> adapter_log_record option" where
  "parse_structured_log decode line =
     (case strip_prefix LOG_RECORD_PREFIX line of
        None \<Rightarrow> None
      | Some encoded \<Rightarrow>
          (case decode encoded of
             Err _ \<Rightarrow> None
           | Ok r \<Rightarrow> if lr_version r = LOG_RECORD_VERSION then Some r else None))"

text \<open>What is reported: the level, the target if the line was a record, and the message or the line.\<close>

definition emit_adapter_output ::
  "(string \<Rightarrow> (string, adapter_log_record) result) \<Rightarrow> string \<Rightarrow> (adapter_log_level \<times> string option \<times> string) option" where
  "emit_adapter_output decode line =
     (if trim line = [] then None
      else case parse_structured_log decode line of
        None \<Rightarrow> Some (AdapterInfo, None, line)
      | Some r \<Rightarrow> Some (lr_level r, Some (lr_target r), lr_message r))"

section \<open>What the host passes is what the adapter accepts\<close>

lemma run_config_matter:
  assumes "run_config env opts = Ok c"
  shows "\<exists>m. validate_matter m = Ok (cf_matter c)"
  using assms by (auto simp: run_config_def config_validate_def and_then_eq_Ok map_err_eq_Ok Let_def)

lemma validated_matter:
  assumes "validate_matter m0 = Ok m" and "mc_enabled m"
  obtains d where "mc_discriminator m = Some d" and "validate_commissioning (mc_setup_passcode m) d = Ok ()"
    and "mc_log_level m \<in> set matter_levels"
  using assms by (auto simp: validate_matter_def normalized_log_level_def and_then_eq_Ok Let_def split: if_splits option.splits)

lemma passcode_accepted:
  assumes "validate_commissioning s d = Ok ()"
  shows "parse_passcode s = Ok (from_digits s)" and "d \<le> 4095"
  using assms by (auto simp: validate_commissioning_def parse_passcode_def prohibited_passcodes_def invalid_passcodes_def Let_def reject_def
      split: if_splits)

lemma level_accepted: "s \<in> set matter_levels \<Longrightarrow> is_ok (parse_log_level s)"
  by (auto simp: matter_levels_def parse_log_level_def is_ok_def)

lemma adapter_environment:
  assumes "adapter_instance_new canonicalize metadata ensure_dir spec = Ok (spec', environment)"
  shows "environment = put TRANSPORT_FD_ENVIRONMENT ''3'' (put STATE_DIRECTORY_ENVIRONMENT (sa_state_dir spec') (sa_environment spec))"
  using assms by (auto simp: adapter_instance_new_def and_then_eq_Ok)

text \<open>C29: Every configuration with which the daemon starts the Matter adapter is one that the adapter
  accepts. Whatever the configuration file, the options and the environment are, the variables and
  arguments that the host passes are read by the adapter as the passcode, the discriminator and the
  level of the log of the configuration, with the descriptor and the directory of the instance:
  validation in the host implies validation in the adapter, a separate program.\<close>

theorem adapter_accepts_configuration:
  assumes "run_config env opts = Ok c" and "plan_matter env version (rc_state_dir (cf_runtime c)) (cf_matter c) = Ok [PlanAdapter spec environment]"
    and "sa_state_dir spec \<noteq> []" and "create_dir_all (sa_state_dir spec) = Ok ()"
  shows "\<exists>d level. mc_discriminator (cf_matter c) = Some d \<and> parse_log_level (mc_log_level (cf_matter c)) = Ok level
    \<and> options_parse create_dir_all (map_of environment) (matter_args (cf_matter c)) =
        Ok \<lparr>mo_rpc_fd = 3, mo_state_dir = sa_state_dir spec, mo_passcode = from_digits (mc_setup_passcode (cf_matter c)),
            mo_discriminator = d, mo_log_level = level\<rparr>"
proof -
  obtain m0 where valid: "validate_matter m0 = Ok (cf_matter c)" using run_config_matter [OF assms(1)] by blast
  have "mc_enabled (cf_matter c)" using assms(2) by (auto simp: plan_matter_def split: if_splits)
  with valid obtain d where d: "mc_discriminator (cf_matter c) = Some d" "validate_commissioning (mc_setup_passcode (cf_matter c)) d = Ok ()"
    and level: "mc_log_level (cf_matter c) \<in> set matter_levels" by (rule validated_matter)
  note passcode = passcode_accepted [OF d(2)]
  from level_accepted [OF level] obtain l where l: "parse_log_level (mc_log_level (cf_matter c)) = Ok l"
    by (cases "parse_log_level (mc_log_level (cf_matter c))") (auto simp: is_ok_def)
  obtain executable where "adapter_instance_new (fs_canonicalize (pe_files env)) (pe_is_executable env) (pe_ensure_dir env)
      (matter_spec version executable (rc_state_dir (cf_runtime c)) (cf_matter c) d) = Ok (spec, environment)"
    using assms(2) d(1) by (auto simp: plan_matter_def and_then_eq_Ok map_err_eq_Ok split: if_splits)
  from adapter_environment [OF this] have environment: "map_of environment ''OIKADE_ADAPTER_RPC_FD'' = Some ''3''"
      "map_of environment ''OIKADE_ADAPTER_STATE_DIR'' = Some (sa_state_dir spec)"
      "map_of environment ''OIKADE_MATTER_SETUP_PASSCODE'' = Some (mc_setup_passcode (cf_matter c))"
      "map_of environment ''OIKADE_MATTER_DISCRIMINATOR'' = Some (digits d)"
    by (simp_all add: matter_spec_def TRANSPORT_FD_ENVIRONMENT_def STATE_DIRECTORY_ENVIRONMENT_def)
  have "digits 3 = ''3''" by code_simp
  then have fd: "parse_rpc_fd ''3'' = Some 3" using u64_digits [of 3] by (simp add: parse_rpc_fd_def)
  have "parse_discriminator (digits d) = Ok d" using passcode(2) u64_digits [of d] by (simp add: parse_discriminator_def)
  then show ?thesis
    using assms(3,4) d(1) l passcode(1)
    by (simp add: options_parse_def environment fd or_else_def matter_args_def)
qed

definition matter_home :: matter_config where
  "matter_home = \<lparr>mc_enabled = True, mc_executable = ''/m'', mc_log_level = ''info'', mc_setup_passcode = ''00000001'', mc_discriminator = Some 5\<rparr>"

definition matter_config_file :: config where
  "matter_config_file =
     \<lparr>cf_version = 1, cf_runtime = \<lparr>rc_log_level = ''info'', rc_state_dir = ''/s'', rc_admin_socket = ''/s/k''\<rparr>,
      cf_switches = [], cf_plugins = [], cf_matter = matter_home\<rparr>"

definition matter_env :: process_env where
  "matter_env =
     \<lparr>pe_variable = (\<lambda>_. None), pe_macos = False, pe_current_dir = Ok ''/'', pe_current_exe = Err [], pe_is_file = (\<lambda>_. False),
      pe_files = \<lparr>fs_canonicalize = Ok, fs_is_dir = (\<lambda>_. False), fs_metadata = (\<lambda>_. Err []), fs_read = (\<lambda>_. Ok ''true'')\<rparr>,
      pe_is_executable = (\<lambda>_. Ok (True, True)), pe_ensure_dir = (\<lambda>d _. Ok d), pe_open_storage = (\<lambda>_. Ok ()),
      pe_config_lib = \<lparr>cl_scan = (\<lambda>_. Ok (map (\<lambda>e. (e, here)) [StreamStart, DocumentStart, Scalar ''true'' Plain 0 None, DocumentEnd, StreamEnd])),
                       cl_core_tag = (\<lambda>_. False), cl_decode = (\<lambda>_. Ok matter_config_file)\<rparr>,
      pe_decode_manifest = (\<lambda>_. Err [])\<rparr>"

lemma matter_texts:
  "trim ''info'' = ''info''" "trim ''/s'' = ''/s''" "trim ''/s/k'' = ''/s/k''" "trim ''/m'' = ''/m''"
  "to_ascii_lowercase (CHR ''i'') = CHR ''i''" "to_ascii_lowercase (CHR ''n'') = CHR ''n''"
  "to_ascii_lowercase (CHR ''f'') = CHR ''f''" "to_ascii_lowercase (CHR ''o'') = CHR ''o''" "utf8_valid ''true''"
  by code_simp+

lemma matter_file_valid: "config_validate matter_config_file = Ok matter_config_file"
proof -
  have "validate_commissioning ''00000001'' 5 = Ok ()"
    by (simp add: validate_commissioning_ok from_digits_def digit_value_def prohibited_passcodes_def is_ascii_digit_def)
  then show ?thesis
    by (simp add: config_validate_def matter_config_file_def matter_home_def validate_matter_def normalized_log_level_def
        validate_unpadded_path_def matter_texts runtime_levels_def matter_levels_def CURRENT_VERSION_def)
qed

lemma matter_file_loaded: "load_config matter_env ''/c'' = Ok matter_config_file"
proof -
  have "yaml_parse (cl_core_tag (pe_config_lib matter_env)) (cl_scan (pe_config_lib matter_env) ''true'') = Ok (NBool True)"
    by code_simp
  then have "parse_yaml_document (pe_config_lib matter_env) ''true'' = Ok (JBool True)"
    by (simp add: parse_yaml_document_def MAX_CONFIG_SIZE_def matter_texts)
  then have "config_parse (pe_config_lib matter_env) ''true'' = Ok matter_config_file"
    by (simp add: config_parse_def matter_env_def matter_file_valid)
  then show ?thesis
    by (simp add: load_config_def config_load_def matter_env_def Let_def) (simp add: matter_config_file_def matter_home_def is_absolute_def)
qed

lemma matter_file_run: "run_config matter_env \<lparr>ro_config = Some ''/c'', ro_state_dir = None, ro_socket = None, ro_log_level = None\<rparr> = Ok matter_config_file"
  using matter_file_valid
  by (simp add: run_config_def load_or_default_def matter_file_loaded override_with_def) (simp add: matter_config_file_def)

definition matter_plan_spec :: adapter_spec where
  "matter_plan_spec = matter_spec ''0.1.0'' ''/m'' ''/s'' matter_home 5"

lemma matter_plan_texts:
  "put ''OIKADE_MATTER_DISCRIMINATOR'' (digits 5) (put ''OIKADE_MATTER_SETUP_PASSCODE'' ''00000001'' []) =
     [(''OIKADE_MATTER_DISCRIMINATOR'', ''5''), (''OIKADE_MATTER_SETUP_PASSCODE'', ''00000001'')]"
  "path_join (path_join ''/s'' ''adapters'') ''matter'' = ''/s/adapters/matter''"
  "validate_identifier ''matter'' = Ok ()" "validate_identifier ''oikade.matter'' = Ok ()" "trim ''0.1.0'' = ''0.1.0''"
  "valid_environment_key ''OIKADE_MATTER_DISCRIMINATOR''" "valid_environment_key ''OIKADE_MATTER_SETUP_PASSCODE''"
  by code_simp+

lemma matter_plan_spec:
  "matter_plan_spec = (adapter_spec_new ''matter'' ''oikade.matter'' ''matter'' ''/m'' ''/s/adapters/matter'')
     \<lparr>sa_adapter_version := Some ''0.1.0'',
      sa_environment := [(''OIKADE_MATTER_DISCRIMINATOR'', ''5''), (''OIKADE_MATTER_SETUP_PASSCODE'', ''00000001'')]\<rparr>"
  by (simp add: matter_plan_spec_def matter_spec_def matter_home_def matter_plan_texts MATTER_ADAPTER_ID_def MATTER_PROTOCOL_def del: put.simps)

lemma matter_planned:
  "\<exists>environment. plan_matter matter_env ''0.1.0'' ''/s'' matter_home = Ok [PlanAdapter matter_plan_spec environment]"
proof -
  have "policy_validate default_policy = Ok ()" by (simp add: policy_validate_def default_policy_def nanoseconds_def)
  then have "\<exists>environment. adapter_instance_new Ok (\<lambda>_. Ok (True, True)) (\<lambda>d _. Ok d) matter_plan_spec = Ok (matter_plan_spec, environment)"
    by (simp add: adapter_instance_new_def validate_executable_def matter_plan_spec adapter_spec_new_def matter_plan_texts padded_def
        nanoseconds_def valid_buffer_def MAX_SUBSCRIPTION_BUFFER_def TRANSPORT_FD_ENVIRONMENT_def STATE_DIRECTORY_ENVIRONMENT_def del: put.simps)
  then show ?thesis
    by (auto simp: plan_matter_def matter_env_def resolve_matter_executable_def matter_plan_spec_def matter_home_def)
qed

theorem adapter_accepts_configuration_witness:
  "\<exists>environment. options_parse (\<lambda>_. Ok ()) (map_of environment) (matter_args matter_home) =
     Ok \<lparr>mo_rpc_fd = 3, mo_state_dir = ''/s/adapters/matter'', mo_passcode = 1, mo_discriminator = 5, mo_log_level = LogInfo\<rparr>"
proof -
  obtain environment where plan: "plan_matter matter_env ''0.1.0'' (rc_state_dir (cf_runtime matter_config_file)) (cf_matter matter_config_file)
      = Ok [PlanAdapter matter_plan_spec environment]"
    using matter_planned by (auto simp: matter_config_file_def)
  have "sa_state_dir matter_plan_spec = ''/s/adapters/matter''" by (simp add: matter_plan_spec adapter_spec_new_def)
  then show ?thesis
    using adapter_accepts_configuration [OF matter_file_run plan, of "\<lambda>_. Ok ()"]
    by (auto simp: matter_config_file_def matter_home_def parse_log_level_def from_digits_def digit_value_def)
qed

section \<open>The log of the adapter, at both ends\<close>

lemma lead_characters: "c \<in> set (take (lead ws s) s) \<Longrightarrow> \<exists>w \<in> set ws. c \<in> set w"
  by (induction ws) (auto simp: starts_with_iff split: if_splits)

lemma trim_lead_keeps: "c \<in> set s \<Longrightarrow> \<forall>w \<in> set ws. c \<notin> set w \<Longrightarrow> c \<in> set (trim_lead ws s)"
proof (induction ws s rule: trim_lead.induct)
  case (1 ws s)
  have "c \<in> set (drop (lead ws s) s)"
    using "1.prems" lead_characters [of c ws s] by (metis Un_iff append_take_drop_id set_append)
  then show ?case using 1 by (subst trim_lead.simps) auto
qed

lemma trim_keeps: "c \<in> set s \<Longrightarrow> \<forall>w \<in> set white_space. c \<notin> set w \<Longrightarrow> c \<in> set (trim s)"
  unfolding trim_def trim_end_def trim_start_def by (simp add: trim_lead_keeps)

text \<open>Every message that the adapter writes to its log is reported by the host with its level, target and
  text; the filter of the adapter is the only one.\<close>

theorem adapter_log_reported:
  assumes "\<And>r s. encode r = Some s \<Longrightarrow> decode s = Ok r" and "logger_line encode configured l target m = Some line"
  shows "should_emit configured l target m \<and> emit_adapter_output decode line = Some (adapter_level l, Some target, m)"
proof -
  let ?r = "\<lparr>lr_version = LOG_RECORD_VERSION, lr_level = adapter_level l, lr_target = target, lr_message = m\<rparr>"
  obtain s where s: "encode ?r = Some s" "line = LOG_RECORD_PREFIX @ s"
    using assms(2) by (auto simp: logger_line_def emit_line_def encode_record_def split: if_splits)
  have "\<forall>w \<in> set white_space. CHR ''@'' \<notin> set w" by (simp add: white_space_def)
  then have "CHR ''@'' \<in> set (trim line)" by (intro trim_keeps) (simp_all add: s(2) LOG_RECORD_PREFIX_def)
  moreover have "strip_prefix LOG_RECORD_PREFIX line = Some s" by (simp add: s(2) strip_prefix_iff)
  moreover have "should_emit configured l target m" using assms(2) by (simp add: logger_line_def split: if_splits)
  ultimately show ?thesis using assms(1) [OF s(1)] by (auto simp: emit_adapter_output_def parse_structured_log_def)
qed

end
