(* ===== verification/Adapter_State.thy ===== *)
theory Adapter_State
  imports Adapter_Instance
begin

text \<open>
  The private directory of an adapter, \<open>crates/oikade-adapter-host/src/state.rs\<close>: its marker, its checks
  and its replacement by a reset, with the way back when a step fails. The file system is what the
  sources use of it: the entries of the directory above, and for every system call whether it fails
  and what an interrupted call leaves. The path is the name of the directory in the one above, which
  is not a symbolic link.
\<close>

section \<open>The file system\<close>

datatype fs_node =
    FileNode "32 word" string
  | DirNode "32 word" "(string \<times> fs_node) list"
  | LinkNode bool

text \<open>A call that fails: its error, how much of a write was done and what is left of a tree that was
  being removed. A link knows whether its target exists.\<close>

record fault =
  ft_error :: string
  ft_written :: nat
  ft_left :: "fs_node \<Rightarrow> fs_node option"

record state_disk =
  dk_entries :: "(string \<times> fs_node) list"
  dk_faults :: "fault option list"
  dk_sequence :: "64 word"

datatype state_error = StateMissing | StateIo string | UnsafeDirectory | InvalidMarker

type_synonym 'a disk_result = "state_disk \<times> (state_error, 'a) result"

definition entry_del :: "string \<Rightarrow> (string \<times> fs_node) list \<Rightarrow> (string \<times> fs_node) list" where
  "entry_del k es = filter (\<lambda>e. fst e \<noteq> k) es"

definition entry_put :: "string \<Rightarrow> fs_node \<Rightarrow> (string \<times> fs_node) list \<Rightarrow> (string \<times> fs_node) list" where
  "entry_put k n es = (k, n) # entry_del k es"

definition entry :: "state_disk \<Rightarrow> string \<Rightarrow> fs_node option" where
  "entry d k = map_of (dk_entries d) k"

definition set_entry :: "string \<Rightarrow> fs_node option \<Rightarrow> state_disk \<Rightarrow> state_disk" where
  "set_entry k n d =
     d\<lparr>dk_entries := (case n of None \<Rightarrow> entry_del k (dk_entries d) | Some x \<Rightarrow> entry_put k x (dk_entries d))\<rparr>"

definition system_call :: "state_disk \<Rightarrow> state_disk \<times> fault option" where
  "system_call d = (case dk_faults d of [] \<Rightarrow> (d, None) | f # fs \<Rightarrow> (d\<lparr>dk_faults := fs\<rparr>, f))"

definition fs_attempt :: "state_disk \<Rightarrow> unit disk_result" where
  "fs_attempt d = (case system_call d of (d, Some f) \<Rightarrow> (d, Err (StateIo (ft_error f))) | (d, None) \<Rightarrow> (d, Ok ()))"

definition then_do :: "'a disk_result \<Rightarrow> ('a \<Rightarrow> state_disk \<Rightarrow> 'b disk_result) \<Rightarrow> 'b disk_result" where
  "then_do r k = (case r of (d, Err e) \<Rightarrow> (d, Err e) | (d, Ok x) \<Rightarrow> k x d)"

text \<open>\<open>DirBuilder::create\<close> with mode 0700: \<open>Ok False\<close> when the name is taken.\<close>

definition create_dir :: "string \<Rightarrow> state_disk \<Rightarrow> bool disk_result" where
  "create_dir k d =
     then_do (fs_attempt d) (\<lambda>_ d.
       if entry d k \<noteq> None then (d, Ok False) else (set_entry k (Some (DirNode 0x1C0 [])) d, Ok True))"

text \<open>\<open>rename\<close> into and out of the quarantine, \<open>remove_dir\<close> and \<open>remove_dir_all\<close>.\<close>

definition rename_into :: "string \<Rightarrow> string \<Rightarrow> string \<Rightarrow> state_disk \<Rightarrow> unit disk_result" where
  "rename_into k q name d =
     then_do (fs_attempt d) (\<lambda>_ d.
       case (entry d k, entry d q) of
         (Some n, Some (DirNode m es)) \<Rightarrow> (set_entry q (Some (DirNode m (entry_put name n es))) (set_entry k None d), Ok ())
       | _ \<Rightarrow> (d, Err (StateIo ''No such file or directory'')))"

definition rename_out :: "string \<Rightarrow> string \<Rightarrow> string \<Rightarrow> state_disk \<Rightarrow> unit disk_result" where
  "rename_out q name k d =
     then_do (fs_attempt d) (\<lambda>_ d.
       case entry d q of
         Some (DirNode m es) \<Rightarrow>
           (case map_of es name of
              None \<Rightarrow> (d, Err (StateIo ''No such file or directory''))
            | Some n \<Rightarrow>
                (case entry d k of
                   None \<Rightarrow> (set_entry q (Some (DirNode m (entry_del name es))) (set_entry k (Some n) d), Ok ())
                 | Some (DirNode _ []) \<Rightarrow> (set_entry q (Some (DirNode m (entry_del name es))) (set_entry k (Some n) d), Ok ())
                 | Some _ \<Rightarrow> (d, Err (StateIo ''Directory not empty''))))
       | _ \<Rightarrow> (d, Err (StateIo ''No such file or directory'')))"

definition remove_dir :: "string \<Rightarrow> state_disk \<Rightarrow> unit disk_result" where
  "remove_dir k d =
     then_do (fs_attempt d) (\<lambda>_ d.
       case entry d k of
         Some (DirNode _ []) \<Rightarrow> (set_entry k None d, Ok ())
       | _ \<Rightarrow> (d, Err (StateIo ''Directory not empty'')))"

definition remove_dir_all :: "string \<Rightarrow> state_disk \<Rightarrow> unit disk_result" where
  "remove_dir_all k d =
     (case entry d k of
        None \<Rightarrow> (d, Err (StateIo ''No such file or directory''))
      | Some n \<Rightarrow>
          (case system_call d of
             (d, Some f) \<Rightarrow> (set_entry k (ft_left f n) d, Err (StateIo (ft_error f)))
           | (d, None) \<Rightarrow> (set_entry k None d, Ok ())))"

section \<open>The marker\<close>

definition ADAPTER_STATE_MARKER :: string where "ADAPTER_STATE_MARKER = ''.oikade-adapter-state''"

definition marker_text :: "string \<Rightarrow> string" where
  "marker_text i = i @ [newline]"

definition others_allowed :: "32 word \<Rightarrow> bool" where
  "others_allowed mode \<longleftrightarrow> and mode 0x3F \<noteq> 0"

text \<open>The new marker: the file is created, written and synchronised; a failure leaves what was written.\<close>

definition write_state_marker :: "string \<Rightarrow> string \<Rightarrow> 32 word \<Rightarrow> (string \<times> fs_node) list \<Rightarrow> state_disk \<Rightarrow> unit disk_result" where
  "write_state_marker k i mode es d =
     then_do (fs_attempt d) (\<lambda>_ d.
       let file = (\<lambda>s. DirNode mode (entry_put ADAPTER_STATE_MARKER (FileNode 0x180 s) es)) in
       (case system_call d of
          (d, Some f) \<Rightarrow> (set_entry k (Some (file (take (ft_written f) (marker_text i)))) d, Err (StateIo (ft_error f)))
        | (d, None) \<Rightarrow> fs_attempt (set_entry k (Some (file (marker_text i))) d)))"

definition check_marker :: "string \<Rightarrow> fs_node \<Rightarrow> state_disk \<Rightarrow> unit disk_result" where
  "check_marker i n d =
     (case n of
        FileNode mode s \<Rightarrow>
          if others_allowed mode \<or> length s > 256 then (d, Err InvalidMarker)
          else then_do (fs_attempt d) (\<lambda>_ d. (d, reject (s \<noteq> marker_text i) InvalidMarker))
      | _ \<Rightarrow> (d, Err InvalidMarker))"

definition ensure_marker :: "string \<Rightarrow> string \<Rightarrow> state_disk \<Rightarrow> unit disk_result" where
  "ensure_marker k i d =
     then_do (fs_attempt d) (\<lambda>_ d.
       case entry d k of
         Some (DirNode mode es) \<Rightarrow>
           (case map_of es ADAPTER_STATE_MARKER of
              None \<Rightarrow> write_state_marker k i mode es d
            | Some n \<Rightarrow> check_marker i n d)
       | _ \<Rightarrow> (d, Err (StateIo ''Not a directory'')))"

section \<open>The directory\<close>

definition node_exists :: "fs_node option \<Rightarrow> bool" where
  "node_exists n = (case n of None \<Rightarrow> False | Some (LinkNode target) \<Rightarrow> target | Some _ \<Rightarrow> True)"

text \<open>The directory above is created if needed; then the directory, unless the name is taken by now.\<close>

definition create_missing :: "string \<Rightarrow> state_disk \<Rightarrow> unit disk_result" where
  "create_missing k d =
     (if node_exists (entry d k) then (d, Ok ())
      else then_do (fs_attempt d) (\<lambda>_ d. then_do (create_dir k d) (\<lambda>_ d. (d, Ok ()))))"

definition private_directory :: "fs_node option \<Rightarrow> (state_error, unit) result" where
  "private_directory n =
     (case n of
        None \<Rightarrow> Err (StateIo ''No such file or directory'')
      | Some (DirNode mode _) \<Rightarrow> reject (others_allowed mode) UnsafeDirectory
      | Some _ \<Rightarrow> Err UnsafeDirectory)"

definition ensure_state_directory :: "string \<Rightarrow> string \<Rightarrow> state_disk \<Rightarrow> unit disk_result" where
  "ensure_state_directory k i d =
     (if k = [] then (d, Err StateMissing)
      else then_do (create_missing k d) (\<lambda>_ d.
           then_do (fs_attempt d) (\<lambda>_ d.
           then_do (d, private_directory (entry d k)) (\<lambda>_ d.
           then_do (fs_attempt d) (\<lambda>_ d. ensure_marker k i d)))))"

section \<open>Reset\<close>

definition quarantine_name :: "nat \<Rightarrow> string \<Rightarrow> nat \<Rightarrow> string" where
  "quarantine_name pid k n = ''.'' @ k @ ''.reset-'' @ digits pid @ ''-'' @ digits n"

text \<open>The counter is an atomic of 64 bits; the number of attempts is 128.\<close>

fun create_quarantine :: "nat \<Rightarrow> nat \<Rightarrow> string \<Rightarrow> state_disk \<Rightarrow> string disk_result" where
  "create_quarantine 0 pid k d = (d, Err (StateIo ''could not allocate adapter state quarantine''))"
| "create_quarantine (Suc n) pid k d =
     (let q = quarantine_name pid k (unat (dk_sequence d)); d = d\<lparr>dk_sequence := dk_sequence d + 1\<rparr> in
      then_do (create_dir q d) (\<lambda>created d. if created then (d, Ok q) else create_quarantine n pid k d))"

text \<open>The way back ignores the errors of its own steps.\<close>

definition roll_back :: "string \<Rightarrow> string \<Rightarrow> string \<Rightarrow> state_disk \<Rightarrow> unit disk_result" where
  "roll_back k q cause d =
     (let d = fst (remove_dir_all k d); d = fst (rename_out q ''state'' k d); d = fst (remove_dir q d)
      in (d, Err (StateIo cause)))"

text \<open>The error of a failed marker is kept as an I/O error; the text of the others is \<open>show_error\<close>.\<close>

definition cause_text :: "(state_error \<Rightarrow> string) \<Rightarrow> state_error \<Rightarrow> string" where
  "cause_text show_error e = (case e of StateIo m \<Rightarrow> m | _ \<Rightarrow> show_error e)"

definition install_fresh :: "(state_error \<Rightarrow> string) \<Rightarrow> string \<Rightarrow> string \<Rightarrow> string \<Rightarrow> state_disk \<Rightarrow> unit disk_result" where
  "install_fresh show_error k i q d =
     (case create_dir k d of
        (d, Err e) \<Rightarrow> roll_back k q (cause_text show_error e) d
      | (d, Ok False) \<Rightarrow> roll_back k q ''File exists'' d
      | (d, Ok True) \<Rightarrow>
          (case ensure_marker k i d of
             (d, Err e) \<Rightarrow> roll_back k q (cause_text show_error e) d
           | (d, Ok _) \<Rightarrow> (d, Ok ())))"

definition discard :: "string \<Rightarrow> state_disk \<Rightarrow> unit disk_result" where
  "discard q d =
     then_do (fs_attempt d) (\<lambda>_ d.
       case entry d q of Some (DirNode _ _) \<Rightarrow> remove_dir_all q d | _ \<Rightarrow> (d, Err UnsafeDirectory))"

definition reset_state_directory ::
  "(state_error \<Rightarrow> string) \<Rightarrow> nat \<Rightarrow> string \<Rightarrow> string \<Rightarrow> state_disk \<Rightarrow> unit disk_result" where
  "reset_state_directory show_error pid k i d =
     then_do (ensure_state_directory k i d) (\<lambda>_ d.
     then_do (create_quarantine 128 pid k d) (\<lambda>q d.
       case rename_into k q ''state'' d of
         (d, Err e) \<Rightarrow> (fst (remove_dir q d), Err e)
       | (d, Ok _) \<Rightarrow> then_do (install_fresh show_error k i q d) (\<lambda>_ d. discard q d)))"

section \<open>What the calls change\<close>

lemma entry_set [simp]: "entry (set_entry k n d) = (entry d)(k := n)"
proof
  have "map_of (entry_del k es) x = (if x = k then None else map_of es x)" for es x
    by (induction es) (auto simp: entry_del_def)
  then show "entry (set_entry k n d) x = ((entry d)(k := n)) x" for x
    by (auto simp: entry_def set_entry_def entry_put_def split: option.splits)
qed

lemma entry_sequence [simp]: "entry (d\<lparr>dk_sequence := n\<rparr>) = entry d"
  by (simp add: entry_def fun_eq_iff)

lemma system_call_keeps: "system_call d = (d', f) \<Longrightarrow> entry d' = entry d"
  by (auto simp: system_call_def entry_def fun_eq_iff split: list.splits)

lemma attempt_keeps: "fs_attempt d = (d', r) \<Longrightarrow> entry d' = entry d"
  by (auto simp: fs_attempt_def split: prod.splits option.splits dest: system_call_keeps)

lemma then_do_simps [simp]: "then_do (d, Ok x) k = k x d" "then_do (d, Err e) k = (d, Err e)"
  by (simp_all add: then_do_def)

lemma then_do_cases:
  assumes "then_do x f = (d', r)"
  obtains (failed) e where "x = (d', Err e)" "r = Err e"
  | (passed) d1 y where "x = (d1, Ok y)" "f y d1 = (d', r)"
  using assms by (auto simp: then_do_def split: prod.splits sum.splits)

lemma create_dir_cases:
  assumes "create_dir k d = (d', r)"
  obtains (created) "r = Ok True" "entry d k = None" "entry d' = (entry d)(k \<mapsto> DirNode 0x1C0 [])"
  | (kept) "r \<noteq> Ok True" "entry d' = entry d"
  using assms unfolding create_dir_def
  by (cases rule: then_do_cases) (auto split: if_splits dest: attempt_keeps)

lemma rename_into_cases:
  assumes "rename_into k q name d = (d', r)" and "entry d k = Some n" and "entry d q = Some (DirNode m [])"
  obtains (moved) "r = Ok ()" "entry d' = (entry d)(k := None, q \<mapsto> DirNode m [(name, n)])"
  | (kept) e where "r = Err e" "entry d' = entry d"
  using assms(1) unfolding rename_into_def
proof (cases rule: then_do_cases)
  case (failed e)
  then show thesis using kept attempt_keeps by blast
next
  case (passed d1 y)
  then show thesis using assms(2,3) moved by (auto simp: attempt_keeps [OF passed(1)] entry_put_def entry_del_def)
qed

lemma rename_out_cases:
  assumes "rename_out q name k d = (d', r)" and "entry d q = Some (DirNode m [(name, n)])" and "q \<noteq> k"
  obtains (moved) "entry d' = (entry d)(k \<mapsto> n, q \<mapsto> DirNode m [])" | (kept) "entry d' = entry d"
  using assms(1) unfolding rename_out_def
proof (cases rule: then_do_cases)
  case (failed e)
  then show thesis using kept attempt_keeps by blast
next
  case (passed d1 y)
  then show thesis using assms(2,3) moved kept attempt_keeps [OF passed(1)]
    by (auto simp: entry_del_def split: option.splits fs_node.splits list.splits)
qed

lemma remove_dir_cases:
  assumes "remove_dir k d = (d', r)"
  obtains (removed) m where "entry d k = Some (DirNode m [])" "entry d' = (entry d)(k := None)" | (kept) "entry d' = entry d"
  using assms unfolding remove_dir_def
  by (cases rule: then_do_cases) (auto split: option.splits fs_node.splits list.splits dest!: attempt_keeps)

lemma remove_dir_all_cases:
  assumes "remove_dir_all k d = (d', r)"
  obtains n where "entry d' = (entry d)(k := n)" and "r = Ok () \<Longrightarrow> n = None"
  using assms by (auto simp: remove_dir_all_def split: option.splits prod.splits dest!: system_call_keeps) (metis fun_upd_triv)

section \<open>The marker and the directory\<close>

text \<open>The directory after its checks: as it was, or with its new marker.\<close>

definition marked :: "string \<Rightarrow> 32 word \<Rightarrow> (string \<times> fs_node) list \<Rightarrow> fs_node" where
  "marked i mode es = DirNode mode (entry_put ADAPTER_STATE_MARKER (FileNode 0x180 (marker_text i)) es)"

lemma write_marker_cases:
  assumes "write_state_marker k i mode es d = (d', r)"
  obtains n where "entry d' = (entry d)(k := n)" "r = Ok () \<Longrightarrow> n = Some (marked i mode es)"
  | "entry d' = entry d" "r \<noteq> Ok ()"
  using assms unfolding write_state_marker_def
proof (cases rule: then_do_cases)
  case (failed e)
  then show thesis using that(2) attempt_keeps by blast
next
  case (passed d1 y)
  then show thesis using that(1)
    by (auto simp: attempt_keeps [OF passed(1)] marked_def split: prod.splits option.splits dest!: system_call_keeps attempt_keeps)
qed

lemma check_marker_keeps: "check_marker i n d = (d', r) \<Longrightarrow> entry d' = entry d"
  by (auto simp: check_marker_def then_do_def split: fs_node.splits if_splits prod.splits sum.splits dest: attempt_keeps)

lemma ensure_marker_cases:
  assumes "ensure_marker k i d = (d', r)"
  obtains (kept) "entry d' = entry d"
      "r = Ok () \<Longrightarrow> \<exists>mode es m. entry d k = Some (DirNode mode es) \<and> map_of es ADAPTER_STATE_MARKER = Some (FileNode m (marker_text i))"
  | (new) mode es n where "entry d k = Some (DirNode mode es)" "map_of es ADAPTER_STATE_MARKER = None"
      "entry d' = (entry d)(k := n)" "r = Ok () \<Longrightarrow> n = Some (marked i mode es)"
  using assms unfolding ensure_marker_def
proof (cases rule: then_do_cases)
  case (failed e)
  then show thesis using kept attempt_keeps by blast
next
  case (passed d1 y)
  note same = attempt_keeps [OF passed(1)]
  show thesis
  proof (cases "\<exists>mode es. entry d k = Some (DirNode mode es) \<and> map_of es ADAPTER_STATE_MARKER = None")
    case True
    then obtain mode es where dir: "entry d k = Some (DirNode mode es)" "map_of es ADAPTER_STATE_MARKER = None" by blast
    then have "write_state_marker k i mode es d1 = (d', r)" using passed(2) same by simp
    then show thesis
      by (cases rule: write_marker_cases) (use new [OF dir] kept same in auto)
  next
    case False
    have "entry d' = entry d" using passed(2) False same
      by (auto split: option.splits fs_node.splits dest: check_marker_keeps)
    moreover have "r = Ok () \<Longrightarrow> \<exists>mode es m. entry d k = Some (DirNode mode es) \<and> map_of es ADAPTER_STATE_MARKER = Some (FileNode m (marker_text i))"
      using passed(2) False same
      by (auto simp: check_marker_def then_do_def split: option.splits fs_node.splits if_splits prod.splits sum.splits)
    ultimately show thesis by (rule kept)
  qed
qed

lemma create_missing_cases:
  assumes "create_missing k d = (d', r)"
  obtains (kept) "entry d' = entry d" | (created) "entry d k = None" "entry d' = (entry d)(k \<mapsto> DirNode 0x1C0 [])"
proof (cases "node_exists (entry d k)")
  case True
  then show thesis using assms kept by (simp add: create_missing_def)
next
  case False
  then have "then_do (fs_attempt d) (\<lambda>_ d. then_do (create_dir k d) (\<lambda>_ d. (d, Ok ()))) = (d', r)"
    using assms by (simp add: create_missing_def)
  then show thesis
  proof (cases rule: then_do_cases)
    case (failed e)
    then show thesis using kept attempt_keeps by blast
  next
    case (passed d1 y)
    note same = attempt_keeps [OF passed(1)]
    obtain r' where "create_dir k d1 = (d', r')" using passed(2) by (cases rule: then_do_cases) auto
    then show thesis by (cases rule: create_dir_cases) (use same kept created in simp_all)
  qed
qed

text \<open>The checks touch no other entry, and a directory that is there keeps its contents: a marker may be added.\<close>

lemma ensure_state_directory_effect:
  assumes "ensure_state_directory k i d = (d', r)"
  shows "x \<noteq> k \<Longrightarrow> entry d' x = entry d x"
    and "r = Ok () \<Longrightarrow> \<exists>n. entry d' k = Some n"
    and "entry d k = Some (DirNode mode es) \<Longrightarrow> map_of es ADAPTER_STATE_MARKER \<noteq> None \<Longrightarrow> entry d' = entry d"
    and "entry d k = Some (DirNode mode es) \<Longrightarrow> map_of es ADAPTER_STATE_MARKER = Some (FileNode m s) \<Longrightarrow> s \<noteq> marker_text i \<Longrightarrow> r \<noteq> Ok ()"
proof -
  obtain d1 r1 where c: "create_missing k d = (d1, r1)" by (cases "create_missing k d")
  have d1: "k \<noteq> [] \<Longrightarrow> entry d1 = entry d \<or> entry d k = None \<and> entry d1 = (entry d)(k \<mapsto> DirNode 0x1C0 [])"
    using c by (cases rule: create_missing_cases) auto
  have rest: "entry d' = entry (if k = [] then d else d1) \<and> r \<noteq> Ok () \<or> k \<noteq> [] \<and> (\<exists>d2. entry d2 = entry d1 \<and> ensure_marker k i d2 = (d', r))"
    using assms unfolding ensure_state_directory_def c
    by (auto elim!: then_do_cases dest!: attempt_keeps split: if_splits)
  show "x \<noteq> k \<Longrightarrow> entry d' x = entry d x"
    using d1 rest by (auto elim!: ensure_marker_cases)
  show "r = Ok () \<Longrightarrow> \<exists>n. entry d' k = Some n"
    using d1 rest by (auto elim!: ensure_marker_cases)
  show "entry d k = Some (DirNode mode es) \<Longrightarrow> map_of es ADAPTER_STATE_MARKER \<noteq> None \<Longrightarrow> entry d' = entry d"
    using d1 rest by (auto elim!: ensure_marker_cases)
  show "entry d k = Some (DirNode mode es) \<Longrightarrow> map_of es ADAPTER_STATE_MARKER = Some (FileNode m s) \<Longrightarrow> s \<noteq> marker_text i \<Longrightarrow> r \<noteq> Ok ()"
    using d1 rest by (auto elim!: ensure_marker_cases)
qed

section \<open>The reset\<close>

lemma quarantine_differs: "quarantine_name pid k n \<noteq> k"
proof
  assume "quarantine_name pid k n = k"
  then have "length (quarantine_name pid k n) = length k" by simp
  then show False by (simp add: quarantine_name_def)
qed

lemma create_quarantine_cases:
  assumes "create_quarantine n pid k d = (d', r)"
  obtains (created) q where "r = Ok q" "q \<noteq> k" "entry d q = None" "entry d' = (entry d)(q \<mapsto> DirNode 0x1C0 [])"
  | (kept) e where "r = Err e" "entry d' = entry d"
  using assms
proof (induction n arbitrary: d thesis)
  case 0
  show ?case by (rule "0.prems"(2)) (use "0.prems"(3) in auto)
next
  case (Suc n)
  let ?q = "quarantine_name pid k (unat (dk_sequence d))" and ?d = "d\<lparr>dk_sequence := dk_sequence d + 1\<rparr>"
  have "then_do (create_dir ?q ?d) (\<lambda>created d. if created then (d, Ok ?q) else create_quarantine n pid k d) = (d', r)"
    using Suc.prems(3) by (simp add: Let_def)
  then show ?case
  proof (cases rule: then_do_cases)
    case (failed e)
    from failed(1) show ?thesis by (cases rule: create_dir_cases) (use failed(2) Suc.prems(2) in auto)
  next
    case (passed d1 y)
    from passed(1) show ?thesis
    proof (cases rule: create_dir_cases)
      case created
      then show ?thesis using passed(2) by (intro Suc.prems(1) [of ?q]) (auto simp: quarantine_differs)
    next
      case kept
      then have "create_quarantine n pid k d1 = (d', r)" using passed(2) by simp
      then show ?thesis using Suc.IH [of d1] Suc.prems(1,2) kept(2) by (metis entry_sequence)
    qed
  qed
qed

text \<open>Where the old directory is after a failure: in its place or whole in the quarantine.\<close>

definition state_kept :: "string \<Rightarrow> string \<Rightarrow> fs_node \<Rightarrow> state_disk \<Rightarrow> bool" where
  "state_kept k q n d \<longleftrightarrow> entry d k = Some n \<or> (\<exists>m. entry d q = Some (DirNode m [(''state'', n)]))"

lemma roll_back_keeps:
  assumes "roll_back k q cause d = (d', r)" and "entry d q = Some (DirNode m [(''state'', n)])" and "q \<noteq> k"
  shows "r \<noteq> Ok ()" and "state_kept k q n d'" and "x \<noteq> k \<Longrightarrow> x \<noteq> q \<Longrightarrow> entry d' x = entry d x"
proof -
  obtain d1 r1 where d1: "remove_dir_all k d = (d1, r1)" by (cases "remove_dir_all k d")
  obtain d2 r2 where d2: "rename_out q ''state'' k d1 = (d2, r2)" by (cases "rename_out q ''state'' k d1")
  obtain r3 where d3: "remove_dir q d2 = (d', r3)" and "r \<noteq> Ok ()"
    using assms(1) by (cases "remove_dir q d2") (auto simp: roll_back_def d1 d2 Let_def)
  then show "r \<noteq> Ok ()" by simp
  obtain p where p: "entry d1 = (entry d)(k := p)" using d1 by (rule remove_dir_all_cases)
  then have q1: "entry d1 q = Some (DirNode m [(''state'', n)])" using assms(2,3) by simp
  have two: "(entry d2 = (entry d1)(k \<mapsto> n, q \<mapsto> DirNode m []) \<or> entry d2 = entry d1)"
    using d2 q1 assms(3) by (rule rename_out_cases) auto
  have three: "entry d' = entry d2 \<or> (\<exists>m. entry d2 q = Some (DirNode m [])) \<and> entry d' = (entry d2)(q := None)"
    using d3 by (rule remove_dir_cases) auto
  show "state_kept k q n d'" using two three q1 assms(3) by (auto simp: state_kept_def)
  show "x \<noteq> k \<Longrightarrow> x \<noteq> q \<Longrightarrow> entry d' x = entry d x" using two three p by auto
qed

lemma install_fresh_cases:
  assumes "install_fresh show_error k i q d = (d', r)" and "entry d k = None" and "entry d q = Some (DirNode m [(''state'', n)])" and "q \<noteq> k"
  obtains (fresh) "r = Ok ()" "entry d' = (entry d)(k \<mapsto> marked i 0x1C0 [])"
  | (restored) "r \<noteq> Ok ()" "state_kept k q n d'" "\<forall>x. x \<noteq> k \<longrightarrow> x \<noteq> q \<longrightarrow> entry d' x = entry d x"
proof -
  obtain d1 r1 where c: "create_dir k d = (d1, r1)" by (cases "create_dir k d")
  then have d1: "r1 = Ok True \<and> entry d1 = (entry d)(k \<mapsto> DirNode 0x1C0 []) \<or> r1 \<noteq> Ok True \<and> entry d1 = entry d"
    by (cases rule: create_dir_cases) auto
  have back_from: thesis if "roll_back k q cause d2 = (d', r)" "entry d2 = (entry d)(k := p)" for cause d2 p
    using roll_back_keeps [OF that(1) _ assms(4), of m n] that(2) assms(3,4) restored by simp
  show thesis
  proof (cases "r1 = Ok True")
    case True
    obtain d2 r2 where e: "ensure_marker k i d1 = (d2, r2)" by (cases "ensure_marker k i d1")
    from e have "\<exists>p. entry d2 = (entry d)(k := p) \<and> (r2 = Ok () \<longrightarrow> p = Some (marked i 0x1C0 []))"
      by (cases rule: ensure_marker_cases) (use d1 True in auto)
    then obtain p where p: "entry d2 = (entry d)(k := p)" "r2 = Ok () \<longrightarrow> p = Some (marked i 0x1C0 [])" by blast
    show thesis
    proof (cases r2)
      case (Inl x)
      then show thesis using assms(1) back_from [OF _ p(1)] by (simp add: install_fresh_def c e True)
    next
      case (Inr x)
      then show thesis using assms(1) p fresh by (simp add: install_fresh_def c e True)
    qed
  next
    case False
    then have "entry d1 = (entry d)(k := None)" using d1 assms(2) by (simp add: fun_upd_idem)
    then show thesis using assms(1) False back_from by (auto simp: install_fresh_def c split: sum.splits bool.splits)
  qed
qed

lemma discard_cases:
  assumes "discard q d = (d', r)"
  obtains p where "entry d' = (entry d)(q := p)" "r = Ok () \<Longrightarrow> p = None"
  using assms unfolding discard_def
proof (cases rule: then_do_cases)
  case (failed e)
  then show thesis using that [of "entry d q"] attempt_keeps by simp
next
  case (passed d1 y)
  note same = attempt_keeps [OF passed(1)]
  show thesis
  proof (cases "\<exists>m es. entry d1 q = Some (DirNode m es)")
    case True
    then have "remove_dir_all q d1 = (d', r)" using passed(2) by auto
    then show thesis by (rule remove_dir_all_cases) (use that same in simp)
  next
    case False
    then have "d' = d1 \<and> r \<noteq> Ok ()" using passed(2) by (auto split: option.splits fs_node.splits)
    then show thesis using that [of "entry d q"] same by simp
  qed
qed

lemma reset_cases:
  assumes "reset_state_directory show_error pid k i d = (d', r)" and "ensure_state_directory k i d = (d1, Ok ())" and "entry d1 k = Some n"
  shows "\<exists>q. (q = k \<or> entry d1 q = None) \<and> (\<forall>x. x \<noteq> k \<longrightarrow> x \<noteq> q \<longrightarrow> entry d' x = entry d1 x)
    \<and> (case r of Ok _ \<Rightarrow> entry d' k = Some (marked i 0x1C0 []) \<and> q \<noteq> k \<and> entry d' q = None
        | Err _ \<Rightarrow> state_kept k q n d' \<or> entry d' k = Some (marked i 0x1C0 []))"
proof -
  let ?rest = "\<lambda>q d. case rename_into k q ''state'' d of
         (d, Err e) \<Rightarrow> (fst (remove_dir q d), Err e)
       | (d, Ok _) \<Rightarrow> then_do (install_fresh show_error k i q d) (\<lambda>_ d. discard q d)"
  have "then_do (create_quarantine 128 pid k d1) ?rest = (d', r)"
    using assms(1,2) by (simp add: reset_state_directory_def)
  then show ?thesis
  proof (cases rule: then_do_cases)
    case (failed e)
    from failed(1) have "entry d' = entry d1" by (cases rule: create_quarantine_cases) auto
    then show ?thesis using failed(2) assms(3) by (intro exI [of _ k]) (simp add: state_kept_def)
  next
    case (passed d2 q)
    from passed(1) have q: "q \<noteq> k" "entry d1 q = None" "entry d2 = (entry d1)(q \<mapsto> DirNode 0x1C0 [])"
      by (cases rule: create_quarantine_cases; auto)+
    obtain d3 r3 where moved: "rename_into k q ''state'' d2 = (d3, r3)" by (cases "rename_into k q ''state'' d2")
    have "entry d2 k = Some n" "entry d2 q = Some (DirNode 0x1C0 [])" using q assms(3) by auto
    from moved this show ?thesis
    proof (cases rule: rename_into_cases)
      case (kept e)
      have "entry (fst (remove_dir q d3)) = entry d3 \<or> entry (fst (remove_dir q d3)) = (entry d3)(q := None)"
        by (cases "remove_dir q d3") (auto elim!: remove_dir_cases)
      then show ?thesis using passed(2) moved kept q assms(3) by (intro exI [of _ q]) (auto simp: state_kept_def)
    next
      case moved': moved
      have at: "entry d3 k = None" "entry d3 q = Some (DirNode 0x1C0 [(''state'', n)])" using moved'(2) q(1) by auto
      have "then_do (install_fresh show_error k i q d3) (\<lambda>_ d. discard q d) = (d', r)" using passed(2) moved moved'(1) by simp
      then show ?thesis
      proof (cases rule: then_do_cases)
        case (failed e)
        from failed(1) at q(1) show ?thesis
          by (cases rule: install_fresh_cases) (use failed(2) moved'(2) q in \<open>auto intro!: exI [of _ q]\<close>)
      next
        case (passed d4 y)
        from passed(1) at q(1) have d4: "entry d4 = (entry d3)(k \<mapsto> marked i 0x1C0 [])"
          by (cases rule: install_fresh_cases) auto
        obtain p where "entry d' = (entry d4)(q := p)" "r = Ok () \<longrightarrow> p = None"
          using passed(2) by (rule discard_cases) blast
        then show ?thesis using d4 moved'(2) q by (intro exI [of _ q]) (auto split: sum.split)
      qed
    qed
  qed
qed

text \<open>C28: A reset of the private state of an adapter replaces exactly its own directory. Whatever system
  calls fail and however far they came: a directory that carries the marker of another instance is
  refused and nothing changes; when the reset succeeds the directory holds the marker of the instance
  and nothing else, every other entry is as it was and the quarantine is gone; when it fails, the
  old directory is in its place or complete in the quarantine, unless the new one is already in place,
  and no other entry changes.\<close>

theorem reset_never_loses_state:
  assumes "reset_state_directory show_error pid k i d = (d', r)"
  shows "(\<forall>mode es m s. entry d k = Some (DirNode mode es) \<and> map_of es ADAPTER_STATE_MARKER = Some (FileNode m s) \<and> s \<noteq> marker_text i
        \<longrightarrow> r \<noteq> Ok () \<and> entry d' = entry d)
    \<and> (\<forall>d1 n. ensure_state_directory k i d = (d1, Ok ()) \<and> entry d1 k = Some n \<longrightarrow>
        (\<exists>q. (q = k \<or> entry d q = None) \<and> (\<forall>x. x \<noteq> k \<longrightarrow> x \<noteq> q \<longrightarrow> entry d' x = entry d x)
          \<and> (case r of Ok _ \<Rightarrow> entry d' k = Some (marked i 0x1C0 []) \<and> q \<noteq> k \<and> entry d' q = None
              | Err _ \<Rightarrow> state_kept k q n d' \<or> entry d' k = Some (marked i 0x1C0 []))))"
proof (intro conjI allI impI; elim conjE)
  fix mode es m s
  assume dir: "entry d k = Some (DirNode mode es)" "map_of es ADAPTER_STATE_MARKER = Some (FileNode m s)" "s \<noteq> marker_text i"
  obtain d1 r1 where e: "ensure_state_directory k i d = (d1, r1)" by (cases "ensure_state_directory k i d")
  have "r1 \<noteq> Ok ()" "entry d1 = entry d"
    using ensure_state_directory_effect(4) [OF e dir] ensure_state_directory_effect(3) [OF e dir(1)] dir(2) by auto
  then show "r \<noteq> Ok ()" "entry d' = entry d"
    using assms by (auto simp: reset_state_directory_def e then_do_def split: sum.splits)
next
  fix d1 n
  assume e: "ensure_state_directory k i d = (d1, Ok ())" "entry d1 k = Some n"
  from reset_cases [OF assms e] show "\<exists>q. (q = k \<or> entry d q = None) \<and> (\<forall>x. x \<noteq> k \<longrightarrow> x \<noteq> q \<longrightarrow> entry d' x = entry d x)
      \<and> (case r of Ok _ \<Rightarrow> entry d' k = Some (marked i 0x1C0 []) \<and> q \<noteq> k \<and> entry d' q = None
          | Err _ \<Rightarrow> state_kept k q n d' \<or> entry d' k = Some (marked i 0x1C0 []))"
    using ensure_state_directory_effect(1) [OF e(1)] by metis
qed

text \<open>A full disk: the second write of the reset fails half way and its marker is cut short.\<close>

definition sample_disk :: "fault option list \<Rightarrow> state_disk" where
  "sample_disk faults =
     \<lparr>dk_entries = [(''matter'', DirNode 0x1C0 [(ADAPTER_STATE_MARKER, FileNode 0x180 (marker_text ''matter'')), (''fabric'', FileNode 0x180 ''key'')]),
                    (''other'', DirNode 0x1C0 [])],
      dk_faults = faults, dk_sequence = 0\<rparr>"

definition disk_full :: fault where
  "disk_full = \<lparr>ft_error = ''No space left on device'', ft_written = 3, ft_left = Some\<rparr>"

definition sample_reset :: "unit disk_result" where
  "sample_reset = reset_state_directory (\<lambda>_. []) 7 ''matter'' ''matter'' (sample_disk (replicate 9 None @ [Some disk_full]))"

theorem reset_never_loses_state_witness:
  "\<not> is_ok (snd sample_reset) \<and> entry (fst sample_reset) ''other'' = Some (DirNode 0x1C0 [])
   \<and> (\<exists>q n. state_kept ''matter'' q n (fst sample_reset) \<or> entry (fst sample_reset) ''matter'' = Some (marked ''matter'' 0x1C0 []))"
proof -
  let ?d = "sample_disk (replicate 9 None @ [Some disk_full])"
  obtain d1 r1 where e: "ensure_state_directory ''matter'' ''matter'' ?d = (d1, r1)" by (cases "ensure_state_directory ''matter'' ''matter'' ?d")
  have "snd (ensure_state_directory ''matter'' ''matter'' ?d) = Ok ()" by code_simp
  then have r1: "r1 = Ok ()" by (simp add: e)
  then obtain n where n: "entry d1 ''matter'' = Some n" using ensure_state_directory_effect(2) [OF e] by blast
  have failed: "\<not> is_ok (snd sample_reset)" by code_simp
  then obtain x where "snd sample_reset = Err x" by (cases "snd sample_reset") (auto simp: is_ok_def)
  then have x: "sample_reset = (fst sample_reset, Err x)" by (metis prod.collapse)
  from reset_never_loses_state [OF x [unfolded sample_reset_def]] e r1 n
  obtain q where "state_kept ''matter'' q n (fst sample_reset) \<or> entry (fst sample_reset) ''matter'' = Some (marked ''matter'' 0x1C0 [])"
    unfolding sample_reset_def by auto
  moreover have "entry (fst sample_reset) ''other'' = Some (DirNode 0x1C0 [])" by code_simp
  ultimately show ?thesis using failed by blast
qed

end
