(* ===== verification/Admin_Cli.thy ===== *)
theory Admin_Cli
  imports Command_Line
begin

text \<open>
  The administration commands, \<open>apps/oikade/src/admin_cli.rs\<close>: the options that find the socket, the
  operands of the subcommands, the values on the command line, and what each subcommand asks of the
  client and prints. The client is a record of its operations, over a state that stands for what they
  act on; the text of a number is that of the standard library and a parameter.
\<close>

section \<open>The socket\<close>

record connection =
  cn_config :: "string option"
  cn_state_dir :: "string option"
  cn_socket :: "string option"

definition connection_default :: connection where
  "connection_default = \<lparr>cn_config = None, cn_state_dir = None, cn_socket = None\<rparr>"

fun parse_connection :: "connection \<Rightarrow> string list \<Rightarrow> string list \<Rightarrow> (cli_error, connection \<times> string list) result" where
  "parse_connection conn operands [] = Ok (conn, operands)"
| "parse_connection conn operands (a # rest) =
     (if a = ''--config''
      then (case rest of [] \<Rightarrow> Err (RequiresPath a) | p # rest' \<Rightarrow> parse_connection (conn\<lparr>cn_config := Some p\<rparr>) operands rest')
      else if a = ''--state-dir''
      then (case rest of [] \<Rightarrow> Err (RequiresPath a) | p # rest' \<Rightarrow> parse_connection (conn\<lparr>cn_state_dir := Some p\<rparr>) operands rest')
      else if a = ''--socket''
      then (case rest of [] \<Rightarrow> Err (RequiresPath a) | p # rest' \<Rightarrow> parse_connection (conn\<lparr>cn_socket := Some p\<rparr>) operands rest')
      else parse_connection conn (operands @ [a]) rest)"

text \<open>The module has its own \<open>default_state_directory\<close>, which needs \<open>HOME\<close> in any case.\<close>

definition client_state_directory :: "process_env \<Rightarrow> (cli_error, string) result" where
  "client_state_directory env =
     and_then (ok_or HomeNotSet (pe_variable env ''HOME'')) (\<lambda>home.
       if pe_macos env then Ok (path_join (path_join (path_join home ''Library'') ''Application Support'') ''oikade'')
       else case pe_variable env ''XDG_CONFIG_HOME'' of
         Some c \<Rightarrow> Ok (path_join c ''oikade'')
       | None \<Rightarrow> Ok (path_join (path_join home ''.config'') ''oikade''))"

definition resolve_socket :: "process_env \<Rightarrow> connection \<Rightarrow> (cli_error, string) result" where
  "resolve_socket env conn =
     and_then (load_or_default env (cn_config conn)) (\<lambda>c.
     let state_dir = override_with (cn_state_dir conn) (rc_state_dir (cf_runtime c));
         socket = override_with (cn_socket conn) (rc_admin_socket (cf_runtime c))
     in and_then (if socket = []
          then and_then (if state_dir = [] then client_state_directory env else Ok state_dir) (\<lambda>dir. Ok (path_join dir ''oikade.sock''))
          else Ok socket) (\<lambda>socket.
        if is_absolute socket then Ok socket
        else and_then (map_err CurrentDirectory (pe_current_dir env)) (\<lambda>d. Ok (path_join d socket))))"

text \<open>\<open>Client::new\<close>.\<close>

definition client_new :: "process_env \<Rightarrow> string \<Rightarrow> (cli_error, string) result" where
  "client_new env path =
     (if path = [] then Err NoSocketPath
      else if is_absolute path then Ok path
      else and_then (map_err CurrentDirectory (pe_current_dir env)) (\<lambda>d. Ok (path_join d path)))"

section \<open>Operands and options\<close>

definition DEFAULT_COMMISSIONING_SECONDS :: nat where "DEFAULT_COMMISSIONING_SECONDS = 900"

definition require_operands :: "string list \<Rightarrow> nat \<Rightarrow> string \<Rightarrow> (cli_error, unit) result" where
  "require_operands args n name = reject (length args \<noteq> n) (WrongOperands name n (length args))"

fun take_option :: "string \<Rightarrow> string option \<Rightarrow> string list \<Rightarrow> string list \<Rightarrow> (cli_error, string option \<times> string list) result" where
  "take_option name v operands [] = Ok (v, operands)"
| "take_option name v operands (a # rest) =
     (if a = name then (case rest of [] \<Rightarrow> Err (RequiresValue name) | x # rest' \<Rightarrow> take_option name (Some x) operands rest')
      else take_option name v (operands @ [a]) rest)"

definition take_flag :: "string \<Rightarrow> string list \<Rightarrow> bool \<times> string list" where
  "take_flag name args = (name \<in> set args, filter (\<lambda>a. a \<noteq> name) args)"

text \<open>A duration in seconds.\<close>

definition parse_duration :: "string \<Rightarrow> (cli_error, nat) result" where
  "parse_duration v =
     (let (number, multiplier) =
            (if v \<noteq> [] \<and> last v = CHR ''m'' then (butlast v, 60)
             else if v \<noteq> [] \<and> last v = CHR ''s'' then (butlast v, 1) else (v, 1))
      in and_then (ok_or (DurationText v) (u64_from_str_radix 10 number)) (\<lambda>amount.
           if amount * multiplier < 2 ^ 64 then Ok (amount * multiplier) else Err DurationTooLarge))"

definition take_duration :: "string list \<Rightarrow> (cli_error, nat \<times> string list) result" where
  "take_duration args =
     and_then (take_option ''--duration'' None [] args) (\<lambda>(v, operands).
       case v of
         None \<Rightarrow> Ok (DEFAULT_COMMISSIONING_SECONDS, operands)
       | Some x \<Rightarrow> and_then (parse_duration x) (\<lambda>d. Ok (d, operands)))"

section \<open>Values\<close>

text \<open>\<open>str::parse::<i64>\<close>.\<close>

definition i64_from_str :: "string \<Rightarrow> 64 word option" where
  "i64_from_str s =
     (case split_sign s of (negative, body) \<Rightarrow>
        if body = [] \<or> \<not> list_all is_ascii_digit body then None
        else let v = (if negative then - int (from_digits body) else int (from_digits body))
             in if - (2 ^ 63) \<le> v \<and> v < 2 ^ 63 then Some (word_of_int v) else None)"

definition parse_value :: "string \<Rightarrow> string \<Rightarrow> (cli_error, wire_value) result" where
  "parse_value kind text =
     (let v = \<lparr>wv_kind = kind, wv_bool = None, wv_integer = None, wv_number = None, wv_string = None\<rparr> in
      if kind = ''bool''
      then (if text = ''true'' then Ok (v\<lparr>wv_bool := Some True\<rparr>)
            else if text = ''false'' then Ok (v\<lparr>wv_bool := Some False\<rparr>) else Err BooleanText)
      else if kind = ''integer''
      then and_then (ok_or (IntegerText text) (i64_from_str text)) (\<lambda>i. Ok (v\<lparr>wv_integer := Some i\<rparr>))
      else if kind = ''number''
      then and_then (ok_or (NumberText text) (f64_from_str text)) (\<lambda>x.
             if \<not> is_finite x then Err TextNotFinite else Ok (v\<lparr>wv_number := Some x\<rparr>))
      else if kind = ''string'' then Ok (v\<lparr>wv_string := Some text\<rparr>)
      else Err (UnsupportedKindText kind))"

definition bool_text :: "bool \<Rightarrow> string" where
  "bool_text b = (if b then ''true'' else ''false'')"

definition format_value :: "(f64 \<Rightarrow> string) \<Rightarrow> wire_value \<Rightarrow> (cli_error, string) result" where
  "format_value show_f64 v =
     (let wrong = ValueWrongPayload (wv_kind v) in
      if wv_kind v = ''bool'' then ok_or wrong (map_option bool_text (wv_bool v))
      else if wv_kind v = ''integer'' then ok_or wrong (map_option (\<lambda>i. integer_text (sint i)) (wv_integer v))
      else if wv_kind v = ''number''
      then (case wv_number v of None \<Rightarrow> Err wrong | Some x \<Rightarrow> if is_finite x then Ok (show_f64 x) else Err wrong)
      else if wv_kind v = ''string'' then ok_or wrong (wv_string v)
      else Err (UnsupportedKindText (wv_kind v)))"

section \<open>The client\<close>

record 's api_client =
  ac_status :: "'s \<Rightarrow> 's \<times> (client_error, admin_status) result"
  ac_devices :: "'s \<Rightarrow> 's \<times> (client_error, admin_device list) result"
  ac_capability :: "string \<Rightarrow> string \<Rightarrow> 's \<Rightarrow> 's \<times> (client_error, admin_capability) result"
  ac_set_capability :: "string \<Rightarrow> string \<Rightarrow> wire_value \<Rightarrow> 's \<Rightarrow> 's \<times> (client_error, admin_capability) result"
  ac_plugins :: "'s \<Rightarrow> 's \<times> (client_error, admin_plugin list) result"
  ac_plugin :: "string \<Rightarrow> 's \<Rightarrow> 's \<times> (client_error, admin_plugin) result"
  ac_adapters :: "'s \<Rightarrow> 's \<times> (client_error, admin_adapter list) result"
  ac_adapter :: "string \<Rightarrow> 's \<Rightarrow> 's \<times> (client_error, admin_adapter) result"
  ac_open_window :: "string \<Rightarrow> nat \<Rightarrow> 's \<Rightarrow> 's \<times> (client_error, window_response) result"
  ac_window_info :: "string \<Rightarrow> 's \<Rightarrow> 's \<times> (client_error, info_response) result"
  ac_reset :: "string \<Rightarrow> string \<Rightarrow> 's \<Rightarrow> 's \<times> (client_error, string \<times> string) result"
  ac_remove_resource :: "string \<Rightarrow> string \<Rightarrow> string \<Rightarrow> 's \<Rightarrow> 's \<times> (client_error, resource list) result"
  ac_watch :: "(admin_event \<Rightarrow> string list \<Rightarrow> string list \<times> (string, unit) result) \<Rightarrow> 's \<Rightarrow> 's \<times> string list \<times> client_error"

text \<open>What a command leaves: the state, the lines it printed and how it ended.\<close>

type_synonym 's cli_outcome = "'s \<times> string list \<times> (cli_error, unit) result"

definition failed :: "cli_error \<Rightarrow> 's \<Rightarrow> 's cli_outcome" where
  "failed e s = (s, [], Err e)"

definition printed :: "string list \<Rightarrow> 's \<Rightarrow> 's cli_outcome" where
  "printed lines s = (s, lines, Ok ())"

definition checked :: "(cli_error, 'a) result \<Rightarrow> ('a \<Rightarrow> 's \<Rightarrow> 's cli_outcome) \<Rightarrow> 's \<Rightarrow> 's cli_outcome" where
  "checked r k s = (case r of Err e \<Rightarrow> failed e s | Ok x \<Rightarrow> k x s)"

definition answered :: "('s \<Rightarrow> 's \<times> (client_error, 'a) result) \<Rightarrow> ('a \<Rightarrow> 's \<Rightarrow> 's cli_outcome) \<Rightarrow> 's \<Rightarrow> 's cli_outcome" where
  "answered call k s = (case call s of (s', Err e) \<Rightarrow> failed (ClientFailed e) s' | (s', Ok x) \<Rightarrow> k x s')"

abbreviation tab :: char where "tab \<equiv> CHR 0x09"

fun tabbed :: "string list \<Rightarrow> string" where
  "tabbed [] = []"
| "tabbed [s] = s"
| "tabbed (s # ss) = s @ tab # tabbed ss"

section \<open>Commands\<close>

definition status_command :: "'s api_client \<Rightarrow> string \<Rightarrow> string list \<Rightarrow> 's \<Rightarrow> 's cli_outcome" where
  "status_command cl socket args =
     checked (require_operands args 0 ''status'') (\<lambda>_.
     answered (ac_status cl) (\<lambda>x s.
       (s, [''Status: '' @ (if as_healthy x then ''healthy'' else ''unhealthy''),
            ''Build: '' @ as_build x, ''API: '' @ as_api_version x, ''Uptime: '' @ digits (as_uptime_ms x) @ ''ms'',
            ''Devices: '' @ digits (as_devices x),
            ''Plugins: '' @ digits (as_plugins x) @ '' ('' @ digits (as_unhealthy_plugins x) @ '' unhealthy)'',
            ''Adapters: '' @ digits (as_adapters x) @ '' ('' @ digits (as_unhealthy_adapters x) @ '' unhealthy)'',
            ''Subscribers: '' @ digits (as_subscribers x), ''Socket: '' @ socket],
        if as_healthy x then Ok () else Err RuntimeUnhealthy)))"

definition devices_help :: "string list" where
  "devices_help =
     [''Usage:'', ''  oikade devices list [options]'', ''  oikade devices get [options] <device> <capability>'',
      ''  oikade devices set [options] <device> <capability> <value>'', ''  oikade devices watch [options]'']"

definition plugins_help :: "string list" where
  "plugins_help = [''Usage:'', ''  oikade plugins list [options]'', ''  oikade plugins inspect [options] <instance>'']"

definition adapters_help :: "string list" where
  "adapters_help =
     [''Usage:'', ''  oikade adapters list [options]'', ''  oikade adapters inspect [options] <instance>'',
      ''  oikade adapters commissioning-info [options] <instance>'',
      ''  oikade adapters open-commissioning-window [--duration 15m] [options] <instance>'',
      ''  oikade adapters reset --confirm <instance> [options] <instance>'',
      ''  oikade adapters remove-resource --confirm [options] <instance> <type> <id>'']"

definition is_help :: "string \<Rightarrow> bool" where
  "is_help a \<longleftrightarrow> a \<in> {''help'', ''-h'', ''--help''}"

definition devices_list :: "'s api_client \<Rightarrow> string list \<Rightarrow> 's \<Rightarrow> 's cli_outcome" where
  "devices_list cl args =
     checked (require_operands args 0 ''devices list'') (\<lambda>_.
     answered (ac_devices cl) (\<lambda>ds. printed
       (if ds = [] then [''No devices registered.'']
        else tabbed [''DEVICE ID'', ''NAME'', ''CAPABILITIES'']
             # map (\<lambda>d. tabbed [dv_id d, dv_name d, digits (length (dv_capabilities d))]) ds)))"

definition devices_get :: "(f64 \<Rightarrow> string) \<Rightarrow> 's api_client \<Rightarrow> string list \<Rightarrow> 's \<Rightarrow> 's cli_outcome" where
  "devices_get show_f64 cl args =
     checked (require_operands args 2 ''devices get'') (\<lambda>_.
     answered (ac_capability cl (args ! 0) (args ! 1)) (\<lambda>k.
     checked (ok_or CapabilityNotReadable (cp_value k)) (\<lambda>v.
     checked (format_value show_f64 v) (\<lambda>text.
       printed [args ! 0 @ ''/'' @ args ! 1 @ '' ('' @ cp_kind k @ '') = '' @ text]))))"

text \<open>When the value that was committed cannot be printed, the command fails after the write.\<close>

definition devices_set :: "(f64 \<Rightarrow> string) \<Rightarrow> 's api_client \<Rightarrow> string list \<Rightarrow> 's \<Rightarrow> 's cli_outcome" where
  "devices_set show_f64 cl args =
     checked (require_operands args 3 ''devices set'') (\<lambda>_.
     answered (ac_capability cl (args ! 0) (args ! 1)) (\<lambda>k.
     checked (reject (\<not> perm_write (cp_permissions k)) CapabilityNotWritable) (\<lambda>_.
     checked (parse_value (cp_kind k) (args ! 2)) (\<lambda>v.
     answered (ac_set_capability cl (args ! 0) (args ! 1) v) (\<lambda>committed.
       case cp_value committed of
         Some u \<Rightarrow> checked (format_value show_f64 u) (\<lambda>text. printed [args ! 0 @ ''/'' @ args ! 1 @ '' = '' @ text])
       | None \<Rightarrow> printed [args ! 0 @ ''/'' @ args ! 1 @ '' updated''])))))"

text \<open>\<open>print_event\<close>, as a receiver that keeps the lines; the text of an error of the formatting is \<open>show_error\<close>.\<close>

definition print_event :: "(f64 \<Rightarrow> string) \<Rightarrow> (cli_error \<Rightarrow> string) \<Rightarrow> admin_event \<Rightarrow> string list \<Rightarrow> string list \<times> (string, unit) result" where
  "print_event show_f64 show_error e lines =
     (case format_value show_f64 (ae_value e) of
        Err x \<Rightarrow> (lines, Err (show_error x))
      | Ok text \<Rightarrow>
          (lines @ [ae_occurred_at e @ '' rev='' @ digits (ae_revision e) @ '' '' @ ae_device_id e @ ''/'' @ ae_capability_id e @ '' = '' @ text],
           Ok ()))"

text \<open>A watch ends with the stream, or without an error when the user interrupts it.\<close>

definition devices_watch :: "(f64 \<Rightarrow> string) \<Rightarrow> (cli_error \<Rightarrow> string) \<Rightarrow> bool \<Rightarrow> 's api_client \<Rightarrow> string list \<Rightarrow> 's \<Rightarrow> 's cli_outcome" where
  "devices_watch show_f64 show_error interrupted cl args =
     checked (require_operands args 0 ''devices watch'') (\<lambda>_ s.
       case ac_watch cl (print_event show_f64 show_error) s of
         (s', lines, e) \<Rightarrow> (s', lines, if interrupted then Ok () else Err (ClientFailed e)))"

definition devices_command :: "(f64 \<Rightarrow> string) \<Rightarrow> (cli_error \<Rightarrow> string) \<Rightarrow> bool \<Rightarrow> 's api_client \<Rightarrow> string list \<Rightarrow> 's \<Rightarrow> 's cli_outcome" where
  "devices_command show_f64 show_error interrupted cl args =
     (case args of
        [] \<Rightarrow> printed devices_help
      | a # rest \<Rightarrow>
          if a = ''list'' then devices_list cl rest
          else if a = ''get'' then devices_get show_f64 cl rest
          else if a = ''set'' then devices_set show_f64 cl rest
          else if a = ''watch'' then devices_watch show_f64 show_error interrupted cl rest
          else if is_help a then printed devices_help
          else failed (UnknownSubcommand ''devices'' a))"

definition or_zero :: "nat option \<Rightarrow> nat" where
  "or_zero n = (case n of None \<Rightarrow> 0 | Some x \<Rightarrow> x)"

definition optional_line :: "string \<Rightarrow> string option \<Rightarrow> string list" where
  "optional_line label v = (case v of None \<Rightarrow> [] | Some s \<Rightarrow> [label @ s])"

definition detail_line :: "string \<Rightarrow> string list" where
  "detail_line s = (if s = [] then [] else [''Health: '' @ s])"

definition print_plugin :: "admin_plugin \<Rightarrow> string list" where
  "print_plugin p =
     [''Instance: '' @ pl_instance_id p, ''Plugin: '' @ pl_plugin_id p, ''Name: '' @ pl_name p, ''Version: '' @ pl_version p,
      ''API: '' @ digits (pl_api_version p), ''State: '' @ pl_state p, ''PID: '' @ digits (or_zero (pl_pid p)),
      ''Restarts: '' @ digits (pl_restarts p), ''Devices: '' @ digits (pl_devices p), ''Artifact: '' @ pl_artifact p]
     @ optional_line ''Last error: '' (pl_last_error p) @ detail_line (pl_health_detail p)"

definition plugins_command :: "'s api_client \<Rightarrow> string list \<Rightarrow> 's \<Rightarrow> 's cli_outcome" where
  "plugins_command cl args =
     (case args of
        [] \<Rightarrow> printed plugins_help
      | a # rest \<Rightarrow>
          if a = ''list''
          then checked (require_operands rest 0 ''plugins list'') (\<lambda>_.
               answered (ac_plugins cl) (\<lambda>ps. printed
                 (if ps = [] then [''No native plugins configured.'']
                  else tabbed [''INSTANCE'', ''PLUGIN'', ''VERSION'', ''STATE'', ''PID'', ''RESTARTS'', ''DEVICES'']
                       # map (\<lambda>p. tabbed [pl_instance_id p, pl_plugin_id p, pl_version p, pl_state p,
                                          digits (or_zero (pl_pid p)), digits (pl_restarts p), digits (pl_devices p)]) ps)))
          else if a = ''inspect''
          then checked (require_operands rest 1 ''plugins inspect'') (\<lambda>_.
               answered (ac_plugin cl (rest ! 0)) (\<lambda>p. printed (print_plugin p)))
          else if is_help a then printed plugins_help
          else failed (UnknownSubcommand ''plugins'' a))"

definition print_adapter :: "admin_adapter \<Rightarrow> string list" where
  "print_adapter a =
     [''Instance: '' @ aa_instance_id a, ''Adapter: '' @ aa_adapter_id a, ''Protocol: '' @ aa_protocol a,
      ''Version: '' @ aa_version a, ''State: '' @ aa_state a, ''PID: '' @ digits (or_zero (aa_pid a)),
      ''Restarts: '' @ digits (aa_restarts a), ''Generation: '' @ digits (aa_generation a),
      ''Snapshot revision: '' @ digits (aa_snapshot_revision a), ''Devices: '' @ digits (aa_devices a)]
     @ detail_line (aa_health_detail a) @ optional_line ''Last error: '' (aa_last_error a)
     @ map (\<lambda>d. ''Diagnostic: '' @ dg_severity d @ '' '' @ dg_code d @ '': '' @ dg_message d) (aa_diagnostics a)
     @ map (\<lambda>r. ''Resource: '' @ re_type r @ ''/'' @ re_id r @ (if re_name r = [] then [] else '' ('' @ re_name r @ '')'')
             @ concat (map (\<lambda>(k, v). '' '' @ k @ ''='' @ v) (re_attributes r))) (aa_resources a)"

definition payload_lines :: "string \<Rightarrow> string \<Rightarrow> string list" where
  "payload_lines manual qr = [''Manual code: '' @ manual, ''QR payload: '' @ qr, ''Keep these onboarding payloads private.'']"

definition window_state :: "string \<Rightarrow> string \<Rightarrow> nat option \<Rightarrow> string" where
  "window_state name state remaining =
     ''Commissioning window on adapter '' @ name @ '' is '' @ state
     @ (case remaining of None \<Rightarrow> ''.'' | Some n \<Rightarrow> '' ('' @ digits n @ ''s remaining).'')"

definition adapters_open_window :: "'s api_client \<Rightarrow> string list \<Rightarrow> 's \<Rightarrow> 's cli_outcome" where
  "adapters_open_window cl args =
     checked (take_duration args) (\<lambda>(duration, operands).
     checked (require_operands operands 1 ''adapters open-commissioning-window'') (\<lambda>_.
     checked (reject (duration \<ge> 2 ^ 16) DurationTooLarge) (\<lambda>_.
     checked (reject (\<not> (180 \<le> duration \<and> duration \<le> 900)) DurationNotInRange) (\<lambda>_.
     answered (ac_open_window cl (operands ! 0) duration) (\<lambda>w. printed
       (window_state (operands ! 0) ''available'' (wr_remaining_seconds w) # payload_lines (wr_manual_code w) (wr_qr_code w)))))))"

definition adapters_window_info :: "'s api_client \<Rightarrow> string list \<Rightarrow> 's \<Rightarrow> 's cli_outcome" where
  "adapters_window_info cl args =
     checked (require_operands args 1 ''adapters commissioning-info'') (\<lambda>_.
     answered (ac_window_info cl (args ! 0)) (\<lambda>i. printed
       (if ir_open i
        then window_state (args ! 0) ''open'' (ir_remaining_seconds i)
             # (case (ir_manual_code i, ir_qr_code i) of (Some m, Some q) \<Rightarrow> payload_lines m q | _ \<Rightarrow> [])
        else [window_state (args ! 0) ''closed'' None])))"

definition adapters_reset :: "'s api_client \<Rightarrow> string list \<Rightarrow> 's \<Rightarrow> 's cli_outcome" where
  "adapters_reset cl args =
     checked (take_option ''--confirm'' None [] args) (\<lambda>(confirmation, operands).
     checked (require_operands operands 1 ''adapters reset'') (\<lambda>_.
     checked (ok_or ConfirmRequired confirmation) (\<lambda>confirmation.
     checked (reject (confirmation \<noteq> operands ! 0) (ConfirmDiffers (operands ! 0))) (\<lambda>_.
     answered (ac_reset cl (operands ! 0) confirmation) (\<lambda>(i, state). printed
       [''Reset protocol state for adapter '' @ i @ ''; state: '' @ state @ ''.'',
        ''Canonical devices, plugin state, and the Oikade database were not changed.''])))))"

definition adapters_remove :: "'s api_client \<Rightarrow> string list \<Rightarrow> 's \<Rightarrow> 's cli_outcome" where
  "adapters_remove cl args =
     (case take_flag ''--confirm'' args of (confirmed, operands) \<Rightarrow>
        checked (require_operands operands 3 ''adapters remove-resource'') (\<lambda>_.
        checked (reject (\<not> confirmed) ConfirmRequired) (\<lambda>_.
        answered (ac_remove_resource cl (operands ! 0) (operands ! 1) (operands ! 2)) (\<lambda>rs. printed
          [''Removed '' @ operands ! 1 @ ''/'' @ operands ! 2 @ '' from adapter '' @ operands ! 0
           @ ''. Remaining resources: '' @ digits (length rs)]))))"

definition adapters_command :: "'s api_client \<Rightarrow> string list \<Rightarrow> 's \<Rightarrow> 's cli_outcome" where
  "adapters_command cl args =
     (case args of
        [] \<Rightarrow> printed adapters_help
      | a # rest \<Rightarrow>
          if a = ''list''
          then checked (require_operands rest 0 ''adapters list'') (\<lambda>_.
               answered (ac_adapters cl) (\<lambda>xs. printed
                 (if xs = [] then [''No protocol adapters configured.'']
                  else tabbed [''INSTANCE'', ''ADAPTER'', ''PROTOCOL'', ''VERSION'', ''STATE'', ''PID'', ''RESTARTS'', ''DEVICES'']
                       # map (\<lambda>x. tabbed [aa_instance_id x, aa_adapter_id x, aa_protocol x, aa_version x, aa_state x,
                                          digits (or_zero (aa_pid x)), digits (aa_restarts x), digits (aa_devices x)]) xs)))
          else if a = ''inspect''
          then checked (require_operands rest 1 ''adapters inspect'') (\<lambda>_.
               answered (ac_adapter cl (rest ! 0)) (\<lambda>x s.
                 (s, print_adapter x, if aa_healthy x then Ok () else Err AdapterUnhealthy)))
          else if a = ''open-commissioning-window'' then adapters_open_window cl rest
          else if a = ''commissioning-info'' then adapters_window_info cl rest
          else if a = ''reset'' then adapters_reset cl rest
          else if a = ''remove-resource'' then adapters_remove cl rest
          else if is_help a then printed adapters_help
          else failed (UnknownSubcommand ''adapters'' a))"

text \<open>\<open>run\<close>; \<open>connect\<close> gives the operations of the client of a socket.\<close>

definition admin_run ::
  "(f64 \<Rightarrow> string) \<Rightarrow> (cli_error \<Rightarrow> string) \<Rightarrow> bool \<Rightarrow> process_env \<Rightarrow> (string \<Rightarrow> 's api_client) \<Rightarrow> string \<Rightarrow> string list \<Rightarrow> 's \<Rightarrow> 's cli_outcome" where
  "admin_run show_f64 show_error interrupted env connect name args =
     checked (parse_connection connection_default [] args) (\<lambda>(conn, operands).
     checked (resolve_socket env conn) (\<lambda>socket.
     checked (client_new env socket) (\<lambda>path.
       if name = ''status'' then status_command (connect path) socket operands
       else if name = ''devices'' then devices_command show_f64 show_error interrupted (connect path) operands
       else if name = ''plugins'' then plugins_command (connect path) operands
       else if name = ''adapters'' then adapters_command (connect path) operands
       else failed (UnknownCommand name))))"

section \<open>The socket of the daemon\<close>

definition connection_of :: "run_options \<Rightarrow> connection" where
  "connection_of opts = \<lparr>cn_config = ro_config opts, cn_state_dir = ro_state_dir opts, cn_socket = ro_socket opts\<rparr>"

lemma log_level_stays: "run_arguments opts args = Ok (Some opts') \<Longrightarrow> ro_log_level opts \<noteq> None \<Longrightarrow> ro_log_level opts' \<noteq> None"
  by (induction opts args rule: run_arguments.induct) (auto split: if_splits list.splits)

text \<open>The options of a run that do not concern its log are options of the administration commands.\<close>

lemma run_arguments_connection:
  assumes "run_arguments opts args = Ok (Some opts')" and "ro_log_level opts' = None"
  shows "parse_connection (connection_of opts) operands args = Ok (connection_of opts', operands)"
  using assms
proof (induction opts args rule: run_arguments.induct)
  case (2 opts a rest)
  have "a \<noteq> ''--log-level''"
  proof
    assume "a = ''--log-level''"
    then obtain p rest' where "run_arguments (opts\<lparr>ro_log_level := Some p\<rparr>) rest' = Ok (Some opts')"
      using "2.prems"(1) by (auto split: list.splits)
    from log_level_stays [OF this] show False using "2.prems"(2) by simp
  qed
  then consider "a = ''--config''" | "a = ''--state-dir''" | "a = ''--socket''"
    using "2.prems"(1) by (auto split: if_splits)
  then show ?case using "2.IH"(1-3) "2.prems" by cases (auto simp: connection_of_def split: list.splits)
qed simp

lemma state_directory_agrees: "pe_variable env ''HOME'' \<noteq> None \<Longrightarrow> client_state_directory env = default_state_directory env"
  by (auto simp: client_state_directory_def default_state_directory_def split: option.split)

lemma validate_keeps_socket: "config_validate c = Ok c' \<Longrightarrow> rc_admin_socket (cf_runtime c') = rc_admin_socket (cf_runtime c)"
  by (auto simp: config_validate_def and_then_eq_Ok)

lemma resolve_run_socket:
  assumes "run_config env opts = Ok c" and "server_new (pe_current_dir env) (rc_admin_socket (cf_runtime c)) = Ok socket"
    and "pe_variable env ''HOME'' \<noteq> None"
  shows "resolve_socket env (connection_of opts) = Ok socket"
proof -
  obtain c0 dir where c0: "load_or_default env (ro_config opts) = Ok c0"
    and dir: "(if override_with (ro_state_dir opts) (rc_state_dir (cf_runtime c0)) = [] then default_state_directory env
               else Ok (override_with (ro_state_dir opts) (rc_state_dir (cf_runtime c0)))) = Ok dir"
    and path: "rc_admin_socket (cf_runtime c) = (if override_with (ro_socket opts) (rc_admin_socket (cf_runtime c0)) = [] then path_join dir ''oikade.sock''
               else override_with (ro_socket opts) (rc_admin_socket (cf_runtime c0)))"
    using assms(1) by (auto simp: run_config_def and_then_eq_Ok map_err_eq_Ok Let_def dest!: validate_keeps_socket)
  have "socket = (if is_absolute (rc_admin_socket (cf_runtime c)) then rc_admin_socket (cf_runtime c)
      else path_join (case pe_current_dir env of Ok d \<Rightarrow> d | Err _ \<Rightarrow> []) (rc_admin_socket (cf_runtime c)))"
    and "is_absolute (rc_admin_socket (cf_runtime c)) \<or> (\<exists>d. pe_current_dir env = Ok d)"
    using assms(2) by (auto simp: server_new_def and_then_eq_Ok map_err_eq_Ok split: if_splits)
  then show ?thesis
    using c0 dir path state_directory_agrees [OF assms(3)]
    by (auto simp: resolve_socket_def connection_of_def split: if_splits)
qed


definition sample_env :: process_env where
  "sample_env =
     \<lparr>pe_variable = (\<lambda>v. if v = ''HOME'' then Some ''/root'' else None), pe_macos = False, pe_current_dir = Ok ''/srv'',
      pe_current_exe = Err [], pe_is_file = (\<lambda>_. False),
      pe_files = \<lparr>fs_canonicalize = Ok, fs_is_dir = (\<lambda>_. False), fs_metadata = (\<lambda>_. Err []), fs_read = (\<lambda>_. Err [])\<rparr>,
      pe_is_executable = (\<lambda>_. Err []), pe_ensure_dir = (\<lambda>d _. Ok d), pe_open_storage = (\<lambda>_. Ok ()),
      pe_config_lib = \<lparr>cl_scan = (\<lambda>_. Err []), cl_core_tag = (\<lambda>_. False), cl_decode = (\<lambda>_. Err [])\<rparr>,
      pe_decode_manifest = (\<lambda>_. Err [])\<rparr>"

definition sample_args :: "string list" where
  "sample_args = [''--state-dir'', ''state'']"

lemma sample_run: "run_command sample_env ''0.1.0'' sample_args = Ok (Some [PlanCore, PlanAdmin ''/srv/state/oikade.sock''])"
  by code_simp


section \<open>Setting a capability\<close>

text \<open>The client of a server that answers: a failure of a handler arrives as the error it is.\<close>

definition api_error :: "api_failure \<Rightarrow> client_error" where
  "api_error f = ApiError (af_status f) (er_code (af_payload f)) (er_message (af_payload f))"

definition connected ::
  "(runtime_error \<Rightarrow> string) \<Rightarrow> (value_error \<Rightarrow> string) \<Rightarrow> system_time \<Rightarrow> 'w server api_client \<Rightarrow> 'w server api_client" where
  "connected render render_value now cl =
     cl\<lparr>ac_capability := (\<lambda>d c sv. (sv, map_err api_error (find_capability (sv_runtime sv) d c))),
        ac_set_capability := (\<lambda>d c v sv. case put_capability render render_value now d c (Some v) sv of
          (sv', r) \<Rightarrow> (sv', map_err api_error r))\<rparr>"

lemma format_core_value: "value_validate v = Ok () \<Longrightarrow> is_ok (format_value show_f64 (value_from_core v))"
  by (cases v) (auto simp: format_value_def value_from_core_def empty_wire_def reject_def split: if_splits)

lemma parse_value_kind: "parse_value kind text = Ok v \<Longrightarrow> wv_kind v = kind"
  by (auto simp: parse_value_def Let_def and_then_eq_Ok split: if_splits)

lemma wire_kind: "wv_kind (value_from_core v) = kind_str (kind_of v)"
  by (cases v) (simp_all add: value_from_core_def empty_wire_def)

text \<open>The steps of a successful \<open>devices set\<close>.\<close>

lemma devices_set_ok:
  assumes "devices_set show_f64 (connected render render_value now cl) [d, c, text] sv = (sv', out, Ok u)"
  obtains k v committed where "find_capability (sv_runtime sv) d c = Ok k" and "perm_write (cp_permissions k)"
    and "parse_value (cp_kind k) text = Ok v" and "put_capability render render_value now d c (Some v) sv = (sv', Ok committed)"
    and "case cp_value committed of
           Some x \<Rightarrow> \<exists>t. format_value show_f64 x = Ok t \<and> out = [d @ ''/'' @ c @ '' = '' @ t]
         | None \<Rightarrow> out = [d @ ''/'' @ c @ '' updated'']"
  using assms
  by (auto simp: devices_set_def connected_def checked_def answered_def failed_def printed_def require_operands_def reject_def map_err_eq_Ok
      split: sum.splits prod.splits option.splits if_splits)

lemma devices_set_error:
  assumes "devices_set show_f64 (connected render render_value now cl) [d, c, text] sv = (sv', out, Err e)"
  obtains "sv' = sv" "out = []"
  | v f where "put_capability render render_value now d c (Some v) sv = (sv', Err f)" "out = []"
  | v committed x where "put_capability render render_value now d c (Some v) sv = (sv', Ok committed)" "out = []"
      "cp_value committed = Some x" "\<not> is_ok (format_value show_f64 x)"
  using assms
  by (auto simp: devices_set_def connected_def checked_def answered_def failed_def printed_def is_ok_def map_err_eq_Err
      split: sum.splits prod.splits option.splits if_splits)


definition offline :: "'s api_client" where
  "offline =
     \<lparr>ac_status = (\<lambda>s. (s, Err RequestTimedOut)), ac_devices = (\<lambda>s. (s, Err RequestTimedOut)),
      ac_capability = (\<lambda>_ _ s. (s, Err RequestTimedOut)), ac_set_capability = (\<lambda>_ _ _ s. (s, Err RequestTimedOut)),
      ac_plugins = (\<lambda>s. (s, Err RequestTimedOut)), ac_plugin = (\<lambda>_ s. (s, Err RequestTimedOut)),
      ac_adapters = (\<lambda>s. (s, Err RequestTimedOut)), ac_adapter = (\<lambda>_ s. (s, Err RequestTimedOut)),
      ac_open_window = (\<lambda>_ _ s. (s, Err RequestTimedOut)), ac_window_info = (\<lambda>_ s. (s, Err RequestTimedOut)),
      ac_reset = (\<lambda>_ _ s. (s, Err RequestTimedOut)), ac_remove_resource = (\<lambda>_ _ _ s. (s, Err RequestTimedOut)),
      ac_watch = (\<lambda>_ s. (s, [], RequestTimedOut))\<rparr>"

definition sample_set :: "unit server cli_outcome" where
  "sample_set = devices_set (\<lambda>_. []) (connected (\<lambda>_. []) (\<lambda>_. []) 0 offline) [''virtual.switch'', ''on'', ''true''] sample_server"


section \<open>The text of values\<close>

lemma digits_not_empty: "digits n \<noteq> []"
  by (subst digits.simps) simp

lemma i64_text: "i64_from_str (integer_text (sint (i :: 64 word))) = Some i"
proof -
  define n where "n = nat \<bar>sint i\<bar>"
  have range: "- (2 ^ 63) \<le> sint i" "sint i < 2 ^ 63"
    using sint_greater_eq [of i] sint_less [of i] by simp_all
  have read: "digits n \<noteq> []" "list_all is_ascii_digit (digits n)" "int (from_digits (digits n)) = \<bar>sint i\<bar>"
    by (simp_all add: digits_not_empty digits_all from_digits_digits n_def)
  have sign: "split_sign (integer_text (sint i)) = (sint i < 0, digits n)"
    using digits_no_sign(1) by (auto simp: integer_text_def split_sign_def n_def)
  then show ?thesis using read range by (simp add: i64_from_str_def Let_def del: of_int_minus)
qed

text \<open>The text that the command line prints for a value is one that it reads back as the same value, for
  every value of the core: all integers of 64 bits, booleans, strings as they are, and the finite
  numbers whose text, that of the standard library, parses to them.\<close>

theorem value_text_roundtrip:
  assumes "value_validate v = Ok ()" and "\<forall>x. v = VNumber x \<longrightarrow> f64_from_str (show_f64 x) = Some x"
  shows "\<exists>t. format_value show_f64 (value_from_core v) = Ok t \<and> parse_value (kind_str (kind_of v)) t = Ok (value_from_core v)"
  using assms
  by (cases v) (auto simp: format_value_def parse_value_def value_from_core_def empty_wire_def bool_text_def i64_text reject_def
      split: if_splits)

theorem value_text_roundtrip_witness:
  "\<exists>t. format_value (\<lambda>_. ''0'') (value_from_core (VInteger (- 5))) = Ok t \<and> parse_value ''integer'' t = Ok (value_from_core (VInteger (- 5)))"
  using value_text_roundtrip [of "VInteger (- 5)" "\<lambda>_. ''0''"] by simp

section \<open>Where the command line disagrees with itself\<close>

text \<open>Without \<open>HOME\<close> but with \<open>XDG_CONFIG_HOME\<close> the daemon runs, but no administration command finds it.\<close>

definition homeless_env :: process_env where
  "homeless_env = sample_env\<lparr>pe_variable := (\<lambda>v. if v = ''XDG_CONFIG_HOME'' then Some ''/etc'' else None)\<rparr>"

lemma homeless_daemon_not_found:
  "run_command homeless_env ''0.1.0'' [] = Ok (Some [PlanCore, PlanAdmin ''/etc/oikade/oikade.sock''])"
  "resolve_socket homeless_env connection_default = Err HomeNotSet"
  by code_simp+

text \<open>A switch whose ID is valid but long passes the validation of the configuration and fails the run.\<close>

definition long_switch_config :: config where
  "long_switch_config = default_config\<lparr>cf_switches := [\<lparr>vs_id = replicate 113 (CHR ''a''), vs_name = ''Desk'', vs_initial_on = False\<rparr>]\<rparr>"

lemma validated_switch_refused:
  "is_ok (config_validate long_switch_config)"
  "\<not> is_ok (run_plan sample_env ''0.1.0'' long_switch_config)"
  by code_simp+

end
