(* ===== verification/Spec2Isabelle.thy ===== *)
theory Spec2Isabelle
  imports Device_State Plugin_Manifest Matter_Home Matter_Commissioning Matter_Clusters Matter_Process Adapter_State Admin_Cli
begin

text \<open>
  Oikade is a home-automation runtime written in Rust. A daemon keeps a registry of devices with
  typed capabilities; plugins (child processes) provide devices, adapters (child processes too)
  show the devices to another ecosystem, and the Matter adapter is the one in the repository.

  \<^bold>\<open>The parts and how they interact.\<close> The core runtime (\<open>crates/oikade-core\<close>) owns devices, their
  values and the subscriptions to changes. It saves values through a store (\<open>crates/oikade-storage\<close>)
  before it publishes them. A plugin instance (\<open>crates/oikade-plugin-host\<close>) speaks a line protocol
  (\<open>crates/oikade-plugin-api\<close>) with a supervised process (\<open>crates/oikade-supervisor\<close>), registers the
  devices it reports and forwards commands to it. An adapter instance
  (\<open>crates/oikade-adapter-host\<close>, \<open>crates/oikade-adapter-api\<close>) sends snapshots and events to its process
  and takes commands from it; \<open>apps/oikade-matter-adapter\<close> is that process. The configuration
  (\<open>crates/oikade-config\<close>) says which of them exist and the daemon (\<open>crates/oikade-runtime\<close>) starts
  and stops them. The administration API (\<open>crates/oikade-admin\<close>) is an HTTP server on a Unix socket over
  the runtime and the instances, and the command line (\<open>apps/oikade\<close>) starts the daemon or is a client
  of that API.

  \<^bold>\<open>The theories.\<close>
  \<^item> \<open>Prelude\<close>, \<open>Rust_Text\<close>, \<open>Float64\<close>, \<open>Float_Arith\<close>: results, ordered maps, byte strings, \<open>str\<close>
    functions, binary64 numbers as bit patterns with their comparisons, and their arithmetic with the
    bounds of its rounding. A \<open>BTreeMap\<close> is an association list with
    ascending keys, so that iteration is list traversal. Rust strings are byte strings, so that
    \<open>len()\<close> is \<open>length\<close>.
  \<^item> \<open>Core_Model\<close> (\<open>model.rs\<close>), \<open>Core_Runtime\<close> (\<open>runtime.rs\<close>, \<open>runtime/subscription.rs\<close>): the data
    model and every operation of the runtime. Registered devices live on a heap of addresses, because
    the code compares \<open>Arc\<close> pointers to detect a registration replaced during a command.
    \<open>Subscription_Hub\<close> has the laws of the bounded channels, \<open>Runtime_Safety\<close> the invariant and the
    error paths, \<open>Runtime_Runs\<close> arbitrary runs, restarts of subscribers and the effect of writes.
    A handler is a function on the world, so that a command may itself change files or other state.
  \<^item> \<open>Storage\<close> (\<open>store.rs\<close>), \<open>Wire_Values\<close>, \<open>Device_State\<close> (\<open>device_state.rs\<close>): key encoding, buckets
    over a transactional engine, the four value converters, saving and loading. The engine is redb, a
    parameter with the laws of \<open>engine_ok\<close>; a bucket and a store are interpreted as the interfaces
    that their clients call (locales \<open>kv_bucket\<close>, \<open>state_store\<close>), and the durability of a write follows
    through them.
  \<^item> \<open>Frame_Codec\<close> (both \<open>codec.rs\<close>), \<open>Rpc_Session\<close>, \<open>Plugin_Session\<close>, \<open>Adapter_Session\<close> (both
    \<open>session.rs\<close>): framing over any division of the stream into reads, the request table shared by
    both hosts, and each session as a machine whose steps are the tasks' turns. Bytes to JSON is
    serde_json, a parameter. Channels are lists with the capacity of the code.
  \<^item> \<open>Supervisor\<close> (\<open>lib.rs\<close>, \<open>process.rs\<close>): restart policy, the loop over the attempts that the
    operating system answers, environment and log lines.
  \<^item> \<open>Device_Group\<close>, \<open>Plugin_Host\<close>, \<open>Plugin_Manifest\<close>: acquisition with rollback as a locale,
    interpreted for the registration of devices; conversion, activation, reconciliation, events,
    commands and health of a plugin instance; manifests and artifact checks.
  \<^item> \<open>Adapter_Projection\<close>, \<open>Adapter_Instance\<close>, \<open>Adapter_Mirror\<close>: the snapshot given to an adapter, the
    validation of its answers, runs and administration of an instance, and the monitor suspended at
    each of its awaits, interleaved with every operation of the other users of the runtime.
  \<^item> \<open>Matter_Projection\<close>: the endpoints that the Matter adapter builds from a snapshot and the numbers
    it remembers for them.
  \<^item> \<open>Matter_Bridge\<close>, \<open>Matter_Clusters\<close> (\<open>bridge\<close>): what the adapter keeps of each projected device, its
    endpoints and clusters, events, commands and the conversions of the attributes in binary64.
    \<open>Matter_Rpc\<close> (\<open>rpc.rs\<close>): the loop that serves the host, with its pending commands and their IDs.
    \<open>Matter_Home\<close> composes the runtime, the monitor of the host and the bridge.
    \<open>Matter_Commissioning\<close> (\<open>commissioning.rs\<close>, \<open>runtime.rs\<close>): the window that the adapter tracks and
    the control task. \<open>Matter_Process\<close> (\<open>options.rs\<close>, \<open>logging.rs\<close>, \<open>instance/output.rs\<close>): the options
    and the log of the process. \<open>Adapter_State\<close> (\<open>state.rs\<close>): the private directory and its reset, over
    a file system in which every call may fail part-way.
  \<^item> \<open>Admin_Api\<close> (\<open>wire.rs\<close>, \<open>server.rs\<close>), \<open>Admin_Client\<close> (\<open>client.rs\<close>), \<open>Admin_Socket\<close>
    (\<open>server/socket.rs\<close>, start and stop): the handlers and routes, the event stream, the requests and
    the watcher of the client, and the socket. \<open>Command_Line\<close> (\<open>main.rs\<close>) and \<open>Admin_Cli\<close>
    (\<open>admin_cli.rs\<close>): the arguments, the configuration and the components of a run, and every
    administration command with what it prints.
  \<^item> \<open>Yaml\<close>, \<open>Config\<close>, \<open>Daemon\<close>: the YAML subset, validation of the configuration, the lifecycle.

  \<^bold>\<open>What the lemmas show.\<close> For the runtime: the registry invariant over all runs, the exact effect
  of a write on values, revision and queues, order of delivery, isolation of slow subscribers, and that
  an error leaves the state. For persistence: round trips of keys, values and states, isolation of
  namespaces, and that a write which returned is read back after a restart. For the protocols: round
  trips of frame streams under every buffering, bounded tables, correlation of responses, settlement of
  every call by a failure. For processes: the bound on restarts in a window, the transitions of the
  status. For hosts: an instance touches its own devices only, a reconciliation is all or nothing,
  and an adapter at rest has been told the current values. For Matter: endpoint numbers are permanent
  and the references answered pass the checks of the host.
  The bridge shows the current value of every projected capability when the monitor is at rest, every
  attribute can be read and lies in its announced range, a level that was set is read back exactly, the
  table of pending commands is bounded, answered once and matched, and the answers about commissioning
  pass the validation of the host. The configuration accepted by the host is accepted by the adapter
  process, and a reset of its directory never loses the old one before the new one is in place. For
  administration: the effect of setting a capability, from the text on the command line to the runtime
  and back to what is printed; every call of the client reaches its handler; a watcher receives the
  events that were delivered, however the stream is cut; the socket of another process is never
  taken; and a command finds the socket of the daemon that runs with its options.

  \<^bold>\<open>Fuel and termination.\<close> The YAML parser (\<open>Yaml\<close>) recurses on fuel, one more than the
  number of events, and is proved never to run out of it. The search for a free request ID of the Matter
  adapter (\<open>Matter_Rpc\<close>) is a partial function, proved to end because fewer IDs are in use than exist;
  the search for a free quarantine name has the 128 attempts of the code. Loops that wait for the outside
  world take the sequence of its answers as an argument (reads of a stream, attempts of a process,
  turns of a task) and recurse on it; the others terminate by a measure.

  \<^bold>\<open>Parameters.\<close> Code outside the repository is an argument: the redb engine, serde_json, the scanner
  of saphyr, axum and reqwest, percent-encoding, rs-matter, the file system, formatting of times, the clock, and what child processes do. What a
  theorem needs of them is an assumption of its statement or of a locale, with an instance for it.

  \<^bold>\<open>Not modelled.\<close> The set-up of the rs-matter stack with its sockets, its persistence and mDNS
  (\<open>runtime.rs\<close>, \<open>mdns.rs\<close>) and the threads that move frames between descriptor and channels
  (\<open>oikade-matter-adapter/src/wire.rs\<close>): they are calls of a library and of the operating system. The
  spawning and signalling of processes (\<open>process.rs\<close>) is the sequence of its outcomes. The headers of
  HTTP responses, the set-up of the log and the wait for the signal in \<open>main.rs\<close> have no state of
  their own. Interleavings are those of the turns of the tasks; races of other processes on the socket
  path are modelled during the attempt to connect and between start and stop, not between two
  consecutive system calls.
\<close>

end
